(* ===== verification/Prelude.thy ===== *)
theory Prelude
  imports Main "HOL-Library.Word" "HOL-Library.Monad_Syntax"
begin

text \<open>
  Shared vocabulary of the development: octets and fixed-width integers, reads of a byte
  vector that are checked against its bounds, big-endian integers, and the collections of
  facts the component proofs use.

  A C++ function that indexes a \<open>std::vector<std::uint8_t>\<close> has undefined behaviour when
  the index is out of range. Every decoder of this development therefore returns a value of
  type \<open>'a checked\<close>, in which \<open>None\<close> stands for an out-of-range access and
  \<open>Some r\<close> for a run that returned \<open>r\<close>; a function returning
  \<open>std::optional<T>\<close> is modelled with result type \<open>'t option checked\<close>, where
  \<open>Some None\<close> is \<open>std::nullopt\<close>. "Never \<open>None\<close>" is then memory safety.
\<close>

unbundle bit_operations_syntax

section \<open>Types\<close>

type_synonym octet = "8 word"
type_synonym octets = "octet list"
type_synonym u16 = "16 word"
type_synonym u32 = "32 word"
type_synonym u64 = "64 word"
type_synonym 'a checked = "'a option"
type_synonym 'a decoder = "octets \<Rightarrow> nat \<Rightarrow> ('a \<times> nat) option checked"

named_theorems wire_defs "definitions of the encoders, unfolded in round-trip proofs"
named_theorems checked_simps "evaluation of checked reads"

section \<open>Checked reads\<close>

definition octet_at :: "octets \<Rightarrow> nat \<Rightarrow> octet checked" where
  "octet_at bs i = (if i < length bs then Some (bs ! i) else None)"

definition sub_octets :: "octets \<Rightarrow> nat \<Rightarrow> nat \<Rightarrow> octets checked" where
  "sub_octets bs a b = (if a \<le> b \<and> b \<le> length bs then Some (take (b - a) (drop a bs)) else None)"

lemma octet_at_Some [checked_simps]: "i < length bs \<Longrightarrow> octet_at bs i = Some (bs ! i)"
  by (simp add: octet_at_def)

lemma sub_octets_Some [checked_simps]:
  "a \<le> b \<Longrightarrow> b \<le> length bs \<Longrightarrow> sub_octets bs a b = Some (take (b - a) (drop a bs))"
  by (simp add: sub_octets_def)

lemma octet_at_Cons_0 [simp]: "octet_at (x # xs) 0 = Some x"
  by (simp add: octet_at_def)

lemma octet_at_Cons_Suc [simp]: "octet_at (x # xs) (Suc n) = octet_at xs n"
  by (simp add: octet_at_def)

lemma octet_at_Cons_numeral [simp]:
  "octet_at (x # xs) (numeral k) = octet_at xs (pred_numeral k)"
  by (simp add: octet_at_def numeral_eq_Suc)

lemma octet_at_append_right [simp]:
  "length pre \<le> n \<Longrightarrow> octet_at (pre @ bs) n = octet_at bs (n - length pre)"
  by (auto simp: octet_at_def nth_append)

lemma octet_at_append_left [simp]:
  "n < length pre \<Longrightarrow> octet_at (pre @ bs) n = octet_at pre n"
  by (auto simp: octet_at_def nth_append)

lemma sub_octets_append:
  "sub_octets (pre @ bs) (length pre + a) (length pre + b) = sub_octets bs a b"
  by (auto simp: sub_octets_def)

lemma sub_octets_exact [simp]:
  "sub_octets (pre @ v @ post) (length pre) (length pre + length v) = Some v"
  by (simp add: sub_octets_def)

lemma sub_octets_length:
  "sub_octets bs a b = Some v \<Longrightarrow> length v = b - a"
  by (auto simp: sub_octets_def split: if_splits)

section \<open>Functions that return an optional\<close>

text \<open>A function returning \<open>std::optional\<close> returns \<open>nullopt\<close> or a value; its callers test
  \<open>has_value()\<close> and return \<open>nullopt\<close> themselves, which \<open>and_then\<close> sequences.\<close>

abbreviation nullopt :: "'a option checked" where
  "nullopt \<equiv> Some None"

abbreviation ret :: "'a \<Rightarrow> 'a option checked" where
  "ret x \<equiv> Some (Some x)"

fun and_then :: "'a option checked \<Rightarrow> ('a \<Rightarrow> 'b option checked) \<Rightarrow> 'b option checked" where
  "and_then None f = None"
| "and_then (Some None) f = Some None"
| "and_then (Some (Some x)) f = f x"

lemma and_then_cong [fundef_cong]:
  "m = m' \<Longrightarrow> (\<And>x. m' = Some (Some x) \<Longrightarrow> f x = g x) \<Longrightarrow> and_then m f = and_then m' g"
  by (cases "(m', f)" rule: and_then.cases) auto

lemma and_then_eq_ret:
  "and_then m f = ret y \<longleftrightarrow> (\<exists>x. m = ret x \<and> f x = ret y)"
  by (cases "(m, f)" rule: and_then.cases) auto

lemma and_then_safe:
  "m \<noteq> None \<Longrightarrow> (\<And>x. m = ret x \<Longrightarrow> f x \<noteq> None) \<Longrightarrow> and_then m f \<noteq> None"
  by (cases "(m, f)" rule: and_then.cases) auto

lemma and_then_None: "and_then m f = None \<longleftrightarrow> m = None \<or> (\<exists>x. m = ret x \<and> f x = None)"
  by (cases "(m, f)" rule: and_then.cases) auto

lemma and_then_assoc:
  "and_then (and_then m f) g = and_then m (\<lambda>x. and_then (f x) g)"
  by (cases "(m, f)" rule: and_then.cases) auto

lemma map_and_then:
  "map_option (map_option f) m = and_then m (\<lambda>x. ret (f x))"
  by (cases "(m, \<lambda>x. ret (f x))" rule: and_then.cases) auto

lemma case_and_then:
  "(case m of None \<Rightarrow> None | Some None \<Rightarrow> nullopt | Some (Some x) \<Rightarrow> f x) = and_then m f"
  by (cases "(m, f)" rule: and_then.cases) auto

lemma and_then_if:
  "and_then (if b then m else n) f = (if b then and_then m f else and_then n f)"
  by simp

text \<open>\<open>sound m P\<close>: the run \<open>m\<close> makes no out-of-range access, and a value it returns
  satisfies \<open>P\<close>. The rules below are those of a weakest precondition.\<close>

fun sound :: "'a option checked \<Rightarrow> ('a \<Rightarrow> bool) \<Rightarrow> bool" where
  "sound None P = False"
| "sound (Some None) P = True"
| "sound (Some (Some x)) P = P x"

lemma sound_and_then:
  "sound m Q \<Longrightarrow> (\<And>x. m = ret x \<Longrightarrow> Q x \<Longrightarrow> sound (f x) P) \<Longrightarrow> sound (and_then m f) P"
  by (cases "(m, f)" rule: and_then.cases) auto

lemma sound_octet_at:
  "off < length bs \<Longrightarrow> sound (f (bs ! off)) P \<Longrightarrow> sound (octet_at bs off \<bind> f) P"
  by (simp add: octet_at_def)

lemma sound_sub_octets:
  "a \<le> b \<Longrightarrow> b \<le> length bs \<Longrightarrow> sound (f (take (b - a) (drop a bs))) P \<Longrightarrow>
   sound (sub_octets bs a b \<bind> f) P"
  by (simp add: sub_octets_def)

lemma sound_if: "(b \<Longrightarrow> sound m P) \<Longrightarrow> (\<not> b \<Longrightarrow> sound n P) \<Longrightarrow> sound (if b then m else n) P"
  by simp

lemma sound_case_prod: "(\<And>a b. x = (a, b) \<Longrightarrow> sound (f a b) P) \<Longrightarrow> sound (case x of (a, b) \<Rightarrow> f a b) P"
  by (cases x) simp

lemma sound_safe: "sound m P \<Longrightarrow> m \<noteq> None"
  by (cases m) auto

lemma sound_ret: "sound m P \<Longrightarrow> m = ret x \<Longrightarrow> P x"
  by simp

lemma soundI: "m \<noteq> None \<Longrightarrow> (\<And>x. m = ret x \<Longrightarrow> P x) \<Longrightarrow> sound m P"
  by (cases "(m, P)" rule: sound.cases) auto

lemma sound_mono: "sound m Q \<Longrightarrow> (\<And>x. Q x \<Longrightarrow> P x) \<Longrightarrow> sound m P"
  by (cases "(m, P)" rule: sound.cases) auto

lemma sound_Some: "(\<And>x. m = Some x \<Longrightarrow> P x) \<Longrightarrow> sound (Some m) P"
  by (cases m) auto

lemma sound_Some_bind: "(\<And>x. m = Some x \<Longrightarrow> sound (f x) P) \<Longrightarrow> sound (and_then (Some m) f) P"
  by (cases m) auto

lemmas sound_intros = sound_and_then sound_octet_at sound_sub_octets sound_if sound_case_prod

section \<open>Big-endian integers\<close>

definition put_u16 :: "u16 \<Rightarrow> octets" where
  "put_u16 v = [ucast (drop_bit 8 v AND 0xFF), ucast (v AND 0xFF)]"

definition put_u24 :: "u32 \<Rightarrow> octets" where
  "put_u24 v = [ucast (drop_bit 16 v AND 0xFF), ucast (drop_bit 8 v AND 0xFF), ucast (v AND 0xFF)]"

definition put_u32 :: "u32 \<Rightarrow> octets" where
  "put_u32 v =
     [ucast (drop_bit 24 v AND 0xFF), ucast (drop_bit 16 v AND 0xFF),
      ucast (drop_bit 8 v AND 0xFF), ucast (v AND 0xFF)]"

definition put_u64 :: "u64 \<Rightarrow> octets" where
  "put_u64 v = map (\<lambda>shift. ucast (drop_bit shift v AND 0xFF)) [56, 48, 40, 32, 24, 16, 8, 0]"

definition join_u16 :: "octet \<Rightarrow> octet \<Rightarrow> u16" where
  "join_u16 a b = push_bit 8 (ucast a) OR ucast b"

definition join_u24 :: "octet \<Rightarrow> octet \<Rightarrow> octet \<Rightarrow> u32" where
  "join_u24 a b c = push_bit 16 (ucast a) OR push_bit 8 (ucast b) OR ucast c"

definition join_u32 :: "octet \<Rightarrow> octet \<Rightarrow> octet \<Rightarrow> octet \<Rightarrow> u32" where
  "join_u32 a b c d = push_bit 24 (ucast a) OR push_bit 16 (ucast b) OR push_bit 8 (ucast c) OR ucast d"

text \<open>The loop \<open>v = (v << 8) | bytes[i]\<close>.\<close>

definition shift_in :: "'w::len word \<Rightarrow> octet \<Rightarrow> 'w word" where
  "shift_in v b = push_bit 8 v OR ucast b"

definition get_u16 :: "octets \<Rightarrow> nat \<Rightarrow> u16 checked" where
  "get_u16 bs off = do { a \<leftarrow> octet_at bs off; b \<leftarrow> octet_at bs (off + 1); Some (join_u16 a b) }"

definition get_u24 :: "octets \<Rightarrow> nat \<Rightarrow> u32 checked" where
  "get_u24 bs off = do {
     a \<leftarrow> octet_at bs off; b \<leftarrow> octet_at bs (off + 1); c \<leftarrow> octet_at bs (off + 2);
     Some (join_u24 a b c) }"

definition get_u32 :: "octets \<Rightarrow> nat \<Rightarrow> u32 checked" where
  "get_u32 bs off = do {
     a \<leftarrow> octet_at bs off; b \<leftarrow> octet_at bs (off + 1);
     c \<leftarrow> octet_at bs (off + 2); d \<leftarrow> octet_at bs (off + 3);
     Some (join_u32 a b c d) }"

text \<open>\<open>for (i < n) v = (v << 8) | bytes[off + i]\<close>, starting from \<open>v\<close>.\<close>

fun get_be_loop :: "octets \<Rightarrow> nat \<Rightarrow> nat \<Rightarrow> 'w::len word \<Rightarrow> 'w word checked" where
  "get_be_loop bs off 0 v = Some v"
| "get_be_loop bs off (Suc n) v = do { b \<leftarrow> octet_at bs off; get_be_loop bs (off + 1) n (shift_in v b) }"

lemma length_put [simp]:
  "length (put_u16 a) = 2" "length (put_u24 b) = 3" "length (put_u32 c) = 4" "length (put_u64 d) = 8"
  by (simp_all add: put_u16_def put_u24_def put_u32_def put_u64_def)

lemma bit_octet [simp]: "8 \<le> n \<Longrightarrow> \<not> bit (b :: octet) n"
  using bit_imp_le_length [of b n] by auto

lemma ucast_octet_u32 [simp]: "ucast (ucast (b :: octet) :: u32) = b"
  by (rule bit_word_eqI) (auto simp: bit_simps)

lemma ucast_octet_u16 [simp]: "ucast (ucast (b :: octet) :: u16) = b"
  by (rule bit_word_eqI) (auto simp: bit_simps)

lemma take_bit_self: "unat v < 2 ^ k \<Longrightarrow> take_bit k v = (v :: 'w::len word)"
  by (simp add: word_unat_eq_iff unsigned_take_bit_eq take_bit_nat_eq_self)

text \<open>Masking with \<open>0xFF\<close> is truncation to eight bits.\<close>

lemma and_0xFF: "(v :: 'w::len word) AND 0xFF = take_bit 8 v"
proof -
  have "(0xFF :: 'w word) = mask 8" by (simp add: mask_eq_exp_minus_1)
  then show ?thesis by (simp add: take_bit_eq_mask)
qed

lemma join_put_u16:
  "join_u16 (ucast (drop_bit 8 v AND 0xFF)) (ucast (v AND 0xFF)) = v"
  unfolding join_u16_def and_0xFF
  by (rule bit_word_eqI) (auto simp: bit_simps)

lemma join_put_u24:
  "join_u24 (ucast (drop_bit 16 v AND 0xFF)) (ucast (drop_bit 8 v AND 0xFF)) (ucast (v AND 0xFF))
     = take_bit 24 v"
  unfolding join_u24_def and_0xFF
proof (rule bit_word_eqI)
  fix n assume "n < LENGTH(32)"
  consider "n < 8" | "8 \<le> n" "n < 16" | "16 \<le> n" by linarith
  then show "bit (push_bit 16 (ucast (ucast (take_bit 8 (drop_bit 16 v)) :: octet)) OR
      push_bit 8 (ucast (ucast (take_bit 8 (drop_bit 8 v)) :: octet)) OR
      ucast (ucast (take_bit 8 v) :: octet) :: u32) n = bit (take_bit 24 v) n"
    using \<open>n < LENGTH(32)\<close> by cases (auto simp: bit_simps)
qed

lemma join_put_u32:
  "join_u32 (ucast (drop_bit 24 v AND 0xFF)) (ucast (drop_bit 16 v AND 0xFF))
     (ucast (drop_bit 8 v AND 0xFF)) (ucast (v AND 0xFF)) = v"
  unfolding join_u32_def and_0xFF
proof (rule bit_word_eqI)
  fix n assume "n < LENGTH(32)"
  consider "n < 8" | "8 \<le> n" "n < 16" | "16 \<le> n" "n < 24" | "24 \<le> n" by linarith
  then show "bit (push_bit 24 (ucast (ucast (take_bit 8 (drop_bit 24 v)) :: octet)) OR
      push_bit 16 (ucast (ucast (take_bit 8 (drop_bit 16 v)) :: octet)) OR
      push_bit 8 (ucast (ucast (take_bit 8 (drop_bit 8 v)) :: octet)) OR
      ucast (ucast (take_bit 8 v) :: octet) :: u32) n = bit v n"
    using \<open>n < LENGTH(32)\<close> by cases (auto simp: bit_simps)
qed

lemma get_put_u16 [simp]: "get_u16 (pre @ put_u16 v @ post) (length pre) = Some v"
  by (simp add: get_u16_def put_u16_def join_put_u16)

lemma get_put_u24 [simp]: "get_u24 (pre @ put_u24 v @ post) (length pre) = Some (take_bit 24 v)"
  by (simp add: get_u24_def put_u24_def join_put_u24)

lemma get_put_u32 [simp]: "get_u32 (pre @ put_u32 v @ post) (length pre) = Some v"
  by (simp add: get_u32_def put_u32_def join_put_u32)

lemmas get_put_defs = get_u16_def get_u24_def get_u32_def put_u16_def put_u24_def put_u32_def
  join_put_u16 join_put_u24 join_put_u32

lemma get_u16_Some: "off + 2 \<le> length bs \<Longrightarrow> \<exists>v. get_u16 bs off = Some v"
  by (simp add: get_u16_def octet_at_def)

lemma get_u24_Some: "off + 3 \<le> length bs \<Longrightarrow> \<exists>v. get_u24 bs off = Some v"
  by (simp add: get_u24_def octet_at_def)

lemma get_u32_Some: "off + 4 \<le> length bs \<Longrightarrow> \<exists>v. get_u32 bs off = Some v"
  by (simp add: get_u32_def octet_at_def)

text \<open>The length of a field padded to a multiple of four, \<open>(len + 3) & ~3\<close>.\<close>

definition padded_length :: "nat \<Rightarrow> nat" where
  "padded_length len = (len + 3) div 4 * 4"

lemma padded_length_ge: "n \<le> padded_length n"
  unfolding padded_length_def by presburger

lemma padded_length_add: "4 dvd k \<Longrightarrow> padded_length (k + n) = k + padded_length n"
  unfolding padded_length_def by presburger

text \<open>The eight-octet loop undoes \<^const>\<open>put_u64\<close>: shifting in one more octet of the value
  extends the prefix of its bits already read.\<close>

lemma shift_in_drop:
  "shift_in (drop_bit (k + 8) v) (ucast (drop_bit k v AND 0xFF)) = drop_bit k (v :: 'w::len word)"
  unfolding shift_in_def and_0xFF
proof (rule bit_word_eqI)
  fix n assume "n < LENGTH('w)"
  then show "bit (push_bit 8 (drop_bit (k + 8) v) OR
      ucast (ucast (take_bit 8 (drop_bit k v)) :: octet)) n = bit (drop_bit k v) n"
    by (cases "n < 8") (auto simp: bit_simps)
qed

lemma get_be_loop_foldl:
  "off + n \<le> length bs \<Longrightarrow> get_be_loop bs off n v = Some (foldl shift_in v (take n (drop off bs)))"
proof (induction n arbitrary: off v)
  case (Suc n)
  then have "take (Suc n) (drop off bs) = bs ! off # take n (drop (Suc off) bs)"
    by (simp add: Cons_nth_drop_Suc [symmetric])
  with Suc show ?case by (simp add: octet_at_def)
qed simp

lemma foldl_shift_in_put_u64 [simp]: "foldl shift_in 0 (put_u64 v) = v"
proof -
  have "drop_bit 64 v = 0"
    by (rule bit_word_eqI) (auto simp: bit_simps dest: bit_imp_le_length)
  then show ?thesis
    using shift_in_drop [of 56 v] shift_in_drop [of 48 v] shift_in_drop [of 40 v] shift_in_drop [of 32 v]
      shift_in_drop [of 24 v] shift_in_drop [of 16 v] shift_in_drop [of 8 v] shift_in_drop [of 0 v]
    by (simp add: put_u64_def)
qed

lemma get_be_loop_put_u64 [simp]:
  "get_be_loop (pre @ put_u64 v @ post) (length pre) 8 0 = Some v"
  by (simp add: get_be_loop_foldl)

section \<open>Rows of a list found by a key\<close>

lemma find_map: "(\<And>b. P (f b) = P b) \<Longrightarrow> find P (map f bs) = map_option f (find P bs)"
  by (induction bs) auto

lemma find_key: "distinct (map key xs) \<Longrightarrow> find (\<lambda>x. key x = i) xs = Some b \<longleftrightarrow> b \<in> set xs \<and> key b = i"
  by (induction xs) auto

end
