(* ===== verification/Ieee_Double.thy ===== *)
theory Ieee_Double
  imports Complex_Main "HOL-Library.Log_Nat"
begin

text \<open>
  The C++ \<open>double\<close> of the charging code: IEEE 754 binary64 with rounding to nearest, ties to
  even. A value is a finite rational, an infinity or NaN; the two zeros are one value, which no
  operation used here tells apart. Every arithmetic operation is the exact one on rationals
  followed by \<open>round_double\<close>.
\<close>

section \<open>Values and rounding\<close>

datatype double = Fin rat | Infty bool | NaN

definition round_half_even :: "rat \<Rightarrow> int" where
  "round_half_even x =
     (let f = \<lfloor>x\<rfloor>; d = x - of_int f
      in if d < 1 / 2 then f else if 1 / 2 < d then f + 1 else if even f then f else f + 1)"

text \<open>The exponent \<open>e\<close> with \<open>2^e \<le> x < 2^(e+1)\<close>, for a positive \<open>x\<close>.\<close>

definition exponent_of :: "rat \<Rightarrow> int" where
  "exponent_of x =
     (case quotient_of x of (a, b) \<Rightarrow>
        let k = bitlen a - bitlen b in if 2 powi k \<le> x then k else k - 1)"

text \<open>Exponent of the unit in the last place: 53 significant bits, subnormals below \<open>2^-1022\<close>.\<close>

definition ulp_exponent :: "rat \<Rightarrow> int" where
  "ulp_exponent x = max (exponent_of x - 52) (- 1074)"

definition round_pos :: "rat \<Rightarrow> rat" where
  "round_pos x = of_int (round_half_even (x / 2 powi ulp_exponent x)) * 2 powi ulp_exponent x"

definition round_rat :: "rat \<Rightarrow> rat" where
  "round_rat x = (if x = 0 then 0 else if 0 < x then round_pos x else - round_pos (- x))"

definition round_double :: "rat \<Rightarrow> double" where
  "round_double x =
     (let r = round_rat x
      in if 2 powi 1024 \<le> r then Infty False else if r \<le> - (2 powi 1024) then Infty True else Fin r)"

text \<open>The finite values that are doubles: those rounding leaves alone.\<close>

fun is_double :: "double \<Rightarrow> bool" where
  "is_double (Fin x) = (round_double x = Fin x)"
| "is_double _ = True"

section \<open>Arithmetic and comparison\<close>

fun d_neg :: "double \<Rightarrow> double" where
  "d_neg (Fin x) = Fin (- x)"
| "d_neg (Infty s) = Infty (\<not> s)"
| "d_neg NaN = NaN"

fun d_add :: "double \<Rightarrow> double \<Rightarrow> double" where
  "d_add (Fin x) (Fin y) = round_double (x + y)"
| "d_add NaN _ = NaN"
| "d_add _ NaN = NaN"
| "d_add (Infty s) (Infty t) = (if s = t then Infty s else NaN)"
| "d_add (Infty s) (Fin _) = Infty s"
| "d_add (Fin _) (Infty s) = Infty s"

fun d_mul :: "double \<Rightarrow> double \<Rightarrow> double" where
  "d_mul (Fin x) (Fin y) = round_double (x * y)"
| "d_mul NaN _ = NaN"
| "d_mul _ NaN = NaN"
| "d_mul (Infty s) (Infty t) = Infty (s \<noteq> t)"
| "d_mul (Infty s) (Fin y) = (if y = 0 then NaN else Infty (s \<noteq> (y < 0)))"
| "d_mul (Fin x) (Infty s) = (if x = 0 then NaN else Infty (s \<noteq> (x < 0)))"

text \<open>Division; a zero divisor is taken as the positive zero.\<close>

fun d_div :: "double \<Rightarrow> double \<Rightarrow> double" where
  "d_div (Fin x) (Fin y) =
     (if y = 0 then (if x = 0 then NaN else Infty (x < 0)) else round_double (x / y))"
| "d_div NaN _ = NaN"
| "d_div _ NaN = NaN"
| "d_div (Infty s) (Infty t) = NaN"
| "d_div (Infty s) (Fin y) = Infty (s \<noteq> (y < 0))"
| "d_div (Fin x) (Infty s) = Fin 0"

text \<open>Comparisons with NaN are false.\<close>

fun d_less :: "double \<Rightarrow> double \<Rightarrow> bool" where
  "d_less (Fin x) (Fin y) = (x < y)"
| "d_less (Fin _) (Infty s) = (\<not> s)"
| "d_less (Infty s) (Fin _) = s"
| "d_less (Infty s) (Infty t) = (s \<and> \<not> t)"
| "d_less _ _ = False"

fun d_le :: "double \<Rightarrow> double \<Rightarrow> bool" where
  "d_le (Fin x) (Fin y) = (x \<le> y)"
| "d_le (Fin _) (Infty s) = (\<not> s)"
| "d_le (Infty s) (Fin _) = s"
| "d_le (Infty s) (Infty t) = (s \<or> \<not> t)"
| "d_le _ _ = False"

text \<open>\<open>std::min\<close> and \<open>std::clamp\<close> as the library writes them.\<close>

definition d_min :: "double \<Rightarrow> double \<Rightarrow> double" where
  "d_min a b = (if d_less b a then b else a)"

definition d_clamp :: "double \<Rightarrow> double \<Rightarrow> double \<Rightarrow> double" where
  "d_clamp v lo hi = (if d_less v lo then lo else if d_less hi v then hi else v)"

fun d_isfinite :: "double \<Rightarrow> bool" where
  "d_isfinite (Fin _) = True"
| "d_isfinite _ = False"

text \<open>Conversion from an unsigned integer rounds; conversion to one truncates, and is undefined
  when the truncated value does not fit in \<open>w\<close> bits.\<close>

definition d_of_nat :: "nat \<Rightarrow> double" where
  "d_of_nat n = round_double (of_nat n)"

fun d_to_unsigned :: "nat \<Rightarrow> double \<Rightarrow> nat option" where
  "d_to_unsigned w (Fin x) = (if - 1 < x \<and> x < 2 ^ w then Some (nat \<lfloor>x\<rfloor>) else None)"
| "d_to_unsigned w _ = None"

section \<open>Facts about rounding\<close>

lemma round_half_even_bounds: "\<lfloor>x\<rfloor> \<le> round_half_even x" "round_half_even x \<le> \<lfloor>x\<rfloor> + 1"
  by (simp_all add: round_half_even_def Let_def)

lemma round_half_even_of_int [simp]: "round_half_even (of_int n) = n"
  by (simp add: round_half_even_def)

lemma round_half_even_mono: "x \<le> y \<Longrightarrow> round_half_even x \<le> round_half_even y"
proof -
  assume le: "x \<le> y"
  show ?thesis
  proof (cases "\<lfloor>x\<rfloor> = \<lfloor>y\<rfloor>")
    case True
    with le show ?thesis by (auto simp: round_half_even_def Let_def)
  next
    case False
    with floor_mono [OF le] have "\<lfloor>x\<rfloor> + 1 \<le> \<lfloor>y\<rfloor>" by linarith
    with round_half_even_bounds [of x] round_half_even_bounds [of y] show ?thesis by linarith
  qed
qed

lemma exponent_of_bounds:
  assumes "0 < x"
  shows "2 powi exponent_of x \<le> x" "x < 2 powi (exponent_of x + 1)"
proof -
  obtain a b where q: "quotient_of x = (a, b)" by (cases "quotient_of x")
  then have b: "0 < b" and x: "x = of_int a / of_int b"
    using quotient_of_denom_pos quotient_of_div by auto
  with assms have a: "0 < a" by (simp add: zero_less_divide_iff)
  let ?k = "bitlen a - bitlen b"
  have la: "2 ^ nat (bitlen a - 1) \<le> a" "a < 2 ^ nat (bitlen a)"
    and lb: "2 ^ nat (bitlen b - 1) \<le> b" "b < 2 ^ nat (bitlen b)"
    using bitlen_bounds a b by auto
  have pa: "0 < bitlen a" "0 < bitlen b" using a b bitlen_nonneg by (simp_all add: bitlen_alt_def)
  have wi: "of_int (2 ^ nat m) = (2 :: rat) powi m" if "0 \<le> m" for m
    using that by (simp add: power_int_def)
  have A: "2 powi (bitlen a - 1) \<le> (of_int a :: rat)" "(of_int a :: rat) < 2 powi bitlen a"
    using la wi [of "bitlen a - 1"] wi [of "bitlen a"] pa by (metis of_int_le_iff of_int_less_iff zle_diff1_eq less_imp_le)+
  have B: "2 powi (bitlen b - 1) \<le> (of_int b :: rat)" "(of_int b :: rat) < 2 powi bitlen b"
    using lb wi [of "bitlen b - 1"] wi [of "bitlen b"] pa by (metis of_int_le_iff of_int_less_iff zle_diff1_eq less_imp_le)+
  have "x \<le> of_int a / 2 powi (bitlen b - 1)"
    unfolding x using B a b by (intro divide_left_mono) auto
  also have "\<dots> < 2 powi bitlen a / 2 powi (bitlen b - 1)"
    using A by (intro divide_strict_right_mono) auto
  also have "\<dots> = 2 powi (?k + 1)"
    by (simp add: power_int_diff [symmetric] algebra_simps)
  finally have up: "x < 2 powi (?k + 1)" .
  have "2 powi (?k - 1) = 2 powi (bitlen a - 1) / (2 :: rat) powi bitlen b"
    by (simp add: power_int_diff [symmetric] algebra_simps)
  also have "\<dots> \<le> of_int a / 2 powi bitlen b"
    using A by (intro divide_right_mono) auto
  also have "\<dots> \<le> x"
    unfolding x using B a b by (intro divide_left_mono) auto
  finally have lo: "2 powi (?k - 1) \<le> x" .
  show "2 powi exponent_of x \<le> x" "x < 2 powi (exponent_of x + 1)"
    using up lo by (auto simp: exponent_of_def q Let_def)
qed

lemma powi_le_cancel: "(2 :: rat) powi a < 2 powi b \<Longrightarrow> a < b"
  by (metis linorder_not_less one_le_numeral power_int_increasing)

lemma exponent_of_less: "0 < x \<Longrightarrow> x < 2 powi k \<Longrightarrow> exponent_of x < k"
  using exponent_of_bounds(1) [of x] by (intro powi_le_cancel) linarith

lemma exponent_of_ge: "0 < x \<Longrightarrow> 2 powi k \<le> x \<Longrightarrow> k \<le> exponent_of x"
  using exponent_of_bounds(2) [of x] powi_le_cancel [of k "exponent_of x + 1"] by linarith

lemma exponent_of_mono: "0 < x \<Longrightarrow> x \<le> y \<Longrightarrow> exponent_of x \<le> exponent_of y"
  using exponent_of_bounds(1) [of x] by (intro exponent_of_ge) linarith+

text \<open>A value with at most 53 significant bits is left alone.\<close>

lemma round_pos_representable:
  assumes n: "0 < n" "n \<le> 2 ^ 53" and q: "- 1074 \<le> q"
  shows "round_pos (of_int n * 2 powi q) = of_int n * 2 powi q"
proof -
  let ?x = "of_int n * (2 :: rat) powi q"
  have x: "0 < ?x" using n by simp
  have "ulp_exponent ?x \<le> q \<or> n = 2 ^ 53 \<and> ulp_exponent ?x = q + 1"
  proof (cases "n = 2 ^ 53")
    case False
    with n have "of_int n < (2 :: rat) ^ 53"
      by (metis of_int_less_iff of_int_numeral of_int_power order_le_neq_trans)
    then have "?x < 2 powi (53 + q)" by (simp add: power_int_add)
    then have "exponent_of ?x < 53 + q" by (rule exponent_of_less [OF x])
    with q show ?thesis by (simp add: ulp_exponent_def)
  next
    case True
    then have e: "?x = 2 powi (53 + q)" by (simp add: power_int_add)
    have "exponent_of ?x = 53 + q"
    proof (rule antisym)
      have "?x < 2 powi (53 + q + 1)" unfolding e by (simp add: power_int_add)
      from exponent_of_less [OF x this] show "exponent_of ?x \<le> 53 + q" by simp
      show "53 + q \<le> exponent_of ?x" by (rule exponent_of_ge [OF x]) (simp add: e)
    qed
    with True q show ?thesis by (simp add: ulp_exponent_def)
  qed
  then have "\<exists>m. ?x / 2 powi ulp_exponent ?x = of_int m"
  proof
    assume le: "ulp_exponent ?x \<le> q"
    have "?x / 2 powi ulp_exponent ?x = of_int n * 2 powi (q - ulp_exponent ?x)"
      by (simp add: power_int_diff)
    also have "\<dots> = of_int (n * 2 ^ nat (q - ulp_exponent ?x))"
      using le by (simp add: power_int_def)
    finally show ?thesis by blast
  next
    assume "n = 2 ^ 53 \<and> ulp_exponent ?x = q + 1"
    then have u: "ulp_exponent ?x = q + 1" and n53: "n = 2 ^ 53" by blast+
    have "?x / 2 powi ulp_exponent ?x = ?x / 2 powi (q + 1)" by (simp only: u)
    also have "\<dots> = of_int (2 ^ 52)" using n53 by (simp add: power_int_add)
    finally show ?thesis by blast
  qed
  then obtain m where m: "?x / 2 powi ulp_exponent ?x = of_int m" by blast
  then have "of_int m * 2 powi ulp_exponent ?x = ?x"
    by (metis nonzero_eq_divide_eq power_int_not_zero zero_neq_numeral)
  with m show ?thesis by (simp add: round_pos_def)
qed

lemma round_pos_powi: "- 1074 \<le> q \<Longrightarrow> round_pos (2 powi q) = 2 powi q"
  using round_pos_representable [of 1 q] by simp

lemma round_half_even_le: "x \<le> of_int n \<Longrightarrow> round_half_even x \<le> n"
  using round_half_even_mono [of x "of_int n"] by simp

lemma round_half_even_ge: "of_int n \<le> x \<Longrightarrow> n \<le> round_half_even x"
  using round_half_even_mono [of "of_int n" x] by simp

lemma round_pos_nonneg: "0 \<le> x \<Longrightarrow> 0 \<le> round_pos x"
  using round_half_even_ge [of 0 "x / 2 powi ulp_exponent x"] by (simp add: round_pos_def)

lemma round_pos_mono:
  assumes "0 < x" "x \<le> y"
  shows "round_pos x \<le> round_pos y"
proof -
  let ?q = "ulp_exponent x" and ?r = "ulp_exponent y"
  have y: "0 < y" using assms by simp
  have "?q \<le> ?r" using exponent_of_mono [OF assms] by (simp add: ulp_exponent_def)
  then consider "?q = ?r" | "?q < ?r" by linarith
  then show ?thesis
  proof cases
    case 1
    have "x / 2 powi ?r \<le> y / 2 powi ?r" using assms by (simp add: divide_right_mono)
    from round_half_even_mono [OF this] 1 show ?thesis by (simp add: round_pos_def)
  next
    case 2
    then have r: "?r = exponent_of y - 52" and qr: "?q \<le> exponent_of y - 53"
      and ex: "exponent_of x \<le> ?q + 52"
      by (auto simp: ulp_exponent_def)
    have "x < 2 powi (?q + 53)"
      using exponent_of_bounds(2) [OF assms(1)] ex
        power_int_increasing [of "exponent_of x + 1" "?q + 53" "2 :: rat"] by simp
    then have "x / 2 powi ?q \<le> of_int (2 ^ 53)"
      by (simp add: power_int_add divide_le_eq mult.commute)
    from round_half_even_le [OF this] have "round_half_even (x / 2 powi ?q) \<le> 2 ^ 53" .
    then have "of_int (round_half_even (x / 2 powi ?q)) \<le> (2 :: rat) ^ 53"
      by (metis of_int_le_iff of_int_numeral of_int_power)
    then have "round_pos x \<le> 2 ^ 53 * 2 powi ?q"
      unfolding round_pos_def by (intro mult_right_mono) auto
    also have "\<dots> = 2 powi (?q + 53)" by (simp add: power_int_add)
    also have "\<dots> \<le> 2 powi exponent_of y" using qr by (intro power_int_increasing) auto
    also have "\<dots> = 2 ^ 52 * 2 powi ?r" unfolding r by (simp add: power_int_diff)
    also have "\<dots> \<le> round_pos y"
    proof -
      have "of_int (2 ^ 52) \<le> y / 2 powi ?r"
        using exponent_of_bounds(1) [OF y] unfolding r by (simp add: power_int_diff le_divide_eq field_simps)
      from round_half_even_ge [OF this] have "2 ^ 52 \<le> round_half_even (y / 2 powi ?r)" .
      then have "(2 :: rat) ^ 52 \<le> of_int (round_half_even (y / 2 powi ?r))"
        by (metis of_int_le_iff of_int_numeral of_int_power)
      then show ?thesis unfolding round_pos_def by (intro mult_right_mono) auto
    qed
    finally show ?thesis .
  qed
qed

lemma round_rat_mono: "x \<le> y \<Longrightarrow> round_rat x \<le> round_rat y"
proof -
  assume le: "x \<le> y"
  consider "0 < x" | "x \<le> 0" "0 \<le> y" | "y < 0" using le by linarith
  then show ?thesis
  proof cases
    case 1
    with le show ?thesis using round_pos_mono by (auto simp: round_rat_def)
  next
    case 2
    then have "round_rat x \<le> 0" "0 \<le> round_rat y"
      using round_pos_nonneg [of "- x"] round_pos_nonneg [of y] by (auto simp: round_rat_def)
    then show ?thesis by linarith
  next
    case 3
    with le show ?thesis using round_pos_mono [of "- y" "- x"] by (auto simp: round_rat_def)
  qed
qed

lemma round_rat_neg: "round_rat (- x) = - round_rat x"
  by (auto simp: round_rat_def)

lemma round_rat_nonneg: "0 \<le> x \<Longrightarrow> 0 \<le> round_rat x"
  using round_rat_mono [of 0 x] by (simp add: round_rat_def)

lemma round_rat_of_int: "\<bar>n\<bar> \<le> 2 ^ 53 \<Longrightarrow> round_rat (of_int n) = of_int n"
proof -
  assume "\<bar>n\<bar> \<le> 2 ^ 53"
  then have "round_pos (of_int m) = of_int m" if "0 < m" "m \<le> \<bar>n\<bar>" for m
    using round_pos_representable [of m 0] that by simp
  from this [of n] this [of "- n"] show ?thesis by (auto simp: round_rat_def)
qed

lemma round_pos_idem:
  assumes "0 < x"
  shows "round_rat (round_pos x) = round_pos x"
proof (cases "round_pos x = 0")
  case False
  with assms have pos: "0 < round_pos x" using round_pos_nonneg [of x] by simp
  let ?q = "ulp_exponent x" and ?m = "round_half_even (x / 2 powi ulp_exponent x)"
  have "(0 :: rat) < 2 powi ?q" by simp
  with pos have "0 < ?m" unfolding round_pos_def by (metis of_int_0_less_iff zero_less_mult_pos2)
  have "exponent_of x + 1 \<le> ?q + 53" unfolding ulp_exponent_def by linarith
  then have "(2 :: rat) powi (exponent_of x + 1) \<le> 2 powi (?q + 53)" by (intro power_int_increasing) auto
  with exponent_of_bounds(2) [OF assms] have "x < 2 powi (?q + 53)" by linarith
  then have "x / 2 powi ?q \<le> of_int (2 ^ 53)"
    by (simp add: power_int_add divide_le_eq mult.commute)
  from round_half_even_le [OF this] have "?m \<le> 2 ^ 53" .
  with \<open>0 < ?m\<close> have "round_pos (round_pos x) = round_pos x"
    using round_pos_representable [of ?m ?q] by (simp add: round_pos_def ulp_exponent_def)
  with pos show ?thesis by (simp add: round_rat_def)
qed (simp add: round_rat_def)

lemma round_rat_idem [simp]: "round_rat (round_rat x) = round_rat x"
proof -
  consider "x = 0" | "0 < x" | "x < 0" by linarith
  then show ?thesis
  proof cases
    case 3
    have "round_rat x = - round_rat (- x)" by (simp add: round_rat_neg)
    moreover have "round_rat (round_rat (- x)) = round_rat (- x)"
      using round_pos_idem [of "- x"] 3 by (simp add: round_rat_def)
    ultimately show ?thesis by (simp add: round_rat_neg)
  qed (auto simp: round_pos_idem round_rat_def [of x], simp add: round_rat_def)
qed

lemma is_double_Fin: "is_double (Fin x) \<longleftrightarrow> round_rat x = x \<and> \<bar>x\<bar> < 2 powi 1024"
  by (auto simp: round_double_def Let_def)

lemma is_double_round [simp]: "is_double (round_double x)"
  by (auto simp: round_double_def Let_def is_double_Fin simp del: is_double.simps(1))

lemma round_double_Fin: "is_double (Fin x) \<Longrightarrow> round_double x = Fin x"
  by simp

lemma is_double_of_int: "\<bar>n\<bar> \<le> 2 ^ 53 \<Longrightarrow> is_double (Fin (of_int n))"
proof -
  assume n: "\<bar>n\<bar> \<le> 2 ^ 53"
  have "\<bar>rat_of_int n\<bar> \<le> 2 ^ 53" using n by (metis of_int_abs of_int_le_iff of_int_numeral of_int_power)
  also have "\<dots> < (2 :: rat) powi 1024" by (simp add: power_int_def)
  finally show ?thesis using n by (simp add: is_double_Fin round_rat_of_int del: is_double.simps)
qed

lemma is_double_0_1 [simp]: "round_double 0 = Fin 0" "round_double 1 = Fin 1"
  using is_double_of_int [of 0] is_double_of_int [of 1] by simp_all

text \<open>The order of the finite values and the infinities is preserved by rounding.\<close>

lemma round_double_mono: "x \<le> y \<Longrightarrow> d_le (round_double x) (round_double y)"
proof -
  assume "x \<le> y"
  from round_rat_mono [OF this] show ?thesis
    by (auto simp: round_double_def Let_def)
qed

lemma round_double_not_NaN [simp]: "round_double x \<noteq> NaN"
  by (auto simp: round_double_def Let_def)

lemma round_double_nonneg: "0 \<le> x \<Longrightarrow> d_le (Fin 0) (round_double x)"
  using round_double_mono [of 0 x] by simp

lemma round_double_le_double: "is_double (Fin y) \<Longrightarrow> x \<le> y \<Longrightarrow> d_le (round_double x) (Fin y)"
  using round_double_mono [of x y] by simp

lemma d_le_refl: "d \<noteq> NaN \<Longrightarrow> d_le d d"
  by (cases d) auto

lemma d_le_trans: "d_le a b \<Longrightarrow> d_le b c \<Longrightarrow> d_le a c"
  by (cases a; cases b; cases c) auto

lemma d_of_nat_exact: "n \<le> 2 ^ 53 \<Longrightarrow> d_of_nat n = Fin (of_nat n)"
  using is_double_of_int [of "int n"] by (simp add: d_of_nat_def)

end
