(* ===== verification/Json_Value.thy ===== *)
theory Json_Value
  imports Prelude Ieee_Double
begin

text \<open>
  The value kinds of \<open>nlohmann::json\<close> that the charging code inspects: null, booleans, signed,
  unsigned and floating numbers, strings, arrays, and objects as association lists in key order.
  The library itself is not part of the repository: its equality of values is a parameter of the
  definitions that compare values, and its text parser and printer do not occur.
\<close>

datatype json =
    JNull
  | JBool bool
  | JInt "64 word"
  | JUnsigned "64 word"
  | JFloat double
  | JString string
  | JArray "json list"
  | JObject "(string \<times> json) list"

type_synonym json_eq = "json \<Rightarrow> json \<Rightarrow> bool"

fun is_number_integer :: "json \<Rightarrow> bool" where
  "is_number_integer (JInt _) = True"
| "is_number_integer (JUnsigned _) = True"
| "is_number_integer _ = False"

fun is_number :: "json \<Rightarrow> bool" where
  "is_number (JFloat _) = True"
| "is_number j = is_number_integer j"

text \<open>\<open>get<std::int64_t>()\<close> on an integer kind: the cast from unsigned keeps the bits.\<close>

fun get_int64 :: "json \<Rightarrow> 64 word" where
  "get_int64 (JInt w) = w"
| "get_int64 (JUnsigned w) = w"
| "get_int64 _ = 0"

text \<open>\<open>get<double>()\<close> on a number.\<close>

fun get_double :: "json \<Rightarrow> double" where
  "get_double (JInt w) = round_double (of_int (sint w))"
| "get_double (JUnsigned w) = d_of_nat (unat w)"
| "get_double (JFloat d) = d"
| "get_double _ = NaN"

text \<open>Object member lookup; other kinds have no members.\<close>

fun member :: "json \<Rightarrow> string \<Rightarrow> json option" where
  "member (JObject kvs) k = map_of kvs k"
| "member _ k = None"

section \<open>Kinds and accessors\<close>

fun is_object :: "json \<Rightarrow> bool" where
  "is_object (JObject _) = True"
| "is_object _ = False"

fun is_string :: "json \<Rightarrow> bool" where
  "is_string (JString _) = True"
| "is_string _ = False"

fun is_array :: "json \<Rightarrow> bool" where
  "is_array (JArray _) = True"
| "is_array _ = False"

definition contains :: "json \<Rightarrow> string \<Rightarrow> bool" where
  "contains j k \<longleftrightarrow> member j k \<noteq> None"

text \<open>What a range-based \<open>for\<close> over an array or an object runs through.\<close>

fun elements :: "json \<Rightarrow> json list" where
  "elements (JArray xs) = xs"
| "elements (JObject kvs) = map snd kvs"
| "elements _ = []"

text \<open>\<open>get<std::string>()\<close>, and \<open>value(key, default)\<close> with a text default: \<^verbatim>\<open>None\<close> is the exception
  thrown on another kind and on a value without members.\<close>

fun get_string :: "json \<Rightarrow> string option" where
  "get_string (JString s) = Some s"
| "get_string _ = None"

definition value_string :: "json \<Rightarrow> string \<Rightarrow> string \<Rightarrow> string option" where
  "value_string j k d =
     (if \<not> is_object j then None else case member j k of None \<Rightarrow> Some d | Some v \<Rightarrow> get_string v)"

text \<open>A double as a signed integer of \<open>w\<close> bits: truncated, undefined when that does not fit.\<close>

fun d_to_signed :: "nat \<Rightarrow> double \<Rightarrow> int option" where
  "d_to_signed w (Fin x) =
     (let n = (if 0 \<le> x then \<lfloor>x\<rfloor> else \<lceil>x\<rceil>)
      in if - (2 ^ (w - 1)) \<le> n \<and> n < 2 ^ (w - 1) then Some n else None)"
| "d_to_signed w _ = None"

text \<open>\<open>get<std::int64_t>()\<close> on a number, floating ones included.\<close>

fun number_int64 :: "json \<Rightarrow> int option" where
  "number_int64 (JInt w) = Some (sint w)"
| "number_int64 (JUnsigned w) = Some (sint w)"
| "number_int64 (JFloat d) = d_to_signed 64 d"
| "number_int64 _ = None"

section \<open>Loops that can throw\<close>

text \<open>\<open>hit = hit || f(x)\<close> over a list, and the elements for which a test holds; \<^verbatim>\<open>None\<close> is an exception.\<close>

fun any_m :: "('a \<Rightarrow> bool option) \<Rightarrow> 'a list \<Rightarrow> bool option" where
  "any_m f [] = Some False"
| "any_m f (x # xs) = (case f x of None \<Rightarrow> None | Some True \<Rightarrow> Some True | Some False \<Rightarrow> any_m f xs)"

fun filter_m :: "('a \<Rightarrow> bool option) \<Rightarrow> 'a list \<Rightarrow> 'a list option" where
  "filter_m f [] = Some []"
| "filter_m f (x # xs) =
     (case f x of None \<Rightarrow> None
      | Some b \<Rightarrow> (case filter_m f xs of None \<Rightarrow> None | Some ys \<Rightarrow> Some (if b then x # ys else ys)))"

lemma any_m_cong [fundef_cong]: "xs = ys \<Longrightarrow> (\<And>x. x \<in> set ys \<Longrightarrow> f x = g x) \<Longrightarrow> any_m f xs = any_m g ys"
  by (induction ys arbitrary: xs) (auto split: option.split bool.split)

lemma any_m_TrueD: "any_m f xs = Some True \<Longrightarrow> \<exists>x \<in> set xs. f x = Some True"
  by (induction xs) (auto split: option.splits bool.splits)

lemma any_m_False: "any_m f xs = Some False \<longleftrightarrow> (\<forall>x \<in> set xs. f x = Some False)"
  by (induction xs) (auto split: option.splits bool.splits)

lemma any_m_Some: "(\<And>x. x \<in> set xs \<Longrightarrow> f x = Some (g x)) \<Longrightarrow> any_m f xs = Some (list_ex g xs)"
  by (induction xs) (auto split: bool.split)

lemma filter_m_eq: "filter_m f xs =
    (if \<exists>x \<in> set xs. f x = None then None else Some (filter (\<lambda>x. f x = Some True) xs))"
  by (induction xs) (auto split: option.split)

end
