(* ===== verification/Charging_Rules.thy ===== *)
theory Charging_Rules
  imports Json_Value
begin

text \<open>
  The pure decision rules of the charging function, each in a translation unit of its own in the
  repository: offering scope and rating-group matching (nfs/chf/src/charging_scope.cpp), unit
  pooling (nfs/chf/src/unit_pooling.cpp) and the consumed fraction of a reservation
  (nfs/chf/src/proportional_debit.cpp).
\<close>

section \<open>charging_scope.cpp\<close>

fun any_equal :: "json_eq \<Rightarrow> json list \<Rightarrow> json \<Rightarrow> bool" where
  "any_equal eq [] actual = False"
| "any_equal eq (candidate # cs) actual = (if eq candidate actual then True else any_equal eq cs actual)"

fun scope_loop :: "json_eq \<Rightarrow> (string \<times> json) list \<Rightarrow> json \<Rightarrow> bool" where
  "scope_loop eq [] attributes = True"
| "scope_loop eq ((key, required) # rest) attributes =
     (case member attributes key of
        None \<Rightarrow> False
      | Some actual \<Rightarrow>
          (case required of
             JArray cs \<Rightarrow> (if any_equal eq cs actual then scope_loop eq rest attributes else False)
           | _ \<Rightarrow> (if \<not> eq required actual then False else scope_loop eq rest attributes)))"

definition charging_scope_matches :: "json_eq \<Rightarrow> json \<Rightarrow> json \<Rightarrow> bool" where
  "charging_scope_matches eq scope attributes =
     (case scope of
        JObject kvs \<Rightarrow> (if kvs = [] then True else scope_loop eq kvs attributes)
      | _ \<Rightarrow> True)"

fun rating_group_loop :: "json list \<Rightarrow> 64 word \<Rightarrow> bool" where
  "rating_group_loop [] rating_group = False"
| "rating_group_loop (c # cs) rating_group =
     (if is_number_integer c \<and> get_int64 c = rating_group then True else rating_group_loop cs rating_group)"

definition rating_group_matches :: "json \<Rightarrow> 64 word \<Rightarrow> bool" where
  "rating_group_matches characteristic rating_group =
     (if is_number_integer characteristic then get_int64 characteristic = rating_group
      else (case characteristic of JArray cs \<Rightarrow> rating_group_loop cs rating_group | _ \<Rightarrow> False))"

section \<open>unit_pooling.cpp\<close>

record unit_pooling =
  octets_per_second :: "double option"
  octets_per_service_unit :: "double option"

definition usable_factor :: "json \<Rightarrow> string \<Rightarrow> double option" where
  "usable_factor value key =
     (case member value key of
        None \<Rightarrow> None
      | Some field \<Rightarrow>
          if \<not> is_number field then None
          else let factor = get_double field
               in if \<not> d_isfinite factor \<or> d_le factor (Fin 0) then None else Some factor)"

definition parse_unit_pooling :: "json option \<Rightarrow> unit_pooling" where
  "parse_unit_pooling characteristic_value =
     (case characteristic_value of
        Some (JObject kvs) \<Rightarrow>
          \<lparr>octets_per_second = usable_factor (JObject kvs) ''octetsPerSecond'',
           octets_per_service_unit = usable_factor (JObject kvs) ''octetsPerServiceUnit''\<rparr>
      | _ \<Rightarrow> \<lparr>octets_per_second = None, octets_per_service_unit = None\<rparr>)"

definition pooled_used_volume :: "unit_pooling \<Rightarrow> double \<Rightarrow> double \<Rightarrow> double \<Rightarrow> double" where
  "pooled_used_volume pooling used_volume used_service_units used_time =
     (let total = used_volume;
          total = (case octets_per_second pooling of
                     Some f \<Rightarrow> if d_less (Fin 0) used_time then d_add total (d_mul used_time f) else total
                   | None \<Rightarrow> total);
          total = (case octets_per_service_unit pooling of
                     Some f \<Rightarrow> if d_less (Fin 0) used_service_units
                               then d_add total (d_mul used_service_units f) else total
                   | None \<Rightarrow> total)
      in total)"

section \<open>proportional_debit.cpp\<close>

definition add_when :: "bool \<Rightarrow> double \<Rightarrow> double \<Rightarrow> double" where
  "add_when has_grant weight amount = (if has_grant then d_add weight amount else weight)"

definition granted_weight :: "double \<Rightarrow> double \<Rightarrow> double \<Rightarrow> double" where
  "granted_weight granted_volume granted_units granted_time =
     add_when (d_less (Fin 0) granted_time)
       (add_when (d_less (Fin 0) granted_units)
          (add_when (d_less (Fin 0) granted_volume) (Fin 0) granted_volume)
          granted_units)
       granted_time"

definition consumed_weight :: "double \<Rightarrow> double \<Rightarrow> double \<Rightarrow> double \<Rightarrow> double \<Rightarrow> double \<Rightarrow> double" where
  "consumed_weight granted_volume used_volume granted_units used_units granted_time used_time =
     add_when (d_less (Fin 0) granted_time)
       (add_when (d_less (Fin 0) granted_units)
          (add_when (d_less (Fin 0) granted_volume) (Fin 0) (d_min used_volume granted_volume))
          (d_min used_units granted_units))
       (d_min used_time granted_time)"

definition proportional_debit ::
  "double \<Rightarrow> double \<Rightarrow> double \<Rightarrow> double \<Rightarrow> double \<Rightarrow> double \<Rightarrow> double \<Rightarrow> double" where
  "proportional_debit total_reserved granted_volume used_volume granted_units used_units granted_time used_time =
     (if d_le total_reserved (Fin 0) then Fin 0
      else if \<not> d_less (Fin 0) granted_volume \<and> \<not> d_less (Fin 0) granted_units \<and> \<not> d_less (Fin 0) granted_time
      then total_reserved
      else
        let gw = granted_weight granted_volume granted_units granted_time;
            cw = consumed_weight granted_volume used_volume granted_units used_units granted_time used_time
        in if d_le gw (Fin 0) then total_reserved
           else d_clamp (d_mul total_reserved (d_div cw gw)) (Fin 0) total_reserved)"

section \<open>Lemmas on scopes\<close>

lemma any_equal_iff: "any_equal eq cs actual \<longleftrightarrow> (\<exists>c\<in>set cs. eq c actual)"
  by (induction cs) auto

lemma rating_group_loop_iff:
  "rating_group_loop cs rg \<longleftrightarrow> (\<exists>c\<in>set cs. is_number_integer c \<and> get_int64 c = rg)"
  by (induction cs) auto

text \<open>What one constraint of a scope asks of an attribute value.\<close>

definition satisfies :: "json_eq \<Rightarrow> json \<Rightarrow> json \<Rightarrow> bool" where
  "satisfies eq required actual \<longleftrightarrow>
     (case required of JArray cs \<Rightarrow> \<exists>c\<in>set cs. eq c actual | _ \<Rightarrow> eq required actual)"

lemma scope_loop_iff:
  "scope_loop eq kvs attributes \<longleftrightarrow>
     (\<forall>(key, required)\<in>set kvs. \<exists>actual. member attributes key = Some actual \<and> satisfies eq required actual)"
  by (induction eq kvs attributes rule: scope_loop.induct)
    (auto simp: any_equal_iff satisfies_def split: option.splits json.splits)

section \<open>Lemmas on amounts\<close>

text \<open>The finite non-negative doubles, the values grants and usage take.\<close>

definition amount :: "double \<Rightarrow> bool" where
  "amount d \<longleftrightarrow> is_double d \<and> d_isfinite d \<and> d_le (Fin 0) d"

lemma amount_Fin [simp]: "amount (Fin x) \<longleftrightarrow> round_double x = Fin x \<and> 0 \<le> x"
  by (auto simp: amount_def)

lemma amount_cases: "amount d \<Longrightarrow> (\<And>x. d = Fin x \<Longrightarrow> round_double x = Fin x \<Longrightarrow> 0 \<le> x \<Longrightarrow> P) \<Longrightarrow> P"
  by (cases d) (auto simp: amount_def)

lemma amount_min: "amount a \<Longrightarrow> amount b \<Longrightarrow> amount (d_min a b)"
  by (simp add: d_min_def)

lemma d_min_le: "amount a \<Longrightarrow> amount b \<Longrightarrow> d_le (d_min a b) b"
  by (auto simp: d_min_def elim!: amount_cases)

lemma d_min_mono: "amount a \<Longrightarrow> amount a' \<Longrightarrow> amount b \<Longrightarrow> d_le a a' \<Longrightarrow> d_le (d_min a b) (d_min a' b)"
  by (auto simp: d_min_def elim!: amount_cases)

text \<open>Weights: non-negative doubles, possibly the positive infinity.\<close>

definition weight :: "double \<Rightarrow> bool" where
  "weight d \<longleftrightarrow> is_double d \<and> d_le (Fin 0) d"

lemma amount_weight: "amount d \<Longrightarrow> weight d"
  by (simp add: amount_def weight_def)

lemma weight_add: "weight a \<Longrightarrow> weight b \<Longrightarrow> weight (d_add a b)"
  by (cases a; cases b) (auto simp: weight_def round_double_nonneg simp del: is_double.simps(1))

lemma d_add_mono:
  "weight a \<Longrightarrow> weight b \<Longrightarrow> weight x \<Longrightarrow> weight y \<Longrightarrow> d_le a b \<Longrightarrow> d_le x y \<Longrightarrow> d_le (d_add a x) (d_add b y)"
proof -
  have top: "d_le (round_double z) (Infty False)" for z
    by (cases "round_double z") auto
  show "weight a \<Longrightarrow> weight b \<Longrightarrow> weight x \<Longrightarrow> weight y \<Longrightarrow> d_le a b \<Longrightarrow> d_le x y \<Longrightarrow> d_le (d_add a x) (d_add b y)"
    by (cases a; cases b; cases x; cases y)
      (auto simp: weight_def top intro!: round_double_mono add_mono simp del: is_double.simps(1))
qed

lemma add_when_weight: "weight w \<Longrightarrow> weight a \<Longrightarrow> weight (add_when c w a)"
  by (simp add: add_when_def weight_add)

lemma add_when_mono:
  "weight w \<Longrightarrow> weight w' \<Longrightarrow> weight a \<Longrightarrow> weight a' \<Longrightarrow> d_le w w' \<Longrightarrow> d_le a a' \<Longrightarrow>
   d_le (add_when c w a) (add_when c w' a')"
  by (simp add: add_when_def d_add_mono)

lemma weight_Fin0 [simp]: "weight (Fin 0)"
  by (simp add: weight_def)

lemmas weight_intros = add_when_weight amount_weight amount_min weight_Fin0

lemma granted_weight_weight: "amount gv \<Longrightarrow> amount gu \<Longrightarrow> amount gt \<Longrightarrow> weight (granted_weight gv gu gt)"
  by (simp add: granted_weight_def weight_intros)

lemma consumed_weight_weight:
  "amount gv \<Longrightarrow> amount gu \<Longrightarrow> amount gt \<Longrightarrow> amount uv \<Longrightarrow> amount uu \<Longrightarrow> amount ut \<Longrightarrow>
   weight (consumed_weight gv uv gu uu gt ut)"
  by (simp add: consumed_weight_def weight_intros)

lemma consumed_le_granted:
  "amount gv \<Longrightarrow> amount gu \<Longrightarrow> amount gt \<Longrightarrow> amount uv \<Longrightarrow> amount uu \<Longrightarrow> amount ut \<Longrightarrow>
   d_le (consumed_weight gv uv gu uu gt ut) (granted_weight gv gu gt)"
  unfolding consumed_weight_def granted_weight_def
  by (intro add_when_mono weight_intros d_min_le) (auto simp: d_le_refl)

lemma consumed_mono:
  "amount gv \<Longrightarrow> amount gu \<Longrightarrow> amount gt \<Longrightarrow> amount uv \<Longrightarrow> amount uu \<Longrightarrow> amount ut \<Longrightarrow>
   amount uv' \<Longrightarrow> amount uu' \<Longrightarrow> amount ut' \<Longrightarrow> d_le uv uv' \<Longrightarrow> d_le uu uu' \<Longrightarrow> d_le ut ut' \<Longrightarrow>
   d_le (consumed_weight gv uv gu uu gt ut) (consumed_weight gv uv' gu uu' gt ut')"
  unfolding consumed_weight_def
  by (intro add_when_mono weight_intros d_min_mono) (auto simp: d_le_refl)

text \<open>Shapes in which the division and the product are evaluated.\<close>

lemma unit_interval:
  assumes "0 \<le> c" "c \<le> g" "0 < g"
  obtains f where "round_double (c / g) = Fin f" "0 \<le> f" "f \<le> 1"
proof -
  have "d_le (Fin 0) (round_double (c / g))" using assms by (intro round_double_nonneg) simp
  moreover have "d_le (round_double (c / g)) (Fin 1)" using assms by (intro round_double_le_double) auto
  ultimately show thesis by (cases "round_double (c / g)") (auto intro: that)
qed

lemma scaled_total:
  assumes "round_double t = Fin t" "0 \<le> t" "0 \<le> f" "f \<le> 1"
  obtains r where "round_double (t * f) = Fin r" "0 \<le> r" "r \<le> t"
proof -
  have "d_le (Fin 0) (round_double (t * f))" using assms by (intro round_double_nonneg) simp
  moreover have "d_le (round_double (t * f)) (Fin t)"
    using assms by (intro round_double_le_double) (auto simp: mult_left_le)
  ultimately show thesis by (cases "round_double (t * f)") (auto intro: that)
qed

lemma granted_weight_pos:
  assumes "amount gv" "amount gu" "amount gt" "d_less (Fin 0) gv \<or> d_less (Fin 0) gu \<or> d_less (Fin 0) gt"
  shows "\<not> d_le (granted_weight gv gu gt) (Fin 0)"
proof -
  have pos: "\<not> d_le (d_add w a) (Fin 0)" if "weight w" "amount a" "d_less (Fin 0) a" for w a
  proof -
    have "d_le (d_add (Fin 0) a) (d_add w a)"
      using that amount_weight [OF that(2)]
      by (intro d_add_mono) (auto simp: weight_def intro!: d_le_refl elim!: amount_cases)
    moreover have "d_add (Fin 0) a = a" using that by (auto elim!: amount_cases)
    ultimately show ?thesis using that by (cases "d_add w a") (auto elim!: amount_cases)
  qed
  have keep: "\<not> d_le (add_when c w a) (Fin 0)" if "weight w" "amount a" "\<not> d_le w (Fin 0)" for c w a
  proof -
    have "d_le (d_add w (Fin 0)) (d_add w a)"
      using that amount_weight [OF that(2)]
      by (intro d_add_mono) (auto simp: weight_def intro!: d_le_refl elim!: amount_cases)
    moreover have "d_add w (Fin 0) = w" using that by (cases w) (auto simp: weight_def)
    ultimately show ?thesis using that by (cases "d_add w a"; cases w) (auto simp: add_when_def)
  qed
  show ?thesis
    unfolding granted_weight_def
    using assms by (metis keep pos add_when_def weight_intros)
qed

lemma debit_value:
  assumes t: "amount (Fin t)" "0 < t"
    and a: "amount gv" "amount gu" "amount gt" "amount uv" "amount uu" "amount ut"
    and g: "d_less (Fin 0) gv \<or> d_less (Fin 0) gu \<or> d_less (Fin 0) gt"
    and fin: "granted_weight gv gu gt = Fin w"
  obtains c f r where "consumed_weight gv uv gu uu gt ut = Fin c" "0 \<le> c" "c \<le> w" "0 < w"
    "round_double (c / w) = Fin f" "0 \<le> f" "f \<le> 1"
    "round_double (t * f) = Fin r" "0 \<le> r" "r \<le> t"
    "proportional_debit (Fin t) gv uv gu uu gt ut = Fin r"
proof -
  have w: "0 < w" using granted_weight_pos [OF a(1-3) g] fin by simp
  obtain c where c: "consumed_weight gv uv gu uu gt ut = Fin c" "0 \<le> c" "c \<le> w"
    using consumed_weight_weight [OF a] consumed_le_granted [OF a] fin
    by (cases "consumed_weight gv uv gu uu gt ut") (auto simp: weight_def)
  obtain f where f: "round_double (c / w) = Fin f" "0 \<le> f" "f \<le> 1"
    using unit_interval [OF c(2,3) w] .
  obtain r where r: "round_double (t * f) = Fin r" "0 \<le> r" "r \<le> t"
    using scaled_total [of t f] t f by auto
  have "proportional_debit (Fin t) gv uv gu uu gt ut = Fin r"
    using t g fin c f r w by (auto simp: proportional_debit_def Let_def d_clamp_def)
  with c w f r show thesis by (intro that) auto
qed

section \<open>Properties\<close>

text \<open>An offering's scope matches a request exactly when every constraint of the
  scope names an attribute the request carries and the value satisfies it, an array meaning any
  of its elements; a scope that is not a non-empty object matches every request.\<close>

theorem charging_scope_matches_iff:
  "charging_scope_matches eq scope attributes \<longleftrightarrow>
   (\<forall>kvs. scope = JObject kvs \<longrightarrow>
      (\<forall>(key, required)\<in>set kvs. \<exists>actual. member attributes key = Some actual \<and> satisfies eq required actual))"
  by (cases scope) (auto simp: charging_scope_matches_def scope_loop_iff)

theorem charging_scope_matches_iff_witness:
  "charging_scope_matches (=) (JObject [(''sNSSAI'', JArray [JString ''1'', JString ''10''])])
     (JObject [(''dnnId'', JString ''internet''), (''sNSSAI'', JString ''10'')])"
proof -
  have "\<forall>(key, required)\<in>set [(''sNSSAI'', JArray [JString ''1'', JString ''10''])].
      \<exists>actual. member (JObject [(''dnnId'', JString ''internet''), (''sNSSAI'', JString ''10'')]) key = Some actual
        \<and> satisfies (=) required actual"
    by (simp add: satisfies_def)
  then show ?thesis by (subst charging_scope_matches_iff) auto
qed

text \<open>A scope that constrains less matches at least the requests a tighter scope
  matches, and a request that carries more attributes still matches.\<close>

theorem charging_scope_monotone:
  assumes "charging_scope_matches eq (JObject tight) attributes"
    and "set loose \<subseteq> set tight"
    and "\<And>key v. member attributes key = Some v \<Longrightarrow> member attributes' key = Some v"
  shows "charging_scope_matches eq (JObject loose) attributes'"
proof -
  have "scope_loop eq tight attributes" using assms(1)
    by (cases tight) (simp_all add: charging_scope_matches_def)
  then have "scope_loop eq loose attributes'"
    using assms(2,3) unfolding scope_loop_iff by fastforce
  then show ?thesis by (simp add: charging_scope_matches_def)
qed

theorem charging_scope_monotone_witness:
  "charging_scope_matches (=) (JObject [])
     (JObject [(''ratingGroup'', JUnsigned 1), (''dnnId'', JString ''ims'')])"
proof (rule charging_scope_monotone [where tight = "[(''ratingGroup'', JUnsigned 1)]"
      and attributes = "JObject [(''ratingGroup'', JUnsigned 1)]"])
  show "charging_scope_matches (=) (JObject [(''ratingGroup'', JUnsigned 1)]) (JObject [(''ratingGroup'', JUnsigned 1)])"
    by (simp add: charging_scope_matches_def)
qed (auto split: if_splits)


text \<open>A session that used up every dimension it was granted is debited its whole
  reservation and one that used nothing is debited nothing; no rounding error creeps in at
  either end.\<close>

theorem proportional_debit_extremes:
  assumes "amount (Fin t)" "0 < t" "amount gv" "amount gu" "amount gt"
    and "amount uv" "amount uu" "amount ut"
    and "d_less (Fin 0) gv \<or> d_less (Fin 0) gu \<or> d_less (Fin 0) gt"
    and "d_isfinite (granted_weight gv gu gt)"
  shows "(d_le gv uv \<and> d_le gu uu \<and> d_le gt ut \<longrightarrow> proportional_debit (Fin t) gv uv gu uu gt ut = Fin t) \<and>
    proportional_debit (Fin t) gv (Fin 0) gu (Fin 0) gt (Fin 0) = Fin 0"
proof (intro conjI impI)
  note t = assms(1,2) and a = assms(3-8) and g = assms(9)
  obtain w where fin: "granted_weight gv gu gt = Fin w" using assms(10) by (cases "granted_weight gv gu gt") auto
  show "proportional_debit (Fin t) gv uv gu uu gt ut = Fin t" if "d_le gv uv \<and> d_le gu uu \<and> d_le gt ut"
  proof -
    from that have "d_min uv gv = gv" "d_min uu gu = gu" "d_min ut gt = gt"
      using a by (auto simp: d_min_def elim!: amount_cases)
    then have cw: "consumed_weight gv uv gu uu gt ut = Fin w"
      using fin by (simp add: consumed_weight_def granted_weight_def)
    obtain c f r where r: "consumed_weight gv uv gu uu gt ut = Fin c" "0 < w" "round_double (c / w) = Fin f"
        "round_double (t * f) = Fin r" "proportional_debit (Fin t) gv uv gu uu gt ut = Fin r"
      using debit_value [OF t a g fin] by metis
    with cw t show ?thesis by (auto simp: amount_Fin)
  qed
  have z: "amount (Fin 0)" by simp
  have "d_min (Fin 0) d = Fin 0" if "amount d" for d using that by (auto simp: d_min_def elim!: amount_cases)
  then have cw: "consumed_weight gv (Fin 0) gu (Fin 0) gt (Fin 0) = Fin 0"
    using a by (simp add: consumed_weight_def add_when_def)
  obtain c f r where r: "consumed_weight gv (Fin 0) gu (Fin 0) gt (Fin 0) = Fin c" "round_double (c / w) = Fin f"
      "round_double (t * f) = Fin r" "proportional_debit (Fin t) gv (Fin 0) gu (Fin 0) gt (Fin 0) = Fin r"
    using debit_value [OF t a(1-3) z z z g fin] by metis
  with cw show "proportional_debit (Fin t) gv (Fin 0) gu (Fin 0) gt (Fin 0) = Fin 0" by auto
qed

text \<open>A subscriber who used at least as much in every dimension is never debited
  less, although volume, units and time are weighted together and every step rounds.\<close>

theorem proportional_debit_mono:
  assumes "amount (Fin t)" "0 < t" "amount gv" "amount gu" "amount gt"
    and "amount uv" "amount uu" "amount ut" "amount uv'" "amount uu'" "amount ut'"
    and "d_isfinite (granted_weight gv gu gt)"
    and "d_le uv uv'" "d_le uu uu'" "d_le ut ut'"
  shows "d_le (proportional_debit (Fin t) gv uv gu uu gt ut) (proportional_debit (Fin t) gv uv' gu uu' gt ut')"
proof (cases "d_less (Fin 0) gv \<or> d_less (Fin 0) gu \<or> d_less (Fin 0) gt")
  case g: True
  note t = assms(1,2) and a = assms(3-8) and a' = assms(9-11)
  obtain w where fin: "granted_weight gv gu gt = Fin w" using assms(12) by (cases "granted_weight gv gu gt") auto
  note mono = consumed_mono [OF a a' assms(13-15)]
  obtain c f r where 1: "consumed_weight gv uv gu uu gt ut = Fin c" "round_double (c / w) = Fin f" "0 < w"
    "round_double (t * f) = Fin r" "proportional_debit (Fin t) gv uv gu uu gt ut = Fin r"
    using debit_value [OF t a g fin] by metis
  obtain c' f' r' where 2: "consumed_weight gv uv' gu uu' gt ut' = Fin c'" "round_double (c' / w) = Fin f'"
    "round_double (t * f') = Fin r'" "proportional_debit (Fin t) gv uv' gu uu' gt ut' = Fin r'"
    using debit_value [OF t a(1-3) a' g fin] by metis
  have "c \<le> c'" using mono 1 2 by simp
  then have "c / w \<le> c' / w" using 1 by (simp add: divide_right_mono)
  from round_double_mono [OF this] 1 2 have "f \<le> f'" by simp
  then have "t * f \<le> t * f'" using t by simp
  from round_double_mono [OF this] 1 2 show ?thesis by simp
next
  case False
  with assms(2) show ?thesis by (simp add: proportional_debit_def)
qed

lemma amount_of_nat: "n \<le> 2 ^ 53 \<Longrightarrow> round_double (of_nat n) = Fin (of_nat n)"
  using d_of_nat_exact [of n] by (simp add: d_of_nat_def)

lemma amount_numerals:
  "round_double 10 = Fin 10" "round_double 4 = Fin 4" "round_double 3 = Fin 3" "round_double 30 = Fin 30"
  using amount_of_nat [of 10] amount_of_nat [of 4] amount_of_nat [of 3] amount_of_nat [of 30] by simp_all

text \<open>A reservation of 30 for 10 units of volume.\<close>

lemma granted_weight_10: "granted_weight (Fin 10) (Fin 0) (Fin 0) = Fin 10"
  by (simp add: granted_weight_def add_when_def amount_numerals)


theorem proportional_debit_extremes_witness:
  "proportional_debit (Fin 30) (Fin 10) (Fin 10) (Fin 0) (Fin 0) (Fin 0) (Fin 0) = Fin 30"
  using proportional_debit_extremes [of 30 "Fin 10" "Fin 0" "Fin 0" "Fin 10" "Fin 0" "Fin 0"]
  by (simp add: amount_numerals granted_weight_10)

theorem proportional_debit_mono_witness:
  "d_le (proportional_debit (Fin 30) (Fin 10) (Fin 3) (Fin 0) (Fin 0) (Fin 0) (Fin 0))
        (proportional_debit (Fin 30) (Fin 10) (Fin 4) (Fin 0) (Fin 0) (Fin 0) (Fin 0))"
  using proportional_debit_mono [of 30 "Fin 10" "Fin 0" "Fin 0" "Fin 3" "Fin 0" "Fin 0" "Fin 4" "Fin 0" "Fin 0"]
  by (simp add: amount_numerals granted_weight_10)

text \<open>A rating-group characteristic covers a request exactly when it is that integer
  or an array with that integer in it; any other kind of value covers no request.\<close>

theorem rating_group_matches_iff:
  "rating_group_matches characteristic rg \<longleftrightarrow>
   (is_number_integer characteristic \<and> get_int64 characteristic = rg) \<or>
   (\<exists>cs. characteristic = JArray cs \<and> (\<exists>c\<in>set cs. is_number_integer c \<and> get_int64 c = rg))"
  by (cases characteristic) (auto simp: rating_group_matches_def rating_group_loop_iff)

end
