(* ===== verification/Bss_Types.thy ===== *)
theory Bss_Types
  imports Ieee_Double
begin

text \<open>
  The two value types the charging function and the balance ledger share
  (\<open>libs/bss-sid/include/bss_sid/product.hpp\<close>), and \<open>std::optional::value_or\<close>.
\<close>

record money =
  money_unit :: "string option"
  money_value :: "double option"

record quantity =
  qty_amount :: "double option"
  qty_units :: "string option"

definition value_or :: "'a \<Rightarrow> 'a option \<Rightarrow> 'a" where
  "value_or d x = (case x of Some v \<Rightarrow> v | None \<Rightarrow> d)"

lemma value_or_simps [simp]: "value_or d (Some v) = v" "value_or d None = d"
  by (simp_all add: value_or_def)

lemma value_or_False [simp]: "value_or False x \<longleftrightarrow> x = Some True"
  by (cases x) auto

lemma value_or_Nil_eq: "v \<noteq> [] \<Longrightarrow> value_or [] x = v \<longleftrightarrow> x = Some v"
  by (cases x) auto

end
