(* ===== verification/Rating_Engine.thy ===== *)
theory Rating_Engine
  imports Charging_Rules Bss_Types "HOL-Library.Monad_Syntax"
begin

text \<open>
  The rating engine of the charging function: matching an offering and its price against a
  request and building the grant (\<open>try_rate_against\<close> and \<open>build_rating_grant\<close> of
  \<open>nfs/chf/src/charging_engine.cpp\<close>) and the in-memory catalogue
  (\<open>nfs/chf/src/catalog_snapshot.cpp\<close>). The product catalogue's answers, the usage history and
  the quota-sizing model are arguments. A result \<open>None\<close> is undefined behaviour, here a
  floating-point value converted to an integer type that cannot hold it.
\<close>

type_synonym int64 = "64 word"

section \<open>Data\<close>

record characteristic =
  ch_name :: "string option"
  ch_values :: "json list"

record offering_price =
  pr_id :: "string option"
  pr_name :: "string option"
  pr_version :: "string option"
  pr_characteristics :: "characteristic list"
  pr_unit_of_measure :: "quantity option"
  pr_price :: "money option"

record offering =
  of_name :: "string option"
  of_is_sellable :: "bool option"
  of_lifecycle_status :: "string option"
  of_price_refs :: "string list"

record granted_unit =
  gu_total_volume :: "64 word option"
  gu_time :: "32 word option"
  gu_service_specific_units :: "64 word option"

definition empty_grant :: granted_unit where
  "empty_grant = \<lparr>gu_total_volume = None, gu_time = None, gu_service_specific_units = None\<rparr>"

record ai_advisory =
  adv_model_version :: string
  adv_features :: "double list"
  adv_predicted :: double
  adv_base :: double
  adv_raw_multiplier :: double
  adv_applied_multiplier :: double
  adv_clamped_low :: bool
  adv_clamped_high :: bool

record rating_result =
  rr_grant :: "granted_unit option"
  rr_cost :: "money option"
  rr_tariff_id :: "string option"
  rr_tariff_version :: "string option"
  rr_offering_name :: "string option"
  rr_price_name :: "string option"
  rr_pool_octets_per_second :: double
  rr_pool_octets_per_service_unit :: double
  rr_validity_time :: "int64 option"
  rr_quota_holding_time :: "int64 option"
  rr_volume_quota_threshold :: "int64 option"
  rr_time_quota_threshold :: "int64 option"
  rr_unit_quota_threshold :: "int64 option"
  rr_ai_advisory :: "ai_advisory option"

definition empty_result :: rating_result where
  "empty_result = \<lparr>rr_grant = None, rr_cost = None, rr_tariff_id = None, rr_tariff_version = None,
     rr_offering_name = None, rr_price_name = None, rr_pool_octets_per_second = Fin 0,
     rr_pool_octets_per_service_unit = Fin 0, rr_validity_time = None, rr_quota_holding_time = None,
     rr_volume_quota_threshold = None, rr_time_quota_threshold = None, rr_unit_quota_threshold = None,
     rr_ai_advisory = None\<rparr>"

text \<open>What the AI path reads: the sizing model (enabled), the usage history and the clock.\<close>

record quota_history =
  recent_used_volumes :: "double list"
  last_invocation_unix_sec :: "int64 option"
  last_granted_total_volume :: "double option"

record advisor =
  ad_predict :: "double list \<Rightarrow> double option"
  ad_model_version :: string
  ad_history :: "string \<Rightarrow> int64 \<Rightarrow> quota_history option"
  ad_now_unix :: int64

record match_attempt =
  matched :: bool
  attempt_result :: "rating_result option"

section \<open>Characteristics\<close>

fun find_characteristic_value :: "characteristic list \<Rightarrow> string \<Rightarrow> json option" where
  "find_characteristic_value [] name = None"
| "find_characteristic_value (c # cs) name =
     (if value_or [] (ch_name c) \<noteq> name \<or> ch_values c = [] then find_characteristic_value cs name
      else Some (hd (ch_values c)))"

definition integer_characteristic :: "characteristic list \<Rightarrow> string \<Rightarrow> int64 option" where
  "integer_characteristic cs name =
     (case find_characteristic_value cs name of
        Some v \<Rightarrow> if is_number_integer v then Some (get_int64 v) else None
      | None \<Rightarrow> None)"

section \<open>Grants\<close>

text \<open>\<open>std::toupper\<close> in the C locale.\<close>

definition to_upper :: "char \<Rightarrow> char" where
  "to_upper c = (let n = of_char c :: nat in if 97 \<le> n \<and> n \<le> 122 then char_of (n - 32) else c)"

definition to_u64 :: "double \<Rightarrow> 64 word checked" where
  "to_u64 d = map_option word_of_nat (d_to_unsigned 64 d)"

definition to_u32 :: "double \<Rightarrow> 32 word checked" where
  "to_u32 d = map_option word_of_nat (d_to_unsigned 32 d)"

definition unit_grant :: "string \<Rightarrow> double \<Rightarrow> granted_unit checked" where
  "unit_grant units amt =
     (let u = map to_upper units;
          volume = (\<lambda>d. do { v \<leftarrow> to_u64 d; Some (empty_grant \<lparr>gu_total_volume := Some v\<rparr>) });
          duration = (\<lambda>d. do { t \<leftarrow> to_u32 d; Some (empty_grant \<lparr>gu_time := Some t\<rparr>) })
      in if u = ''GB'' then volume (d_mul amt (Fin 1000000000))
         else if u = ''MB'' then volume (d_mul amt (Fin 1000000))
         else if u \<in> {''SEC'', ''SECOND'', ''SECONDS'', ''S''} then duration amt
         else if u \<in> {''MIN'', ''MINUTE'', ''MINUTES''} then duration (d_mul amt (Fin 60))
         else if u \<in> {''HOUR'', ''HOURS'', ''HR'', ''H''} then duration (d_mul amt (Fin 3600))
         else if u \<in> {''DAY'', ''DAYS''} then duration (d_mul amt (Fin 86400))
         else do { n \<leftarrow> to_u64 amt; Some (empty_grant \<lparr>gu_service_specific_units := Some n\<rparr>) })"

text \<open>The log line at the end of \<open>try_rate_against\<close> reads one of the grant's optionals,
  chosen by the exact spelling of the units. It has no effect on the result; whether the optional
  it reads is there is a matter of its own.\<close>

definition log_reads_present_optional :: "string \<Rightarrow> granted_unit \<Rightarrow> bool" where
  "log_reads_present_optional units g =
     (if units = ''GB'' \<or> units = ''MB'' then gu_total_volume g \<noteq> None
      else gu_service_specific_units g \<noteq> None)"

text \<open>The difference of two time points in \<open>int64_t\<close>; overflow is undefined.\<close>

definition seconds_between :: "int64 \<Rightarrow> int64 \<Rightarrow> double checked" where
  "seconds_between now t =
     (let d = sint now - sint t
      in if - (2 ^ 63) \<le> d \<and> d < 2 ^ 63 then Some (round_double (of_int d)) else None)"

definition features_of :: "quota_history \<Rightarrow> int64 \<Rightarrow> double list checked" where
  "features_of h now =
     (let used = recent_used_volumes h in do {
        elapsed \<leftarrow> (case last_invocation_unix_sec h of Some t \<Rightarrow> seconds_between now t | None \<Rightarrow> Some (Fin 0));
        Some [d_div (foldl d_add (Fin 0) used) (d_of_nat (length used)),
              if 2 \<le> length used then d_add (used ! 0) (d_neg (used ! 1)) else Fin 0,
              elapsed,
              value_or (Fin 0) (last_granted_total_volume h)] })"

definition clamp_multiplier :: "double \<Rightarrow> double" where
  "clamp_multiplier raw = d_clamp raw (Fin (1 / 2)) (Fin 2)"

definition size_grant ::
  "advisor option \<Rightarrow> string \<Rightarrow> int64 \<Rightarrow> granted_unit \<Rightarrow> (granted_unit \<times> ai_advisory option) checked" where
  "size_grant adv supi rating_group g =
     (case (gu_total_volume g, adv) of
        (Some volume, Some a) \<Rightarrow>
          if volume = 0 \<or> supi = [] then Some (g, None)
          else (case ad_history a supi rating_group of
                  None \<Rightarrow> Some (g, None)
                | Some h \<Rightarrow>
                    if recent_used_volumes h = [] then Some (g, None)
                    else do {
                      features \<leftarrow> features_of h (ad_now_unix a);
                      (case ad_predict a features of
                         None \<Rightarrow> Some (g, None)
                       | Some predicted \<Rightarrow>
                           (let base = d_of_nat (unat volume);
                                raw = d_div predicted base;
                                multiplier = clamp_multiplier raw
                            in do {
                              v \<leftarrow> to_u64 (d_mul base multiplier);
                              Some (g \<lparr>gu_total_volume := Some v\<rparr>,
                                Some \<lparr>adv_model_version = ad_model_version a, adv_features = features,
                                  adv_predicted = predicted, adv_base = base, adv_raw_multiplier = raw,
                                  adv_applied_multiplier = multiplier,
                                  adv_clamped_low = d_less raw (Fin (1 / 2)),
                                  adv_clamped_high = d_less (Fin 2) raw\<rparr>) })) })
      | _ \<Rightarrow> Some (g, None))"

section \<open>Matching one price\<close>

definition try_rate_against ::
  "json_eq \<Rightarrow> advisor option \<Rightarrow> string \<Rightarrow> int64 \<Rightarrow> json \<Rightarrow> offering \<Rightarrow> offering_price \<Rightarrow> match_attempt checked" where
  "try_rate_against eq adv supi rating_group attributes off price =
     (let cs = pr_characteristics price;
          no_match = Some \<lparr>matched = False, attempt_result = None\<rparr>
      in if \<not> value_or False (of_is_sellable off) \<or> value_or [] (of_lifecycle_status off) \<noteq> ''Active'' then no_match
         else (case find_characteristic_value cs ''ratingGroup'' of
           None \<Rightarrow> no_match
         | Some rg \<Rightarrow>
             if \<not> rating_group_matches rg rating_group then no_match
             else if (case find_characteristic_value cs ''chargingScope'' of
                        Some scope \<Rightarrow> \<not> charging_scope_matches eq scope attributes | None \<Rightarrow> False) then no_match
             else (case Option.bind (pr_unit_of_measure price) (\<lambda>q. map_option (\<lambda>x. (x, q)) (qty_amount q)) of
                None \<Rightarrow> Some \<lparr>matched = True, attempt_result = None\<rparr>
              | Some (amt, q) \<Rightarrow> do {
                  let pooling = parse_unit_pooling (find_characteristic_value cs ''unitPooling'');
                  base \<leftarrow> unit_grant (value_or [] (qty_units q)) amt;
                  (g, advisory) \<leftarrow> size_grant adv supi rating_group base;
                  Some \<lparr>matched = True, attempt_result = Some \<lparr>
                    rr_grant = Some g, rr_cost = pr_price price, rr_tariff_id = pr_id price,
                    rr_tariff_version = pr_version price, rr_offering_name = of_name off,
                    rr_price_name = pr_name price,
                    rr_pool_octets_per_second = value_or (Fin 0) (octets_per_second pooling),
                    rr_pool_octets_per_service_unit = value_or (Fin 0) (octets_per_service_unit pooling),
                    rr_validity_time = integer_characteristic cs ''validityTime'',
                    rr_quota_holding_time = integer_characteristic cs ''quotaHoldingTime'',
                    rr_volume_quota_threshold = integer_characteristic cs ''volumeQuotaThreshold'',
                    rr_time_quota_threshold = integer_characteristic cs ''timeQuotaThreshold'',
                    rr_unit_quota_threshold = integer_characteristic cs ''unitQuotaThreshold'',
                    rr_ai_advisory = advisory\<rparr>\<rparr> })))"

section \<open>The catalogue snapshot\<close>

record catalog_snapshot =
  cs_candidates :: "(offering \<times> offering_price) list"
  cs_ready :: bool
  cs_generation :: "64 word"

text \<open>What the two collection requests of a refresh answered: \<open>None\<close> for an unreachable
  catalogue, another status than 200 or a body that does not parse.\<close>

record catalog_answers =
  ans_offerings :: "offering list option"
  ans_prices :: "offering_price list option"

text \<open>\<open>price_by_id\<close>: \<open>emplace\<close> keeps the first price with an identifier.\<close>

fun price_by_id :: "offering_price list \<Rightarrow> string \<Rightarrow> offering_price option" where
  "price_by_id [] i = None"
| "price_by_id (p # ps) i = (if pr_id p = Some i then Some p else price_by_id ps i)"

fun candidates_of :: "offering list \<Rightarrow> (string \<Rightarrow> offering_price option) \<Rightarrow> (offering \<times> offering_price) list" where
  "candidates_of [] prices = []"
| "candidates_of (off # offs) prices =
     (case of_price_refs off of
        [] \<Rightarrow> candidates_of offs prices
      | ref # _ \<Rightarrow>
          (case prices ref of
             None \<Rightarrow> candidates_of offs prices
           | Some p \<Rightarrow> (off, p) # candidates_of offs prices))"

definition refresh :: "catalog_answers \<Rightarrow> catalog_snapshot \<Rightarrow> bool \<times> catalog_snapshot" where
  "refresh ans s =
     (case (ans_offerings ans, ans_prices ans) of
        (Some offs, Some prices) \<Rightarrow>
          (True, \<lparr>cs_candidates = candidates_of offs (price_by_id prices), cs_ready = True,
                  cs_generation = cs_generation s + 1\<rparr>)
      | _ \<Rightarrow> (False, s))"

section \<open>Choosing a price\<close>

fun scan_candidates ::
  "(offering \<Rightarrow> offering_price \<Rightarrow> match_attempt checked) \<Rightarrow> (offering \<times> offering_price) list \<Rightarrow> rating_result checked" where
  "scan_candidates rate [] = Some empty_result"
| "scan_candidates rate ((off, p) # rest) = do {
     attempt \<leftarrow> rate off p;
     if matched attempt then Some (value_or empty_result (attempt_result attempt))
     else scan_candidates rate rest }"

text \<open>The live path: \<open>get_price\<close> is the answer of one request per offering, \<open>None\<close> when it
  fails or does not parse.\<close>

fun live_loop ::
  "(offering \<Rightarrow> offering_price \<Rightarrow> match_attempt checked) \<Rightarrow> (string \<Rightarrow> offering_price option) \<Rightarrow>
   offering list \<Rightarrow> rating_result checked" where
  "live_loop rate get_price [] = Some empty_result"
| "live_loop rate get_price (off # offs) =
     (case of_price_refs off of
        [] \<Rightarrow> live_loop rate get_price offs
      | ref # _ \<Rightarrow>
          (case get_price ref of
             None \<Rightarrow> live_loop rate get_price offs
           | Some p \<Rightarrow> do {
               attempt \<leftarrow> rate off p;
               if matched attempt then Some (value_or empty_result (attempt_result attempt))
               else live_loop rate get_price offs }))"

definition build_rating_grant ::
  "json_eq \<Rightarrow> advisor option \<Rightarrow> catalog_snapshot option \<Rightarrow> offering list option \<Rightarrow>
   (string \<Rightarrow> offering_price option) \<Rightarrow> int64 \<Rightarrow> string \<Rightarrow> json \<Rightarrow> rating_result checked" where
  "build_rating_grant eq adv snapshot get_offerings get_price rating_group supi attributes =
     (let rate = try_rate_against eq adv supi rating_group attributes in
      if (case snapshot of Some s \<Rightarrow> cs_ready s | None \<Rightarrow> False)
      then scan_candidates rate (case snapshot of Some s \<Rightarrow> cs_candidates s | None \<Rightarrow> [])
      else (case get_offerings of None \<Rightarrow> Some empty_result | Some offs \<Rightarrow> live_loop rate get_price offs))"

section \<open>Eligibility\<close>

text \<open>What a price must satisfy to be chosen, as one condition.\<close>

definition eligible :: "json_eq \<Rightarrow> int64 \<Rightarrow> json \<Rightarrow> offering \<Rightarrow> offering_price \<Rightarrow> bool" where
  "eligible eq rating_group attributes off price \<longleftrightarrow>
     of_is_sellable off = Some True \<and> of_lifecycle_status off = Some ''Active'' \<and>
     (case find_characteristic_value (pr_characteristics price) ''ratingGroup'' of
        Some rg \<Rightarrow> rating_group_matches rg rating_group | None \<Rightarrow> False) \<and>
     (case find_characteristic_value (pr_characteristics price) ''chargingScope'' of
        Some scope \<Rightarrow> charging_scope_matches eq scope attributes | None \<Rightarrow> True)"

lemma try_rate_against_not_eligible:
  "\<not> eligible eq rg attrs off p \<Longrightarrow>
   try_rate_against eq adv supi rg attrs off p = Some \<lparr>matched = False, attempt_result = None\<rparr>"
  by (auto simp: eligible_def try_rate_against_def Let_def value_or_Nil_eq split: option.splits)

lemma try_rate_against_eligible:
  "eligible eq rg attrs off p \<Longrightarrow> try_rate_against eq adv supi rg attrs off p = Some m \<Longrightarrow> matched m"
  by (auto simp: eligible_def try_rate_against_def Let_def
      split: option.splits if_splits bind_splits)

lemma scan_candidates_skip:
  "(\<And>c. c \<in> set pre \<Longrightarrow> \<not> eligible eq rg attrs (fst c) (snd c)) \<Longrightarrow>
   scan_candidates (try_rate_against eq adv supi rg attrs) (pre @ rest) =
   scan_candidates (try_rate_against eq adv supi rg attrs) rest"
  by (induction pre) (auto simp: try_rate_against_not_eligible)

text \<open>The live loop visits the same pairs as the snapshot's scan.\<close>

lemma live_loop_candidates:
  "live_loop rate get_price offs = scan_candidates rate (candidates_of offs get_price)"
  by (induction offs) (auto split: list.splits option.splits cong: if_cong)

lemma refresh_Some:
  "ans_offerings ans = Some offs \<Longrightarrow> ans_prices ans = Some prices \<Longrightarrow>
   refresh ans s = (True, \<lparr>cs_candidates = candidates_of offs (price_by_id prices), cs_ready = True,
     cs_generation = cs_generation s + 1\<rparr>)"
  by (simp add: refresh_def)

section \<open>Sizing\<close>

lemma clamp_multiplier_bounds:
  "d \<noteq> NaN \<Longrightarrow> \<exists>m. clamp_multiplier d = Fin m \<and> 1 / 2 \<le> m \<and> m \<le> 2"
  by (cases d) (auto simp: clamp_multiplier_def d_clamp_def intro: exI [of _ "1 / 2"])

lemma d_div_not_NaN: "d \<noteq> NaN \<Longrightarrow> y \<noteq> 0 \<Longrightarrow> d_div d (Fin y) \<noteq> NaN"
  by (cases d) auto

text \<open>Scaling a count of at most \<open>2^52\<close> by a multiplier between a half and two.\<close>

lemma scaled_count:
  assumes "n \<le> 2 ^ 52" "1 / 2 \<le> m" "m \<le> 2"
  shows "\<exists>k. to_u64 (d_mul (d_of_nat n) (Fin m)) = Some (word_of_nat k) \<and> n div 2 \<le> k \<and> k \<le> 2 * n"
proof -
  let ?x = "of_nat n * m"
  have low: "of_nat (n div 2) \<le> ?x"
  proof -
    have "2 * (n div 2) \<le> n"
      by simp
    then have "of_nat (2 * (n div 2)) \<le> (of_nat n :: rat)"
      by (simp only: of_nat_le_iff)
    moreover have "of_nat n * (1 / 2) \<le> ?x"
      by (intro mult_left_mono assms) simp
    ultimately show ?thesis
      by simp
  qed
  have high: "?x \<le> of_nat (2 * n)"
    using mult_left_mono [OF assms(3), of "of_nat n :: rat"] by simp
  have exact: "round_double (of_nat j) = Fin (of_nat j)" if "j \<le> 2 ^ 53" for j
    using d_of_nat_exact [OF that] by (simp add: d_of_nat_def)
  have "d_le (Fin (of_nat (n div 2))) (round_double ?x)"
    using round_double_mono [OF low] exact [of "n div 2"] assms(1) by simp
  moreover have "d_le (round_double ?x) (Fin (of_nat (2 * n)))"
    using round_double_mono [OF high] exact [of "2 * n"] assms(1) by simp
  ultimately obtain r where r: "round_double ?x = Fin r" "of_nat (n div 2) \<le> r" "r \<le> of_nat (2 * n)"
    by (cases "round_double ?x") (auto split: if_splits)
  have "(of_nat (2 * n) :: rat) \<le> of_nat (2 ^ 53)"
    using assms(1) by (simp only: of_nat_le_iff) simp
  then have "r < 2 ^ 64"
    using r(3) by simp
  moreover have "- 1 < r"
    using r(2) by (rule less_le_trans [rotated]) (simp add: less_le_trans [OF _ of_nat_0_le_iff])
  moreover have "n div 2 \<le> nat \<lfloor>r\<rfloor>"
  proof -
    have "int (n div 2) \<le> \<lfloor>r\<rfloor>"
      using r(2) by (simp add: le_floor_iff del: of_nat_div)
    then show ?thesis by simp
  qed
  moreover have "nat \<lfloor>r\<rfloor> \<le> 2 * n"
  proof -
    have "\<lfloor>r\<rfloor> \<le> \<lfloor>of_nat (2 * n) :: rat\<rfloor>"
      using r(3) by (rule floor_mono)
    then show ?thesis
      by (simp del: of_nat_mult)
  qed
  ultimately show ?thesis
    using r(1) assms(1) d_of_nat_exact [of n] by (simp add: to_u64_def) blast
qed

text \<open>The shape of a grant before sizing: exactly one of the three counters is set.\<close>

definition known_unit_names :: "string list" where
  "known_unit_names =
     [''GB'', ''MB'', ''SEC'', ''SECOND'', ''SECONDS'', ''S'', ''MIN'', ''MINUTE'', ''MINUTES'',
      ''HOUR'', ''HOURS'', ''HR'', ''H'', ''DAY'', ''DAYS'']"

lemma bind_Some_eq: "Option.bind m (\<lambda>x. Some (f x)) = map_option f m"
  by (cases m) auto

lemma unit_grant_shape:
  assumes "unit_grant units amt = Some g"
  shows "(gu_total_volume g \<noteq> None) = (map to_upper units \<in> {''GB'', ''MB''})"
    "(gu_service_specific_units g \<noteq> None) = (map to_upper units \<notin> set known_unit_names)"
    "(gu_time g \<noteq> None) = (map to_upper units \<in> set known_unit_names - {''GB'', ''MB''})"
  using assms
  by (auto simp: unit_grant_def Let_def known_unit_names_def empty_grant_def bind_Some_eq split: if_splits)

text \<open>The advisor behaves: predictions are numbers and the clock and the recorded times are not
  before the epoch.\<close>

definition well_behaved :: "advisor \<Rightarrow> bool" where
  "well_behaved a \<longleftrightarrow>
     (\<forall>f. ad_predict a f \<noteq> Some NaN) \<and> 0 \<le> sint (ad_now_unix a) \<and>
     (\<forall>s rg h t. ad_history a s rg = Some h \<and> last_invocation_unix_sec h = Some t \<longrightarrow> 0 \<le> sint t)"

lemma features_of_defined:
  assumes "well_behaved a" "ad_history a supi rg = Some h"
  shows "\<exists>f. features_of h (ad_now_unix a) = Some f"
proof -
  have "\<exists>d. seconds_between (ad_now_unix a) t = Some d" if "last_invocation_unix_sec h = Some t" for t
  proof -
    have "0 \<le> sint (ad_now_unix a)" "0 \<le> sint t"
      using assms that by (auto simp: well_behaved_def)
    moreover have "sint (ad_now_unix a) < 2 ^ 63" "sint t < 2 ^ 63"
      using sint_less [of "ad_now_unix a"] sint_less [of t] by simp_all
    ultimately show ?thesis
      by (simp add: seconds_between_def Let_def)
  qed
  then show ?thesis
    by (cases "last_invocation_unix_sec h") (auto simp: features_of_def Let_def)
qed

section \<open>Properties\<close>

text \<open>With a ready snapshot the rating engine answers from the first candidate, in
  catalogue order, whose offering is sellable and active, whose rating group matches and whose
  charging scope admits the request's attributes; every earlier candidate is skipped. With no such
  candidate it grants nothing.\<close>

theorem build_rating_grant_first_match:
  assumes "cs_ready snap"
    and "cs_candidates snap = pre @ rest"
    and "\<forall>c \<in> set pre. \<not> eligible eq rg attrs (fst c) (snd c)"
    and "rest \<noteq> [] \<longrightarrow> eligible eq rg attrs (fst (hd rest)) (snd (hd rest))"
  shows "build_rating_grant eq adv (Some snap) live get_price rg supi attrs =
    (if rest = [] then Some empty_result
     else map_option (\<lambda>m. value_or empty_result (attempt_result m))
            (try_rate_against eq adv supi rg attrs (fst (hd rest)) (snd (hd rest))))"
proof -
  let ?rate = "try_rate_against eq adv supi rg attrs"
  have "build_rating_grant eq adv (Some snap) live get_price rg supi attrs = scan_candidates ?rate rest"
    using assms(1-3) by (simp add: build_rating_grant_def Let_def scan_candidates_skip)
  also have "\<dots> = (if rest = [] then Some empty_result
     else map_option (\<lambda>m. value_or empty_result (attempt_result m)) (?rate (fst (hd rest)) (snd (hd rest))))"
    using assms(4) by (cases rest; cases "?rate (fst (hd rest)) (snd (hd rest))")
      (auto dest: try_rate_against_eligible)
  finally show ?thesis .
qed

text \<open>Property C12: rating from the in-memory catalogue gives the same answer as rating by live
  requests, when the snapshot was refreshed from the same offering list and a request for a price
  would have returned the listed price of that identifier.\<close>

theorem snapshot_equals_live:
  assumes "ans_offerings ans = Some offs" "ans_prices ans = Some prices"
    and "\<forall>i. get_price i = price_by_id prices i"
  shows "build_rating_grant eq adv (Some (snd (refresh ans snap))) live get_other rg supi attrs =
         build_rating_grant eq adv None (Some offs) get_price rg supi attrs"
proof -
  have "get_price = price_by_id prices"
    using assms(3) by (simp add: fun_eq_iff)
  then show ?thesis
    using assms(1, 2) by (simp add: build_rating_grant_def Let_def refresh_Some live_loop_candidates)
qed

text \<open>The quota-sizing model can only scale a volume grant between half and twice its
  priced size, whatever it predicts, never touches the other counters, and the conversion back to
  an integer is defined.\<close>

theorem size_grant_bounded:
  assumes "case adv of Some a \<Rightarrow> well_behaved a | None \<Rightarrow> True"
    and "\<forall>v. gu_total_volume g = Some v \<longrightarrow> unat v \<le> 2 ^ 52"
  shows "\<exists>g' advisory. size_grant adv supi rg g = Some (g', advisory) \<and>
    gu_time g' = gu_time g \<and> gu_service_specific_units g' = gu_service_specific_units g \<and>
    (gu_total_volume g' = None) = (gu_total_volume g = None) \<and>
    (\<forall>v v'. gu_total_volume g = Some v \<and> gu_total_volume g' = Some v' \<longrightarrow>
       unat v div 2 \<le> unat v' \<and> unat v' \<le> 2 * unat v)"
proof (cases "\<exists>a v h. adv = Some a \<and> gu_total_volume g = Some v \<and> v \<noteq> 0 \<and> supi \<noteq> [] \<and>
    ad_history a supi rg = Some h \<and> recent_used_volumes h \<noteq> []")
  case False
  then have "size_grant adv supi rg g = Some (g, None)"
    by (auto simp: size_grant_def split: option.splits)
  then show ?thesis
    by auto
next
  case True
  then obtain a v h where a: "adv = Some a" "gu_total_volume g = Some v" "v \<noteq> 0" "supi \<noteq> []"
    "ad_history a supi rg = Some h" "recent_used_volumes h \<noteq> []" by blast
  then have ok: "well_behaved a" and le: "unat v \<le> 2 ^ 52"
    using assms by auto
  obtain f where f: "features_of h (ad_now_unix a) = Some f"
    using features_of_defined [OF ok a(5)] by blast
  show ?thesis
  proof (cases "ad_predict a f")
    case None
    then show ?thesis
      using a f by (simp add: size_grant_def)
  next
    case (Some d)
    have base: "d_of_nat (unat v) = Fin (of_nat (unat v))"
      using le by (intro d_of_nat_exact) simp
    have "d \<noteq> NaN"
      using ok Some by (auto simp: well_behaved_def)
    moreover have "(of_nat (unat v) :: rat) \<noteq> 0"
      using a(3) by (simp only: of_nat_eq_0_iff unsigned_eq_0_iff) simp
    ultimately obtain m where m: "clamp_multiplier (d_div d (d_of_nat (unat v))) = Fin m" "1 / 2 \<le> m" "m \<le> 2"
      using clamp_multiplier_bounds d_div_not_NaN base by metis
    obtain k where k: "to_u64 (d_mul (d_of_nat (unat v)) (Fin m)) = Some (word_of_nat k)"
      "unat v div 2 \<le> k" "k \<le> 2 * unat v"
      using scaled_count [OF le m(2, 3)] by blast
    have "k < 2 ^ 64"
      using k(3) le by simp
    then have "unat (word_of_nat k :: u64) = k"
      by (simp add: unsigned_of_nat take_bit_nat_eq_self)
    then show ?thesis
      using a f Some m(1) k by (simp add: size_grant_def Let_def)
  qed
qed

text \<open>Property C12: the log line that ends \<open>try_rate_against\<close> reads an optional that is set only
  when the units are spelled exactly GB or MB, or name no unit the engine knows; for every
  duration price, and for \<open>gb\<close> or \<open>Mb\<close>, it reads an empty one.\<close>

theorem rating_log_reads_present_iff:
  assumes "unit_grant units amt = Some base" "size_grant adv supi rg base = Some (g, advisory)"
  shows "log_reads_present_optional units g \<longleftrightarrow>
    units = ''GB'' \<or> units = ''MB'' \<or> map to_upper units \<notin> set known_unit_names"
proof -
  have keep: "(gu_total_volume g \<noteq> None) = (gu_total_volume base \<noteq> None)"
    "gu_service_specific_units g = gu_service_specific_units base"
    using assms(2) by (auto simp: size_grant_def Let_def split: option.splits if_splits bind_splits)
  have upper: "map to_upper ''GB'' = ''GB''" "map to_upper ''MB'' = ''MB''"
    by (simp_all add: to_upper_def)
  show ?thesis
    using keep unit_grant_shape [OF assms(1)] upper
    by (auto simp: log_reads_present_optional_def known_unit_names_def)
qed

section \<open>Concrete instances\<close>

definition sample_characteristic :: "string \<Rightarrow> json \<Rightarrow> characteristic" where
  "sample_characteristic name v = \<lparr>ch_name = Some name, ch_values = [v]\<rparr>"

definition sample_price :: "string \<Rightarrow> string \<Rightarrow> int64 \<Rightarrow> offering_price" where
  "sample_price i units rg =
     \<lparr>pr_id = Some i, pr_name = None, pr_version = None,
      pr_characteristics = [sample_characteristic ''ratingGroup'' (JInt rg)],
      pr_unit_of_measure = Some \<lparr>qty_amount = Some (Fin 3), qty_units = Some units\<rparr>,
      pr_price = None\<rparr>"

definition sample_offering :: "string \<Rightarrow> string \<Rightarrow> offering" where
  "sample_offering status ref =
     \<lparr>of_name = None, of_is_sellable = Some True, of_lifecycle_status = Some status, of_price_refs = [ref]\<rparr>"

definition sample_snapshot :: catalog_snapshot where
  "sample_snapshot =
     \<lparr>cs_candidates = [(sample_offering ''Retired'' ''p1'', sample_price ''p1'' ''MIN'' 7),
                       (sample_offering ''Active'' ''p2'', sample_price ''p2'' ''MIN'' 7)],
      cs_ready = True, cs_generation = 1\<rparr>"

lemmas sample_defs = sample_characteristic_def sample_price_def sample_offering_def sample_snapshot_def

definition sample_advisor :: advisor where
  "sample_advisor =
     \<lparr>ad_predict = (\<lambda>f. Some (Fin 5000)), ad_model_version = ''v1'',
      ad_history = (\<lambda>s rg. Some \<lparr>recent_used_volumes = [Fin 10], last_invocation_unix_sec = None,
                                 last_granted_total_volume = None\<rparr>),
      ad_now_unix = 0\<rparr>"

theorem build_rating_grant_first_match_witness:
  "build_rating_grant (=) None (Some sample_snapshot) None (\<lambda>_. None) 7 ''imsi-1'' JNull =
     map_option (\<lambda>m. value_or empty_result (attempt_result m))
       (try_rate_against (=) None ''imsi-1'' 7 JNull (sample_offering ''Active'' ''p2'') (sample_price ''p2'' ''MIN'' 7))"
  using build_rating_grant_first_match [of sample_snapshot
      "[(sample_offering ''Retired'' ''p1'', sample_price ''p1'' ''MIN'' 7)]"
      "[(sample_offering ''Active'' ''p2'', sample_price ''p2'' ''MIN'' 7)]" "(=)" 7 JNull None None
      "\<lambda>_. None" "''imsi-1''"]
  by (simp add: sample_defs eligible_def rating_group_matches_def)

theorem snapshot_equals_live_witness:
  "build_rating_grant (=) None
     (Some (snd (refresh \<lparr>ans_offerings = Some [sample_offering ''Active'' ''p2''],
                         ans_prices = Some [sample_price ''p1'' ''GB'' 7, sample_price ''p2'' ''MIN'' 7]\<rparr>
                  \<lparr>cs_candidates = [], cs_ready = False, cs_generation = 0\<rparr>)))
     None (\<lambda>_. None) 7 ''imsi-1'' JNull =
   build_rating_grant (=) None None (Some [sample_offering ''Active'' ''p2''])
     (price_by_id [sample_price ''p1'' ''GB'' 7, sample_price ''p2'' ''MIN'' 7]) 7 ''imsi-1'' JNull"
  by (rule snapshot_equals_live [where prices = "[sample_price ''p1'' ''GB'' 7, sample_price ''p2'' ''MIN'' 7]"])
    simp_all

theorem size_grant_bounded_witness:
  "\<exists>g' advisory. size_grant (Some sample_advisor) ''imsi-1'' 7
     (empty_grant \<lparr>gu_total_volume := Some 1000\<rparr>) = Some (g', advisory) \<and>
     (\<forall>v'. gu_total_volume g' = Some v' \<longrightarrow> 500 \<le> unat v' \<and> unat v' \<le> 2000)"
  using size_grant_bounded [of "Some sample_advisor" "empty_grant \<lparr>gu_total_volume := Some 1000\<rparr>" "''imsi-1''" 7]
  by (auto simp: well_behaved_def sample_advisor_def empty_grant_def)

theorem rating_log_reads_present_iff_witness:
  "unit_grant ''MIN'' (Fin 0) = Some (empty_grant \<lparr>gu_time := Some 0\<rparr>) \<and>
   \<not> log_reads_present_optional ''MIN'' (empty_grant \<lparr>gu_time := Some 0\<rparr>)"
proof -
  have g: "unit_grant ''MIN'' (Fin 0) = Some (empty_grant \<lparr>gu_time := Some 0\<rparr>)"
    by (simp add: unit_grant_def to_upper_def to_u32_def)
  have "size_grant None [] 0 (empty_grant \<lparr>gu_time := Some 0\<rparr>) = Some (empty_grant \<lparr>gu_time := Some 0\<rparr>, None)"
    by (simp add: size_grant_def empty_grant_def)
  from rating_log_reads_present_iff [OF g this] g show ?thesis
    by (simp add: known_unit_names_def to_upper_def)
qed

end
