(* ===== verification/Decimal_Text.thy ===== *)
theory Decimal_Text
  imports Prelude
begin

text \<open>
  Decimal text as the C++ standard library reads and prints it: \<open>std::to_string\<close> on a
  non-negative integer and \<open>std::from_chars\<close> on a run of digits into \<open>std::int64_t\<close>.
\<close>

definition is_digit :: "char \<Rightarrow> bool" where
  "is_digit c \<longleftrightarrow> 48 \<le> (of_char c :: nat) \<and> (of_char c :: nat) \<le> 57"

definition digit_char :: "nat \<Rightarrow> char" where
  "digit_char d = char_of (48 + d)"

definition digit_value :: "char \<Rightarrow> nat" where
  "digit_value c = of_char c - 48"

definition digits_value :: "string \<Rightarrow> nat" where
  "digits_value s = foldl (\<lambda>v c. 10 * v + digit_value c) 0 s"

fun to_string_nat :: "nat \<Rightarrow> string" where
  "to_string_nat n = (if n < 10 then [digit_char n] else to_string_nat (n div 10) @ [digit_char (n mod 10)])"

declare to_string_nat.simps [simp del]

definition from_chars_int64 :: "string \<Rightarrow> int option" where
  "from_chars_int64 s =
     (if s = [] \<or> \<not> list_all is_digit s then None
      else if int (digits_value s) < 2 ^ 63 then Some (int (digits_value s)) else None)"

lemma of_char_digit_char [simp]: "d < 10 \<Longrightarrow> of_char (digit_char d) = (48 + d :: nat)"
  by (simp add: digit_char_def)

lemma is_digit_digit_char [simp]: "d < 10 \<Longrightarrow> is_digit (digit_char d)"
  by (simp add: is_digit_def)

lemma digit_value_digit_char [simp]: "d < 10 \<Longrightarrow> digit_value (digit_char d) = d"
  by (simp add: digit_value_def)

lemma digit_value_less [simp]: "is_digit c \<Longrightarrow> digit_value c < 10"
  unfolding is_digit_def digit_value_def by linarith

lemma is_digit_zero [simp]: "is_digit (CHR ''0'')" "digit_value (CHR ''0'') = 0"
  by (simp_all add: is_digit_def digit_value_def)

lemma not_is_digit [simp]: "\<not> is_digit (CHR ''.'')" "\<not> is_digit (CHR ''-'')" "\<not> is_digit (CHR ''+'')"
  by (simp_all add: is_digit_def)

lemma digits_value_Nil [simp]: "digits_value [] = 0"
  by (simp add: digits_value_def)

lemma digits_value_snoc: "digits_value (s @ [c]) = 10 * digits_value s + digit_value c"
  by (simp add: digits_value_def)

lemma digits_value_append:
  "digits_value (s @ t) = digits_value s * 10 ^ length t + digits_value t"
proof (induction t rule: rev_induct)
  case (snoc c t)
  have "digits_value (s @ t @ [c]) = 10 * digits_value (s @ t) + digit_value c"
    using digits_value_snoc [of "s @ t" c] by simp
  also have "\<dots> = digits_value s * 10 ^ length (t @ [c]) + digits_value (t @ [c])"
    by (simp add: snoc.IH digits_value_snoc algebra_simps)
  finally show ?case by simp
qed simp

lemma digits_value_zeros [simp]: "digits_value (replicate n (CHR ''0'')) = 0"
proof (induction n)
  case (Suc n)
  then show ?case
    using digits_value_snoc [of "replicate n (CHR ''0'')" "CHR ''0''"]
    by (simp add: replicate_append_same)
qed simp

lemma digits_value_less: "list_all is_digit s \<Longrightarrow> digits_value s < 10 ^ length s"
proof (induction s rule: rev_induct)
  case (snoc c s)
  then have "digits_value s < 10 ^ length s" "digit_value c < 10" by auto
  then show ?case by (simp add: digits_value_snoc)
qed simp

lemma to_string_nat_digits [simp]: "list_all is_digit (to_string_nat n)"
  by (induction n rule: to_string_nat.induct) (subst to_string_nat.simps, auto)

lemma to_string_nat_nonempty [simp]: "to_string_nat n \<noteq> []"
  by (subst to_string_nat.simps) simp

lemma digits_value_to_string_nat [simp]: "digits_value (to_string_nat n) = n"
proof (induction n rule: to_string_nat.induct)
  case (1 n)
  then show ?case
    by (subst to_string_nat.simps) (auto simp: digits_value_snoc digits_value_def)
qed

lemma to_string_nat_inj: "to_string_nat m = to_string_nat n \<Longrightarrow> m = n"
  by (metis digits_value_to_string_nat)

lemma length_to_string_nat: "0 < k \<Longrightarrow> n < 10 ^ k \<Longrightarrow> length (to_string_nat n) \<le> k"
proof (induction n arbitrary: k rule: to_string_nat.induct)
  case (1 n)
  show ?case
  proof (cases "n < 10")
    case True
    with 1 show ?thesis by (subst to_string_nat.simps) simp
  next
    case False
    have "k \<noteq> 1" using 1(3) False by auto
    with 1(2) have j: "k = Suc (k - 1)" "0 < k - 1" by auto
    have "n < 10 * 10 ^ (k - 1)" using 1(3) j by (metis power_Suc)
    with j False have "length (to_string_nat (n div 10)) \<le> k - 1"
      by (intro "1.IH") auto
    with j False show ?thesis by (subst to_string_nat.simps) simp
  qed
qed

lemma from_chars_digits [simp]:
  "s \<noteq> [] \<Longrightarrow> list_all is_digit s \<Longrightarrow> int (digits_value s) < 2 ^ 63 \<Longrightarrow>
   from_chars_int64 s = Some (int (digits_value s))"
  by (simp add: from_chars_int64_def)

lemma takeWhile_digits [simp]:
  "list_all is_digit s \<Longrightarrow> takeWhile is_digit s = s"
  "list_all is_digit s \<Longrightarrow> dropWhile is_digit s = []"
  "list_all is_digit s \<Longrightarrow> \<not> is_digit c \<Longrightarrow> takeWhile is_digit (s @ c # t) = s"
  "list_all is_digit s \<Longrightarrow> \<not> is_digit c \<Longrightarrow> dropWhile is_digit (s @ c # t) = c # t"
  by (induction s) auto

end
