(* ===== verification/Chf_Stores.thy ===== *)
theory Chf_Stores
  imports Rating_Engine Decimal_Text
begin

text \<open>
  The charging function's stores (\<open>nfs/chf/src/stores.cpp\<close>): charging sessions, offline
  charging sessions, spending-limit subscriptions, policy counters and the usage history that
  sizes quotas. Each lives in Redis, as a counter, a set of active references and hashes by
  reference. A hash field that holds a number is modelled by the double it reads back as;
  \<open>hincr\<close>, what a field reads as after Redis \<open>HINCRBYFLOAT\<close>, is a parameter.
\<close>

section \<open>Numbers in hash fields\<close>

text \<open>\<open>std::stod(std::to_string(d))\<close>: six decimals, read back.\<close>

fun through_text :: "double \<Rightarrow> double" where
  "through_text (Fin x) = round_double (of_int (round_half_even (x * 10 ^ 6)) / 10 ^ 6)"
| "through_text d = d"

type_synonym hincr = "double option \<Rightarrow> double \<Rightarrow> double"

section \<open>Charging sessions\<close>

record session =
  se_supi :: "string option"
  se_reserved_total :: "double option"
  se_granted_volume :: "double option"
  se_granted_service_units :: "double option"
  se_granted_time :: "double option"
  se_pool_octets_per_second :: "double option"
  se_pool_octets_per_service_unit :: "double option"

definition empty_session :: session where
  "empty_session =
     \<lparr>se_supi = None, se_reserved_total = None, se_granted_volume = None, se_granted_service_units = None,
      se_granted_time = None, se_pool_octets_per_second = None, se_pool_octets_per_service_unit = None\<rparr>"

record charging_data_store =
  cd_next_id :: nat
  cd_active :: "string set"
  cd_content :: "string \<Rightarrow> session"

definition empty_charging_data_store :: charging_data_store where
  "empty_charging_data_store = \<lparr>cd_next_id = 0, cd_active = {}, cd_content = (\<lambda>_. empty_session)\<rparr>"

definition update_session :: "string \<Rightarrow> (session \<Rightarrow> session) \<Rightarrow> charging_data_store \<Rightarrow> charging_data_store" where
  "update_session ref f s = s \<lparr>cd_content := (cd_content s)(ref := f (cd_content s ref))\<rparr>"

definition create_session :: "string \<Rightarrow> charging_data_store \<Rightarrow> string \<times> charging_data_store" where
  "create_session supi s =
     (let i = Suc (cd_next_id s);
          ref = ''chg-'' @ to_string_nat i
      in (ref, update_session ref (\<lambda>se. se \<lparr>se_supi := Some supi, se_reserved_total := Some (Fin 0)\<rparr>)
                 (s \<lparr>cd_next_id := i, cd_active := insert ref (cd_active s)\<rparr>)))"

text \<open>The content outlives the session.\<close>

definition release_session :: "string \<Rightarrow> charging_data_store \<Rightarrow> bool \<times> charging_data_store" where
  "release_session ref s = (ref \<in> cd_active s, s \<lparr>cd_active := cd_active s - {ref}\<rparr>)"

definition is_active_session :: "charging_data_store \<Rightarrow> string \<Rightarrow> bool" where
  "is_active_session s ref \<longleftrightarrow> ref \<in> cd_active s"

definition get_supi :: "charging_data_store \<Rightarrow> string \<Rightarrow> string option" where
  "get_supi s ref = se_supi (cd_content s ref)"

definition add_reserved :: "hincr \<Rightarrow> string \<Rightarrow> double \<Rightarrow> charging_data_store \<Rightarrow> charging_data_store" where
  "add_reserved hincr ref amt =
     update_session ref (\<lambda>se. se \<lparr>se_reserved_total := Some (hincr (se_reserved_total se) amt)\<rparr>)"

definition get_reserved_total :: "charging_data_store \<Rightarrow> string \<Rightarrow> double" where
  "get_reserved_total s ref = value_or (Fin 0) (se_reserved_total (cd_content s ref))"

definition add_granted_time :: "hincr \<Rightarrow> string \<Rightarrow> double \<Rightarrow> charging_data_store \<Rightarrow> charging_data_store" where
  "add_granted_time hincr ref seconds =
     update_session ref (\<lambda>se. se \<lparr>se_granted_time := Some (hincr (se_granted_time se) seconds)\<rparr>)"

definition get_granted_time :: "charging_data_store \<Rightarrow> string \<Rightarrow> double" where
  "get_granted_time s ref = value_or (Fin 0) (se_granted_time (cd_content s ref))"

definition add_granted_volume :: "hincr \<Rightarrow> string \<Rightarrow> double \<Rightarrow> charging_data_store \<Rightarrow> charging_data_store" where
  "add_granted_volume hincr ref octets =
     update_session ref (\<lambda>se. se \<lparr>se_granted_volume := Some (hincr (se_granted_volume se) octets)\<rparr>)"

definition get_granted_volume :: "charging_data_store \<Rightarrow> string \<Rightarrow> double" where
  "get_granted_volume s ref = value_or (Fin 0) (se_granted_volume (cd_content s ref))"

definition add_granted_service_units :: "hincr \<Rightarrow> string \<Rightarrow> double \<Rightarrow> charging_data_store \<Rightarrow> charging_data_store" where
  "add_granted_service_units hincr ref units =
     update_session ref (\<lambda>se. se \<lparr>se_granted_service_units := Some (hincr (se_granted_service_units se) units)\<rparr>)"

definition get_granted_service_units :: "charging_data_store \<Rightarrow> string \<Rightarrow> double" where
  "get_granted_service_units s ref = value_or (Fin 0) (se_granted_service_units (cd_content s ref))"

text \<open>Set, not added: a rate of zero leaves the stored one.\<close>

definition set_unit_pooling :: "string \<Rightarrow> double \<Rightarrow> double \<Rightarrow> charging_data_store \<Rightarrow> charging_data_store" where
  "set_unit_pooling ref per_second per_unit =
     update_session ref (\<lambda>se.
       (let se = (if d_less (Fin 0) per_second
                  then se \<lparr>se_pool_octets_per_second := Some (through_text per_second)\<rparr> else se)
        in if d_less (Fin 0) per_unit
           then se \<lparr>se_pool_octets_per_service_unit := Some (through_text per_unit)\<rparr> else se))"

definition get_unit_pooling :: "charging_data_store \<Rightarrow> string \<Rightarrow> double \<times> double" where
  "get_unit_pooling s ref =
     (value_or (Fin 0) (se_pool_octets_per_second (cd_content s ref)),
      value_or (Fin 0) (se_pool_octets_per_service_unit (cd_content s ref)))"

section \<open>Offline charging sessions\<close>

record offline_store =
  off_next_id :: nat
  off_active :: "string set"

definition create_offline :: "offline_store \<Rightarrow> string \<times> offline_store" where
  "create_offline s =
     (let i = Suc (off_next_id s); ref = ''offchg-'' @ to_string_nat i
      in (ref, \<lparr>off_next_id = i, off_active = insert ref (off_active s)\<rparr>))"

definition release_offline :: "string \<Rightarrow> offline_store \<Rightarrow> bool \<times> offline_store" where
  "release_offline ref s = (ref \<in> off_active s, s \<lparr>off_active := off_active s - {ref}\<rparr>)"

definition is_active_offline :: "offline_store \<Rightarrow> string \<Rightarrow> bool" where
  "is_active_offline s ref \<longleftrightarrow> ref \<in> off_active s"

section \<open>Spending-limit subscriptions\<close>

record spending_limit_context =
  sl_supi :: "string option"
  sl_notif_id :: "string option"
  sl_expiry :: "string option"
  sl_supported_features :: "string option"
  sl_policy_counter_ids :: "string list option"

record subscription_store =
  sub_next_id :: nat
  sub_active :: "string set"
  sub_content :: "string \<Rightarrow> spending_limit_context option"

definition create_subscription :: "spending_limit_context \<Rightarrow> subscription_store \<Rightarrow> string \<times> subscription_store" where
  "create_subscription context s =
     (let i = Suc (sub_next_id s); sub_id = ''sub-'' @ to_string_nat i
      in (sub_id, \<lparr>sub_next_id = i, sub_active = insert sub_id (sub_active s),
                   sub_content = (sub_content s)(sub_id := Some context)\<rparr>))"

definition update_subscription :: "string \<Rightarrow> spending_limit_context \<Rightarrow> subscription_store \<Rightarrow> bool \<times> subscription_store" where
  "update_subscription i context s =
     (if sub_content s i = None then (False, s)
      else (True, s \<lparr>sub_content := (sub_content s)(i := Some context)\<rparr>))"

definition remove_subscription :: "string \<Rightarrow> subscription_store \<Rightarrow> bool \<times> subscription_store" where
  "remove_subscription i s =
     (sub_content s i \<noteq> None,
      s \<lparr>sub_active := sub_active s - {i}, sub_content := (sub_content s)(i := None)\<rparr>)"

definition get_subscription :: "subscription_store \<Rightarrow> string \<Rightarrow> spending_limit_context option" where
  "get_subscription s i = sub_content s i"

text \<open>\<open>members\<close> is the order in which Redis lists a set.\<close>

definition list_all_subscriptions ::
  "(string set \<Rightarrow> string list) \<Rightarrow> subscription_store \<Rightarrow> (string \<times> spending_limit_context) list" where
  "list_all_subscriptions members s =
     concat (map (\<lambda>i. case get_subscription s i of Some c \<Rightarrow> [(i, c)] | None \<Rightarrow> []) (members (sub_active s)))"

section \<open>Policy counters\<close>

type_synonym counter_store = "string \<Rightarrow> string option"

definition set_status :: "string \<Rightarrow> string \<Rightarrow> counter_store \<Rightarrow> counter_store" where
  "set_status counter_id status s = s(counter_id := Some status)"

definition get_status :: "counter_store \<Rightarrow> string \<Rightarrow> string option" where
  "get_status s counter_id = s counter_id"

text \<open>\<open>build_spending_limit_status\<close>; its counters go into a JSON object, one entry per
  identifier.\<close>

record spending_limit_status =
  sls_supi :: "string option"
  sls_notif_id :: "string option"
  sls_expiry :: "string option"
  sls_supported_features :: "string option"
  sls_status_infos :: "string \<Rightarrow> string option"

definition build_spending_limit_status :: "spending_limit_context \<Rightarrow> counter_store \<Rightarrow> spending_limit_status" where
  "build_spending_limit_status context counters =
     \<lparr>sls_supi = sl_supi context, sls_notif_id = sl_notif_id context, sls_expiry = sl_expiry context,
      sls_supported_features = sl_supported_features context,
      sls_status_infos =
        foldl (\<lambda>infos i. infos(i := Some (value_or ''unknown'' (get_status counters i)))) (\<lambda>_. None)
          (value_or [] (sl_policy_counter_ids context))\<rparr>"

section \<open>Usage history\<close>

record quota_window =
  qw_u1 :: "double option"
  qw_u2 :: "double option"
  qw_u3 :: "double option"
  qw_ts :: "int64 option"
  qw_granted :: "double option"

type_synonym quota_store = "string \<Rightarrow> int64 \<Rightarrow> quota_window"

definition empty_window :: quota_window where
  "empty_window = \<lparr>qw_u1 = None, qw_u2 = None, qw_u3 = None, qw_ts = None, qw_granted = None\<rparr>"

definition get_history :: "quota_store \<Rightarrow> string \<Rightarrow> int64 \<Rightarrow> quota_history option" where
  "get_history s supi rg =
     (let w = s supi rg in
      if qw_u1 w = None then None
      else Some \<lparr>recent_used_volumes =
                   concat (map (\<lambda>v. case v of Some x \<Rightarrow> [x] | None \<Rightarrow> []) [qw_u1 w, qw_u2 w, qw_u3 w]),
                 last_invocation_unix_sec = qw_ts w, last_granted_total_volume = qw_granted w\<rparr>)"

definition record_usage :: "string \<Rightarrow> int64 \<Rightarrow> double \<Rightarrow> double option \<Rightarrow> int64 \<Rightarrow> quota_store \<Rightarrow> quota_store" where
  "record_usage supi rg used granted now s =
     (let w = s supi rg;
          w' = \<lparr>qw_u1 = Some (through_text used),
                qw_u2 = (case qw_u1 w of Some u \<Rightarrow> Some u | None \<Rightarrow> qw_u2 w),
                qw_u3 = (case qw_u2 w of Some u \<Rightarrow> Some u | None \<Rightarrow> qw_u3 w),
                qw_ts = Some now,
                qw_granted = (case granted of Some g \<Rightarrow> Some (through_text g) | None \<Rightarrow> qw_granted w)\<rparr>
      in s(supi := (s supi)(rg := w')))"

section \<open>References\<close>

text \<open>The three stores hand out references and take them back. A history of both, with the answers.\<close>

datatype 'a ref_call = Issue 'a | Retire string
datatype ref_answer = Issued string | Retired string bool

fun run_refs ::
  "('a \<Rightarrow> 's \<Rightarrow> string \<times> 's) \<Rightarrow> (string \<Rightarrow> 's \<Rightarrow> bool \<times> 's) \<Rightarrow> 'a ref_call list \<Rightarrow> 's \<Rightarrow> ref_answer list \<times> 's" where
  "run_refs issue retire [] s = ([], s)"
| "run_refs issue retire (Issue x # cs) s =
     (let (r, s1) = issue x s; (as, s2) = run_refs issue retire cs s1 in (Issued r # as, s2))"
| "run_refs issue retire (Retire r # cs) s =
     (let (b, s1) = retire r s; (as, s2) = run_refs issue retire cs s1 in (Retired r b # as, s2))"

definition answers :: "ref_answer list \<Rightarrow> ref_answer \<Rightarrow> nat" where
  "answers as a = length (filter (\<lambda>x. x = a) as)"

lemma answers_simps [simp]:
  "answers [] a = 0" "answers (x # as) a = (if x = a then Suc (answers as a) else answers as a)"
  by (simp_all add: answers_def)

locale reference_store =
  fixes issue :: "'a \<Rightarrow> 's \<Rightarrow> string \<times> 's"
    and retire :: "string \<Rightarrow> 's \<Rightarrow> bool \<times> 's"
    and live issued :: "'s \<Rightarrow> string set"
    and sane :: "'s \<Rightarrow> bool"
  assumes issue_law: "sane s \<Longrightarrow> issue x s = (r, s') \<Longrightarrow>
      sane s' \<and> r \<notin> issued s \<and> issued s' = insert r (issued s) \<and> live s' = insert r (live s)"
    and retire_law: "sane s \<Longrightarrow> retire r s = (b, s') \<Longrightarrow>
      sane s' \<and> b = (r \<in> live s) \<and> issued s' = issued s \<and> live s' = live s - {r}"
    and live_issued: "sane s \<Longrightarrow> live s \<subseteq> issued s"
begin

lemma answers_bounded:
  assumes "sane s" "run_refs issue retire cs s = (as, s')"
  shows "answers as (Issued r) \<le> (if r \<in> issued s then 0 else 1) \<and>
    answers as (Retired r True) \<le> answers as (Issued r) + (if r \<in> live s then 1 else 0)"
  using assms
proof (induction cs arbitrary: s as)
  case Nil
  then show ?case by simp
next
  case (Cons c cs)
  show ?case
  proof (cases c)
    case (Issue x)
    obtain q s1 where q: "issue x s = (q, s1)" by fastforce
    obtain bs where bs: "run_refs issue retire cs s1 = (bs, s')" "as = Issued q # bs"
      using Cons.prems(2) q Issue by (auto split: prod.splits)
    note law = issue_law [OF Cons.prems(1) q]
    have "r \<in> live s \<Longrightarrow> r \<in> issued s"
      using live_issued [OF Cons.prems(1)] by blast
    then show ?thesis
      using Cons.IH [OF conjunct1 [OF law] bs(1)] law bs(2) by (auto split: if_splits)
  next
    case (Retire q)
    obtain b s1 where q: "retire q s = (b, s1)" by fastforce
    obtain bs where bs: "run_refs issue retire cs s1 = (bs, s')" "as = Retired q b # bs"
      using Cons.prems(2) q Retire by (auto split: prod.splits)
    note law = retire_law [OF Cons.prems(1) q]
    show ?thesis
      using Cons.IH [OF conjunct1 [OF law] bs(1)] law bs(2) by (auto split: if_splits)
  qed
qed

end

definition issued_by :: "string \<Rightarrow> nat \<Rightarrow> string set" where
  "issued_by prefix n = (\<lambda>k. prefix @ to_string_nat k) ` {1..n}"

lemma issued_by_Suc: "issued_by prefix (Suc n) = insert (prefix @ to_string_nat (Suc n)) (issued_by prefix n)"
  by (auto simp: issued_by_def atLeastAtMostSuc_conv)

lemma issued_by_fresh: "prefix @ to_string_nat (Suc n) \<notin> issued_by prefix n"
  by (auto simp: issued_by_def dest: to_string_nat_inj)

lemmas fresh_references =
  issued_by_fresh [of "''chg-''", simplified] issued_by_fresh [of "''offchg-''", simplified]
  issued_by_fresh [of "''sub-''", simplified]

interpretation sessions: reference_store create_session release_session cd_active
  "\<lambda>s. issued_by ''chg-'' (cd_next_id s)" "\<lambda>s. cd_active s \<subseteq> issued_by ''chg-'' (cd_next_id s)"
  by unfold_locales
    (auto simp: create_session_def release_session_def update_session_def Let_def issued_by_Suc fresh_references)

interpretation offline: reference_store "\<lambda>u::unit. create_offline" release_offline off_active
  "\<lambda>s. issued_by ''offchg-'' (off_next_id s)" "\<lambda>s. off_active s \<subseteq> issued_by ''offchg-'' (off_next_id s)"
  by unfold_locales
    (auto simp: create_offline_def release_offline_def Let_def issued_by_Suc fresh_references)

interpretation subscriptions: reference_store create_subscription remove_subscription "\<lambda>s. dom (sub_content s)"
  "\<lambda>s. issued_by ''sub-'' (sub_next_id s)"
  "\<lambda>s. sub_active s = dom (sub_content s) \<and> dom (sub_content s) \<subseteq> issued_by ''sub-'' (sub_next_id s)"
  by unfold_locales
    (auto simp: create_subscription_def remove_subscription_def Let_def issued_by_Suc fresh_references)

section \<open>Properties\<close>

text \<open>Property C14: over any history of creations and releases, in any order and by any number of
  clients, no charging session gets the reference of another, and at most one release of a
  reference succeeds, only if the session was created: the balance is finalised at most once for
  a session, since that is done only after a release that succeeded.\<close>

theorem session_released_once:
  "answers (fst (run_refs create_session release_session cs empty_charging_data_store)) (Issued ref) \<le> 1 \<and>
   answers (fst (run_refs create_session release_session cs empty_charging_data_store)) (Retired ref True) \<le>
   answers (fst (run_refs create_session release_session cs empty_charging_data_store)) (Issued ref)"
proof -
  obtain as s' where r: "run_refs create_session release_session cs empty_charging_data_store = (as, s')"
    by fastforce
  show ?thesis
    using sessions.answers_bounded [OF _ r, of ref] unfolding r
    by (simp add: empty_charging_data_store_def issued_by_def)
qed

end
