(* ===== verification/Rfc3339.thy ===== *)
theory Rfc3339
  imports Decimal_Text "HOL-Library.Monad_Syntax"
begin

text \<open>
  Time stamps (\<open>libs/sbi-core/src/datetime.cpp\<close>): printing and parsing RFC 3339 date-times.
  A time point is a count of nanoseconds since 1970-01-01 in a signed 64-bit integer, as in
  \<open>std::chrono::system_clock\<close> of libstdc++; a sum that leaves that range is signed overflow,
  shown as the outer \<open>None\<close>. The calendar is the one of \<open>std::chrono\<close>: days are
  counted in eras of 400 years that start on 1 March.
\<close>

section \<open>The civil calendar\<close>

definition is_leap :: "int \<Rightarrow> bool" where
  "is_leap y \<longleftrightarrow> y mod 4 = 0 \<and> (y mod 100 \<noteq> 0 \<or> y mod 400 = 0)"

definition last_day_of_month :: "int \<Rightarrow> int \<Rightarrow> int" where
  "last_day_of_month y m =
     (if m = 2 then (if is_leap y then 29 else 28) else if m \<in> {4, 6, 9, 11} then 30 else 31)"

definition ymd_ok :: "int \<Rightarrow> int \<Rightarrow> int \<Rightarrow> bool" where
  "ymd_ok y m d \<longleftrightarrow> 1 \<le> m \<and> m \<le> 12 \<and> 1 \<le> d \<and> d \<le> last_day_of_month y m"

text \<open>Days of a month of the year that starts in March, and of the days before it.\<close>

definition month_start :: "int \<Rightarrow> int" where
  "month_start mp = (153 * mp + 2) div 5"

definition days_from_civil :: "int \<Rightarrow> int \<Rightarrow> int \<Rightarrow> int" where
  "days_from_civil y m d =
     (let y' = (if m \<le> 2 then y - 1 else y);
          yoe = y' mod 400;
          doy = month_start (if m > 2 then m - 3 else m + 9) + d - 1
      in (y' div 400) * 146097 + yoe * 365 + yoe div 4 - yoe div 100 + doy - 719468)"

definition civil_from_days :: "int \<Rightarrow> int \<times> int \<times> int" where
  "civil_from_days z =
     (let z' = z + 719468;
          doe = z' mod 146097;
          n100 = min 3 (doe div 36524);
          r = doe - n100 * 36524;
          n4 = r div 1461;
          r' = r - n4 * 1461;
          n1 = min 3 (r' div 365);
          doy = r' - n1 * 365;
          mp = (5 * doy + 2) div 153;
          y = (z' div 146097) * 400 + n100 * 100 + n4 * 4 + n1
      in (if mp < 10 then y else y + 1, if mp < 10 then mp + 3 else mp - 9, doy - month_start mp + 1))"

section \<open>Printing\<close>

definition padded :: "nat \<Rightarrow> nat \<Rightarrow> string" where
  "padded w n = replicate (w - length (to_string_nat n)) (CHR ''0'') @ to_string_nat n"

definition padded_int :: "nat \<Rightarrow> int \<Rightarrow> string" where
  "padded_int w v = (if v < 0 then ''-'' @ padded (w - 1) (nat (- v)) else padded w (nat v))"

abbreviation ns_per_ms :: int where "ns_per_ms \<equiv> 1000000"
abbreviation ms_per_day :: int where "ms_per_day \<equiv> 86400000"

definition format_rfc3339 :: "int \<Rightarrow> string" where
  "format_rfc3339 tp =
     (let ms = tp div ns_per_ms;
          t = ms mod ms_per_day
      in case civil_from_days (ms div ms_per_day) of (y, m, d) \<Rightarrow>
           padded_int 4 y @ ''-'' @ padded 2 (nat m) @ ''-'' @ padded 2 (nat d) @ ''T'' @
           padded 2 (nat (t div 3600000)) @ '':'' @ padded 2 (nat (t div 60000 mod 60)) @ '':'' @
           padded 2 (nat (t div 1000 mod 60)) @ ''.'' @ padded 3 (nat (t mod 1000)) @ ''Z'')"

section \<open>Parsing\<close>

definition read_digits :: "string \<Rightarrow> nat \<Rightarrow> nat \<Rightarrow> int option" where
  "read_digits s pos len =
     (if length s < pos + len then None
      else if list_all is_digit (take len (drop pos s)) then Some (int (digits_value (take len (drop pos s))))
      else None)"

text \<open>The digits of a fraction: three count, the rest are read and dropped. The result is the
  milliseconds and the position after the digits.\<close>

function frac_loop :: "string \<Rightarrow> nat \<Rightarrow> int \<Rightarrow> int \<Rightarrow> int \<times> nat" where
  "frac_loop s pos scale ms =
     (if pos < length s \<and> is_digit (s ! pos) then
        (if scale > 0 then frac_loop s (pos + 1) (scale div 10) (ms + int (digit_value (s ! pos)) * scale)
         else frac_loop s (pos + 1) scale ms)
      else (ms, pos))"
  by auto
termination by (relation "measure (\<lambda>(s, pos, scale, ms). length s - pos)") auto

declare frac_loop.simps [simp del]

definition parse_fraction :: "string \<Rightarrow> nat \<Rightarrow> (int \<times> nat) option" where
  "parse_fraction s pos =
     (if pos < length s \<and> s ! pos = CHR ''.'' then
        (case frac_loop s (pos + 1) 100 0 of
           (ms, pos') \<Rightarrow> if pos' = pos + 1 then None else Some (ms, pos'))
      else Some (0, pos))"

text \<open>The offset in minutes and the position after it.\<close>

definition parse_offset :: "string \<Rightarrow> nat \<Rightarrow> (int \<times> nat) option" where
  "parse_offset s pos =
     (if length s \<le> pos then None
      else if s ! pos = CHR ''Z'' \<or> s ! pos = CHR ''z'' then Some (0, pos + 1)
      else if s ! pos = CHR ''+'' \<or> s ! pos = CHR ''-'' then
        (case read_digits s (pos + 1) 2 of
           None \<Rightarrow> None
         | Some oh \<Rightarrow>
             if length s \<le> pos + 3 \<or> s ! (pos + 3) \<noteq> CHR '':'' then None
             else (case read_digits s (pos + 4) 2 of
                     None \<Rightarrow> None
                   | Some om \<Rightarrow>
                       if oh > 23 \<or> om > 59 then None
                       else Some ((if s ! pos = CHR ''-'' then - 1 else 1) * (oh * 60 + om), pos + 6)))
      else None)"

definition fits64 :: "int \<Rightarrow> int option" where
  "fits64 v = (if - (2 ^ 63) \<le> v \<and> v < 2 ^ 63 then Some v else None)"

text \<open>The final sum, each partial sum a 64-bit count of nanoseconds.\<close>

definition time_point :: "int \<Rightarrow> int \<Rightarrow> int \<Rightarrow> int \<Rightarrow> int \<Rightarrow> int \<Rightarrow> int option" where
  "time_point days h mi sec ms offset = do {
     a \<leftarrow> fits64 (days * 86400000000000);
     b \<leftarrow> fits64 (a + h * 3600000000000);
     c \<leftarrow> fits64 (b + mi * 60000000000);
     d \<leftarrow> fits64 (c + sec * 1000000000);
     e \<leftarrow> fits64 (d + ms * 1000000);
     fits64 (e - offset * 60000000000) }"

definition parse_rfc3339 :: "string \<Rightarrow> int option option" where
  "parse_rfc3339 s =
     (if length s < 20 then Some None
      else if s ! 4 \<noteq> CHR ''-'' \<or> s ! 7 \<noteq> CHR ''-'' \<or> s ! 13 \<noteq> CHR '':'' \<or> s ! 16 \<noteq> CHR '':'' then Some None
      else if s ! 10 \<noteq> CHR ''T'' \<and> s ! 10 \<noteq> CHR ''t'' then Some None
      else (case (read_digits s 0 4, read_digits s 5 2, read_digits s 8 2,
                  read_digits s 11 2, read_digits s 14 2, read_digits s 17 2) of
              (Some y, Some mo, Some d, Some h, Some mi, Some sec) \<Rightarrow>
                if \<not> ymd_ok y mo d then Some None
                else if h > 23 \<or> mi > 59 \<or> sec > 60 then Some None
                else (let sec' = (if sec = 60 then 59 else sec) in
                  case parse_fraction s 19 of
                    None \<Rightarrow> Some None
                  | Some (frac, pos) \<Rightarrow>
                      (case parse_offset s pos of
                         None \<Rightarrow> Some None
                       | Some (offset, pos') \<Rightarrow>
                           if pos' \<noteq> length s then Some None
                           else map_option Some (time_point (days_from_civil y mo d) h mi sec' frac offset)))
            | _ \<Rightarrow> Some None))"

text \<open>The clock counts nanoseconds; a conversion to seconds truncates towards zero.\<close>

definition to_time_t :: "int \<Rightarrow> int" where
  "to_time_t tp = sgn tp * (\<bar>tp\<bar> div 10 ^ 9)"

definition parse_rfc3339_to_time_t :: "string \<Rightarrow> int option option" where
  "parse_rfc3339_to_time_t s = map_option (map_option to_time_t) (parse_rfc3339 s)"

section \<open>The calendar is consistent\<close>

text \<open>Splitting the days of an era into centuries, four-year groups, years and a day of the year
  that starts in March.\<close>

lemma div_between: "0 < k \<Longrightarrow> k * (x div k) \<le> x \<and> x < k * (x div k) + (k :: int)"
  using mult_div_mod_eq [of k x] pos_mod_bound [of k x] pos_mod_sign [of k x] by linarith

lemma century_split:
  assumes "0 \<le> doe" "doe < 146097" "n100 = min 3 (doe div 36524)" "r = doe - n100 * 36524"
  shows "0 \<le> n100" "n100 \<le> 3" "0 \<le> r" "r \<le> 36524" "n100 < 3 \<Longrightarrow> r \<le> (36523 :: int)"
  using assms div_between [of 36524 doe] by (simp_all add: min_def split: if_splits)

lemma quad_split:
  assumes "0 \<le> r" "r \<le> 36524" "n4 = r div 1461" "r' = r - n4 * (1461 :: int)"
  shows "0 \<le> n4" "n4 \<le> 24" "0 \<le> r'" "r' \<le> 1460" "r \<le> 36523 \<Longrightarrow> n4 = 24 \<Longrightarrow> r' \<le> 1459"
  using assms div_between [of 1461 r] by linarith+

lemma year_split:
  assumes "0 \<le> r'" "r' \<le> (1460 :: int)" "n1 = min 3 (r' div 365)" "doy = r' - n1 * 365"
  shows "0 \<le> n1" "n1 \<le> 3" "0 \<le> doy" "doy \<le> 365" "doy = 365 \<Longrightarrow> n1 = 3 \<and> r' = 1460"
  using assms div_between [of 365 r'] by (simp_all add: min_def split: if_splits)

lemma month_cases: "0 \<le> mp \<Longrightarrow> mp \<le> (11 :: int) \<Longrightarrow> mp \<in> {0, 1, 2, 3, 4, 5, 6, 7, 8, 9, 10, 11}"
  unfolding insert_iff empty_iff by presburger

lemma month_split:
  assumes "0 \<le> doy" "doy \<le> (365 :: int)" "mp = (5 * doy + 2) div 153" "d = doy - month_start mp + 1"
  shows "0 \<le> mp" "mp \<le> 11" "1 \<le> d" "d \<le> 31" "mp \<in> {1, 3, 6, 8} \<Longrightarrow> d \<le> 30"
    "mp = 11 \<Longrightarrow> d \<le> 29" "mp = 11 \<Longrightarrow> d = 29 \<Longrightarrow> doy = 365"
proof -
  have b: "153 * mp \<le> 5 * doy + 2" "5 * doy + 2 < 153 * mp + 153"
    using assms(3) div_between [of 153 "5 * doy + 2"] by simp_all
  show m: "0 \<le> mp" "mp \<le> 11"
    using b assms(1, 2) by linarith+
  then have "mp \<in> {0, 1, 2, 3, 4, 5, 6, 7, 8, 9, 10, 11}"
    by (rule month_cases)
  then show "1 \<le> d" "d \<le> 31" "mp \<in> {1, 3, 6, 8} \<Longrightarrow> d \<le> 30"
    "mp = 11 \<Longrightarrow> d \<le> 29" "mp = 11 \<Longrightarrow> d = 29 \<Longrightarrow> doy = 365"
    using b assms(1, 2, 4) by (auto simp: month_start_def)
qed

lemma leap_march_year:
  assumes "0 \<le> n4" "n4 \<le> (24 :: int)" "n4 = 24 \<Longrightarrow> n100 = 3"
  shows "is_leap (era * 400 + (n100 * 100 + n4 * 4 + 4))" (is "is_leap ?y")
proof -
  have "?y = 4 * (era * 100 + n100 * 25 + n4 + 1)"
    by simp
  then have "?y mod 4 = 0"
    by (metis mod_mult_self1_is_0)
  moreover have "?y mod 100 \<noteq> 0" if "n4 \<noteq> 24"
  proof -
    have "?y = (n4 * 4 + 4) + 100 * (era * 4 + n100)"
      by simp
    then have "?y mod 100 = (n4 * 4 + 4) mod 100"
      by (metis mod_mult_self2)
    then show ?thesis
      using assms(1, 2) that by simp
  qed
  moreover have "?y mod 400 = 0" if "n4 = 24"
  proof -
    have "?y = 400 * (era + 1)"
      using assms(3) that by simp
    then show ?thesis
      by (metis mod_mult_self1_is_0)
  qed
  ultimately show ?thesis
    unfolding is_leap_def by (cases "n4 = 24") (simp_all only: simp_thms)
qed

lemma civil_days_inverse:
  assumes "civil_from_days z = (y, m, d)"
  shows "days_from_civil y m d = z" "ymd_ok y m d"
proof -
  define z' where "z' = z + 719468"
  define era where "era = z' div 146097"
  define doe where "doe = z' mod 146097"
  define n100 where "n100 = min 3 (doe div 36524)"
  define r where "r = doe - n100 * 36524"
  define n4 where "n4 = r div 1461"
  define r' where "r' = r - n4 * 1461"
  define n1 where "n1 = min 3 (r' div 365)"
  define doy where "doy = r' - n1 * 365"
  define mp where "mp = (5 * doy + 2) div 153"
  define yoe where "yoe = n100 * 100 + n4 * 4 + n1"
  have doe: "0 \<le> doe" "doe < 146097"
    by (simp_all add: doe_def)
  note c = century_split [OF doe n100_def r_def]
  note q = quad_split [OF c(3, 4) n4_def r'_def]
  note w = year_split [OF q(3, 4) n1_def doy_def]
  define d' where "d' = doy - month_start mp + 1"
  note mm = month_split [OF w(3, 4) mp_def d'_def]
  have y: "y = (if mp < 10 then era * 400 + yoe else era * 400 + yoe + 1)"
    and m: "m = (if mp < 10 then mp + 3 else mp - 9)" and d: "d = d'"
    using assms [unfolded civil_from_days_def Let_def, folded z'_def, folded era_def doe_def, folded n100_def,
        folded r_def, folded n4_def, folded r'_def, folded n1_def, folded doy_def, folded mp_def, folded d'_def]
    by (auto simp: yoe_def)
  have yoe: "0 \<le> yoe" "yoe < 400" "yoe div 4 = 25 * n100 + n4" "yoe div 100 = n100"
    using c(1, 2) q(1, 2) w(1, 2) div_between [of 4 yoe] div_between [of 100 yoe] unfolding yoe_def by linarith+
  have y': "(if m \<le> 2 then y - 1 else y) = era * 400 + yoe"
    using y m mm(1, 2) by auto
  have "(era * 400 + yoe) mod 400 = yoe" "(era * 400 + yoe) div 400 = era"
    using yoe(1, 2) by simp_all
  moreover have "(if m > 2 then m - 3 else m + 9) = mp"
    using m mm(1, 2) by auto
  moreover have "yoe * 365 + yoe div 4 - yoe div 100 + doy = doe"
    using yoe(3, 4) by (simp add: yoe_def doy_def r'_def r_def)
  ultimately have "days_from_civil y m d = era * 146097 + doe - 719468"
    by (simp add: days_from_civil_def Let_def y' d d'_def)
  also have "era * 146097 + doe = z'"
    by (simp add: era_def doe_def)
  finally show "days_from_civil y m d = z"
    by (simp add: z'_def)
  have leap: "is_leap y" if "mp = 11" "d = 29"
  proof -
    have "doy = 365" using that d mm(7) by simp
    then have r: "n1 = 3" "r' = 1460" using w(5) by simp_all
    then have "y = era * 400 + (n100 * 100 + n4 * 4 + 4)"
      using that y by (simp add: yoe_def)
    moreover have "n4 = 24 \<Longrightarrow> n100 = 3"
      using q(5) c(5) c(2) r by fastforce
    ultimately show ?thesis
      using leap_march_year [OF q(1, 2)] by simp
  qed
  show "ymd_ok y m d"
  proof -
    have "mp \<in> {0, 1, 2, 3, 4, 5, 6, 7, 8, 9, 10, 11}"
      using mm(1, 2) by (rule month_cases)
    then show ?thesis
      using mm(3, 4, 5, 6) leap m d
      by (elim insertE emptyE; cases "d = 29"; simp add: ymd_ok_def last_day_of_month_def)
  qed
qed

text \<open>The years of the time points a 64-bit nanosecond clock can hold have four digits.\<close>

lemma civil_year_range:
  assumes "civil_from_days z = (y, m, d)" "584388 \<le> z + 719468" "z + 719468 < 876582"
  shows "1600 \<le> y" "y \<le> 2400"
proof -
  define z' where "z' = z + 719468"
  define doe where "doe = z' mod 146097"
  define n100 where "n100 = min 3 (doe div 36524)"
  define r where "r = doe - n100 * 36524"
  define n4 where "n4 = r div 1461"
  define r' where "r' = r - n4 * 1461"
  define n1 where "n1 = min 3 (r' div 365)"
  have doe: "0 \<le> doe" "doe < 146097"
    by (simp_all add: doe_def)
  note c = century_split [OF doe n100_def r_def]
  note q = quad_split [OF c(3, 4) n4_def r'_def]
  note w = year_split [OF q(3, 4) n1_def refl]
  have "4 \<le> z' div 146097" "z' div 146097 \<le> 5"
    using assms(2, 3) div_between [of 146097 z'] by (simp_all add: z'_def)
  moreover have "y \<in> {(z' div 146097) * 400 + n100 * 100 + n4 * 4 + n1,
      (z' div 146097) * 400 + n100 * 100 + n4 * 4 + n1 + 1}"
    using assms(1) [unfolded civil_from_days_def Let_def, folded z'_def, folded doe_def, folded n100_def,
        folded r_def, folded n4_def, folded r'_def, folded n1_def]
    by (auto split: if_splits)
  ultimately show "1600 \<le> y" "y \<le> 2400"
    using c(1, 2) q(1, 2) w(1, 2) by auto
qed

section \<open>Printing and parsing\<close>

lemma padded_digits:
  assumes "n < 10 ^ w" "0 < w"
  shows "length (padded w n) = w" "list_all is_digit (padded w n)" "digits_value (padded w n) = n"
proof -
  have "length (to_string_nat n) \<le> w"
    using assms by (intro length_to_string_nat)
  then show "length (padded w n) = w" "digits_value (padded w n) = n"
    by (simp_all add: padded_def digits_value_append)
  have "list_all is_digit (replicate k (CHR ''0''))" for k
    by (induction k) simp_all
  then show "list_all is_digit (padded w n)"
    by (simp add: padded_def)
qed

lemma list_of_2: "length xs = 2 \<Longrightarrow> \<exists>a b. xs = [a, b]"
  and list_of_3: "length xs = 3 \<Longrightarrow> \<exists>a b c. xs = [a, b, c]"
  and list_of_4: "length xs = 4 \<Longrightarrow> \<exists>a b c d. xs = [a, b, c, d]"
  by (auto simp add: numeral_eq_Suc length_Suc_conv)

lemma padded2:
  assumes "0 \<le> v" "v < 100"
  obtains a b where "padded 2 (nat v) = [a, b]" "is_digit a" "is_digit b" "int (digits_value [a, b]) = v"
  using padded_digits [of "nat v" 2] list_of_2 [of "padded 2 (nat v)"] assms that by auto

lemma padded3:
  assumes "0 \<le> v" "v < 1000"
  obtains a b c where "padded 3 (nat v) = [a, b, c]" "is_digit a" "is_digit b" "is_digit c"
    "int (digits_value [a, b, c]) = v"
  using padded_digits [of "nat v" 3] list_of_3 [of "padded 3 (nat v)"] assms that by auto

lemma padded4:
  assumes "0 \<le> v" "v < 10000"
  obtains a b c d where "padded 4 (nat v) = [a, b, c, d]" "is_digit a" "is_digit b" "is_digit c" "is_digit d"
    "int (digits_value [a, b, c, d]) = v"
  using padded_digits [of "nat v" 4] list_of_4 [of "padded 4 (nat v)"] assms that by auto

lemma frac_loop_three:
  assumes "s = xs @ [a, b, c] @ rest" "length xs = n" "is_digit a" "is_digit b" "is_digit c"
    "rest = [] \<or> \<not> is_digit (hd rest)"
  shows "frac_loop s n 100 0 = (int (digits_value [a, b, c]), n + 3)"
proof -
  have "s ! n = a" "s ! (n + 1) = b" "s ! (n + 2) = c" "length s = n + 3 + length rest"
    "rest \<noteq> [] \<Longrightarrow> s ! (n + 3) = hd rest"
    using assms(1, 2) by (auto simp: nth_append hd_conv_nth)
  then have "frac_loop s n 100 0 =
      (int (digit_value a) * 100 + int (digit_value b) * 10 + int (digit_value c), n + 3)"
    using assms(3-6) frac_loop.simps [of s n 100 0] frac_loop.simps [of s "n + 1" 10]
      frac_loop.simps [of s "n + 2" 1] frac_loop.simps [of s "n + 3" 0]
    by (auto simp: numeral_eq_Suc)
  then show ?thesis
    by (simp add: digits_value_def)
qed

lemma time_point_fits:
  assumes "- (2 ^ 63) \<le> days * 86400000000000" "0 \<le> h" "0 \<le> mi" "0 \<le> sec" "0 \<le> ms"
    "days * 86400000000000 + h * 3600000000000 + mi * 60000000000 + sec * 1000000000 + ms * 1000000 < 2 ^ 63"
  shows "time_point days h mi sec ms 0 =
    Some (days * 86400000000000 + h * 3600000000000 + mi * 60000000000 + sec * 1000000000 + ms * 1000000)"
  using assms by (simp add: time_point_def fits64_def)

text \<open>The fields of an instant within its day.\<close>

lemma day_fields:
  assumes "0 \<le> t" "t < ms_per_day"
  shows "t = (t div 3600000) * 3600000 + (t div 60000 mod 60) * 60000 + (t div 1000 mod 60) * 1000 + t mod 1000"
    "0 \<le> t div 3600000" "t div 3600000 \<le> 23"
proof -
  have "t div 60000 div 60 = t div 3600000" "t div 1000 div 60 = t div 60000"
    by (simp_all add: zdiv_zmult2_eq [symmetric])
  then show "t = (t div 3600000) * 3600000 + (t div 60000 mod 60) * 60000 + (t div 1000 mod 60) * 1000 + t mod 1000"
    using mult_div_mod_eq [of 60 "t div 60000"] mult_div_mod_eq [of 60 "t div 1000"] mult_div_mod_eq [of 1000 t]
    by linarith
  show "0 \<le> t div 3600000" "t div 3600000 \<le> 23"
    using assms div_between [of 3600000 t] by linarith+
qed

text \<open>Parsing a complete text, given its characters.\<close>

lemma parse_fields:
  assumes s: "s = [y1, y2, y3, y4, CHR ''-'', m1, m2, CHR ''-'', d1, d2, CHR ''T'', h1, h2, CHR '':'',
      i1, i2, CHR '':'', s1, s2, CHR ''.'', f1, f2, f3, CHR ''Z'']"
    and digits: "list_all is_digit [y1, y2, y3, y4, m1, m2, d1, d2, h1, h2, i1, i2, s1, s2, f1, f2, f3]"
    and y: "int (digits_value [y1, y2, y3, y4]) = y" and m: "int (digits_value [m1, m2]) = m"
    and d: "int (digits_value [d1, d2]) = d" and h: "int (digits_value [h1, h2]) = h"
    and i: "int (digits_value [i1, i2]) = i" and sec: "int (digits_value [s1, s2]) = sec"
    and f: "int (digits_value [f1, f2, f3]) = f"
    and ok: "ymd_ok y m d" "h \<le> 23" "i \<le> 59" "sec \<le> 59"
  shows "parse_rfc3339 s = map_option Some (time_point (days_from_civil y m d) h i sec f 0)"
proof -
  have r: "read_digits s 0 4 = Some y" "read_digits s 5 2 = Some m" "read_digits s 8 2 = Some d"
    "read_digits s 11 2 = Some h" "read_digits s 14 2 = Some i" "read_digits s 17 2 = Some sec"
    using digits y m d h i sec by (simp_all add: s read_digits_def)
  have "s = [y1, y2, y3, y4, CHR ''-'', m1, m2, CHR ''-'', d1, d2, CHR ''T'', h1, h2, CHR '':'',
      i1, i2, CHR '':'', s1, s2, CHR ''.''] @ [f1, f2, f3] @ ''Z''"
    by (simp add: s)
  then have "frac_loop s 20 100 0 = (f, 20 + 3)"
    using digits f frac_loop_three [of s _ f1 f2 f3 "''Z''" 20] by (simp add: is_digit_def)
  then have "parse_fraction s 19 = Some (f, 23)"
    by (simp add: parse_fraction_def s)
  moreover have "parse_offset s 23 = Some (0, 24)" "length s = 24"
    by (simp_all add: parse_offset_def s)
  moreover have "s ! 4 = CHR ''-''" "s ! 7 = CHR ''-''" "s ! 13 = CHR '':''" "s ! 16 = CHR '':''" "s ! 10 = CHR ''T''"
    by (simp_all add: s)
  ultimately show ?thesis
    using r ok by (simp add: parse_rfc3339_def Let_def)
qed

text \<open>Printing any instant of the 64-bit nanosecond clock (from the first full day
  on) and parsing the text gives the instant back, cut to the millisecond, without overflow.\<close>

theorem rfc3339_roundtrip:
  assumes "- (2 ^ 63) \<le> (tp div 86400000000000) * 86400000000000" "tp < 2 ^ 63"
  shows "parse_rfc3339 (format_rfc3339 tp) = Some (Some ((tp div 1000000) * 1000000))"
proof -
  define ms where "ms = tp div ns_per_ms"
  define t where "t = ms mod ms_per_day"
  define z where "z = ms div ms_per_day"
  have z: "z = tp div 86400000000000"
    by (simp add: z_def ms_def zdiv_zmult2_eq [symmetric])
  obtain y m d where ymd: "civil_from_days z = (y, m, d)"
    by (cases "civil_from_days z")
  have t: "0 \<le> t" "t < ms_per_day" "ms = z * ms_per_day + t"
    by (simp_all add: t_def z_def)
  have bz: "- 106752 \<le> z" "z \<le> 106752"
    using assms [folded z] div_between [of 86400000000000 tp, folded z] by simp_all
  have yr: "1600 \<le> y" "y \<le> 2400"
    using civil_year_range [OF ymd] bz by simp_all
  note inv = civil_days_inverse [OF ymd]
  have md: "1 \<le> m" "m \<le> 12" "1 \<le> d" "d \<le> 31"
    using inv(2) by (auto simp: ymd_ok_def last_day_of_month_def split: if_splits)
  note df = day_fields [OF t(1, 2)]
  have "0 \<le> y" "y < 10000" "0 \<le> m" "m < 100" "0 \<le> d" "d < 100"
    using yr md by simp_all
  then obtain y1 y2 y3 y4 m1 m2 d1 d2 where
    Y: "padded 4 (nat y) = [y1, y2, y3, y4]" "is_digit y1" "is_digit y2" "is_digit y3" "is_digit y4"
      "int (digits_value [y1, y2, y3, y4]) = y"
    and M: "padded 2 (nat m) = [m1, m2]" "is_digit m1" "is_digit m2" "int (digits_value [m1, m2]) = m"
    and D: "padded 2 (nat d) = [d1, d2]" "is_digit d1" "is_digit d2" "int (digits_value [d1, d2]) = d"
    by (metis padded4 padded2)
  define h where "h = t div 3600000"
  define i where "i = t div 60000 mod 60"
  define sec where "sec = t div 1000 mod 60"
  define f where "f = t mod 1000"
  have bounds: "0 \<le> h" "h \<le> 23" "0 \<le> i" "i \<le> 59" "0 \<le> sec" "sec \<le> 59" "0 \<le> f" "f < 1000"
    using df(2, 3) pos_mod_bound [of 60 "t div 60000"] pos_mod_bound [of 60 "t div 1000"]
    by (simp_all add: h_def i_def sec_def f_def)
  then have "h < 100" "i < 100" "sec < 100"
    by simp_all
  with bounds obtain h1 h2 i1 i2 s1 s2 f1 f2 f3 where
    H: "padded 2 (nat h) = [h1, h2]" "is_digit h1" "is_digit h2" "int (digits_value [h1, h2]) = h"
    and I: "padded 2 (nat i) = [i1, i2]" "is_digit i1" "is_digit i2" "int (digits_value [i1, i2]) = i"
    and S: "padded 2 (nat sec) = [s1, s2]" "is_digit s1" "is_digit s2" "int (digits_value [s1, s2]) = sec"
    and F: "padded 3 (nat f) = [f1, f2, f3]" "is_digit f1" "is_digit f2" "is_digit f3" "int (digits_value [f1, f2, f3]) = f"
    by (metis padded2 padded3)
  have shape: "format_rfc3339 tp = [y1, y2, y3, y4, CHR ''-'', m1, m2, CHR ''-'', d1, d2, CHR ''T'', h1, h2, CHR '':'',
      i1, i2, CHR '':'', s1, s2, CHR ''.'', f1, f2, f3, CHR ''Z'']"
    unfolding format_rfc3339_def Let_def ms_def [symmetric] t_def [symmetric] z_def [symmetric]
      h_def [symmetric] i_def [symmetric] sec_def [symmetric] f_def [symmetric]
    using ymd Y(1) M(1) D(1) H(1) I(1) S(1) F(1) yr by (simp add: padded_int_def)
  have total: "z * 86400000000000 + h * 3600000000000 + i * 60000000000 + sec * 1000000000 + f * 1000000 = ms * 1000000"
    using t(3) df(1) by (simp add: h_def i_def sec_def f_def)
  have "ms * 1000000 \<le> tp"
    using div_between [of ns_per_ms tp] by (simp add: ms_def mult.commute)
  then have "time_point z h i sec f 0 = Some (ms * 1000000)"
    using time_point_fits [of z h i sec f] assms total bounds unfolding z by simp
  moreover have "parse_rfc3339 (format_rfc3339 tp) = map_option Some (time_point (days_from_civil y m d) h i sec f 0)"
    by (rule parse_fields [OF shape]) (use Y M D H I S F yr md bounds inv(2) in simp_all)
  ultimately show ?thesis
    by (simp add: inv(1) ms_def)
qed

theorem rfc3339_roundtrip_witness:
  "parse_rfc3339 (format_rfc3339 1786285381123456789) = Some (Some 1786285381123000000)"
  using rfc3339_roundtrip [of 1786285381123456789] by simp

text \<open>The largest date of the grammar, a common way to write an open end, overflows the clock.\<close>

lemma parse_last_date_overflows: "parse_rfc3339 ''9999-12-31T23:59:59Z'' = None"
  by (simp add: parse_rfc3339_def read_digits_def is_digit_def digits_value_def digit_value_def ymd_ok_def
      last_day_of_month_def parse_fraction_def parse_offset_def days_from_civil_def month_start_def
      time_point_def fits64_def Let_def)

text \<open>An offset is applied, and a leap second is read as the second before it.\<close>

lemma parse_offset_example:
  "parse_rfc3339 ''1970-01-01T01:00:00.5+01:00'' = Some (Some 500000000)"
  "parse_rfc3339 ''1970-01-01T00:00:60Z'' = Some (Some 59000000000)"
  "parse_rfc3339 ''2026-02-31T00:00:00Z'' = Some None"
  by (simp_all add: parse_rfc3339_def read_digits_def is_digit_def digits_value_def digit_value_def ymd_ok_def
      last_day_of_month_def is_leap_def parse_fraction_def parse_offset_def days_from_civil_def month_start_def
      time_point_def fits64_def Let_def frac_loop.simps)

end
