(* ===== verification/Balance_Ledger.thy ===== *)
theory Balance_Ledger
  imports Rfc3339 Bss_Types "HOL-Library.List_Lexorder" "HOL-Library.Char_ord"
begin

text \<open>
  The prepaid balance service (\<open>bss/balance-management/src/store.cpp\<close> and the handlers of
  its \<open>main.cpp\<close>): buckets with a remaining and a reserved amount, and the append-only
  events of top-ups, adjustments and reservations. Each operation is one database transaction.
  The columns for links, names and reference lists that no operation reads are left out.

  The database holds amounts as exact decimals (\<open>NUMERIC\<close>), here rationals. What it makes
  of a double it is sent, the collation it orders identifiers by and the accounts its foreign key
  knows are parameters.
\<close>

section \<open>State\<close>

record bucket =
  b_id :: string
  b_account :: "string option"
  b_is_shared :: "bool option"
  b_related_parties :: "string list"
  b_products :: "string list"
  b_unit :: "string option"
  b_remaining :: rat
  b_reserved :: rat
  b_status :: "string option"
  b_usage_type :: "string option"

datatype event_kind = TopupBalance | AdjustBalance | ReserveBalance

record event =
  ev_kind :: event_kind
  ev_id :: nat
  ev_bucket :: string
  ev_amount :: rat
  ev_units :: "string option"
  ev_completed :: bool
  ev_charging_data_ref :: "string option"

record audit =
  au_entity :: event_kind
  au_entity_id :: nat

text \<open>The buckets are listed in the order of their identifiers. The sequences hand out event
  numbers; a rolled-back transaction does not give its numbers back.\<close>

record ledger =
  l_buckets :: "bucket list"
  l_events :: "event list"
  l_audits :: "audit list"
  l_topup_seq :: nat
  l_adjust_seq :: nat
  l_reserve_seq :: nat

record database =
  db_numeric :: "rat \<Rightarrow> rat"
  db_before :: "string \<Rightarrow> string \<Rightarrow> bool"
  db_account_exists :: "string \<Rightarrow> bool"

text \<open>The fields of a request that the store reads.\<close>

record request =
  rq_bucket :: "string option"
  rq_amount :: "quantity option"
  rq_account :: "string option"
  rq_products :: "string list"
  rq_usage_type :: "string option"
  rq_confirmation_date :: "string option"
  rq_requested_date :: "string option"
  rq_valid_for :: "(string option \<times> string option) option"

record mutation_result =
  mr_id :: nat
  mr_succeeded :: bool

text \<open>The outcome of a transaction: undefined behaviour, an \<open>InvalidRequest\<close> exception, or
  a result.\<close>

type_synonym 'a txn = "(string + 'a) option"

definition empty_ledger :: ledger where
  "empty_ledger = \<lparr>l_buckets = [], l_events = [], l_audits = [], l_topup_seq = 0, l_adjust_seq = 0, l_reserve_seq = 0\<rparr>"

section \<open>Helpers of the store\<close>

definition amount_value_of :: "quantity option \<Rightarrow> double" where
  "amount_value_of q = (case q of Some v \<Rightarrow> value_or (Fin 0) (qty_amount v) | None \<Rightarrow> Fin 0)"

definition amount_units_of :: "quantity option \<Rightarrow> string option" where
  "amount_units_of q = (case q of Some v \<Rightarrow> qty_units v | None \<Rightarrow> None)"

definition ts_in :: "string option \<Rightarrow> string \<Rightarrow> (string option) txn" where
  "ts_in v field =
     (case v of
        None \<Rightarrow> Some (Inr None)
      | Some s \<Rightarrow>
          (case parse_rfc3339 s of
             None \<Rightarrow> None
           | Some None \<Rightarrow> Some (Inl (field @ '' is not an RFC 3339 date-time''))
           | Some (Some tp) \<Rightarrow> Some (Inr (Some (format_rfc3339 tp)))))"

definition vf_start :: "(string option \<times> string option) option \<Rightarrow> (string option) txn" where
  "vf_start vf = (case vf of Some (a, _) \<Rightarrow> ts_in a ''validFor.startDateTime'' | None \<Rightarrow> Some (Inr None))"

definition vf_end :: "(string option \<times> string option) option \<Rightarrow> (string option) txn" where
  "vf_end vf = (case vf of Some (_, b) \<Rightarrow> ts_in b ''validFor.endDateTime'' | None \<Rightarrow> Some (Inr None))"

text \<open>Sequencing of steps that may throw.\<close>

fun txn_then :: "'a txn \<Rightarrow> ('a \<Rightarrow> 'b txn) \<Rightarrow> 'b txn" where
  "txn_then None f = None"
| "txn_then (Some (Inl e)) f = Some (Inl e)"
| "txn_then (Some (Inr x)) f = f x"

definition checked_dates :: "request \<Rightarrow> unit txn" where
  "checked_dates rq =
     txn_then (ts_in (rq_confirmation_date rq) ''confirmationDate'') (\<lambda>_.
     txn_then (ts_in (rq_requested_date rq) ''requestedDate'') (\<lambda>_.
     txn_then (vf_start (rq_valid_for rq)) (\<lambda>_.
     txn_then (vf_end (rq_valid_for rq)) (\<lambda>_. Some (Inr ())))))"

text \<open>\<open>UPDATE balance_mgmt.bucket SET ... WHERE ...\<close> and whether it affected a row.\<close>

definition update_where :: "(bucket \<Rightarrow> bool) \<Rightarrow> (bucket \<Rightarrow> bucket) \<Rightarrow> bucket list \<Rightarrow> bool \<times> bucket list" where
  "update_where cond set_clause bs = (list_ex cond bs, map (\<lambda>b. if cond b then set_clause b else b) bs)"

fun insert_bucket :: "database \<Rightarrow> bucket \<Rightarrow> bucket list \<Rightarrow> bucket list" where
  "insert_bucket db b [] = [b]"
| "insert_bucket db b (c # cs) = (if db_before db (b_id b) (b_id c) then b # c # cs else c # insert_bucket db b cs)"

definition has_bucket :: "bucket list \<Rightarrow> string \<Rightarrow> bool" where
  "has_bucket bs i = list_ex (\<lambda>b. b_id b = i) bs"

section \<open>Reads\<close>

definition get_bucket :: "ledger \<Rightarrow> string \<Rightarrow> bucket option" where
  "get_bucket l i = find (\<lambda>b. b_id b = i) (l_buckets l)"

definition list_buckets :: "ledger \<Rightarrow> bucket list" where
  "list_buckets l = l_buckets l"

text \<open>A bucket without a sharing flag is not shared; one without a status counts as active.\<close>

definition shared_with :: "string \<Rightarrow> bucket \<Rightarrow> bool" where
  "shared_with party b \<longleftrightarrow>
     b_is_shared b = Some True \<and> (b_status b = None \<or> b_status b = Some ''active'') \<and>
     list_ex (\<lambda>p. p = party) (b_related_parties b)"

definition find_shared_bucket_for :: "ledger \<Rightarrow> string \<Rightarrow> bucket option" where
  "find_shared_bucket_for l party = find (shared_with party) (l_buckets l)"

record accumulated_balance =
  ab_buckets :: "string list"
  ab_unit :: "string option"
  ab_total :: double
  ab_mixed_units :: bool

fun accumulate :: "bucket list \<Rightarrow> accumulated_balance \<Rightarrow> accumulated_balance" where
  "accumulate [] ab = ab"
| "accumulate (b # bs) ab =
     accumulate bs
       (ab \<lparr>ab_buckets := ab_buckets ab @ [b_id b],
            ab_unit := (if ab_unit ab = None then b_unit b else ab_unit ab),
            ab_mixed_units := (ab_mixed_units ab \<or> (ab_unit ab \<noteq> None \<and> b_unit b \<noteq> ab_unit ab)),
            ab_total := d_add (ab_total ab) (round_double (b_remaining b))\<rparr>)"

definition get_accumulated_balance :: "ledger \<Rightarrow> string \<Rightarrow> accumulated_balance" where
  "get_accumulated_balance l account =
     accumulate (filter (\<lambda>b. b_account b = Some account) (l_buckets l))
       \<lparr>ab_buckets = [], ab_unit = None, ab_total = Fin 0, ab_mixed_units = False\<rparr>"

section \<open>Transactions\<close>

text \<open>The end of a transaction, after the event's number was drawn: the event row (whose dates
  are checked as the row is built), the audit row, the commit. A throw rolls the rows back.\<close>

definition finish :: "ledger \<Rightarrow> request \<Rightarrow> bucket list \<Rightarrow> event \<Rightarrow> (ledger \<times> (string + mutation_result)) option" where
  "finish l rq bs ev =
     (case checked_dates rq of
        None \<Rightarrow> None
      | Some (Inl e) \<Rightarrow> Some (l, Inl e)
      | Some (Inr _) \<Rightarrow>
          Some (l \<lparr>l_buckets := bs, l_events := l_events l @ [ev],
                   l_audits := l_audits l @ [\<lparr>au_entity = ev_kind ev, au_entity_id = ev_id ev\<rparr>]\<rparr>,
                Inr \<lparr>mr_id = ev_id ev, mr_succeeded = ev_completed ev\<rparr>))"

text \<open>An absent bucket reference is dereferenced: the handlers below rule it out. JSON carries
  finite numbers only.\<close>

definition adjust :: "database \<Rightarrow> request \<Rightarrow> ledger \<Rightarrow> (ledger \<times> (string + mutation_result)) option" where
  "adjust db rq l =
     (case (rq_bucket rq, amount_value_of (rq_amount rq)) of
        (Some bid, Fin x) \<Rightarrow>
          (let amt = db_numeric db x;
               (succeeded, bs) = update_where (\<lambda>b. b_id b = bid \<and> b_remaining b + amt \<ge> 0)
                 (\<lambda>b. b \<lparr>b_remaining := b_remaining b + amt\<rparr>) (l_buckets l);
               i = Suc (l_adjust_seq l)
           in finish (l \<lparr>l_adjust_seq := i\<rparr>) rq bs
                \<lparr>ev_kind = AdjustBalance, ev_id = i, ev_bucket = bid, ev_amount = amt,
                 ev_units = amount_units_of (rq_amount rq), ev_completed = succeeded,
                 ev_charging_data_ref = None\<rparr>)
      | _ \<Rightarrow> None)"

definition reserve ::
  "database \<Rightarrow> request \<Rightarrow> string option \<Rightarrow> ledger \<Rightarrow> (ledger \<times> (string + mutation_result)) option" where
  "reserve db rq charging_data_ref l =
     (case (rq_bucket rq, amount_value_of (rq_amount rq)) of
        (Some bid, Fin x) \<Rightarrow>
          (let (succeeded, bs) =
                 (if x \<ge> 0
                  then (let amt = db_numeric db x in
                    update_where (\<lambda>b. b_id b = bid \<and> b_remaining b \<ge> amt)
                      (\<lambda>b. b \<lparr>b_remaining := b_remaining b - amt, b_reserved := b_reserved b + amt\<rparr>) (l_buckets l))
                  else (let refund = db_numeric db (- x) in
                    update_where (\<lambda>b. b_id b = bid \<and> b_reserved b \<ge> refund)
                      (\<lambda>b. b \<lparr>b_remaining := b_remaining b + refund, b_reserved := b_reserved b - refund\<rparr>) (l_buckets l)));
               i = Suc (l_reserve_seq l)
           in finish (l \<lparr>l_reserve_seq := i\<rparr>) rq bs
                \<lparr>ev_kind = ReserveBalance, ev_id = i, ev_bucket = bid, ev_amount = db_numeric db x,
                 ev_units = amount_units_of (rq_amount rq), ev_completed = succeeded,
                 ev_charging_data_ref = charging_data_ref\<rparr>)
      | _ \<Rightarrow> None)"

text \<open>The first product of each identifier, in order (\<open>ON CONFLICT DO NOTHING\<close>).\<close>

definition distinct_products :: "string list \<Rightarrow> string list" where
  "distinct_products ps = rev (remdups (rev ps))"

text \<open>A top-up credits the bucket or creates it; only a creation is checked against the accounts.\<close>

definition topup :: "database \<Rightarrow> request \<Rightarrow> ledger \<Rightarrow> (ledger \<times> (string + mutation_result)) option" where
  "topup db rq l =
     (case (rq_bucket rq, amount_value_of (rq_amount rq)) of
        (Some bid, Fin x) \<Rightarrow>
          (let amt = db_numeric db x;
               created = \<not> has_bucket (l_buckets l) bid
           in if created \<and> (case rq_account rq of Some a \<Rightarrow> \<not> db_account_exists db a | None \<Rightarrow> False)
              then Some (l, Inl (''partyAccount '' @ value_or [] (rq_account rq) @
                                 '' does not exist (subscriber_mgmt.account)''))
              else (let bs = (if created
                        then insert_bucket db
                               \<lparr>b_id = bid, b_account = rq_account rq, b_is_shared = None, b_related_parties = [],
                                b_products = distinct_products (rq_products rq),
                                b_unit = amount_units_of (rq_amount rq), b_remaining = amt, b_reserved = 0,
                                b_status = Some ''active'', b_usage_type = Some (value_or ''monetary'' (rq_usage_type rq))\<rparr>
                               (l_buckets l)
                        else map (\<lambda>b. if b_id b = bid then b \<lparr>b_remaining := b_remaining b + amt\<rparr> else b) (l_buckets l));
                        i = Suc (l_topup_seq l)
                    in finish (l \<lparr>l_topup_seq := i\<rparr>) rq bs
                         \<lparr>ev_kind = TopupBalance, ev_id = i, ev_bucket = bid, ev_amount = amt,
                          ev_units = amount_units_of (rq_amount rq), ev_completed = True,
                          ev_charging_data_ref = None\<rparr>))
      | _ \<Rightarrow> None)"

section \<open>Handlers\<close>

text \<open>What a client gets back: 400 with the reason, or 201 with the created event's number and
  status. \<open>body\<close> is the parsed request, \<open>None\<close> for a body that does not parse.\<close>

datatype reply = BadRequest string | Created nat bool

definition handle ::
  "(request \<Rightarrow> ledger \<Rightarrow> (ledger \<times> (string + mutation_result)) option) \<Rightarrow> request option \<Rightarrow> ledger \<Rightarrow>
   (ledger \<times> reply) option" where
  "handle op body l =
     (case body of
        None \<Rightarrow> Some (l, BadRequest ''malformed body'')
      | Some rq \<Rightarrow>
          if rq_bucket rq = None \<or> rq_bucket rq = Some [] then Some (l, BadRequest ''bucket.id is required'')
          else (case op rq l of
                  None \<Rightarrow> None
                | Some (l', Inl e) \<Rightarrow> Some (l', BadRequest e)
                | Some (l', Inr r) \<Rightarrow> Some (l', Created (mr_id r) (mr_succeeded r))))"

definition post_topup :: "database \<Rightarrow> request option \<Rightarrow> ledger \<Rightarrow> (ledger \<times> reply) option" where
  "post_topup db = handle (topup db)"

definition post_adjust :: "database \<Rightarrow> request option \<Rightarrow> ledger \<Rightarrow> (ledger \<times> reply) option" where
  "post_adjust db = handle (adjust db)"

definition post_reserve :: "database \<Rightarrow> request option \<Rightarrow> string option \<Rightarrow> ledger \<Rightarrow> (ledger \<times> reply) option" where
  "post_reserve db body ref = handle (\<lambda>rq. reserve db rq ref) body"

section \<open>Runs\<close>

datatype command =
    Topup "request option"
  | Adjust "request option"
  | Reserve "request option" "string option"

fun exec :: "database \<Rightarrow> command \<Rightarrow> ledger \<Rightarrow> (ledger \<times> reply) option" where
  "exec db (Topup body) l = post_topup db body l"
| "exec db (Adjust body) l = post_adjust db body l"
| "exec db (Reserve body ref) l = post_reserve db body ref l"

text \<open>The ledgers that a sequence of requests can lead to, each request one transaction.\<close>

inductive reaches :: "database \<Rightarrow> command list \<Rightarrow> ledger \<Rightarrow> bool" for db where
  start: "reaches db [] empty_ledger"
| step: "reaches db cs l \<Longrightarrow> exec db c l = Some (l', r) \<Longrightarrow> reaches db (cs @ [c]) l'"

text \<open>What the code relies on: the database keeps the sign of a double and its negation, and
  orders identifiers linearly.\<close>

definition faithful :: "database \<Rightarrow> bool" where
  "faithful db \<longleftrightarrow>
     (\<forall>x. 0 \<le> db_numeric db x \<longleftrightarrow> 0 \<le> x) \<and> (\<forall>x. db_numeric db (- x) = - db_numeric db x) \<and>
     (\<forall>a. \<not> db_before db a a) \<and> (\<forall>a b c. db_before db a b \<longrightarrow> db_before db b c \<longrightarrow> db_before db a c) \<and>
     (\<forall>a b. a \<noteq> b \<longrightarrow> db_before db a b \<or> db_before db b a)"

section \<open>The abstract ledger\<close>

text \<open>What the events alone say: the money paid in and out of a bucket, and the part of it that
  is set aside.\<close>

fun event_credit :: "string \<Rightarrow> event \<Rightarrow> rat" where
  "event_credit i ev =
     (if ev_completed ev \<and> ev_bucket ev = i \<and> ev_kind ev \<noteq> ReserveBalance then ev_amount ev else 0)"

fun event_hold :: "string \<Rightarrow> event \<Rightarrow> rat" where
  "event_hold i ev =
     (if ev_completed ev \<and> ev_bucket ev = i \<and> ev_kind ev = ReserveBalance then ev_amount ev else 0)"

definition credited :: "event list \<Rightarrow> string \<Rightarrow> rat" where
  "credited evs i = sum_list (map (event_credit i) evs)"

definition held :: "event list \<Rightarrow> string \<Rightarrow> rat" where
  "held evs i = sum_list (map (event_hold i) evs)"

text \<open>The effect of one event on one bucket.\<close>

definition apply_event :: "event \<Rightarrow> bucket \<Rightarrow> bucket" where
  "apply_event ev b =
     (if \<not> ev_completed ev \<or> ev_bucket ev \<noteq> b_id b then b
      else if ev_kind ev = ReserveBalance
      then b \<lparr>b_remaining := b_remaining b - ev_amount ev, b_reserved := b_reserved b + ev_amount ev\<rparr>
      else b \<lparr>b_remaining := b_remaining b + ev_amount ev\<rparr>)"

lemma apply_event_id [simp]: "b_id (apply_event ev b) = b_id b"
  by (simp add: apply_event_def)

text \<open>A committed transaction appends one event; the buckets are those before it, with the event
  applied, or one more bucket that the event creates.\<close>

definition committed :: "database \<Rightarrow> ledger \<Rightarrow> event \<Rightarrow> ledger \<Rightarrow> bool" where
  "committed db l ev l' \<longleftrightarrow>
     l_events l' = l_events l @ [ev] \<and>
     l_audits l' = l_audits l @ [\<lparr>au_entity = ev_kind ev, au_entity_id = ev_id ev\<rparr>] \<and>
     (if has_bucket (l_buckets l) (ev_bucket ev) \<or> \<not> ev_completed ev
      then l_buckets l' = map (apply_event ev) (l_buckets l)
      else ev_kind ev = TopupBalance \<and>
        (\<exists>b. l_buckets l' = insert_bucket db b (l_buckets l) \<and> b_id b = ev_bucket ev \<and>
             b_remaining b = ev_amount ev \<and> b_reserved b = 0))"

definition unchanged :: "ledger \<Rightarrow> ledger \<Rightarrow> bool" where
  "unchanged l l' \<longleftrightarrow> l_buckets l' = l_buckets l \<and> l_events l' = l_events l \<and> l_audits l' = l_audits l"

text \<open>A completed event leaves the bucket it moves money in without a debt.\<close>

definition covered :: "ledger \<Rightarrow> event \<Rightarrow> bool" where
  "covered l ev \<longleftrightarrow>
     (\<forall>b \<in> set (l_buckets l). 0 \<le> b_remaining b \<and> 0 \<le> b_reserved b \<longrightarrow>
        0 \<le> b_remaining (apply_event ev b) \<and> 0 \<le> b_reserved (apply_event ev b))"

lemma update_where_distinct:
  assumes "distinct (map b_id bs)"
    and "update_where (\<lambda>b. b_id b = i \<and> P b) f bs = (ok, bs')"
  shows "if ok then bs' = map (\<lambda>b. if b_id b = i then f b else b) bs \<and> has_bucket bs i else bs' = bs"
proof (cases ok)
  case True
  then obtain c where c: "c \<in> set bs" "b_id c = i" "P c"
    using assms(2) by (auto simp: update_where_def list_ex_iff)
  have "P b" if "b \<in> set bs" "b_id b = i" for b
    using assms(1) c that by (metis distinct_map inj_onD)
  then have "bs' = map (\<lambda>b. if b_id b = i then f b else b) bs"
    using assms(2) by (auto simp: update_where_def)
  then show ?thesis
    using True c by (auto simp: has_bucket_def list_ex_iff)
next
  case False
  then have "\<not> (b_id b = i \<and> P b)" if "b \<in> set bs" for b
    using assms(2) that by (auto simp: update_where_def list_ex_iff)
  then have "bs' = bs"
    using assms(2) by (auto simp: update_where_def intro!: map_idI)
  then show ?thesis
    using False by simp
qed

lemma update_where_covers:
  "update_where P f bs = (True, bs') \<Longrightarrow> \<exists>b \<in> set bs. P b"
  by (auto simp: update_where_def list_ex_iff)

lemma finish_cases:
  assumes "finish l rq bs ev = Some (l', r)"
  obtains e where "l' = l" "r = Inl e"
  | "r = Inr \<lparr>mr_id = ev_id ev, mr_succeeded = ev_completed ev\<rparr>"
    "l' = l \<lparr>l_buckets := bs, l_events := l_events l @ [ev],
             l_audits := l_audits l @ [\<lparr>au_entity = ev_kind ev, au_entity_id = ev_id ev\<rparr>]\<rparr>"
  using assms by (auto simp: finish_def split: option.splits sum.splits)

text \<open>Which number an event got.\<close>

fun seq_of :: "event_kind \<Rightarrow> ledger \<Rightarrow> nat" where
  "seq_of TopupBalance l = l_topup_seq l"
| "seq_of AdjustBalance l = l_adjust_seq l"
| "seq_of ReserveBalance l = l_reserve_seq l"

definition numbered :: "ledger \<Rightarrow> event \<Rightarrow> ledger \<Rightarrow> bool" where
  "numbered l ev l' \<longleftrightarrow>
     ev_id ev = Suc (seq_of (ev_kind ev) l) \<and> seq_of (ev_kind ev) l' = ev_id ev \<and>
     (\<forall>k. seq_of k l \<le> seq_of k l')"

definition drawn :: "ledger \<Rightarrow> ledger \<Rightarrow> bool" where
  "drawn l l' \<longleftrightarrow> (\<forall>k. seq_of k l \<le> seq_of k l')"

text \<open>The common end of the operations that update one bucket under a condition.\<close>

lemma finish_update:
  assumes "finish l1 rq bs ev = Some (l', r)" "distinct (map b_id (l_buckets l))"
    and u: "update_where (\<lambda>b. b_id b = ev_bucket ev \<and> P b) f (l_buckets l) = (ev_completed ev, bs)"
    and f: "\<And>b. b_id b = ev_bucket ev \<Longrightarrow> ev_completed ev \<Longrightarrow> apply_event ev b = f b"
    and P: "\<And>b. P b \<Longrightarrow> 0 \<le> b_remaining b \<Longrightarrow> 0 \<le> b_reserved b \<Longrightarrow> 0 \<le> b_remaining (f b) \<and> 0 \<le> b_reserved (f b)"
    and l1: "unchanged l l1" "drawn l l1" "ev_id ev = Suc (seq_of (ev_kind ev) l)" "seq_of (ev_kind ev) l1 = ev_id ev"
  obtains e where "unchanged l l'" "drawn l l'" "r = Inl e"
  | "committed db l ev l'" "covered l ev" "numbered l ev l'"
    "r = Inr \<lparr>mr_id = ev_id ev, mr_succeeded = ev_completed ev\<rparr>"
proof (rule finish_cases [OF assms(1)])
  fix e assume "l' = l1" "r = Inl e"
  then show thesis
    using that(1) l1 by simp
next
  assume r: "r = Inr \<lparr>mr_id = ev_id ev, mr_succeeded = ev_completed ev\<rparr>"
    and l': "l' = l1 \<lparr>l_buckets := bs, l_events := l_events l1 @ [ev],
      l_audits := l_audits l1 @ [\<lparr>au_entity = ev_kind ev, au_entity_id = ev_id ev\<rparr>]\<rparr>"
  have seq: "seq_of k l' = seq_of k l1" for k
    by (cases k) (simp_all add: l')
  note d = update_where_distinct [OF assms(2) u]
  have "bs = map (apply_event ev) (l_buckets l)"
  proof (cases "ev_completed ev")
    case True
    then show ?thesis
      using d f by (auto simp: apply_event_def)
  next
    case False
    moreover from False have "apply_event ev = id"
      by (simp add: fun_eq_iff apply_event_def)
    ultimately show ?thesis
      using d by simp
  qed
  then have "committed db l ev l'"
    using d l1(1) by (auto simp: committed_def l' unchanged_def split: if_splits)
  moreover have "covered l ev"
  proof (cases "ev_completed ev")
    case True
    then obtain c where c: "c \<in> set (l_buckets l)" "b_id c = ev_bucket ev" "P c"
      using update_where_covers u by force
    then have eq: "b = c" if "b \<in> set (l_buckets l)" "b_id b = ev_bucket ev" for b
      using assms(2) that by (metis distinct_map inj_onD)
    have "0 \<le> b_remaining (apply_event ev b) \<and> 0 \<le> b_reserved (apply_event ev b)"
      if "b \<in> set (l_buckets l)" "0 \<le> b_remaining b" "0 \<le> b_reserved b" for b
    proof (cases "b_id b = ev_bucket ev")
      case True
      then show ?thesis
        using eq [OF that(1)] c P [of c] f [of c] \<open>ev_completed ev\<close> that by simp
    qed (use that in \<open>simp add: apply_event_def\<close>)
    then show ?thesis
      by (simp add: covered_def)
  qed (simp add: covered_def apply_event_def)
  moreover have "numbered l ev l'"
    using l1 seq by (simp add: numbered_def drawn_def)
  ultimately show thesis
    using that(2) r by simp
qed

lemma seq_drawn:
  "unchanged l (l \<lparr>l_topup_seq := n\<rparr>)" "unchanged l (l \<lparr>l_adjust_seq := n\<rparr>)" "unchanged l (l \<lparr>l_reserve_seq := n\<rparr>)"
  "l_topup_seq l \<le> n \<Longrightarrow> drawn l (l \<lparr>l_topup_seq := n\<rparr>)"
  "l_adjust_seq l \<le> n \<Longrightarrow> drawn l (l \<lparr>l_adjust_seq := n\<rparr>)"
  "l_reserve_seq l \<le> n \<Longrightarrow> drawn l (l \<lparr>l_reserve_seq := n\<rparr>)"
  unfolding unchanged_def drawn_def by (simp_all, (rule allI, rename_tac k, case_tac k, simp_all)+)

lemma adjust_cases:
  assumes "adjust db rq l = Some (l', r)" "distinct (map b_id (l_buckets l))"
  obtains e where "unchanged l l'" "drawn l l'" "r = Inl e"
  | ev x where "committed db l ev l'" "covered l ev" "numbered l ev l'"
      "ev_kind ev = AdjustBalance" "ev_bucket ev = the (rq_bucket rq)"
      "amount_value_of (rq_amount rq) = Fin x" "ev_amount ev = db_numeric db x"
      "r = Inr \<lparr>mr_id = ev_id ev, mr_succeeded = ev_completed ev\<rparr>"
proof -
  from assms(1) obtain bid x where q: "rq_bucket rq = Some bid" "amount_value_of (rq_amount rq) = Fin x"
    by (auto simp: adjust_def split: option.splits double.splits)
  let ?amt = "db_numeric db x"
  obtain ok bs where u: "update_where (\<lambda>b. b_id b = bid \<and> b_remaining b + ?amt \<ge> 0)
      (\<lambda>b. b \<lparr>b_remaining := b_remaining b + ?amt\<rparr>) (l_buckets l) = (ok, bs)"
    by fastforce
  define ev where "ev = \<lparr>ev_kind = AdjustBalance, ev_id = Suc (l_adjust_seq l), ev_bucket = bid, ev_amount = ?amt,
      ev_units = amount_units_of (rq_amount rq), ev_completed = ok, ev_charging_data_ref = None\<rparr>"
  have f: "finish (l \<lparr>l_adjust_seq := Suc (l_adjust_seq l)\<rparr>) rq bs ev = Some (l', r)"
    using assms(1) u by (simp add: adjust_def q ev_def Let_def)
  show thesis
  proof (rule finish_update [OF f assms(2), where db = db and P = "\<lambda>b. b_remaining b + ?amt \<ge> 0"
        and f = "\<lambda>b. b \<lparr>b_remaining := b_remaining b + ?amt\<rparr>"])
    show "update_where (\<lambda>b. b_id b = ev_bucket ev \<and> b_remaining b + ?amt \<ge> 0)
      (\<lambda>b. b \<lparr>b_remaining := b_remaining b + ?amt\<rparr>) (l_buckets l) = (ev_completed ev, bs)"
      using u by (simp add: ev_def)
  qed (use that q in \<open>auto simp: ev_def apply_event_def seq_drawn\<close>)
qed

lemma reserve_cases:
  assumes "reserve db rq ref l = Some (l', r)" "distinct (map b_id (l_buckets l))" "faithful db"
  obtains e where "unchanged l l'" "drawn l l'" "r = Inl e"
  | ev x where "committed db l ev l'" "covered l ev" "numbered l ev l'"
      "ev_kind ev = ReserveBalance" "ev_bucket ev = the (rq_bucket rq)"
      "amount_value_of (rq_amount rq) = Fin x" "ev_amount ev = db_numeric db x"
      "r = Inr \<lparr>mr_id = ev_id ev, mr_succeeded = ev_completed ev\<rparr>"
proof -
  from assms(1) obtain bid x where q: "rq_bucket rq = Some bid" "amount_value_of (rq_amount rq) = Fin x"
    by (auto simp: reserve_def split: option.splits double.splits)
  let ?amt = "db_numeric db x"
  define P where "P b \<longleftrightarrow> (if x \<ge> 0 then b_remaining b \<ge> ?amt else b_reserved b \<ge> - ?amt)" for b :: bucket
  define f where "f b = b \<lparr>b_remaining := b_remaining b - ?amt, b_reserved := b_reserved b + ?amt\<rparr>" for b :: bucket
  have amt: "0 \<le> x \<longleftrightarrow> 0 \<le> ?amt" "db_numeric db (- x) = - ?amt"
    using assms(3) by (simp_all add: faithful_def)
  obtain ok bs where u: "update_where (\<lambda>b. b_id b = bid \<and> P b) f (l_buckets l) = (ok, bs)"
    by fastforce
  define ev where "ev = \<lparr>ev_kind = ReserveBalance, ev_id = Suc (l_reserve_seq l), ev_bucket = bid, ev_amount = ?amt,
      ev_units = amount_units_of (rq_amount rq), ev_completed = ok, ev_charging_data_ref = ref\<rparr>"
  have "finish (l \<lparr>l_reserve_seq := Suc (l_reserve_seq l)\<rparr>) rq bs ev = Some (l', r)"
    using assms(1) u amt by (simp add: reserve_def q ev_def Let_def P_def [abs_def] f_def [abs_def] split: if_splits)
  then show thesis
  proof (rule finish_update [OF _ assms(2), where db = db and P = P and f = f])
    show "update_where (\<lambda>b. b_id b = ev_bucket ev \<and> P b) f (l_buckets l) = (ev_completed ev, bs)"
      using u by (simp add: ev_def)
    show "0 \<le> b_remaining (f b) \<and> 0 \<le> b_reserved (f b)" if "P b" "0 \<le> b_remaining b" "0 \<le> b_reserved b" for b
      using that amt by (auto simp: P_def f_def split: if_splits)
  qed (use that q in \<open>auto simp: ev_def apply_event_def seq_drawn f_def\<close>)
qed

lemma topup_cases:
  assumes "topup db rq l = Some (l', r)"
  obtains e where "unchanged l l'" "drawn l l'" "r = Inl e"
  | ev x where "committed db l ev l'" "numbered l ev l'"
      "ev_kind ev = TopupBalance" "ev_completed ev" "ev_bucket ev = the (rq_bucket rq)"
      "amount_value_of (rq_amount rq) = Fin x" "ev_amount ev = db_numeric db x"
      "r = Inr \<lparr>mr_id = ev_id ev, mr_succeeded = True\<rparr>"
proof -
  from assms(1) obtain bid x where q: "rq_bucket rq = Some bid" "amount_value_of (rq_amount rq) = Fin x"
    by (auto simp: topup_def split: option.splits double.splits)
  let ?amt = "db_numeric db x"
  define ev where "ev = \<lparr>ev_kind = TopupBalance, ev_id = Suc (l_topup_seq l), ev_bucket = bid, ev_amount = ?amt,
      ev_units = amount_units_of (rq_amount rq), ev_completed = True, ev_charging_data_ref = None\<rparr>"
  define new where "new = \<lparr>b_id = bid, b_account = rq_account rq, b_is_shared = None, b_related_parties = [],
      b_products = distinct_products (rq_products rq), b_unit = amount_units_of (rq_amount rq), b_remaining = ?amt,
      b_reserved = 0, b_status = Some ''active'', b_usage_type = Some (value_or ''monetary'' (rq_usage_type rq))\<rparr>"
  define bs where "bs = (if \<not> has_bucket (l_buckets l) bid then insert_bucket db new (l_buckets l)
      else map (\<lambda>b. if b_id b = bid then b \<lparr>b_remaining := b_remaining b + ?amt\<rparr> else b) (l_buckets l))"
  consider (refused) e where "l' = l" "r = Inl e"
    | (ran) "finish (l \<lparr>l_topup_seq := Suc (l_topup_seq l)\<rparr>) rq bs ev = Some (l', r)"
    using assms(1) by (auto simp: topup_def q ev_def Let_def bs_def new_def split: if_splits option.splits)
  then show thesis
  proof cases
    case refused
    then show thesis
      using that(1) by (simp add: unchanged_def drawn_def)
  next
    case ran
    then show thesis
    proof (cases rule: finish_cases)
      case (1 e)
      then show thesis
        using that(1) seq_drawn by simp
    next
      case 2
      have "committed db l ev l'"
        by (auto simp: committed_def 2 bs_def new_def ev_def apply_event_def)
      moreover have "numbered l ev l'"
        unfolding numbered_def by (auto simp: ev_def 2) (rename_tac k, case_tac k, simp_all)
      ultimately show thesis
        using that(2) 2(1) q by (simp add: ev_def)
    qed
  qed
qed

lemma handle_cases:
  assumes "handle op body l = Some (l', r)"
  obtains e where "l' = l" "r = BadRequest e"
  | rq e where "body = Some rq" "op rq l = Some (l', Inl e)" "r = BadRequest e"
  | rq m where "body = Some rq" "rq_bucket rq \<noteq> None" "op rq l = Some (l', Inr m)" "r = Created (mr_id m) (mr_succeeded m)"
  using assms by (auto simp: handle_def split: option.splits sum.splits if_splits)

text \<open>Every request either leaves the rows alone or commits one event.\<close>

lemma exec_cases:
  assumes "exec db c l = Some (l', r)" "distinct (map b_id (l_buckets l))" "faithful db"
  obtains (refused) e where "unchanged l l'" "drawn l l'" "r = BadRequest e"
  | (event) ev where "committed db l ev l'" "numbered l ev l'" "r = Created (ev_id ev) (ev_completed ev)"
      "ev_kind ev \<noteq> TopupBalance \<Longrightarrow> covered l ev"
      "ev_kind ev = TopupBalance \<Longrightarrow>
        \<exists>rq x. c = Topup (Some rq) \<and> amount_value_of (rq_amount rq) = Fin x \<and> ev_amount ev = db_numeric db x"
proof (cases c)
  case (Topup body)
  with assms(1) have "handle (topup db) body l = Some (l', r)"
    by (simp add: post_topup_def)
  then show thesis
  proof (cases rule: handle_cases)
    case (1 e)
    then show thesis using that(1) by (simp add: unchanged_def drawn_def)
  next
    case (2 rq e)
    from 2(2) show thesis
      by (cases rule: topup_cases) (use that(1) 2(3) in simp_all)
  next
    case (3 rq m)
    from 3(3) show thesis
    proof (cases rule: topup_cases)
      case (2 ev x)
      then show thesis
        by (intro that(2) [of ev]) (use 3 Topup in auto)
    qed simp
  qed
next
  case (Adjust body)
  with assms(1) have "handle (adjust db) body l = Some (l', r)"
    by (simp add: post_adjust_def)
  then show thesis
  proof (cases rule: handle_cases)
    case (1 e)
    then show thesis using that(1) by (simp add: unchanged_def drawn_def)
  next
    case (2 rq e)
    from 2(2) assms(2) show thesis
      by (cases rule: adjust_cases) (use that(1) 2(3) in simp_all)
  next
    case (3 rq m)
    from 3(3) assms(2) show thesis
    proof (cases rule: adjust_cases)
      case (2 ev x)
      then show thesis
        by (intro that(2) [of ev]) (use 3 Adjust in auto)
    qed simp
  qed
next
  case (Reserve body ref)
  with assms(1) have "handle (\<lambda>rq. reserve db rq ref) body l = Some (l', r)"
    by (simp add: post_reserve_def)
  then show thesis
  proof (cases rule: handle_cases)
    case (1 e)
    then show thesis using that(1) by (simp add: unchanged_def drawn_def)
  next
    case (2 rq e)
    from 2(2) assms(2, 3) show thesis
      by (cases rule: reserve_cases) (use that(1) 2(3) in simp_all)
  next
    case (3 rq m)
    from 3(3) assms(2, 3) show thesis
    proof (cases rule: reserve_cases)
      case (2 ev x)
      then show thesis
        by (intro that(2) [of ev]) (use 3 Reserve in auto)
    qed simp
  qed
qed

section \<open>Invariants of the rows\<close>

definition in_order :: "database \<Rightarrow> bucket list \<Rightarrow> bool" where
  "in_order db bs \<longleftrightarrow> sorted_wrt (\<lambda>a b. db_before db (b_id a) (b_id b)) bs"

lemma in_order_distinct: "faithful db \<Longrightarrow> in_order db bs \<Longrightarrow> distinct (map b_id bs)"
  by (induction bs) (auto simp: in_order_def faithful_def)

lemma set_insert_bucket [simp]: "set (insert_bucket db b bs) = insert b (set bs)"
  by (induction bs) auto

lemma in_order_insert:
  assumes "faithful db" "in_order db bs" "\<not> has_bucket bs (b_id b)"
  shows "in_order db (insert_bucket db b bs)"
  using assms
proof (induction bs)
  case (Cons c cs)
  have "db_before db (b_id b) (b_id d)" if "db_before db (b_id b) (b_id c)" "d \<in> set cs" for d
    using Cons.prems(1, 2) that by (auto simp: in_order_def faithful_def)
  moreover have "db_before db (b_id c) (b_id b)" if "\<not> db_before db (b_id b) (b_id c)"
    using Cons.prems(1, 3) that by (auto simp: faithful_def has_bucket_def)
  ultimately show ?case
    using Cons by (auto simp: in_order_def has_bucket_def)
qed (simp add: in_order_def)

lemma committed_order:
  assumes "faithful db" "in_order db (l_buckets l)" "committed db l ev l'"
  shows "in_order db (l_buckets l')"
proof (cases "has_bucket (l_buckets l) (ev_bucket ev) \<or> \<not> ev_completed ev")
  case True
  then show ?thesis
    using assms by (simp add: committed_def in_order_def sorted_wrt_map)
next
  case False
  then show ?thesis
    using assms in_order_insert by (auto simp: committed_def)
qed

lemma reaches_order: "reaches db cs l \<Longrightarrow> faithful db \<Longrightarrow> in_order db (l_buckets l)"
proof (induction rule: reaches.induct)
  case (step cs l c l' r)
  from step have "distinct (map b_id (l_buckets l))"
    by (simp add: in_order_distinct)
  from step(2) this step(4) show ?case
  proof (cases rule: exec_cases)
    case (refused e)
    then show ?thesis
      using step.IH step.prems by (simp add: unchanged_def)
  next
    case (event ev)
    then show ?thesis
      using committed_order step.IH step.prems by blast
  qed
qed (simp add: empty_ledger_def in_order_def)

lemma reaches_distinct: "reaches db cs l \<Longrightarrow> faithful db \<Longrightarrow> distinct (map b_id (l_buckets l))"
  by (simp add: in_order_distinct reaches_order)

section \<open>The rows agree with the events\<close>

definition books_balance :: "ledger \<Rightarrow> bool" where
  "books_balance l \<longleftrightarrow>
     (\<forall>b \<in> set (l_buckets l). b_reserved b = held (l_events l) (b_id b) \<and>
        b_remaining b + b_reserved b = credited (l_events l) (b_id b)) \<and>
     (\<forall>i. \<not> has_bucket (l_buckets l) i \<longrightarrow> credited (l_events l) i = 0 \<and> held (l_events l) i = 0)"

lemma credited_snoc [simp]: "credited (evs @ [ev]) i = credited evs i + event_credit i ev"
  and held_snoc [simp]: "held (evs @ [ev]) i = held evs i + event_hold i ev"
  by (simp_all add: credited_def held_def)

lemma has_bucket_map [simp]: "has_bucket (map (apply_event ev) bs) i = has_bucket bs i"
  by (induction bs) (auto simp: has_bucket_def)

lemma has_bucket_insert [simp]: "has_bucket (insert_bucket db b bs) i \<longleftrightarrow> b_id b = i \<or> has_bucket bs i"
  by (auto simp: has_bucket_def list_ex_iff)

lemma committed_books:
  assumes "books_balance l" "committed db l ev l'"
  shows "books_balance l'"
proof (cases "has_bucket (l_buckets l) (ev_bucket ev) \<or> \<not> ev_completed ev")
  case True
  then have "l_buckets l' = map (apply_event ev) (l_buckets l)" "l_events l' = l_events l @ [ev]"
    using assms(2) by (simp_all add: committed_def)
  moreover have "event_credit i ev = 0 \<and> event_hold i ev = 0" if "\<not> has_bucket (l_buckets l) i" for i
    using True that by auto
  ultimately show ?thesis
    using assms(1) by (auto simp: books_balance_def apply_event_def)
next
  case False
  then obtain b where b: "l_buckets l' = insert_bucket db b (l_buckets l)" "b_id b = ev_bucket ev"
      "b_remaining b = ev_amount ev" "b_reserved b = 0" "ev_kind ev = TopupBalance"
      "l_events l' = l_events l @ [ev]"
    using assms(2) by (auto simp: committed_def)
  have other: "b_id c \<noteq> ev_bucket ev" if "c \<in> set (l_buckets l)" for c
    using False that by (auto simp: has_bucket_def list_ex_iff)
  show ?thesis
    unfolding books_balance_def
  proof (intro conjI ballI allI impI)
    fix c assume "c \<in> set (l_buckets l')"
    then consider "c = b" | "c \<in> set (l_buckets l)" "ev_bucket ev \<noteq> b_id c"
      using b(1) other by force
    then have "b_reserved c = held (l_events l') (b_id c) \<and>
      b_remaining c + b_reserved c = credited (l_events l') (b_id c)"
      by cases (use assms(1) b(2-6) False in \<open>auto simp: books_balance_def\<close>)
    then show "b_reserved c = held (l_events l') (b_id c)"
      "b_remaining c + b_reserved c = credited (l_events l') (b_id c)" by simp_all
  next
    fix i assume "\<not> has_bucket (l_buckets l') i"
    then show "credited (l_events l') i = 0" "held (l_events l') i = 0"
      using assms(1) b by (auto simp: books_balance_def)
  qed
qed

lemma reaches_books: "reaches db cs l \<Longrightarrow> faithful db \<Longrightarrow> books_balance l"
proof (induction rule: reaches.induct)
  case (step cs l c l' r)
  from step(2) reaches_distinct [OF step(1, 4)] step(4) show ?case
  proof (cases rule: exec_cases)
    case (refused e)
    then show ?thesis
      using step.IH [OF step.prems] unfolding unchanged_def books_balance_def by presburger
  next
    case (event ev)
    then show ?thesis
      using committed_books step.IH step.prems by blast
  qed
qed (simp add: empty_ledger_def books_balance_def credited_def held_def has_bucket_def)

section \<open>No bucket is overdrawn\<close>

definition no_debt :: "ledger \<Rightarrow> bool" where
  "no_debt l \<longleftrightarrow> (\<forall>b \<in> set (l_buckets l). 0 \<le> b_remaining b \<and> 0 \<le> b_reserved b)"

text \<open>A top-up pays in: its amount is not negative. The service does not check this.\<close>

fun pays_in :: "command \<Rightarrow> bool" where
  "pays_in (Topup (Some rq)) \<longleftrightarrow> (case amount_value_of (rq_amount rq) of Fin x \<Rightarrow> 0 \<le> x | _ \<Rightarrow> False)"
| "pays_in _ \<longleftrightarrow> True"

lemma committed_no_debt:
  assumes "no_debt l" "committed db l ev l'" "ev_kind ev \<noteq> TopupBalance \<Longrightarrow> covered l ev"
    and "ev_kind ev = TopupBalance \<Longrightarrow> 0 \<le> ev_amount ev"
  shows "no_debt l'"
proof (cases "has_bucket (l_buckets l) (ev_bucket ev) \<or> \<not> ev_completed ev")
  case True
  then have "l_buckets l' = map (apply_event ev) (l_buckets l)"
    using assms(2) by (simp add: committed_def)
  then show ?thesis
    using assms(1, 3, 4) by (cases "ev_kind ev = TopupBalance") (auto simp: no_debt_def covered_def apply_event_def)
next
  case False
  then show ?thesis
    using assms(1, 2, 4) by (auto simp: committed_def no_debt_def)
qed

lemma reaches_no_debt:
  "reaches db cs l \<Longrightarrow> faithful db \<Longrightarrow> \<forall>c \<in> set cs. pays_in c \<Longrightarrow> no_debt l"
proof (induction rule: reaches.induct)
  case (step cs l c l' r)
  from step(2) reaches_distinct [OF step(1, 4)] step(4) show ?case
  proof (cases rule: exec_cases)
    case (refused e)
    then show ?thesis
      using step.IH step.prems by (simp add: unchanged_def no_debt_def)
  next
    case (event ev)
    have "0 \<le> ev_amount ev" if "ev_kind ev = TopupBalance"
      using event(5) [OF that] step.prems by (auto simp: faithful_def)
    then show ?thesis
      using committed_no_debt [OF _ event(1, 4)] step.IH step.prems by simp
  qed
qed (simp add: empty_ledger_def no_debt_def)

section \<open>The audit trail\<close>

definition ids_of :: "event_kind \<Rightarrow> event list \<Rightarrow> nat list" where
  "ids_of k evs = map ev_id (filter (\<lambda>ev. ev_kind ev = k) evs)"

definition audit_trail :: "ledger \<Rightarrow> bool" where
  "audit_trail l \<longleftrightarrow>
     map (\<lambda>a. (au_entity a, au_entity_id a)) (l_audits l) = map (\<lambda>ev. (ev_kind ev, ev_id ev)) (l_events l) \<and>
     (\<forall>k. sorted_wrt (<) (ids_of k (l_events l)) \<and> (\<forall>i \<in> set (ids_of k (l_events l)). i \<le> seq_of k l))"

lemma audit_trail_step:
  assumes "audit_trail l" "committed db l ev l'" "numbered l ev l'"
  shows "audit_trail l'"
proof -
  have e: "l_events l' = l_events l @ [ev]"
    and a: "l_audits l' = l_audits l @ [\<lparr>au_entity = ev_kind ev, au_entity_id = ev_id ev\<rparr>]"
    using assms(2) by (simp_all add: committed_def)
  have "ids_of k (l_events l') = ids_of k (l_events l) @ (if ev_kind ev = k then [ev_id ev] else [])" for k
    by (simp add: ids_of_def e)
  moreover have "i < ev_id ev" if "i \<in> set (ids_of (ev_kind ev) (l_events l))" for i
    using assms(1, 3) that by (fastforce simp: audit_trail_def numbered_def)
  moreover have "i \<le> seq_of k l'" if "i \<in> set (ids_of k (l_events l))" for i k
    using assms(1, 3) that unfolding audit_trail_def numbered_def by (blast intro: order_trans)
  moreover have "map (\<lambda>a. (au_entity a, au_entity_id a)) (l_audits l') = map (\<lambda>ev. (ev_kind ev, ev_id ev)) (l_events l')"
    using assms(1) by (simp add: audit_trail_def e a)
  ultimately show ?thesis
    using assms(1, 3) by (auto simp: audit_trail_def numbered_def sorted_wrt_append)
qed

lemma reaches_audit_trail: "reaches db cs l \<Longrightarrow> faithful db \<Longrightarrow> audit_trail l"
proof (induction rule: reaches.induct)
  case (step cs l c l' r)
  from step(2) reaches_distinct [OF step(1, 4)] step(4) show ?case
  proof (cases rule: exec_cases)
    case (refused e)
    then show ?thesis
      using step.IH step.prems by (fastforce simp: unchanged_def drawn_def audit_trail_def intro: order_trans)
  next
    case (event ev)
    then show ?thesis
      using audit_trail_step step.IH step.prems by blast
  qed
qed (simp add: empty_ledger_def audit_trail_def ids_of_def)

section \<open>One bucket at a time\<close>

lemma get_bucket_iff:
  "distinct (map b_id (l_buckets l)) \<Longrightarrow> get_bucket l i = Some b \<longleftrightarrow> b \<in> set (l_buckets l) \<and> b_id b = i"
  by (simp add: get_bucket_def find_key)

lemma get_bucket_id: "get_bucket l i = Some b \<Longrightarrow> b_id b = i"
  by (auto simp: get_bucket_def find_Some_iff)

lemma get_bucket_None: "get_bucket l i = None \<longleftrightarrow> \<not> has_bucket (l_buckets l) i"
  by (auto simp: get_bucket_def find_None_iff has_bucket_def list_ex_iff)

lemma committed_get_bucket:
  assumes "committed db l ev l'" "ev_kind ev \<noteq> TopupBalance"
  shows "get_bucket l' i = map_option (apply_event ev) (get_bucket l i)"
  using assms by (auto simp: committed_def get_bucket_def find_map split: if_splits)

text \<open>Requests as the charging function sends them: a bucket, an amount, no dates.\<close>

definition dateless :: "request \<Rightarrow> bool" where
  "dateless rq \<longleftrightarrow> rq_confirmation_date rq = None \<and> rq_requested_date rq = None \<and> rq_valid_for rq = None"

lemma checked_dates_dateless: "dateless rq \<Longrightarrow> checked_dates rq = Some (Inr ())"
  by (simp add: dateless_def checked_dates_def ts_in_def vf_start_def vf_end_def)

definition moved :: "rat \<Rightarrow> rat \<Rightarrow> bucket \<Rightarrow> bucket" where
  "moved dm dh b = b \<lparr>b_remaining := b_remaining b + dm, b_reserved := b_reserved b + dh\<rparr>"

lemma list_ex_find:
  assumes "distinct (map b_id bs)"
  shows "list_ex (\<lambda>b. b_id b = i \<and> P b) bs \<longleftrightarrow> (case find (\<lambda>b. b_id b = i) bs of Some b \<Rightarrow> P b | None \<Rightarrow> False)"
proof (cases "find (\<lambda>b. b_id b = i) bs")
  case None
  then have "\<forall>b \<in> set bs. b_id b \<noteq> i"
    by (auto simp: find_None_iff)
  then show ?thesis
    unfolding None list_ex_iff by auto
next
  case (Some c)
  then have "c \<in> set bs" "b_id c = i"
    using find_key [OF assms] by blast+
  moreover have "b = c" if "b \<in> set bs" "b_id b = i" for b
    using find_key [OF assms, of i b] that Some by simp
  ultimately have "(\<exists>b \<in> set bs. b_id b = i \<and> P b) \<longleftrightarrow> P c"
    by metis
  then show ?thesis
    unfolding Some list_ex_iff option.case .
qed

lemma find_update:
  assumes "distinct (map b_id bs)" "\<And>b. b_id (f b) = b_id b"
  shows "find (\<lambda>b. b_id b = j) (map (\<lambda>b. if b_id b = i \<and> P b then f b else b) bs) =
    map_option (\<lambda>b. if j = i \<and> P b then f b else b) (find (\<lambda>b. b_id b = j) bs)"
  using assms by (induction bs) auto

lemma reserve_dateless:
  assumes "dateless rq" "rq_bucket rq = Some i" "amount_value_of (rq_amount rq) = Fin x" "faithful db"
    and "distinct (map b_id (l_buckets l))"
  defines "a \<equiv> db_numeric db x"
  defines "enough b \<equiv> if 0 \<le> a then a \<le> b_remaining b else - a \<le> b_reserved b"
  shows "\<exists>l' n. reserve db rq ref l = Some (l', Inr \<lparr>mr_id = n,
       mr_succeeded = (case get_bucket l i of Some b \<Rightarrow> enough b | None \<Rightarrow> False)\<rparr>) \<and>
     (\<forall>j. get_bucket l' j = map_option (\<lambda>b. if j = i \<and> enough b then moved (- a) a b else b) (get_bucket l j)) \<and>
     map b_id (l_buckets l') = map b_id (l_buckets l) \<and>
     (\<forall>p. find_shared_bucket_for l' p = map_option (\<lambda>b. if b_id b = i \<and> enough b then moved (- a) a b else b)
        (find_shared_bucket_for l p))"
proof -
  have sign: "0 \<le> x \<longleftrightarrow> 0 \<le> a" "db_numeric db (- x) = - a"
    using assms(4) by (simp_all add: faithful_def a_def)
  define bs where "bs = map (\<lambda>b. if b_id b = i \<and> enough b then moved (- a) a b else b) (l_buckets l)"
  have "update_where (\<lambda>b. b_id b = i \<and> enough b) (moved (- a) a) (l_buckets l) =
      (case get_bucket l i of Some b \<Rightarrow> enough b | None \<Rightarrow> False, bs)"
    by (simp add: update_where_def bs_def list_ex_find [OF assms(5)] get_bucket_def)
  moreover have "(\<lambda>b. b_id b = i \<and> enough b) =
      (if 0 \<le> a then (\<lambda>b. b_id b = i \<and> b_remaining b \<ge> a) else (\<lambda>b. b_id b = i \<and> b_reserved b \<ge> - a))"
    by (simp add: enough_def fun_eq_iff)
  moreover have "moved (- a) a = (\<lambda>b. b \<lparr>b_remaining := b_remaining b - a, b_reserved := b_reserved b + a\<rparr>)"
    "moved (- a) a = (\<lambda>b. b \<lparr>b_remaining := b_remaining b + - a, b_reserved := b_reserved b - - a\<rparr>)"
    by (simp_all add: moved_def fun_eq_iff)
  ultimately obtain l' n where r: "reserve db rq ref l = Some (l', Inr \<lparr>mr_id = n,
       mr_succeeded = (case get_bucket l i of Some b \<Rightarrow> enough b | None \<Rightarrow> False)\<rparr>)" and l': "l_buckets l' = bs"
    using assms(2, 3) sign
    by (simp add: reserve_def finish_def checked_dates_dateless [OF assms(1)] Let_def a_def [symmetric] split: if_splits)
  have id: "b_id (moved (- a) a b) = b_id b" for b
    by (simp add: moved_def)
  have "find_shared_bucket_for l' p = map_option (\<lambda>b. if b_id b = i \<and> enough b then moved (- a) a b else b)
        (find_shared_bucket_for l p)" for p
  proof -
    have "shared_with p (moved (- a) a b) = shared_with p b" for b
      by (simp add: moved_def shared_with_def)
    then show ?thesis
      unfolding find_shared_bucket_for_def l' bs_def by (intro find_map) simp
  qed
  then show ?thesis
    using r find_update [OF assms(5) id] l' id
    by (auto simp: get_bucket_def bs_def o_def if_distrib [of b_id] cong: if_cong)
qed

lemma adjust_dateless:
  fixes db :: database
  assumes "dateless rq" "rq_bucket rq = Some i" "amount_value_of (rq_amount rq) = Fin x"
    and "distinct (map b_id (l_buckets l))"
  defines "a \<equiv> db_numeric db x"
  defines "enough b \<equiv> 0 \<le> b_remaining b + a"
  shows "\<exists>l' n. adjust db rq l = Some (l', Inr \<lparr>mr_id = n,
       mr_succeeded = (case get_bucket l i of Some b \<Rightarrow> enough b | None \<Rightarrow> False)\<rparr>) \<and>
     (\<forall>j. get_bucket l' j = map_option (\<lambda>b. if j = i \<and> enough b then moved a 0 b else b) (get_bucket l j)) \<and>
     map b_id (l_buckets l') = map b_id (l_buckets l)"
proof -
  define bs where "bs = map (\<lambda>b. if b_id b = i \<and> enough b then moved a 0 b else b) (l_buckets l)"
  have "update_where (\<lambda>b. b_id b = i \<and> enough b) (moved a 0) (l_buckets l) =
      (case get_bucket l i of Some b \<Rightarrow> enough b | None \<Rightarrow> False, bs)"
    by (simp add: update_where_def bs_def list_ex_find [OF assms(4)] get_bucket_def)
  moreover have "moved a 0 = (\<lambda>b. b \<lparr>b_remaining := b_remaining b + a\<rparr>)"
    by (simp add: moved_def fun_eq_iff)
  ultimately obtain l' n where r: "adjust db rq l = Some (l', Inr \<lparr>mr_id = n,
       mr_succeeded = (case get_bucket l i of Some b \<Rightarrow> enough b | None \<Rightarrow> False)\<rparr>)" and l': "l_buckets l' = bs"
    using assms(2, 3)
    by (simp add: adjust_def finish_def checked_dates_dateless [OF assms(1)] Let_def a_def [symmetric] enough_def)
  have id: "b_id (moved a 0 b) = b_id b" for b
    by (simp add: moved_def)
  then show ?thesis
    using r find_update [OF assms(4) id] l'
    by (auto simp: get_bucket_def bs_def o_def if_distrib [of b_id] cong: if_cong)
qed

section \<open>Properties\<close>

text \<open>Property C3: after any sequence of requests, a bucket's row is what its events say: the
  reserved amount is the sum of its completed reservations, the remaining amount that of its
  completed top-ups and adjustments less the reserved.\<close>

theorem ledger_matches_events:
  assumes "faithful db" "reaches db cs l" "get_bucket l i = Some b"
  shows "b_reserved b = held (l_events l) i \<and> b_remaining b = credited (l_events l) i - held (l_events l) i"
proof -
  have b: "b \<in> set (l_buckets l)" "b_id b = i"
    using get_bucket_iff [OF reaches_distinct [OF assms(2, 1)]] assms(3) by simp_all
  then have "b_reserved b = held (l_events l) i \<and> b_remaining b + b_reserved b = credited (l_events l) i"
    using reaches_books [OF assms(2, 1)] unfolding books_balance_def by blast
  then show ?thesis
    by (simp add: eq_diff_eq)
qed

text \<open>Property C4: as long as every top-up pays in, no sequence of adjustments and reservations,
  refunds included, leaves a bucket with a negative remaining or reserved amount.\<close>

theorem ledger_never_overdrawn:
  assumes "faithful db" "reaches db cs l" "\<forall>c \<in> set cs. pays_in c" "get_bucket l i = Some b"
  shows "0 \<le> b_remaining b \<and> 0 \<le> b_reserved b"
proof -
  have "b \<in> set (l_buckets l)"
    using get_bucket_iff [OF reaches_distinct [OF assms(2, 1)]] assms(4) by simp
  then show ?thesis
    using reaches_no_debt [OF assms(2, 1, 3)] by (simp add: no_debt_def)
qed

text \<open>Every committed event has its audit row, in the same order, and the events of a
  kind carry strictly increasing numbers, refused requests and rolled-back transactions between
  them or not.\<close>

theorem ledger_audit_complete:
  assumes "faithful db" "reaches db cs l"
  shows "map (\<lambda>a. (au_entity a, au_entity_id a)) (l_audits l) = map (\<lambda>ev. (ev_kind ev, ev_id ev)) (l_events l) \<and>
    sorted_wrt (<) (ids_of k (l_events l))"
  using reaches_audit_trail [OF assms(2, 1)] by (simp add: audit_trail_def)

lemma sorted_find:
  assumes "sorted_wrt r xs" "find P xs = Some x" "y \<in> set xs" "P y"
  shows "y = x \<or> r x y"
  using assms by (induction xs) (auto split: if_splits)

text \<open>The shared bucket of a party is the one with the least identifier among the
  active shared buckets that name the party, and none is found only if there is none.\<close>

theorem find_shared_bucket_least:
  assumes "faithful db" "reaches db cs l"
  shows "case find_shared_bucket_for l party of
      None \<Rightarrow> \<forall>c \<in> set (l_buckets l). \<not> shared_with party c
    | Some b \<Rightarrow> b \<in> set (l_buckets l) \<and> shared_with party b \<and>
        (\<forall>c \<in> set (l_buckets l). shared_with party c \<longrightarrow> c = b \<or> db_before db (b_id b) (b_id c))"
proof (cases "find_shared_bucket_for l party")
  case None
  then have "\<forall>c \<in> set (l_buckets l). \<not> shared_with party c"
    by (auto simp: find_shared_bucket_for_def find_None_iff)
  then show ?thesis
    by (simp add: None)
next
  case (Some b)
  then have "b \<in> set (l_buckets l)" "shared_with party b"
    by (auto simp: find_shared_bucket_for_def find_Some_iff)
  then show ?thesis
    using sorted_find [OF reaches_order [OF assms(2, 1), unfolded in_order_def]] Some
    by (auto simp: find_shared_bucket_for_def)
qed

text \<open>A top-up is not checked: it moves any amount, so that one with a negative
  amount can leave a debt that an adjustment of the same amount would have refused.\<close>

theorem topup_unchecked:
  assumes "dateless rq" "rq_bucket rq = Some i" "amount_value_of (rq_amount rq) = Fin x" "get_bucket l i = Some b"
  shows "\<exists>l' n. topup db rq l = Some (l', Inr \<lparr>mr_id = n, mr_succeeded = True\<rparr>) \<and>
    (\<exists>b'. get_bucket l' i = Some b' \<and> b_remaining b' = b_remaining b + db_numeric db x \<and> b_reserved b' = b_reserved b)"
proof -
  let ?f = "\<lambda>b. if b_id b = i then b \<lparr>b_remaining := b_remaining b + db_numeric db x\<rparr> else b"
  have "has_bucket (l_buckets l) i"
    using assms(4) get_bucket_None [of l i] by auto
  then obtain l' n where "topup db rq l = Some (l', Inr \<lparr>mr_id = n, mr_succeeded = True\<rparr>)"
    "l_buckets l' = map ?f (l_buckets l)"
    using assms(2, 3) by (simp add: topup_def Let_def finish_def checked_dates_dateless [OF assms(1)])
  moreover have "find (\<lambda>b. b_id b = i) (map ?f (l_buckets l)) = map_option ?f (find (\<lambda>b. b_id b = i) (l_buckets l))"
    by (rule find_map) simp
  ultimately have "topup db rq l = Some (l', Inr \<lparr>mr_id = n, mr_succeeded = True\<rparr>)" "get_bucket l' i = Some (?f b)"
    using assms(4) by (simp_all add: get_bucket_def)
  then show ?thesis
    using get_bucket_id [OF assms(4)] by simp
qed

section \<open>Concrete instances\<close>

definition sample_database :: database where
  "sample_database = \<lparr>db_numeric = (\<lambda>x. x), db_before = (<), db_account_exists = (\<lambda>a. True)\<rparr>"

lemma faithful_sample: "faithful sample_database"
  by (auto simp: faithful_def sample_database_def)

definition sample_request :: "string \<Rightarrow> rat \<Rightarrow> request" where
  "sample_request i x =
     \<lparr>rq_bucket = Some i, rq_amount = Some \<lparr>qty_amount = Some (Fin x), qty_units = None\<rparr>, rq_account = None,
      rq_products = [], rq_usage_type = None, rq_confirmation_date = None, rq_requested_date = None,
      rq_valid_for = None\<rparr>"

definition sample_commands :: "command list" where
  "sample_commands = [Topup (Some (sample_request ''b1'' 100)), Reserve (Some (sample_request ''b1'' 30)) None]"

definition sample_bucket :: "string \<Rightarrow> rat \<Rightarrow> rat \<Rightarrow> bucket" where
  "sample_bucket i m h =
     \<lparr>b_id = i, b_account = None, b_is_shared = None, b_related_parties = [], b_products = [], b_unit = None,
      b_remaining = m, b_reserved = h, b_status = Some ''active'', b_usage_type = Some ''monetary''\<rparr>"

definition sample_event :: "event_kind \<Rightarrow> rat \<Rightarrow> event" where
  "sample_event k x =
     \<lparr>ev_kind = k, ev_id = 1, ev_bucket = ''b1'', ev_amount = x, ev_units = None, ev_completed = True,
      ev_charging_data_ref = None\<rparr>"

definition sample_ledger1 :: ledger where
  "sample_ledger1 =
     \<lparr>l_buckets = [sample_bucket ''b1'' 100 0], l_events = [sample_event TopupBalance 100],
      l_audits = [\<lparr>au_entity = TopupBalance, au_entity_id = 1\<rparr>], l_topup_seq = 1, l_adjust_seq = 0, l_reserve_seq = 0\<rparr>"

definition sample_ledger :: ledger where
  "sample_ledger =
     \<lparr>l_buckets = [sample_bucket ''b1'' 70 30],
      l_events = [sample_event TopupBalance 100, sample_event ReserveBalance 30],
      l_audits = [\<lparr>au_entity = TopupBalance, au_entity_id = 1\<rparr>, \<lparr>au_entity = ReserveBalance, au_entity_id = 1\<rparr>],
      l_topup_seq = 1, l_adjust_seq = 0, l_reserve_seq = 1\<rparr>"

lemmas sample_ledger_defs =
  sample_database_def sample_request_def sample_bucket_def sample_event_def sample_ledger1_def sample_ledger_def

lemma sample_run1: "exec sample_database (Topup (Some (sample_request ''b1'' 100))) empty_ledger = Some (sample_ledger1, Created 1 True)"
  by (simp add: post_topup_def handle_def topup_def finish_def checked_dates_def ts_in_def vf_start_def vf_end_def
      empty_ledger_def has_bucket_def amount_value_of_def amount_units_of_def distinct_products_def sample_ledger_defs)

lemma sample_run2:
  "exec sample_database (Reserve (Some (sample_request ''b1'' 30)) None) sample_ledger1 = Some (sample_ledger, Created 1 True)"
  by (simp add: post_reserve_def handle_def reserve_def finish_def checked_dates_def ts_in_def vf_start_def vf_end_def
      update_where_def amount_value_of_def amount_units_of_def sample_ledger_defs)

lemma sample_reaches: "reaches sample_database sample_commands sample_ledger"
  using reaches.step [OF reaches.step [OF reaches.start sample_run1] sample_run2]
  by (simp add: sample_commands_def)

lemma sample_get_bucket: "get_bucket sample_ledger ''b1'' = Some (sample_bucket ''b1'' 70 30)"
  by (simp add: get_bucket_def sample_ledger_defs)

theorem ledger_matches_events_witness:
  "b_reserved (sample_bucket ''b1'' 70 30) = held (l_events sample_ledger) ''b1'' \<and>
   b_remaining (sample_bucket ''b1'' 70 30) = credited (l_events sample_ledger) ''b1'' - held (l_events sample_ledger) ''b1''"
  by (rule ledger_matches_events [OF faithful_sample sample_reaches sample_get_bucket])

theorem ledger_never_overdrawn_witness:
  "0 \<le> b_remaining (sample_bucket ''b1'' 70 30) \<and> 0 \<le> b_reserved (sample_bucket ''b1'' 70 30)"
  by (rule ledger_never_overdrawn [OF faithful_sample sample_reaches _ sample_get_bucket])
    (simp add: sample_commands_def sample_request_def amount_value_of_def)

theorem ledger_audit_complete_witness:
  "map (\<lambda>a. (au_entity a, au_entity_id a)) (l_audits sample_ledger) = map (\<lambda>ev. (ev_kind ev, ev_id ev)) (l_events sample_ledger) \<and>
   sorted_wrt (<) (ids_of ReserveBalance (l_events sample_ledger))"
  by (rule ledger_audit_complete [OF faithful_sample sample_reaches])

theorem find_shared_bucket_least_witness: "find_shared_bucket_for sample_ledger ''imsi-1'' = None \<and>
   \<not> shared_with ''imsi-1'' (sample_bucket ''b1'' 70 30)"
proof -
  have "find_shared_bucket_for sample_ledger ''imsi-1'' = None"
    by (simp add: find_shared_bucket_for_def shared_with_def sample_ledger_defs)
  then show ?thesis
    using find_shared_bucket_least [OF faithful_sample sample_reaches, of "''imsi-1''"]
    by (simp add: sample_ledger_def)
qed

theorem topup_unchecked_witness:
  "\<exists>l' n. topup sample_database (sample_request ''b1'' (- 80)) sample_ledger =
       Some (l', Inr \<lparr>mr_id = n, mr_succeeded = True\<rparr>) \<and>
     (\<exists>b'. get_bucket l' ''b1'' = Some b' \<and> b_remaining b' = - 10 \<and> b_reserved b' = 30)"
  using topup_unchecked [OF _ _ _ sample_get_bucket, of "sample_request ''b1'' (- 80)" "- 80" sample_database]
  by (simp add: dateless_def amount_value_of_def sample_request_def sample_database_def sample_bucket_def)

end
