(* ===== verification/Charging_Balance.thy ===== *)
theory Charging_Balance
  imports Balance_Ledger
begin

text \<open>
  How the charging function moves a subscriber's money
  (\<open>resolve_bucket_id\<close>, \<open>reserve_subscriber_balance\<close> and \<open>finalize_subscriber_balance\<close>
  of \<open>nfs/chf/src/charging_engine.cpp\<close>). Each step is a request over the network, which can
  be lost before or after it took effect. The code that commits a reservation relies on a contract
  of the balance service, the locale \<open>prepaid_account\<close>, which the model of the service meets.
\<close>

section \<open>The network\<close>

text \<open>What becomes of one request: answered; lost, or refused by the transport, before it took
  effect; or performed, with the answer lost.\<close>

datatype fate = Delivered | RequestLost | ReplyLost

definition send :: "fate \<Rightarrow> ('s \<Rightarrow> ('s \<times> reply) option) \<Rightarrow> 's \<Rightarrow> ('s \<times> reply option) option" where
  "send f call s =
     (if f = RequestLost then Some (s, None)
      else (case call s of
              None \<Rightarrow> None
            | Some (s', r) \<Rightarrow> Some (s', if f = Delivered then Some r else None)))"

section \<open>The client\<close>

text \<open>A number as the JSON printer writes it: one that is not finite becomes \<open>null\<close>, which
  the reader takes as absent.\<close>

definition json_number :: "double \<Rightarrow> double option" where
  "json_number d = (if d_isfinite d then Some d else None)"

text \<open>The request body the charging function builds.\<close>

definition chf_request :: "string \<Rightarrow> double \<Rightarrow> string option \<Rightarrow> request" where
  "chf_request bid amt units =
     \<lparr>rq_bucket = Some bid, rq_amount = Some \<lparr>qty_amount = json_number amt, qty_units = units\<rparr>, rq_account = None,
      rq_products = [], rq_usage_type = Some ''monetary'', rq_confirmation_date = None, rq_requested_date = None,
      rq_valid_for = None\<rparr>"

text \<open>\<open>GET /bucket?relatedParty.id=\<close>: an empty filter value lists every bucket.\<close>

definition get_buckets_of :: "string \<Rightarrow> ledger \<Rightarrow> bucket list" where
  "get_buckets_of party l =
     (if party \<noteq> [] then (case find_shared_bucket_for l party of Some b \<Rightarrow> [b] | None \<Rightarrow> []) else list_buckets l)"

definition resolve_bucket_id :: "fate \<Rightarrow> string \<Rightarrow> ledger \<Rightarrow> string" where
  "resolve_bucket_id f supi l =
     (if f = Delivered then (case get_buckets_of supi l of b # _ \<Rightarrow> b_id b | [] \<Rightarrow> supi) else supi)"

definition reserve_subscriber_balance ::
  "database \<Rightarrow> fate \<Rightarrow> fate \<Rightarrow> string \<Rightarrow> money \<Rightarrow> string \<Rightarrow> ledger \<Rightarrow> (ledger \<times> bool) option" where
  "reserve_subscriber_balance db f1 f2 supi cost ref l =
     (case money_value cost of
        None \<Rightarrow> Some (l, True)
      | Some v \<Rightarrow>
          if d_le v (Fin 0) then Some (l, True)
          else (case send f2 (post_reserve db (Some (chf_request (resolve_bucket_id f1 supi l) v (money_unit cost))) (Some ref)) l of
                  None \<Rightarrow> None
                | Some (l', Some (Created _ completed)) \<Rightarrow> Some (l', completed)
                | Some (l', _) \<Rightarrow> Some (l', False)))"

text \<open>The two requests that commit a reservation, over any service that offers them: give the
  whole reservation back, then debit what was consumed. An answer with status 201 lets the second
  step go ahead, whatever status the event in it has.\<close>

definition commit_by ::
  "(string \<Rightarrow> double \<Rightarrow> 's \<Rightarrow> ('s \<times> reply) option) \<Rightarrow> (string \<Rightarrow> double \<Rightarrow> 's \<Rightarrow> ('s \<times> reply) option) \<Rightarrow>
   fate \<Rightarrow> fate \<Rightarrow> string \<Rightarrow> double \<Rightarrow> double \<Rightarrow> 's \<Rightarrow> 's option" where
  "commit_by reserve_op adjust_op f2 f3 bid total_reserved amount_to_debit s =
     (case send f2 (reserve_op bid (d_neg total_reserved)) s of
        None \<Rightarrow> None
      | Some (s1, Some (Created _ _)) \<Rightarrow>
          if d_le amount_to_debit (Fin 0) then Some s1
          else map_option fst (send f3 (adjust_op bid (d_neg amount_to_debit)) s1)
      | Some (s1, _) \<Rightarrow> Some s1)"

text \<open>The service's two requests, on a ledger and its database.\<close>

definition reserve_request :: "string option \<Rightarrow> string \<Rightarrow> double \<Rightarrow> database \<times> ledger \<Rightarrow> ((database \<times> ledger) \<times> reply) option" where
  "reserve_request ref bid amt s =
     map_option (\<lambda>(l, r). ((fst s, l), r)) (post_reserve (fst s) (Some (chf_request bid amt None)) ref (snd s))"

definition adjust_request :: "string \<Rightarrow> double \<Rightarrow> database \<times> ledger \<Rightarrow> ((database \<times> ledger) \<times> reply) option" where
  "adjust_request bid amt s =
     map_option (\<lambda>(l, r). ((fst s, l), r)) (post_adjust (fst s) (Some (chf_request bid amt None)) (snd s))"

definition finalize_subscriber_balance ::
  "database \<Rightarrow> fate \<Rightarrow> fate \<Rightarrow> fate \<Rightarrow> string \<Rightarrow> double \<Rightarrow> double \<Rightarrow> string \<Rightarrow> ledger \<Rightarrow> ledger option" where
  "finalize_subscriber_balance db f1 f2 f3 supi total_reserved amount_to_debit ref l =
     (if d_le total_reserved (Fin 0) then Some l
      else map_option snd
        (commit_by (reserve_request (Some ref)) adjust_request f2 f3 (resolve_bucket_id f1 supi l) total_reserved
           (d_clamp amount_to_debit (Fin 0) total_reserved) (db, l)))"

section \<open>The contract of the balance service\<close>

text \<open>What a committed or a failed request does to an account, given as its remaining and its
  reserved amount.\<close>

definition transfer :: "bool \<Rightarrow> rat \<Rightarrow> rat \<Rightarrow> (rat \<times> rat) option \<Rightarrow> (rat \<times> rat) option" where
  "transfer ok dm dh acc = (if ok then map_option (\<lambda>(m, h). (m + dm, h + dh)) acc else acc)"

locale prepaid_account =
  fixes usable :: "'s \<Rightarrow> bool"
    and account :: "'s \<Rightarrow> string \<Rightarrow> (rat \<times> rat) option"
    and value_in :: "'s \<Rightarrow> rat \<Rightarrow> rat"
    and reserve_op :: "string \<Rightarrow> double \<Rightarrow> 's \<Rightarrow> ('s \<times> reply) option"
    and adjust_op :: "string \<Rightarrow> double \<Rightarrow> 's \<Rightarrow> ('s \<times> reply) option"
  assumes reserve_law: "usable s \<Longrightarrow> bid \<noteq> [] \<Longrightarrow> account s bid = Some (m, h) \<Longrightarrow>
      \<exists>s' n ok. reserve_op bid (Fin x) s = Some (s', Created n ok) \<and> usable s' \<and> value_in s' = value_in s \<and>
        ok = (if 0 \<le> value_in s x then value_in s x \<le> m else - value_in s x \<le> h) \<and>
        account s' bid = transfer ok (- value_in s x) (value_in s x) (Some (m, h)) \<and>
        (\<forall>j. j \<noteq> bid \<longrightarrow> account s' j = account s j)"
    and adjust_law: "usable s \<Longrightarrow> bid \<noteq> [] \<Longrightarrow> account s bid = Some (m, h) \<Longrightarrow>
      \<exists>s' n ok. adjust_op bid (Fin x) s = Some (s', Created n ok) \<and> usable s' \<and> value_in s' = value_in s \<and>
        ok = (0 \<le> m + value_in s x) \<and> account s' bid = transfer ok (value_in s x) 0 (Some (m, h)) \<and>
        (\<forall>j. j \<noteq> bid \<longrightarrow> account s' j = account s j)"
    and value_neg: "usable s \<Longrightarrow> value_in s (- x) = - value_in s x"
    and value_sign: "usable s \<Longrightarrow> 0 \<le> value_in s x \<longleftrightarrow> 0 \<le> x"

text \<open>What committing does to an account, for every fate of the two requests.\<close>

definition settle :: "fate \<Rightarrow> fate \<Rightarrow> rat \<Rightarrow> rat \<Rightarrow> rat \<times> rat \<Rightarrow> rat \<times> rat" where
  "settle f2 f3 tot debit acc =
     (let (m, h) = acc;
          (m1, h1) = (if f2 = RequestLost \<or> h < tot then (m, h) else (m + tot, h - tot))
      in if f2 \<noteq> Delivered \<or> f3 = RequestLost \<or> m1 < debit then (m1, h1) else (m1 - debit, h1))"

context prepaid_account
begin

lemma value_pos: "usable s \<Longrightarrow> 0 < x \<Longrightarrow> 0 < value_in s x"
  using value_sign [of s x] value_sign [of s "- x"] value_neg [of s x] by (simp add: not_le [symmetric])

lemma commit_settles:
  assumes "usable s" "bid \<noteq> []" "account s bid = Some (m, h)" "0 < t" "0 \<le> d"
  shows "\<exists>s'. commit_by reserve_op adjust_op f2 f3 bid (Fin t) (Fin d) s = Some s' \<and> usable s' \<and>
    value_in s' = value_in s \<and>
    account s' bid = Some (settle f2 f3 (value_in s t) (value_in s d) (m, h)) \<and>
    (\<forall>j. j \<noteq> bid \<longrightarrow> account s' j = account s j)"
proof (cases "f2 = RequestLost")
  case True
  then show ?thesis
    using assms by (simp add: commit_by_def send_def settle_def)
next
  case sent: False
  obtain s1 n ok where r: "reserve_op bid (Fin (- t)) s = Some (s1, Created n ok)" "usable s1"
      "value_in s1 = value_in s" "ok = (value_in s t \<le> h)"
      "account s1 bid = transfer ok (value_in s t) (- value_in s t) (Some (m, h))"
      "\<forall>j. j \<noteq> bid \<longrightarrow> account s1 j = account s j"
    using reserve_law [OF assms(1-3), of "- t"] value_pos [OF assms(1, 4)] value_neg [OF assms(1)] by auto
  define m1 where "m1 = (if ok then m + value_in s t else m)"
  define h1 where "h1 = (if ok then h - value_in s t else h)"
  have a1: "account s1 bid = Some (m1, h1)"
    using r(5) by (simp add: transfer_def m1_def h1_def)
  have settle: "settle f2 f3 (value_in s t) (value_in s d) (m, h) =
      (if f2 \<noteq> Delivered \<or> f3 = RequestLost \<or> m1 < value_in s d then (m1, h1) else (m1 - value_in s d, h1))"
    using sent r(4) by (auto simp: settle_def m1_def h1_def)
  show ?thesis
  proof (cases "f2 = Delivered \<and> 0 < d \<and> f3 \<noteq> RequestLost")
    case False
    have "d = 0 \<Longrightarrow> value_in s d = 0"
      using value_neg [OF assms(1), of 0] by simp
    with False have "settle f2 f3 (value_in s t) (value_in s d) (m, h) = (m1, h1)"
      using assms(5) settle by (cases "d = 0") auto
    moreover have "commit_by reserve_op adjust_op f2 f3 bid (Fin t) (Fin d) s = Some s1"
      using False sent r(1) assms(5) by (cases "f2 = Delivered") (auto simp: commit_by_def send_def)
    ultimately show ?thesis
      using r a1 by simp
  next
    case True
    obtain s2 k ok2 where q: "adjust_op bid (Fin (- d)) s1 = Some (s2, Created k ok2)" "usable s2"
        "value_in s2 = value_in s1" "ok2 = (value_in s d \<le> m1)"
        "account s2 bid = transfer ok2 (- value_in s d) 0 (Some (m1, h1))"
        "\<forall>j. j \<noteq> bid \<longrightarrow> account s2 j = account s1 j"
      using adjust_law [OF r(2) assms(2) a1, of "- d"] value_neg [OF assms(1)] r(3) by auto
    have "commit_by reserve_op adjust_op f2 f3 bid (Fin t) (Fin d) s = Some s2"
      using True r(1) q(1) by (simp add: commit_by_def send_def)
    moreover have "account s2 bid = Some (settle f2 f3 (value_in s t) (value_in s d) (m, h))"
      using q(4, 5) True settle by (simp add: transfer_def)
    ultimately show ?thesis
      using q r by simp
  qed
qed

end

section \<open>The balance service meets the contract\<close>

definition usable_state :: "database \<times> ledger \<Rightarrow> bool" where
  "usable_state s \<longleftrightarrow> faithful (fst s) \<and> distinct (map b_id (l_buckets (snd s)))"

definition account_of :: "ledger \<Rightarrow> string \<Rightarrow> (rat \<times> rat) option" where
  "account_of l i = map_option (\<lambda>b. (b_remaining b, b_reserved b)) (get_bucket l i)"

lemma account_of_Some: "account_of l i = Some (m, h) \<longleftrightarrow> (\<exists>b. get_bucket l i = Some b \<and> m = b_remaining b \<and> h = b_reserved b)"
  by (auto simp: account_of_def)

lemma chf_request_simps [simp]:
  "dateless (chf_request bid amt u)" "rq_bucket (chf_request bid amt u) = Some bid"
  "amount_value_of (rq_amount (chf_request bid (Fin x) u)) = Fin x"
  by (simp_all add: chf_request_def dateless_def amount_value_of_def json_number_def value_or_def)

lemma post_reserve_account:
  fixes x :: rat
  assumes "faithful db" "distinct (map b_id (l_buckets l))" "bid \<noteq> []" "account_of l bid = Some (m, h)"
  defines "v \<equiv> db_numeric db x"
  shows "\<exists>l' n ok. post_reserve db (Some (chf_request bid (Fin x) u)) ref l = Some (l', Created n ok) \<and>
    distinct (map b_id (l_buckets l')) \<and> ok = (if 0 \<le> v then v \<le> m else - v \<le> h) \<and>
    account_of l' bid = transfer ok (- v) v (Some (m, h)) \<and> (\<forall>j. j \<noteq> bid \<longrightarrow> account_of l' j = account_of l j)"
proof -
  obtain b where b: "get_bucket l bid = Some b" "m = b_remaining b" "h = b_reserved b"
    using assms(4) by (auto simp: account_of_Some)
  define ok where "ok = (if 0 \<le> v then v \<le> m else - v \<le> h)"
  obtain l' n where r: "reserve db (chf_request bid (Fin x) u) ref l = Some (l', Inr \<lparr>mr_id = n, mr_succeeded = ok\<rparr>)"
    "\<forall>j. get_bucket l' j = map_option
       (\<lambda>b. if j = bid \<and> (if 0 \<le> v then v \<le> b_remaining b else - v \<le> b_reserved b) then moved (- v) v b else b)
       (get_bucket l j)"
    "map b_id (l_buckets l') = map b_id (l_buckets l)"
    using reserve_dateless [where rq = "chf_request bid (Fin x) u" and ref = ref, OF chf_request_simps assms(1, 2)] b(1)
    unfolding ok_def v_def b(2, 3) by auto
  have "account_of l' bid = transfer ok (- v) v (Some (m, h))"
    using r(2) b(1) by (simp add: account_of_def transfer_def ok_def b(2, 3) moved_def)
  moreover have "\<forall>j. j \<noteq> bid \<longrightarrow> account_of l' j = account_of l j"
    using r(2) by (simp add: account_of_def option.map_comp o_def)
  moreover have "post_reserve db (Some (chf_request bid (Fin x) u)) ref l = Some (l', Created n ok)"
    using r(1) assms(3) by (simp add: post_reserve_def handle_def)
  ultimately show ?thesis
    using r(3) assms(2) ok_def by simp
qed

lemma post_adjust_account:
  fixes db :: database and x :: rat
  assumes "distinct (map b_id (l_buckets l))" "bid \<noteq> []" "account_of l bid = Some (m, h)"
  defines "v \<equiv> db_numeric db x"
  shows "\<exists>l' n ok. post_adjust db (Some (chf_request bid (Fin x) u)) l = Some (l', Created n ok) \<and>
    distinct (map b_id (l_buckets l')) \<and> ok = (0 \<le> m + v) \<and>
    account_of l' bid = transfer ok v 0 (Some (m, h)) \<and> (\<forall>j. j \<noteq> bid \<longrightarrow> account_of l' j = account_of l j)"
proof -
  obtain b where b: "get_bucket l bid = Some b" "m = b_remaining b" "h = b_reserved b"
    using assms(3) by (auto simp: account_of_Some)
  define ok where "ok = (0 \<le> m + v)"
  obtain l' n where r: "adjust db (chf_request bid (Fin x) u) l = Some (l', Inr \<lparr>mr_id = n, mr_succeeded = ok\<rparr>)"
    "\<forall>j. get_bucket l' j = map_option (\<lambda>b. if j = bid \<and> 0 \<le> b_remaining b + v then moved v 0 b else b) (get_bucket l j)"
    "map b_id (l_buckets l') = map b_id (l_buckets l)"
    using adjust_dateless [where rq = "chf_request bid (Fin x) u" and db = db, OF chf_request_simps assms(1)] b(1)
    unfolding ok_def v_def b(2, 3) by auto
  have "account_of l' bid = transfer ok v 0 (Some (m, h))"
    using r(2) b(1) by (simp add: account_of_def transfer_def ok_def b(2, 3) moved_def)
  moreover have "\<forall>j. j \<noteq> bid \<longrightarrow> account_of l' j = account_of l j"
    using r(2) by (simp add: account_of_def option.map_comp o_def)
  moreover have "post_adjust db (Some (chf_request bid (Fin x) u)) l = Some (l', Created n ok)"
    using r(1) assms(2) by (simp add: post_adjust_def handle_def)
  ultimately show ?thesis
    using r(3) assms(1) ok_def by simp
qed

interpretation prepaid: prepaid_account usable_state "\<lambda>s. account_of (snd s)" "\<lambda>s. db_numeric (fst s)"
  "reserve_request ref" adjust_request for ref
proof
  fix s :: "database \<times> ledger" and bid m h x
  assume a: "usable_state s" "bid \<noteq> []" "account_of (snd s) bid = Some (m, h)"
  show "\<exists>s' n ok. reserve_request ref bid (Fin x) s = Some (s', Created n ok) \<and> usable_state s' \<and>
      db_numeric (fst s') = db_numeric (fst s) \<and>
      ok = (if 0 \<le> db_numeric (fst s) x then db_numeric (fst s) x \<le> m else - db_numeric (fst s) x \<le> h) \<and>
      account_of (snd s') bid = transfer ok (- db_numeric (fst s) x) (db_numeric (fst s) x) (Some (m, h)) \<and>
      (\<forall>j. j \<noteq> bid \<longrightarrow> account_of (snd s') j = account_of (snd s) j)"
    using post_reserve_account [of "fst s" "snd s" bid m h x None ref] a
    by (force simp: reserve_request_def usable_state_def)
  show "\<exists>s' n ok. adjust_request bid (Fin x) s = Some (s', Created n ok) \<and> usable_state s' \<and>
      db_numeric (fst s') = db_numeric (fst s) \<and>
      ok = (0 \<le> m + db_numeric (fst s) x) \<and>
      account_of (snd s') bid = transfer ok (db_numeric (fst s) x) 0 (Some (m, h)) \<and>
      (\<forall>j. j \<noteq> bid \<longrightarrow> account_of (snd s') j = account_of (snd s) j)"
    using post_adjust_account [of "snd s" bid m h "fst s" x None] a
    by (force simp: adjust_request_def usable_state_def)
qed (auto simp: usable_state_def faithful_def)

section \<open>Properties\<close>

lemma finalize_account:
  assumes "faithful db" "distinct (map b_id (l_buckets l))" "bid = resolve_bucket_id f1 supi l" "bid \<noteq> []"
    and "account_of l bid = Some (m, h)" "0 < t" "0 \<le> d" "d \<le> t"
  shows "\<exists>l'. finalize_subscriber_balance db f1 f2 f3 supi (Fin t) (Fin d) ref l = Some l' \<and>
    account_of l' bid = Some (settle f2 f3 (db_numeric db t) (db_numeric db d) (m, h)) \<and>
    (\<forall>j. j \<noteq> bid \<longrightarrow> account_of l' j = account_of l j)"
proof -
  have "usable_state (db, l)" "account_of (snd (db, l)) bid = Some (m, h)"
    using assms by (simp_all add: usable_state_def)
  from prepaid.commit_settles [OF this(1) assms(4) this(2) assms(6, 7), of "Some ref" f2 f3]
  obtain s' where c: "commit_by (reserve_request (Some ref)) adjust_request f2 f3 bid (Fin t) (Fin d) (db, l) = Some s'"
    "account_of (snd s') bid = Some (settle f2 f3 (db_numeric db t) (db_numeric db d) (m, h))"
    "\<forall>j. j \<noteq> bid \<longrightarrow> account_of (snd s') j = account_of l j"
    by auto
  have "finalize_subscriber_balance db f1 f2 f3 supi (Fin t) (Fin d) ref l = Some (snd s')"
    using assms(6-8) c(1) by (simp add: finalize_subscriber_balance_def d_clamp_def assms(3) [symmetric])
  then show ?thesis
    using c(2, 3) by simp
qed

text \<open>Property C5: when the answers come back and the bucket holds at least what the session
  reserved, finalising takes exactly the debit: the whole reservation leaves the reserved amount,
  what was not consumed returns to the remaining amount, and no other bucket changes.\<close>

theorem finalize_commits:
  assumes "faithful db" "mono (db_numeric db)" "distinct (map b_id (l_buckets l))"
    and "bid = resolve_bucket_id f1 supi l" "bid \<noteq> []" "account_of l bid = Some (m, h)"
    and "0 \<le> m" "db_numeric db t \<le> h" "0 < t" "0 \<le> d" "d \<le> t"
  shows "\<exists>l'. finalize_subscriber_balance db f1 Delivered Delivered supi (Fin t) (Fin d) ref l = Some l' \<and>
    account_of l' bid = Some (m + db_numeric db t - db_numeric db d, h - db_numeric db t) \<and>
    (\<forall>j. j \<noteq> bid \<longrightarrow> account_of l' j = account_of l j)"
proof -
  have "db_numeric db d \<le> db_numeric db t"
    using assms(2, 11) by (rule monoD)
  then have "settle Delivered Delivered (db_numeric db t) (db_numeric db d) (m, h) =
      (m + db_numeric db t - db_numeric db d, h - db_numeric db t)"
    using assms(7, 8) by (simp add: settle_def)
  then show ?thesis
    using finalize_account [OF assms(1, 3-6, 9-11), of Delivered Delivered ref] by simp
qed


text \<open>When the bucket holds less than the session reserved (another node's refund, or
  a bucket that is not the one reserved on), the refused release still counts as done: the debit
  is taken from the remaining amount and the reservation stays.\<close>

theorem finalize_debits_after_refused_release:
  assumes "faithful db" "distinct (map b_id (l_buckets l))"
    and "bid = resolve_bucket_id f1 supi l" "bid \<noteq> []" "account_of l bid = Some (m, h)"
    and "h < db_numeric db t" "db_numeric db d \<le> m" "0 < t" "0 \<le> d" "d \<le> t"
  shows "\<exists>l'. finalize_subscriber_balance db f1 Delivered Delivered supi (Fin t) (Fin d) ref l = Some l' \<and>
    account_of l' bid = Some (m - db_numeric db d, h) \<and> (\<forall>j. j \<noteq> bid \<longrightarrow> account_of l' j = account_of l j)"
  using finalize_account [OF assms(1-5, 8-10), of Delivered Delivered ref] assms(6, 7)
  by (simp add: settle_def)

text \<open>Property C10: reserving a positive price sets aside exactly that amount of the remaining
  amount when there is as much, and nothing otherwise. It reports success only if the money is set
  aside, but a lost answer leaves money set aside that it reports as refused.\<close>

theorem reserve_holds_price:
  assumes "faithful db" "distinct (map b_id (l_buckets l))"
    and "bid = resolve_bucket_id f1 supi l" "bid \<noteq> []" "account_of l bid = Some (m, h)"
    and "money_value cost = Some (Fin v)" "0 < v"
  shows "\<exists>l'. reserve_subscriber_balance db f1 f2 supi cost ref l =
      Some (l', f2 = Delivered \<and> db_numeric db v \<le> m) \<and>
    account_of l' bid = Some (if f2 \<noteq> RequestLost \<and> db_numeric db v \<le> m
      then (m - db_numeric db v, h + db_numeric db v) else (m, h)) \<and>
    (\<forall>j. j \<noteq> bid \<longrightarrow> account_of l' j = account_of l j)"
proof -
  have "0 \<le> db_numeric db v"
    using assms(1, 7) by (simp add: faithful_def)
  with post_reserve_account [OF assms(1, 2, 4, 5), of v "money_unit cost" "Some ref"]
  obtain l1 n where r: "post_reserve db (Some (chf_request bid (Fin v) (money_unit cost))) (Some ref) l =
      Some (l1, Created n (db_numeric db v \<le> m))"
    "account_of l1 bid = transfer (db_numeric db v \<le> m) (- db_numeric db v) (db_numeric db v) (Some (m, h))"
    "\<forall>j. j \<noteq> bid \<longrightarrow> account_of l1 j = account_of l j"
    by auto
  show ?thesis
    using r assms(5-7)
    by (cases f2) (simp_all add: reserve_subscriber_balance_def send_def assms(3) [symmetric] transfer_def)
qed

section \<open>Concrete instances\<close>

lemma sample_resolve: "resolve_bucket_id f ''b1'' sample_ledger = ''b1''"
  by (simp add: resolve_bucket_id_def get_buckets_of_def find_shared_bucket_for_def shared_with_def sample_ledger_defs)

lemma sample_account: "account_of sample_ledger ''b1'' = Some (70, 30)"
  by (simp add: account_of_def get_bucket_def sample_ledger_defs)

lemma sample_distinct: "distinct (map b_id (l_buckets sample_ledger))"
  by (simp add: sample_ledger_defs)

lemma sample_numeric [simp]: "db_numeric sample_database = (\<lambda>x. x)"
  by (simp add: sample_database_def)

theorem finalize_commits_witness:
  "\<exists>l'. finalize_subscriber_balance sample_database Delivered Delivered Delivered ''b1'' (Fin 30) (Fin 12) ''ref'' sample_ledger = Some l' \<and>
     account_of l' ''b1'' = Some (88, 0) \<and> (\<forall>j. j \<noteq> ''b1'' \<longrightarrow> account_of l' j = account_of sample_ledger j)"
  using finalize_commits [where t = 30 and d = 12 and ref = "''ref''", OF faithful_sample _ sample_distinct sample_resolve [symmetric] _ sample_account]
  by (simp add: mono_def)


theorem finalize_debits_after_refused_release_witness:
  "\<exists>l'. finalize_subscriber_balance sample_database Delivered Delivered Delivered ''b1'' (Fin 40) (Fin 12) ''ref'' sample_ledger = Some l' \<and>
     account_of l' ''b1'' = Some (58, 30) \<and> (\<forall>j. j \<noteq> ''b1'' \<longrightarrow> account_of l' j = account_of sample_ledger j)"
  using finalize_debits_after_refused_release [where t = 40 and d = 12 and ref = "''ref''",
      OF faithful_sample sample_distinct sample_resolve [symmetric] _ sample_account]
  by simp

theorem reserve_holds_price_witness:
  "\<exists>l'. reserve_subscriber_balance sample_database Delivered Delivered ''b1''
        \<lparr>money_unit = Some ''USD'', money_value = Some (Fin 20)\<rparr> ''ref'' sample_ledger = Some (l', True) \<and>
     account_of l' ''b1'' = Some (50, 50) \<and> (\<forall>j. j \<noteq> ''b1'' \<longrightarrow> account_of l' j = account_of sample_ledger j)"
  using reserve_holds_price [where cost = "\<lparr>money_unit = Some ''USD'', money_value = Some (Fin 20)\<rparr>" and v = 20 and ?f2.0 = Delivered and ref = "''ref''",
      OF faithful_sample sample_distinct sample_resolve [symmetric] _ sample_account]
  by simp

end
