(* ===== verification/Charging_Session.thy ===== *)
theory Charging_Session
  imports Chf_Stores Charging_Balance
begin

text \<open>
  A converged charging session (\<open>charge_one_usage\<close> of \<open>nfs/chf/src/charging_engine.cpp\<close> and
  the Create, Update and Release handlers of \<open>nfs/chf/src/main.cpp\<close>): rating, the reservation
  on the balance service, the session's running totals, the charging records, and the debit that
  ends the session; and the requests the session management function sends
  (\<open>nfs/smf/src/main.cpp\<close>). A result \<open>None\<close> is undefined behaviour or an exception that
  leaves the handler.
\<close>

section \<open>Requests and records\<close>

record used_unit =
  uu_total_volume :: "int option"
  uu_time :: "int option"
  uu_service_specific_units :: "int option"

text \<open>\<open>us_attributes\<close> stands for what \<open>collect_charging_attributes\<close> makes of the request.\<close>

record unit_usage =
  us_rating_group :: int64
  us_used :: "used_unit list option"
  us_attributes :: json

record charging_request =
  cr_subscriber :: "string option"
  cr_node_functionality :: string
  cr_sequence_number :: int
  cr_time_stamp :: string
  cr_usages :: "unit_usage list option"
  cr_detected :: "(string \<times> json) option"

record cdr =
  cdr_ref :: string
  cdr_sequence_number :: int
  cdr_operation :: string
  cdr_subscriber :: string
  cdr_node_functionality :: string
  cdr_network_function :: string
  cdr_rating_group :: "int64 option"
  cdr_granted_volume :: "64 word option"
  cdr_granted_service_units :: "64 word option"
  cdr_used_volume :: "int option"
  cdr_reserved_cost :: "double option"
  cdr_currency :: "string option"
  cdr_time_stamp :: int
  cdr_serving_plmn :: "string option"
  cdr_is_roaming :: "bool option"
  cdr_information_type :: "string option"
  cdr_information :: "json option"

record rating_decision =
  rd_ref :: string
  rd_subscriber :: string
  rd_tariff_id :: string
  rd_tariff_version :: "string option"
  rd_rating_group :: int64
  rd_offering_name :: string
  rd_price_name :: string
  rd_reserved :: bool
  rd_rated_amount :: "double option"
  rd_currency :: "string option"
  rd_ai_advisory :: "ai_advisory option"

section \<open>State and surroundings\<close>

record chf_state =
  chf_sessions :: charging_data_store
  chf_quota :: quota_store
  chf_cdrs :: "cdr list"
  chf_decisions :: "rating_decision list"
  chf_ledger :: ledger

text \<open>What one call finds around it: JSON equality, the sizing model, the catalogue, Redis, the
  balance database, the fates of its requests, whether the caller supplies a usage history (the
  HTTP handlers do), the clock and the own identity.\<close>

record surroundings =
  sr_json_eq :: json_eq
  sr_advisor :: "advisor option"
  sr_snapshot :: "catalog_snapshot option"
  sr_offerings :: "offering list option"
  sr_price :: "string \<Rightarrow> offering_price option"
  sr_hincr :: hincr
  sr_database :: database
  sr_lookup_fate :: fate
  sr_reserve_fate :: fate
  sr_adjust_fate :: fate
  sr_keeps_history :: bool
  sr_now_unix :: int64
  sr_now_time_t :: int
  sr_instance_id :: string

section \<open>Records of a charge\<close>

text \<open>\<open>value("mcc", "")\<close>: the default when the key is absent, an exception when the value is
  not text.\<close>

definition text_member :: "json \<Rightarrow> string \<Rightarrow> string option" where
  "text_member j key = (case member j key of None \<Rightarrow> Some [] | Some (JString s) \<Rightarrow> Some s | Some _ \<Rightarrow> None)"

definition serving_plmn :: "json \<Rightarrow> string option option" where
  "serving_plmn attributes =
     (case member attributes ''servingCNPlmnId'' of
        Some (JObject kvs) \<Rightarrow>
          do {
            mcc \<leftarrow> text_member (JObject kvs) ''mcc'';
            mnc \<leftarrow> text_member (JObject kvs) ''mnc'';
            Some (if mcc \<noteq> [] \<and> mnc \<noteq> [] then Some (mcc @ ''-'' @ mnc) else None) }
      | _ \<Rightarrow> Some None)"

definition write_converged_charging_cdr ::
  "surroundings \<Rightarrow> string \<Rightarrow> string \<Rightarrow> string \<Rightarrow> charging_request \<Rightarrow> unit_usage \<Rightarrow> rating_result \<Rightarrow> bool \<Rightarrow>
   int option \<Rightarrow> chf_state \<Rightarrow> chf_state option" where
  "write_converged_charging_cdr sr ref operation supi rq usage rating reserved time_stamp chf = do {
     plmn \<leftarrow> serving_plmn (us_attributes usage);
     Some (chf \<lparr>chf_cdrs := chf_cdrs chf @
       [\<lparr>cdr_ref = ref, cdr_sequence_number = cr_sequence_number rq, cdr_operation = operation,
         cdr_subscriber = supi, cdr_node_functionality = cr_node_functionality rq,
         cdr_network_function = sr_instance_id sr, cdr_rating_group = Some (us_rating_group usage),
         cdr_granted_volume = (if reserved then Option.bind (rr_grant rating) gu_total_volume else None),
         cdr_granted_service_units =
           (if reserved then Option.bind (rr_grant rating) gu_service_specific_units else None),
         cdr_used_volume = (case us_used usage of Some (u # _) \<Rightarrow> uu_total_volume u | _ \<Rightarrow> None),
         cdr_reserved_cost = (if reserved then Option.bind (rr_cost rating) money_value else None),
         cdr_currency = (if reserved then Option.bind (rr_cost rating) money_unit else None),
         cdr_time_stamp = value_or (sr_now_time_t sr) time_stamp,
         cdr_serving_plmn = plmn,
         cdr_is_roaming = (case member (us_attributes usage) ''roaming'' of Some (JBool b) \<Rightarrow> Some b | _ \<Rightarrow> None),
         cdr_information_type =
           (case member (us_attributes usage) ''chargingInformationType'' of Some (JString t) \<Rightarrow> Some t | _ \<Rightarrow> None),
         cdr_information = member (us_attributes usage) ''_chargingInformationPayload''\<rparr>]\<rparr>) }"

definition write_rating_decision ::
  "string \<Rightarrow> string \<Rightarrow> unit_usage \<Rightarrow> rating_result \<Rightarrow> bool \<Rightarrow> chf_state \<Rightarrow> chf_state" where
  "write_rating_decision ref supi usage rating reserved chf =
     (case rr_tariff_id rating of
        None \<Rightarrow> chf
      | Some tariff \<Rightarrow>
          chf \<lparr>chf_decisions := chf_decisions chf @
            [\<lparr>rd_ref = ref, rd_subscriber = supi, rd_tariff_id = tariff,
              rd_tariff_version = rr_tariff_version rating, rd_rating_group = us_rating_group usage,
              rd_offering_name = value_or [] (rr_offering_name rating),
              rd_price_name = value_or [] (rr_price_name rating), rd_reserved = reserved,
              rd_rated_amount = (if reserved then Option.bind (rr_cost rating) money_value else None),
              rd_currency = (if reserved then Option.bind (rr_cost rating) money_unit else None),
              rd_ai_advisory = rr_ai_advisory rating\<rparr>]\<rparr>)"

section \<open>One usage\<close>

definition d_of_int :: "int \<Rightarrow> double" where
  "d_of_int n = round_double (of_int n)"

text \<open>What a successful reservation adds to the session.\<close>

definition add_grant :: "hincr \<Rightarrow> string \<Rightarrow> granted_unit \<Rightarrow> charging_data_store \<Rightarrow> charging_data_store" where
  "add_grant hincr ref g s =
     (let s = (case gu_total_volume g of
                 Some v \<Rightarrow> add_granted_volume hincr ref (d_of_nat (unat v)) s | None \<Rightarrow> s);
          s = (case gu_service_specific_units g of
                 Some u \<Rightarrow> add_granted_service_units hincr ref (d_of_nat (unat u)) s | None \<Rightarrow> s)
      in case gu_time g of
           Some t \<Rightarrow> add_granted_time hincr ref (d_of_nat (unat t)) s | None \<Rightarrow> s)"

definition add_reservation :: "hincr \<Rightarrow> string \<Rightarrow> rating_result \<Rightarrow> double \<Rightarrow> charging_data_store \<Rightarrow> charging_data_store" where
  "add_reservation hincr ref rating v s =
     (let s = add_reserved hincr ref v s;
          s = (case rr_grant rating of Some g \<Rightarrow> add_grant hincr ref g s | None \<Rightarrow> s)
      in if d_less (Fin 0) (rr_pool_octets_per_second rating) \<or> d_less (Fin 0) (rr_pool_octets_per_service_unit rating)
         then set_unit_pooling ref (rr_pool_octets_per_second rating) (rr_pool_octets_per_service_unit rating) s
         else s)"

text \<open>The reservation part. What costs nothing, and what no subscriber is named for, counts as
  reserved. The price of a reserved cost is dereferenced.\<close>

definition reserve_rated ::
  "surroundings \<Rightarrow> string \<Rightarrow> string \<Rightarrow> rating_result \<Rightarrow> chf_state \<Rightarrow> (chf_state \<times> bool) option" where
  "reserve_rated sr ref supi rating chf =
     (case rr_cost rating of
        None \<Rightarrow> Some (chf, True)
      | Some cost \<Rightarrow>
          if supi = [] then Some (chf, True)
          else do {
            (l, reserved) \<leftarrow> reserve_subscriber_balance (sr_database sr) (sr_lookup_fate sr) (sr_reserve_fate sr)
                               supi cost ref (chf_ledger chf);
            (if reserved then do {
               v \<leftarrow> money_value cost;
               Some (chf \<lparr>chf_ledger := l,
                          chf_sessions := add_reservation (sr_hincr sr) ref rating v (chf_sessions chf)\<rparr>, True) }
             else Some (chf \<lparr>chf_ledger := l\<rparr>, False)) })"

definition record_reported ::
  "surroundings \<Rightarrow> string \<Rightarrow> unit_usage \<Rightarrow> rating_result \<Rightarrow> bool \<Rightarrow> chf_state \<Rightarrow> chf_state" where
  "record_reported sr supi usage rating reserved chf =
     (case us_used usage of
        Some (u # _) \<Rightarrow>
          if \<not> sr_keeps_history sr \<or> supi = [] then chf
          else chf \<lparr>chf_quota := record_usage supi (us_rating_group usage)
                      (d_of_int (value_or 0 (uu_total_volume u)))
                      (if reserved then map_option (\<lambda>v. d_of_nat (unat v)) (Option.bind (rr_grant rating) gu_total_volume)
                       else None)
                      (sr_now_unix sr) (chf_quota chf)\<rparr>
      | _ \<Rightarrow> chf)"

record charge_result =
  charged_rating :: rating_result
  charged_reserved :: bool

definition charge_one_usage ::
  "surroundings \<Rightarrow> string \<Rightarrow> string \<Rightarrow> string \<Rightarrow> charging_request \<Rightarrow> unit_usage \<Rightarrow> chf_state \<Rightarrow>
   (chf_state \<times> charge_result) option" where
  "charge_one_usage sr ref operation supi rq usage chf = do {
     rating \<leftarrow> build_rating_grant (sr_json_eq sr)
                 (map_option (\<lambda>a. a \<lparr>ad_history := get_history (chf_quota chf)\<rparr>) (sr_advisor sr))
                 (sr_snapshot sr) (sr_offerings sr) (sr_price sr) (us_rating_group usage) supi (us_attributes usage);
     (chf1, reserved) \<leftarrow> reserve_rated sr ref supi rating chf;
     time_stamp \<leftarrow> parse_rfc3339_to_time_t (cr_time_stamp rq);
     chf2 \<leftarrow> write_converged_charging_cdr sr ref operation supi rq usage rating reserved time_stamp chf1;
     Some (record_reported sr supi usage rating reserved (write_rating_decision ref supi usage rating reserved chf2),
           \<lparr>charged_rating = rating, charged_reserved = reserved\<rparr>) }"

section \<open>Handlers\<close>

record unit_information =
  ui_rating_group :: int64
  ui_granted :: "granted_unit option"
  ui_validity_time :: "int64 option"
  ui_quota_holding_time :: "int64 option"
  ui_volume_quota_threshold :: "int64 option"
  ui_time_quota_threshold :: "int64 option"
  ui_unit_quota_threshold :: "int64 option"

definition unit_information_of :: "unit_usage \<Rightarrow> charge_result \<Rightarrow> unit_information" where
  "unit_information_of usage charged =
     (let r = charged_rating charged;
          told = charged_reserved charged \<and> rr_grant r \<noteq> None;
          told_of = (\<lambda>v. if told then v else None)
      in \<lparr>ui_rating_group = us_rating_group usage, ui_granted = (if told then rr_grant r else None),
          ui_validity_time = told_of (rr_validity_time r), ui_quota_holding_time = told_of (rr_quota_holding_time r),
          ui_volume_quota_threshold = told_of (rr_volume_quota_threshold r),
          ui_time_quota_threshold = told_of (rr_time_quota_threshold r),
          ui_unit_quota_threshold = told_of (rr_unit_quota_threshold r)\<rparr>)"

fun charge_usages ::
  "surroundings \<Rightarrow> string \<Rightarrow> string \<Rightarrow> string \<Rightarrow> charging_request \<Rightarrow> unit_usage list \<Rightarrow> chf_state \<Rightarrow>
   (chf_state \<times> unit_information list) option" where
  "charge_usages sr ref operation supi rq [] chf = Some (chf, [])"
| "charge_usages sr ref operation supi rq (u # us) chf = do {
     (chf1, charged) \<leftarrow> charge_one_usage sr ref operation supi rq u chf;
     (chf2, infos) \<leftarrow> charge_usages sr ref operation supi rq us chf1;
     Some (chf2, unit_information_of u charged # infos) }"

datatype charging_reply =
    SessionCreated string "unit_information list option"
  | SessionUpdated "unit_information list option"
  | SessionReleased
  | NoSession

definition post_chargingdata :: "surroundings \<Rightarrow> charging_request \<Rightarrow> chf_state \<Rightarrow> (chf_state \<times> charging_reply) option" where
  "post_chargingdata sr rq chf =
     (let supi = value_or [] (cr_subscriber rq);
          (ref, sessions) = create_session supi (chf_sessions chf);
          chf = chf \<lparr>chf_sessions := sessions\<rparr>
      in case cr_usages rq of
           None \<Rightarrow> Some (chf, SessionCreated ref None)
         | Some us \<Rightarrow> do {
             (chf, infos) \<leftarrow> charge_usages sr ref ''Create'' supi rq us chf;
             Some (chf, SessionCreated ref (Some infos)) })"

definition post_update :: "surroundings \<Rightarrow> string \<Rightarrow> charging_request \<Rightarrow> chf_state \<Rightarrow> (chf_state \<times> charging_reply) option" where
  "post_update sr ref rq chf =
     (if \<not> is_active_session (chf_sessions chf) ref then Some (chf, NoSession)
      else (let supi = value_or [] (get_supi (chf_sessions chf) ref)
            in case cr_usages rq of
                 None \<Rightarrow> Some (chf, SessionUpdated None)
               | Some us \<Rightarrow> do {
                   (chf, infos) \<leftarrow> charge_usages sr ref ''Update'' supi rq us chf;
                   Some (chf, SessionUpdated (Some infos)) }))"

text \<open>The usage of a Release request, summed over its containers: volume, service units, time.\<close>

definition containers_of :: "charging_request \<Rightarrow> used_unit list" where
  "containers_of rq = concat (map (\<lambda>u. value_or [] (us_used u)) (value_or [] (cr_usages rq)))"

definition sum_used :: "(used_unit \<Rightarrow> int option) \<Rightarrow> used_unit list \<Rightarrow> double" where
  "sum_used field us = foldl (\<lambda>acc u. d_add acc (d_of_int (value_or 0 (field u)))) (Fin 0) us"

definition release_debit :: "charging_data_store \<Rightarrow> string \<Rightarrow> charging_request \<Rightarrow> double" where
  "release_debit s ref rq =
     (let used_volume = sum_used uu_total_volume (containers_of rq);
          used_units = sum_used uu_service_specific_units (containers_of rq);
          used_time = sum_used uu_time (containers_of rq);
          (per_second, per_unit) = get_unit_pooling s ref;
          (used_volume, used_units, used_time) =
            (if d_less (Fin 0) per_second \<or> d_less (Fin 0) per_unit
             then (pooled_used_volume
                     \<lparr>octets_per_second = (if d_less (Fin 0) per_second then Some per_second else None),
                      octets_per_service_unit = (if d_less (Fin 0) per_unit then Some per_unit else None)\<rparr>
                     used_volume used_units used_time, Fin 0, Fin 0)
             else (used_volume, used_units, used_time))
      in proportional_debit (get_reserved_total s ref) (get_granted_volume s ref) used_volume
           (get_granted_service_units s ref) used_units (get_granted_time s ref) used_time)"

definition release_cdr :: "surroundings \<Rightarrow> string \<Rightarrow> charging_request \<Rightarrow> string \<Rightarrow> double \<Rightarrow> int \<Rightarrow> cdr" where
  "release_cdr sr ref rq supi reserved_total time =
     \<lparr>cdr_ref = ref, cdr_sequence_number = cr_sequence_number rq, cdr_operation = ''Release'',
      cdr_subscriber = supi, cdr_node_functionality = cr_node_functionality rq,
      cdr_network_function = sr_instance_id sr, cdr_rating_group = None, cdr_granted_volume = None,
      cdr_granted_service_units = None, cdr_used_volume = None,
      cdr_reserved_cost = (if d_less (Fin 0) reserved_total then Some reserved_total else None),
      cdr_currency = None, cdr_time_stamp = time, cdr_serving_plmn = None, cdr_is_roaming = None,
      cdr_information_type = map_option fst (cr_detected rq), cdr_information = map_option snd (cr_detected rq)\<rparr>"

definition post_release :: "surroundings \<Rightarrow> string \<Rightarrow> charging_request \<Rightarrow> chf_state \<Rightarrow> (chf_state \<times> charging_reply) option" where
  "post_release sr ref rq chf =
     (let supi = get_supi (chf_sessions chf) ref;
          reserved_total = get_reserved_total (chf_sessions chf) ref;
          debit = release_debit (chf_sessions chf) ref rq;
          (released, sessions) = release_session ref (chf_sessions chf)
      in if \<not> released then Some (chf \<lparr>chf_sessions := sessions\<rparr>, NoSession)
         else do {
           l \<leftarrow> (if supi \<noteq> None \<and> supi \<noteq> Some []
                 then finalize_subscriber_balance (sr_database sr) (sr_lookup_fate sr) (sr_reserve_fate sr)
                        (sr_adjust_fate sr) (value_or [] supi) reserved_total debit ref (chf_ledger chf)
                 else Some (chf_ledger chf));
           time_stamp \<leftarrow> parse_rfc3339_to_time_t (cr_time_stamp rq);
           Some (chf \<lparr>chf_sessions := sessions, chf_ledger := l,
                      chf_cdrs := chf_cdrs chf @ [release_cdr sr ref rq (value_or [] supi) reserved_total
                        (value_or (sr_now_time_t sr) time_stamp)]\<rparr>, SessionReleased) })"

section \<open>The session management function\<close>

text \<open>Its three requests: a Create that asks for the default rating group, an Update that reports
  the volume used, and a Release.\<close>

definition smf_request :: "string \<Rightarrow> int \<Rightarrow> string \<Rightarrow> unit_usage list option \<Rightarrow> charging_request" where
  "smf_request supi seqn now usages =
     \<lparr>cr_subscriber = Some supi, cr_node_functionality = ''SMF'', cr_sequence_number = seqn, cr_time_stamp = now,
      cr_usages = usages, cr_detected = None\<rparr>"

definition smf_create_request :: "int64 \<Rightarrow> json \<Rightarrow> string \<Rightarrow> string \<Rightarrow> charging_request" where
  "smf_create_request default_rating_group attributes supi now =
     smf_request supi 1 now (Some [\<lparr>us_rating_group = default_rating_group, us_used = None, us_attributes = attributes\<rparr>])"

definition smf_update_request :: "int64 \<Rightarrow> json \<Rightarrow> nat \<Rightarrow> string \<Rightarrow> int \<Rightarrow> string \<Rightarrow> charging_request" where
  "smf_update_request rating_group attributes used supi seqn now =
     smf_request supi seqn now (Some [\<lparr>us_rating_group = rating_group,
       us_used = Some [\<lparr>uu_total_volume = Some (int used), uu_time = None, uu_service_specific_units = None\<rparr>],
       us_attributes = attributes\<rparr>])"

definition smf_release_request :: "string \<Rightarrow> int \<Rightarrow> string \<Rightarrow> charging_request" where
  "smf_release_request supi seqn now = smf_request supi seqn now None"

section \<open>The debit of a release\<close>

lemma debit_nothing:
  assumes "0 < t" "amount gv" "amount gu" "amount gt"
    and "d_less (Fin 0) gv \<or> d_less (Fin 0) gu \<or> d_less (Fin 0) gt" "d_less (Fin 0) gv \<longrightarrow> uv = Fin 0"
  shows "proportional_debit (Fin t) gv uv gu (Fin 0) gt (Fin 0) = Fin 0"
proof -
  have unused: "d_min (Fin 0) a = Fin 0" if "amount a" for a
    using that by (auto simp: d_min_def elim!: amount_cases)
  have c: "consumed_weight gv uv gu (Fin 0) gt (Fin 0) = Fin 0"
    using assms(2-4, 6) by (simp add: consumed_weight_def add_when_def unused)
  have w: "\<not> d_le (granted_weight gv gu gt) (Fin 0)" "weight (granted_weight gv gu gt)"
    using granted_weight_pos [OF assms(2-5)] granted_weight_weight [OF assms(2-4)] by simp_all
  then have "d_div (Fin 0) (granted_weight gv gu gt) = Fin 0"
    by (cases "granted_weight gv gu gt") (auto simp: weight_def)
  then show ?thesis
    using assms(1, 5) w(1) by (simp add: proportional_debit_def c d_clamp_def)
qed

lemma debit_within:
  assumes "proportional_debit (Fin t) gv uv gu uu gt ut = Fin d" "0 < t"
  shows "0 \<le> d \<and> d \<le> t"
  using assms by (auto simp: proportional_debit_def d_clamp_def Let_def split: if_splits)

lemma release_debit_within:
  "get_reserved_total s ref = Fin t \<Longrightarrow> 0 < t \<Longrightarrow> release_debit s ref rq = Fin d \<Longrightarrow> 0 \<le> d \<and> d \<le> t"
  by (auto simp: release_debit_def Let_def split: prod.splits if_splits dest!: debit_within)

lemma sum_used_Nil [simp]: "sum_used field [] = Fin 0"
  by (simp add: sum_used_def)

lemma release_debit_unreported:
  assumes "containers_of rq = []" "get_reserved_total s ref = Fin t" "0 < t"
    and "amount (get_granted_volume s ref)" "amount (get_granted_service_units s ref)" "amount (get_granted_time s ref)"
    and "d_less (Fin 0) (get_granted_volume s ref) \<or> d_less (Fin 0) (get_granted_service_units s ref) \<or>
      d_less (Fin 0) (get_granted_time s ref)"
  shows "release_debit s ref rq = Fin 0"
  using debit_nothing [OF assms(3-7), of "Fin 0"]
  by (simp add: release_debit_def assms(1, 2) pooled_used_volume_def Let_def split: prod.splits option.splits)

lemma release_debit_pooled:
  assumes "get_unit_pooling s ref = (per_second, per_unit)" "d_less (Fin 0) per_second \<or> d_less (Fin 0) per_unit"
    and "get_reserved_total s ref = Fin t" "0 < t"
    and "get_granted_volume s ref = Fin 0" "amount (get_granted_service_units s ref)" "amount (get_granted_time s ref)"
    and "d_less (Fin 0) (get_granted_service_units s ref) \<or> d_less (Fin 0) (get_granted_time s ref)"
  shows "release_debit s ref rq = Fin 0"
  using debit_nothing [OF assms(4) _ assms(6, 7), of "Fin 0"] assms(1-3, 5, 8)
  by (simp add: release_debit_def Let_def split: prod.splits)

lemma release_again: "\<not> is_active_session (chf_sessions chf) ref \<Longrightarrow> post_release sr ref rq chf = Some (chf, NoSession)"
  by (simp add: post_release_def release_session_def is_active_session_def Let_def)

lemma get_supi_release [simp]: "get_supi (snd (release_session ref s)) = get_supi s"
  by (simp add: release_session_def get_supi_def fun_eq_iff)

section \<open>Properties\<close>

text \<open>Property C1: releasing an active session whose money is still set aside, with every answer
  delivered, debits the computed part exactly: the rest of the reservation is back in the
  remaining amount, nothing of it stays reserved, no other bucket changes. The reference is then
  inactive, and any later release answers 404 and changes nothing.\<close>

theorem release_settles:
  assumes "faithful (sr_database sr)" "mono (db_numeric (sr_database sr))"
    and "distinct (map b_id (l_buckets (chf_ledger chf)))"
    and "is_active_session (chf_sessions chf) ref" "get_supi (chf_sessions chf) ref = Some supi" "supi \<noteq> []"
    and "bid = resolve_bucket_id (sr_lookup_fate sr) supi (chf_ledger chf)" "bid \<noteq> []"
    and "account_of (chf_ledger chf) bid = Some (m, h)" "0 \<le> m"
    and "get_reserved_total (chf_sessions chf) ref = Fin t" "0 < t" "db_numeric (sr_database sr) t \<le> h"
    and "release_debit (chf_sessions chf) ref rq = Fin d"
    and "sr_reserve_fate sr = Delivered" "sr_adjust_fate sr = Delivered"
    and "parse_rfc3339_to_time_t (cr_time_stamp rq) \<noteq> None"
  shows "\<exists>chf'. post_release sr ref rq chf = Some (chf', SessionReleased) \<and>
    account_of (chf_ledger chf') bid =
      Some (m + db_numeric (sr_database sr) t - db_numeric (sr_database sr) d, h - db_numeric (sr_database sr) t) \<and>
    (\<forall>j. j \<noteq> bid \<longrightarrow> account_of (chf_ledger chf') j = account_of (chf_ledger chf) j) \<and>
    (\<forall>sr2 rq2. post_release sr2 ref rq2 chf' = Some (chf', NoSession))"
proof -
  have "0 \<le> d" "d \<le> t"
    using release_debit_within [OF assms(11, 12, 14)] by simp_all
  from finalize_commits [OF assms(1-3, 7-10, 13, 12) this, of ref]
  obtain l where l: "finalize_subscriber_balance (sr_database sr) (sr_lookup_fate sr) Delivered Delivered supi (Fin t)
      (Fin d) ref (chf_ledger chf) = Some l"
    "account_of l bid = Some (m + db_numeric (sr_database sr) t - db_numeric (sr_database sr) d,
      h - db_numeric (sr_database sr) t)"
    "\<forall>j. j \<noteq> bid \<longrightarrow> account_of l j = account_of (chf_ledger chf) j"
    by blast
  obtain ts where ts: "parse_rfc3339_to_time_t (cr_time_stamp rq) = Some ts"
    using assms(17) by blast
  obtain s where s: "release_session ref (chf_sessions chf) = (True, s)" "\<not> is_active_session s ref"
    using assms(4) by (simp add: release_session_def is_active_session_def)
  obtain chf' where r: "post_release sr ref rq chf = Some (chf', SessionReleased)"
    "chf_ledger chf' = l" "chf_sessions chf' = s"
    using assms(5, 6, 11, 14-16) l(1) ts s(1) by (simp add: post_release_def Let_def)
  then show ?thesis
    using l(2, 3) release_again s(2) by blast
qed

text \<open>Property C9: the session management function reports usage in its Update requests and none
  in its Release, and a release counts only the usage it carries itself: whatever was used, the
  release of such a session debits nothing and gives its whole reservation back.\<close>

theorem smf_release_debits_nothing:
  assumes "faithful (sr_database sr)" "mono (db_numeric (sr_database sr))"
    and "distinct (map b_id (l_buckets (chf_ledger chf)))"
    and "is_active_session (chf_sessions chf) ref" "get_supi (chf_sessions chf) ref = Some supi" "supi \<noteq> []"
    and "bid = resolve_bucket_id (sr_lookup_fate sr) supi (chf_ledger chf)" "bid \<noteq> []"
    and "account_of (chf_ledger chf) bid = Some (m, h)" "0 \<le> m"
    and "get_reserved_total (chf_sessions chf) ref = Fin t" "0 < t" "db_numeric (sr_database sr) t \<le> h"
    and "amount (get_granted_volume (chf_sessions chf) ref)" "d_less (Fin 0) (get_granted_volume (chf_sessions chf) ref)"
    and "amount (get_granted_service_units (chf_sessions chf) ref)" "amount (get_granted_time (chf_sessions chf) ref)"
    and "sr_reserve_fate sr = Delivered" "sr_adjust_fate sr = Delivered" "parse_rfc3339_to_time_t now \<noteq> None"
  shows "\<exists>chf'. post_release sr ref (smf_release_request supi seqn now) chf = Some (chf', SessionReleased) \<and>
    account_of (chf_ledger chf') bid = Some (m + db_numeric (sr_database sr) t, h - db_numeric (sr_database sr) t)"
proof -
  let ?rq = "smf_release_request supi seqn now"
  have c: "containers_of ?rq = []" "cr_time_stamp ?rq = now"
    by (simp_all add: containers_of_def smf_release_request_def smf_request_def value_or_def)
  have d: "release_debit (chf_sessions chf) ref ?rq = Fin 0"
    using release_debit_unreported [OF c(1) assms(11, 12, 14, 16, 17)] assms(15) by blast
  have "db_numeric (sr_database sr) (- 0) = - db_numeric (sr_database sr) 0"
    using assms(1) by (simp only: faithful_def)
  then have "db_numeric (sr_database sr) 0 = 0"
    by simp
  with release_settles [OF assms(1-13) d assms(18, 19)] assms(20) c(2) show ?thesis
    by auto
qed

text \<open>With unit pooling, usage is turned into octets and counted against the volume
  granted. A session that was granted time or service units only is then debited nothing,
  whatever usage its release reports.\<close>

theorem pooled_session_without_volume_debits_nothing:
  assumes "get_unit_pooling s ref = (per_second, per_unit)" "d_less (Fin 0) per_second \<or> d_less (Fin 0) per_unit"
    and "get_reserved_total s ref = Fin t" "0 < t"
    and "get_granted_volume s ref = Fin 0" "amount (get_granted_service_units s ref)" "amount (get_granted_time s ref)"
    and "d_less (Fin 0) (get_granted_service_units s ref) \<or> d_less (Fin 0) (get_granted_time s ref)"
  shows "release_debit s ref rq = Fin 0"
  using assms by (rule release_debit_pooled)

section \<open>Concrete instances\<close>

definition sample_sessions :: "double option \<Rightarrow> double option \<Rightarrow> double option \<Rightarrow> charging_data_store" where
  "sample_sessions volume time rate =
     \<lparr>cd_next_id = 1, cd_active = {''chg-1''},
      cd_content = (\<lambda>_. empty_session \<lparr>se_supi := Some ''b1'', se_reserved_total := Some (Fin 30),
        se_granted_volume := volume, se_granted_time := time, se_pool_octets_per_second := rate\<rparr>)\<rparr>"

definition sample_chf :: chf_state where
  "sample_chf =
     \<lparr>chf_sessions = sample_sessions (Some (Fin 1024)) None None, chf_quota = (\<lambda>_ _. empty_window), chf_cdrs = [],
      chf_decisions = [], chf_ledger = sample_ledger\<rparr>"

definition sample_surroundings :: surroundings where
  "sample_surroundings =
     \<lparr>sr_json_eq = (=), sr_advisor = None, sr_snapshot = None, sr_offerings = None, sr_price = (\<lambda>_. None),
      sr_hincr = (\<lambda>old v. d_add (value_or (Fin 0) old) v), sr_database = sample_database,
      sr_lookup_fate = Delivered, sr_reserve_fate = Delivered, sr_adjust_fate = Delivered,
      sr_keeps_history = False, sr_now_unix = 0, sr_now_time_t = 0, sr_instance_id = ''chf''\<rparr>"

definition sample_report :: "int \<Rightarrow> charging_request" where
  "sample_report octets = smf_request ''b1'' 3 [] (Some [\<lparr>us_rating_group = 1,
     us_used = Some [\<lparr>uu_total_volume = Some octets, uu_time = None, uu_service_specific_units = None\<rparr>],
     us_attributes = JNull\<rparr>])"

lemmas sample_session_defs =
  sample_sessions_def sample_chf_def sample_surroundings_def sample_report_def smf_request_def empty_session_def
  is_active_session_def get_supi_def get_reserved_total_def get_granted_volume_def get_granted_service_units_def
  get_granted_time_def get_unit_pooling_def value_or_def

lemma small_integers [simp]:
  "round_double 1024 = Fin 1024" "round_double 256 = Fin 256" "round_double 60 = Fin 60"
  using is_double_of_int [of 1024] is_double_of_int [of 256] is_double_of_int [of 60] by simp_all

lemma small_fractions [simp]: "round_double (1 / 4) = Fin (1 / 4)" "round_double (15 / 2) = Fin (15 / 2)"
proof -
  have "round_pos (1 / 4) = 1 / 4" "round_pos (15 / 2) = 15 / 2"
    using round_pos_representable [of 1 "- 2"] round_pos_representable [of 15 "- 1"]
    by (simp_all add: power_int_def power_divide)
  then show "round_double (1 / 4) = Fin (1 / 4)" "round_double (15 / 2) = Fin (15 / 2)"
    by (simp_all add: round_double_def round_rat_def power_int_def)
qed

lemma sample_time: "parse_rfc3339_to_time_t [] = Some None"
  by (simp add: parse_rfc3339_to_time_t_def parse_rfc3339_def)

lemma sample_debit: "release_debit (chf_sessions sample_chf) ''chg-1'' (sample_report 256) = Fin (15 / 2)"
  by (simp add: release_debit_def containers_of_def sum_used_def d_of_int_def proportional_debit_def
      granted_weight_def consumed_weight_def add_when_def d_min_def d_clamp_def sample_session_defs)

theorem release_settles_witness:
  "\<exists>chf'. post_release sample_surroundings ''chg-1'' (sample_report 256) sample_chf = Some (chf', SessionReleased) \<and>
     account_of (chf_ledger chf') ''b1'' = Some (185 / 2, 0) \<and>
     (\<forall>j. j \<noteq> ''b1'' \<longrightarrow> account_of (chf_ledger chf') j = account_of sample_ledger j) \<and>
     (\<forall>sr2 rq2. post_release sr2 ''chg-1'' rq2 chf' = Some (chf', NoSession))"
  using release_settles [where sr = sample_surroundings and chf = sample_chf and ref = "''chg-1''" and supi = "''b1''"
      and bid = "''b1''" and m = 70 and h = 30 and t = 30, OF _ _ _ _ _ _ _ _ _ _ _ _ _ sample_debit]
  by (simp add: sample_session_defs faithful_sample mono_def sample_distinct sample_resolve sample_account sample_time)

theorem smf_release_debits_nothing_witness:
  "\<exists>chf'. post_release sample_surroundings ''chg-1'' (smf_release_request ''b1'' 4 []) sample_chf =
       Some (chf', SessionReleased) \<and> account_of (chf_ledger chf') ''b1'' = Some (100, 0)"
  using smf_release_debits_nothing [where sr = sample_surroundings and chf = sample_chf and ref = "''chg-1''"
      and supi = "''b1''" and bid = "''b1''" and m = 70 and h = 30 and t = 30 and seqn = 4 and now = "[]"]
  by (simp add: sample_session_defs faithful_sample mono_def sample_distinct sample_resolve sample_account sample_time)

theorem pooled_session_without_volume_debits_nothing_witness:
  "release_debit (sample_sessions None (Some (Fin 60)) (Some (Fin 1000))) ''chg-1'' (sample_report 256) = Fin 0"
  by (rule pooled_session_without_volume_debits_nothing [where per_second = "Fin 1000" and per_unit = "Fin 0" and t = 30])
    (simp_all add: sample_session_defs)

end
