(* ===== verification/Session_Ledger.thy ===== *)
theory Session_Ledger
  imports Charging_Session
begin

text \<open>
  The charging function and the balance service together: what a session's running total says
  against what the ledger's events say, over any interleaving of sessions and of other clients of
  the balance service.
\<close>

section \<open>Money reserved under a reference\<close>

text \<open>The completed reservations that carry a session's reference, refunds counted negative.\<close>

definition reserved_by :: "string \<Rightarrow> event \<Rightarrow> rat" where
  "reserved_by ref ev =
     (if ev_kind ev = ReserveBalance \<and> ev_completed ev \<and> ev_charging_data_ref ev = Some ref then ev_amount ev else 0)"

definition reserved_for :: "event list \<Rightarrow> string \<Rightarrow> rat" where
  "reserved_for evs ref = sum_list (map (reserved_by ref) evs)"

lemma reserved_for_simps [simp]:
  "reserved_for [] ref = 0" "reserved_for (evs @ [ev]) ref = reserved_for evs ref + reserved_by ref ev"
  by (simp_all add: reserved_for_def)

text \<open>A request leaves the events alone or appends one, with the reference the request names.\<close>

lemma finish_events:
  assumes "finish l rq bs ev = Some (l', r)"
  shows "(l_events l' = l_events l \<and> (\<exists>e. r = Inl e)) \<or>
    (l_events l' = l_events l @ [ev] \<and> r = Inr \<lparr>mr_id = ev_id ev, mr_succeeded = ev_completed ev\<rparr>)"
  using assms by (auto simp: finish_def split: option.splits sum.splits)

lemma post_reserve_events:
  assumes "post_reserve db (Some rq) ref l = Some (l', r)"
  obtains (refused) e where "l_events l' = l_events l" "r = BadRequest e"
  | (event) ev x where "l_events l' = l_events l @ [ev]" "ev_kind ev = ReserveBalance" "ev_charging_data_ref ev = ref"
      "amount_value_of (rq_amount rq) = Fin x" "ev_amount ev = db_numeric db x"
      "r = Created (ev_id ev) (ev_completed ev)"
proof -
  from assms have "handle (\<lambda>rq. reserve db rq ref) (Some rq) l = Some (l', r)"
    by (simp add: post_reserve_def)
  then show thesis
  proof (cases rule: handle_cases)
    case (1 e)
    then show thesis using refused by simp
  next
    case (2 rq' e)
    then have "l_events l' = l_events l"
      by (auto simp: reserve_def Let_def split: option.splits double.splits prod.splits dest!: finish_events)
    then show thesis using refused 2(3) by simp
  next
    case (3 rq' m)
    then obtain bid x where q: "rq' = rq" "rq_bucket rq = Some bid" "amount_value_of (rq_amount rq) = Fin x"
      by (auto simp: reserve_def split: option.splits double.splits)
    with 3(3) obtain l1 bs ev where f: "finish l1 rq bs ev = Some (l', Inr m)" "l_events l1 = l_events l"
      "ev_kind ev = ReserveBalance" "ev_charging_data_ref ev = ref" "ev_amount ev = db_numeric db x"
      by (auto simp: reserve_def Let_def split: prod.splits)
    from finish_events [OF f(1)] show thesis
      using event [of ev x] f q 3(4) by auto
  qed
qed

lemma post_adjust_events:
  assumes "post_adjust db body l = Some (l', r)"
  shows "reserved_for (l_events l') ref = reserved_for (l_events l) ref"
proof -
  from assms have "handle (adjust db) body l = Some (l', r)"
    by (simp add: post_adjust_def)
  then show ?thesis
    by (cases rule: handle_cases)
      (auto simp: adjust_def Let_def reserved_by_def split: option.splits double.splits prod.splits dest!: finish_events)
qed

lemma post_topup_events:
  assumes "post_topup db body l = Some (l', r)"
  shows "reserved_for (l_events l') ref = reserved_for (l_events l) ref"
proof -
  from assms have "handle (topup db) body l = Some (l', r)"
    by (simp add: post_topup_def)
  then show ?thesis
    by (cases rule: handle_cases)
      (auto simp: topup_def Let_def reserved_by_def split: option.splits double.splits prod.splits if_splits
        dest!: finish_events)
qed

lemma reserve_subscriber_events:
  assumes "reserve_subscriber_balance db f1 f2 supi cost ref l = Some (l', ok)"
    and "money_value cost = Some (Fin v)" "0 \<le> v" "faithful db"
  shows "(if ok then reserved_for (l_events l') ref = reserved_for (l_events l) ref + db_numeric db v
      else reserved_for (l_events l') ref \<in>
        {reserved_for (l_events l) ref} \<union> (if f2 = ReplyLost then {reserved_for (l_events l) ref + db_numeric db v} else {})) \<and>
    (\<forall>other. other \<noteq> ref \<longrightarrow> reserved_for (l_events l') other = reserved_for (l_events l) other)"
proof (cases "v = 0")
  case True
  have "db_numeric db (- 0) = - db_numeric db 0"
    using assms(4) by (simp only: faithful_def)
  then show ?thesis
    using assms(1, 2) True by (simp add: reserve_subscriber_balance_def)
next
  case False
  then have v: "0 < v"
    using assms(3) by simp
  show ?thesis
  proof (cases "f2 = RequestLost")
    case True
    then show ?thesis
      using assms(1, 2) v by (auto simp: reserve_subscriber_balance_def send_def)
  next
    case sent: False
    let ?rq = "chf_request (resolve_bucket_id f1 supi l) (Fin v) (money_unit cost)"
    obtain r where r: "post_reserve db (Some ?rq) (Some ref) l = Some (l', r)"
      "ok = (f2 = Delivered \<and> (\<exists>n. r = Created n True))"
      using assms(1, 2) v sent
      by (cases f2) (auto simp: reserve_subscriber_balance_def send_def split: option.splits prod.splits reply.splits)
    from r(1) show ?thesis
    proof (cases rule: post_reserve_events)
      case (refused e)
      then show ?thesis
        using r(2) by simp
    next
      case (event ev x)
      then show ?thesis
        using r(2) sent by (cases f2) (auto simp: reserved_by_def)
    qed
  qed
qed

lemma reserve_request_events:
  assumes "reserve_request (Some ref) bid amt s = Some (s', r)"
  shows "fst s' = fst s \<and> (other \<noteq> ref \<longrightarrow>
    reserved_for (l_events (snd s')) other = reserved_for (l_events (snd s)) other)"
proof -
  obtain l where l: "post_reserve (fst s) (Some (chf_request bid amt None)) (Some ref) (snd s) = Some (l, r)"
    "s' = (fst s, l)"
    using assms by (auto simp: reserve_request_def)
  from l(1) show ?thesis
    by (cases rule: post_reserve_events) (use l(2) in \<open>auto simp: reserved_by_def\<close>)
qed

lemma adjust_request_events:
  assumes "adjust_request bid amt s = Some (s', r)"
  shows "reserved_for (l_events (snd s')) other = reserved_for (l_events (snd s)) other"
  using assms post_adjust_events by (fastforce simp: adjust_request_def)

lemma finalize_events:
  assumes "finalize_subscriber_balance db f1 f2 f3 supi t d ref l = Some l'" "other \<noteq> ref"
  shows "reserved_for (l_events l') other = reserved_for (l_events l) other"
  using assms(1)
  by (auto simp: finalize_subscriber_balance_def commit_by_def send_def split: if_splits option.splits prod.splits reply.splits
      dest!: reserve_request_events [where other = other] adjust_request_events [where other = other] simp: assms(2))

section \<open>Runs\<close>

text \<open>A catalogue whose prices are finite and not negative, in the snapshot and behind the live
  requests.\<close>

definition priced :: "money option \<Rightarrow> bool" where
  "priced cost \<longleftrightarrow> (\<forall>c v. cost = Some c \<longrightarrow> money_value c = Some v \<longrightarrow> (\<exists>x. v = Fin x \<and> 0 \<le> x))"

definition priced_catalogue :: "surroundings \<Rightarrow> bool" where
  "priced_catalogue sr \<longleftrightarrow>
     (\<forall>s. sr_snapshot sr = Some s \<longrightarrow> (\<forall>(off, p) \<in> set (cs_candidates s). priced (pr_price p))) \<and>
     (\<forall>i p. sr_price sr i = Some p \<longrightarrow> priced (pr_price p))"

text \<open>Redis adds what the database reads: documented for amounts of at most seventeen decimals.\<close>

definition exact_totals :: "database \<Rightarrow> hincr \<Rightarrow> bool" where
  "exact_totals db hincr \<longleftrightarrow>
     (\<forall>a b. \<exists>c. hincr (Some (Fin a)) (Fin b) = Fin c \<and> db_numeric db c = db_numeric db a + db_numeric db b)"

definition in_setting :: "database \<Rightarrow> hincr \<Rightarrow> bool \<Rightarrow> surroundings \<Rightarrow> bool" where
  "in_setting db hincr reliable sr \<longleftrightarrow>
     sr_database sr = db \<and> sr_hincr sr = hincr \<and> priced_catalogue sr \<and>
     (reliable \<longrightarrow> sr_reserve_fate sr \<noteq> ReplyLost)"

fun charging_ref_of :: "command \<Rightarrow> string option" where
  "charging_ref_of (Reserve body ref) = ref"
| "charging_ref_of _ = None"

text \<open>One request at the charging function, or one at the balance service from elsewhere, which
  names no charging session. With \<open>reliable\<close>, no reservation's answer is lost.\<close>

inductive chf_step :: "database \<Rightarrow> hincr \<Rightarrow> bool \<Rightarrow> chf_state \<Rightarrow> chf_state \<Rightarrow> bool"
  for db hincr reliable where
  create: "in_setting db hincr reliable sr \<Longrightarrow> post_chargingdata sr rq chf = Some (chf', reply) \<Longrightarrow>
    chf_step db hincr reliable chf chf'"
| update: "in_setting db hincr reliable sr \<Longrightarrow> post_update sr ref rq chf = Some (chf', reply) \<Longrightarrow>
    chf_step db hincr reliable chf chf'"
| release: "in_setting db hincr reliable sr \<Longrightarrow> post_release sr ref rq chf = Some (chf', reply) \<Longrightarrow>
    chf_step db hincr reliable chf chf'"
| foreign: "charging_ref_of c = None \<Longrightarrow> exec db c (chf_ledger chf) = Some (l, r) \<Longrightarrow>
    chf_step db hincr reliable chf (chf \<lparr>chf_ledger := l\<rparr>)"

definition initial_chf :: chf_state where
  "initial_chf =
     \<lparr>chf_sessions = empty_charging_data_store, chf_quota = (\<lambda>_ _. empty_window), chf_cdrs = [], chf_decisions = [],
      chf_ledger = empty_ledger\<rparr>"

definition chf_reaches :: "database \<Rightarrow> hincr \<Rightarrow> bool \<Rightarrow> chf_state \<Rightarrow> bool" where
  "chf_reaches db hincr reliable = (chf_step db hincr reliable)\<^sup>*\<^sup>* initial_chf"

section \<open>The totals agree\<close>

definition totals_agree :: "database \<Rightarrow> bool \<Rightarrow> chf_state \<Rightarrow> bool" where
  "totals_agree db reliable chf \<longleftrightarrow>
     cd_active (chf_sessions chf) \<subseteq> issued_by ''chg-'' (cd_next_id (chf_sessions chf)) \<and>
     (\<forall>ref \<in> cd_active (chf_sessions chf). \<exists>t. se_reserved_total (cd_content (chf_sessions chf) ref) = Some (Fin t) \<and>
        db_numeric db t \<le> reserved_for (l_events (chf_ledger chf)) ref \<and>
        (reliable \<longrightarrow> db_numeric db t = reserved_for (l_events (chf_ledger chf)) ref)) \<and>
     (\<forall>ref. ref \<notin> issued_by ''chg-'' (cd_next_id (chf_sessions chf)) \<longrightarrow>
        reserved_for (l_events (chf_ledger chf)) ref = 0)"

lemma priced_simps [simp]: "priced None" "priced (rr_cost empty_result)"
  by (simp_all add: priced_def empty_result_def)

definition rates_at_price :: "(offering \<Rightarrow> offering_price \<Rightarrow> match_attempt checked) \<Rightarrow> bool" where
  "rates_at_price rate \<longleftrightarrow>
     (\<forall>off p a r. rate off p = Some a \<longrightarrow> attempt_result a = Some r \<longrightarrow> rr_cost r = pr_price p)"

lemma try_rate_at_price: "rates_at_price (try_rate_against eq adv supi rg attrs)"
  unfolding rates_at_price_def
  by (intro allI impI)
    (simp add: try_rate_against_def Let_def split: if_splits option.splits bind_splits prod.splits, auto)

lemma attempt_priced:
  "rates_at_price rate \<Longrightarrow> rate off p = Some a \<Longrightarrow> priced (pr_price p) \<Longrightarrow>
   priced (rr_cost (value_or empty_result (attempt_result a)))"
  by (cases "attempt_result a") (auto simp: rates_at_price_def value_or_def)

lemma scan_priced:
  "rates_at_price rate \<Longrightarrow> scan_candidates rate cs = Some rating \<Longrightarrow> \<forall>(off, p) \<in> set cs. priced (pr_price p) \<Longrightarrow>
   priced (rr_cost rating)"
  by (induction rate cs rule: scan_candidates.induct)
    (auto simp: bind_eq_Some_conv attempt_priced split: if_splits)

lemma live_priced:
  "rates_at_price rate \<Longrightarrow> live_loop rate get_price offs = Some rating \<Longrightarrow>
   \<forall>i p. get_price i = Some p \<longrightarrow> priced (pr_price p) \<Longrightarrow> priced (rr_cost rating)"
  by (induction rate get_price offs rule: live_loop.induct)
    (auto simp: bind_eq_Some_conv attempt_priced split: if_splits option.splits list.splits)

lemma rating_priced:
  assumes "build_rating_grant eq adv (sr_snapshot sr) offs (sr_price sr) rg supi attrs = Some rating"
    and "priced_catalogue sr"
  shows "priced (rr_cost rating)"
  using assms scan_priced [OF try_rate_at_price] live_priced [OF try_rate_at_price]
  unfolding build_rating_grant_def Let_def priced_catalogue_def
  by (auto split: if_splits option.splits)

lemma update_session_simps [simp]:
  "cd_active (update_session ref f s) = cd_active s" "cd_next_id (update_session ref f s) = cd_next_id s"
  "cd_content (update_session ref f s) r = (if r = ref then f (cd_content s ref) else cd_content s r)"
  by (simp_all add: update_session_def)

lemma add_reservation_simps [simp]:
  "cd_active (add_reservation hincr ref rating v s) = cd_active s"
  "cd_next_id (add_reservation hincr ref rating v s) = cd_next_id s"
  "se_reserved_total (cd_content (add_reservation hincr ref rating v s) r) =
     (if r = ref then Some (hincr (se_reserved_total (cd_content s ref)) v) else se_reserved_total (cd_content s r))"
  by (simp_all add: add_reservation_def add_grant_def add_reserved_def add_granted_volume_def
      add_granted_service_units_def add_granted_time_def set_unit_pooling_def Let_def split: option.split)

lemma charge_one_usage_effect:
  assumes "charge_one_usage sr ref operation supi rq usage chf = Some (chf', res)"
  obtains chf1 where "reserve_rated sr ref supi (charged_rating res) chf = Some (chf1, charged_reserved res)"
    "chf_sessions chf' = chf_sessions chf1" "chf_ledger chf' = chf_ledger chf1"
    "priced_catalogue sr \<Longrightarrow> priced (rr_cost (charged_rating res))"
proof -
  from assms obtain rating chf1 reserved chf2 ts where r:
    "build_rating_grant (sr_json_eq sr) (map_option (\<lambda>a. a \<lparr>ad_history := get_history (chf_quota chf)\<rparr>) (sr_advisor sr))
       (sr_snapshot sr) (sr_offerings sr) (sr_price sr) (us_rating_group usage) supi (us_attributes usage) = Some rating"
    "reserve_rated sr ref supi rating chf = Some (chf1, reserved)"
    "write_converged_charging_cdr sr ref operation supi rq usage rating reserved ts chf1 = Some chf2"
    "chf' = record_reported sr supi usage rating reserved (write_rating_decision ref supi usage rating reserved chf2)"
    "res = \<lparr>charged_rating = rating, charged_reserved = reserved\<rparr>"
    by (auto simp: charge_one_usage_def bind_eq_Some_conv)
  have "chf_sessions chf2 = chf_sessions chf1 \<and> chf_ledger chf2 = chf_ledger chf1"
    using r(3) by (auto simp: write_converged_charging_cdr_def bind_eq_Some_conv)
  then have "chf_sessions chf' = chf_sessions chf1 \<and> chf_ledger chf' = chf_ledger chf1"
    by (auto simp: r(4) record_reported_def write_rating_decision_def split: option.split list.split)
  then show thesis
    using that [of chf1] r(2, 5) rating_priced [OF r(1)] by simp
qed

lemma reserve_rated_agrees:
  assumes "reserve_rated sr ref supi rating chf = Some (chf', reserved)" "totals_agree db reliable chf"
    and "ref \<in> cd_active (chf_sessions chf)" "priced (rr_cost rating)"
    and "in_setting db hincr reliable sr" "exact_totals db hincr" "faithful db"
  shows "totals_agree db reliable chf' \<and> cd_active (chf_sessions chf') = cd_active (chf_sessions chf)"
proof (cases "rr_cost rating = None \<or> supi = []")
  case True
  then show ?thesis
    using assms(1, 2) by (auto simp: reserve_rated_def split: option.splits)
next
  case False
  then obtain cost where cost: "rr_cost rating = Some cost"
    by auto
  note set = assms(5) [unfolded in_setting_def]
  from assms(1) False cost set obtain l where l: "reserve_subscriber_balance db (sr_lookup_fate sr) (sr_reserve_fate sr)
      supi cost ref (chf_ledger chf) = Some (l, reserved)"
    and c: "if reserved then \<exists>v. money_value cost = Some v \<and> chf' = chf \<lparr>chf_ledger := l,
        chf_sessions := add_reservation hincr ref rating v (chf_sessions chf)\<rparr> else chf' = chf \<lparr>chf_ledger := l\<rparr>"
    by (auto simp: reserve_rated_def bind_eq_Some_conv split: if_splits)
  show ?thesis
  proof (cases "money_value cost")
    case None
    then have "reserved"
      using l by (simp add: reserve_subscriber_balance_def)
    then show ?thesis
      using c None by simp
  next
    case (Some v)
    then obtain x where x: "v = Fin x" "0 \<le> x"
      using assms(4) cost by (auto simp: priced_def)
    note ev = reserve_subscriber_events [OF l _ x(2) assms(7), unfolded Some x(1), simplified]
    have num: "0 \<le> db_numeric db x"
      using assms(7) x(2) by (simp add: faithful_def)
    let ?s = "chf_sessions chf" and ?e = "l_events (chf_ledger chf)"
    obtain t where t: "se_reserved_total (cd_content ?s ref) = Some (Fin t)" "db_numeric db t \<le> reserved_for ?e ref"
      "reliable \<longrightarrow> db_numeric db t = reserved_for ?e ref"
      using assms(2, 3) unfolding totals_agree_def by blast
    obtain u where u: "hincr (Some (Fin t)) (Fin x) = Fin u" "db_numeric db u = db_numeric db t + db_numeric db x"
      using assms(6) unfolding exact_totals_def by blast
    have issued: "ref \<in> issued_by ''chg-'' (cd_next_id ?s)"
      using assms(2, 3) unfolding totals_agree_def by blast
    show ?thesis
    proof (cases reserved)
      case True
      then have c': "chf' = chf \<lparr>chf_ledger := l, chf_sessions := add_reservation hincr ref rating (Fin x) ?s\<rparr>"
        using c Some x by simp
      show ?thesis
        using assms(2) ev True t u issued unfolding totals_agree_def c' by (auto split: if_splits)
    next
      case False
      then have c': "chf' = chf \<lparr>chf_ledger := l\<rparr>"
        using c by simp
      have "db_numeric db t \<le> reserved_for (l_events l) ref"
        "reliable \<longrightarrow> db_numeric db t = reserved_for (l_events l) ref"
        using ev False t(2, 3) num set by (auto split: if_splits)
      then show ?thesis
        using assms(2) ev t(1) issued unfolding totals_agree_def c' by (auto; metis)
    qed
  qed
qed

lemma totals_agree_cong:
  "chf_sessions a = chf_sessions b \<Longrightarrow> chf_ledger a = chf_ledger b \<Longrightarrow>
   totals_agree db reliable a = totals_agree db reliable b"
  by (simp add: totals_agree_def)

lemma charge_usages_agree:
  assumes "charge_usages sr ref operation supi rq us chf = Some (chf', infos)" "totals_agree db reliable chf"
    and "ref \<in> cd_active (chf_sessions chf)"
    and "in_setting db hincr reliable sr" "exact_totals db hincr" "faithful db"
  shows "totals_agree db reliable chf'"
  using assms
proof (induction us arbitrary: chf infos)
  case Nil
  then show ?case by simp
next
  case (Cons u us)
  from Cons.prems(1) obtain chf1 res infos' where one: "charge_one_usage sr ref operation supi rq u chf = Some (chf1, res)"
    and rest: "charge_usages sr ref operation supi rq us chf1 = Some (chf', infos')"
    by (auto simp: bind_eq_Some_conv)
  from one obtain chf2 where "reserve_rated sr ref supi (charged_rating res) chf = Some (chf2, charged_reserved res)"
    "chf_sessions chf1 = chf_sessions chf2" "chf_ledger chf1 = chf_ledger chf2" "priced (rr_cost (charged_rating res))"
    using Cons.prems(4) by (auto simp: in_setting_def elim: charge_one_usage_effect)
  then have "totals_agree db reliable chf1 \<and> cd_active (chf_sessions chf1) = cd_active (chf_sessions chf)"
    using reserve_rated_agrees Cons.prems(2-6) totals_agree_cong by metis
  then show ?case
    using Cons.IH [OF rest] Cons.prems by simp
qed

lemma create_agrees:
  assumes "create_session supi (chf_sessions chf) = (ref, s)" "totals_agree db reliable chf" "faithful db"
  shows "totals_agree db reliable (chf \<lparr>chf_sessions := s\<rparr>) \<and> ref \<in> cd_active s"
proof -
  let ?s = "chf_sessions chf"
  have "db_numeric db (- 0) = - db_numeric db 0"
    using assms(3) by (simp only: faithful_def)
  then have num: "db_numeric db 0 = 0"
    by simp
  have ref: "ref = ''chg-'' @ to_string_nat (Suc (cd_next_id ?s))" and s: "cd_active s = insert ref (cd_active ?s)"
    "cd_next_id s = Suc (cd_next_id ?s)"
    "\<And>r. se_reserved_total (cd_content s r) =
      (if r = ref then Some (Fin 0) else se_reserved_total (cd_content ?s r))"
    using assms(1) by (auto simp: create_session_def Let_def)
  have "ref \<notin> issued_by ''chg-'' (cd_next_id ?s)" "issued_by ''chg-'' (cd_next_id s) = insert ref (issued_by ''chg-'' (cd_next_id ?s))"
    unfolding ref s(2) by (rule issued_by_fresh, rule issued_by_Suc)
  then show ?thesis
    using assms(2) num unfolding totals_agree_def by (auto simp: s)
qed

lemma release_agrees:
  assumes "post_release sr ref rq chf = Some (chf', reply)" "totals_agree db reliable chf" "sr_database sr = db"
  shows "totals_agree db reliable chf'"
proof (cases "ref \<in> cd_active (chf_sessions chf)")
  case False
  then show ?thesis
    using assms(1, 2) release_again by (simp add: is_active_session_def)
next
  case True
  from assms(1) True have s: "chf_sessions chf' = snd (release_session ref (chf_sessions chf))"
    and other: "\<And>r. r \<noteq> ref \<Longrightarrow>
      reserved_for (l_events (chf_ledger chf')) r = reserved_for (l_events (chf_ledger chf)) r"
    by (auto simp: post_release_def release_session_def Let_def bind_eq_Some_conv split: if_splits
        dest: finalize_events)
  have "ref \<in> issued_by ''chg-'' (cd_next_id (chf_sessions chf))"
    using True assms(2) unfolding totals_agree_def by blast
  then have "r \<noteq> ref" if "r \<notin> issued_by ''chg-'' (cd_next_id (chf_sessions chf))" for r
    using that by blast
  with assms(2) other show ?thesis
    unfolding totals_agree_def s by (auto simp: release_session_def)
qed

lemma foreign_agrees:
  assumes "exec db c (chf_ledger chf) = Some (l, r)" "charging_ref_of c = None" "totals_agree db reliable chf"
  shows "totals_agree db reliable (chf \<lparr>chf_ledger := l\<rparr>)"
proof -
  have "reserved_for (l_events l) ref = reserved_for (l_events (chf_ledger chf)) ref" for ref
  proof (cases c)
    case (Reserve body charging_ref)
    show ?thesis
    proof (cases body)
      case None
      then show ?thesis
        using assms(1) Reserve by (simp add: post_reserve_def handle_def)
    next
      case (Some rq)
      then have "post_reserve db (Some rq) None (chf_ledger chf) = Some (l, r)"
        using assms(1, 2) Reserve by simp
      then show ?thesis
        by (cases rule: post_reserve_events) (auto simp: reserved_by_def)
    qed
  qed (use assms(1) post_topup_events post_adjust_events in auto)
  then show ?thesis
    using assms(3) by (simp add: totals_agree_def)
qed

lemma step_agrees:
  assumes "chf_step db hincr reliable chf chf'" "totals_agree db reliable chf" "exact_totals db hincr" "faithful db"
  shows "totals_agree db reliable chf'"
  using assms(1)
proof cases
  case (create sr rq reply)
  obtain ref s where c: "create_session (value_or [] (cr_subscriber rq)) (chf_sessions chf) = (ref, s)"
    by fastforce
  note agree = create_agrees [OF c assms(2, 4)]
  show ?thesis
  proof (cases "cr_usages rq")
    case None
    then show ?thesis
      using create(2) c agree by (simp add: post_chargingdata_def)
  next
    case (Some us)
    then obtain infos where "charge_usages sr ref ''Create'' (value_or [] (cr_subscriber rq)) rq us
        (chf \<lparr>chf_sessions := s\<rparr>) = Some (chf', infos)"
      using create(2) c by (auto simp: post_chargingdata_def bind_eq_Some_conv)
    then show ?thesis
      by (rule charge_usages_agree) (use agree create(1) assms(3, 4) in simp_all)
  qed
next
  case (update sr ref rq reply)
  show ?thesis
  proof (cases "is_active_session (chf_sessions chf) ref \<and> cr_usages rq \<noteq> None")
    case True
    then obtain us infos where "charge_usages sr ref ''Update'' (value_or [] (get_supi (chf_sessions chf) ref)) rq us chf
        = Some (chf', infos)"
      using update(2) by (auto simp: post_update_def bind_eq_Some_conv)
    then show ?thesis
      by (rule charge_usages_agree) (use True update(1) assms(2-4) in \<open>simp_all add: is_active_session_def\<close>)
  next
    case False
    then show ?thesis
      using update(2) assms(2) by (auto simp: post_update_def split: if_splits)
  qed
next
  case (release sr ref rq reply)
  then show ?thesis
    using release_agrees assms(2) by (auto simp: in_setting_def)
next
  case (foreign c l r)
  then show ?thesis
    using foreign_agrees assms(2) by blast
qed

section \<open>Properties\<close>


text \<open>Property C7: a client that names a subscriber is told of a grant only when its price has been
  set aside: with a positive price, the account had at least the price and it has moved from the remaining to the
  reserved amount; nothing else in the ledger's accounts has changed.\<close>

theorem granted_units_are_paid:
  assumes "charge_one_usage sr ref operation supi rq usage chf = Some (chf', res)"
    and "ui_granted (unit_information_of usage res) \<noteq> None" "supi \<noteq> []"
    and "rr_cost (charged_rating res) = Some cost" "money_value cost = Some (Fin v)" "0 < v"
    and "faithful (sr_database sr)" "distinct (map b_id (l_buckets (chf_ledger chf)))"
    and "bid = resolve_bucket_id (sr_lookup_fate sr) supi (chf_ledger chf)" "bid \<noteq> []"
    and "account_of (chf_ledger chf) bid = Some (m, h)"
  shows "db_numeric (sr_database sr) v \<le> m \<and>
    account_of (chf_ledger chf') bid = Some (m - db_numeric (sr_database sr) v, h + db_numeric (sr_database sr) v) \<and>
    (\<forall>j. j \<noteq> bid \<longrightarrow> account_of (chf_ledger chf') j = account_of (chf_ledger chf) j)"
proof -
  obtain chf1 where r: "reserve_rated sr ref supi (charged_rating res) chf = Some (chf1, charged_reserved res)"
    "chf_ledger chf' = chf_ledger chf1"
    using assms(1) by (rule charge_one_usage_effect)
  have told: "charged_reserved res"
    using assms(2) by (auto simp: unit_information_of_def Let_def split: if_splits)
  then have "reserve_subscriber_balance (sr_database sr) (sr_lookup_fate sr) (sr_reserve_fate sr) supi cost ref
      (chf_ledger chf) = Some (chf_ledger chf1, True)"
    using r(1) assms(3, 4) by (auto simp: reserve_rated_def bind_eq_Some_conv split: if_splits)
  then show ?thesis
    using reserve_holds_price [OF assms(7-11) assms(5, 6), of "sr_reserve_fate sr" ref] r(2) by auto
qed

section \<open>Concrete instances\<close>

text \<open>A catalogue with one price: a unit of data for 20.\<close>

definition data_price :: offering_price where
  "data_price =
     (sample_price ''p2'' ''MIN'' 7) \<lparr>pr_price := Some \<lparr>money_unit = Some ''USD'', money_value = Some (Fin 20)\<rparr>\<rparr>"

definition priced_surroundings :: surroundings where
  "priced_surroundings =
     sample_surroundings \<lparr>sr_snapshot := Some \<lparr>cs_candidates = [(sample_offering ''Active'' ''p2'', data_price)],
       cs_ready = True, cs_generation = 1\<rparr>, sr_hincr := (\<lambda>old v. case (old, v) of
         (Some (Fin a), Fin b) \<Rightarrow> Fin (a + b) | _ \<Rightarrow> v)\<rparr>"

definition sample_create :: charging_request where
  "sample_create = smf_create_request 7 JNull ''b1'' []"

lemma sample_setting: "in_setting sample_database (sr_hincr priced_surroundings) True priced_surroundings"
  by (auto simp: in_setting_def priced_surroundings_def sample_surroundings_def priced_catalogue_def priced_def
      data_price_def sample_price_def)

lemma sample_exact: "exact_totals sample_database (sr_hincr priced_surroundings)"
  by (simp add: exact_totals_def priced_surroundings_def)

lemma small_integers_20 [simp]: "round_double 180 = Fin 180" "round_double 20 = Fin 20"
  using is_double_of_int [of 180] is_double_of_int [of 20] by simp_all

lemma sample_rating:
  "build_rating_grant (=) None (sr_snapshot priced_surroundings) None (\<lambda>_. None) 7 ''b1'' JNull =
     Some (empty_result \<lparr>rr_grant := Some (empty_grant \<lparr>gu_time := Some 180\<rparr>),
       rr_cost := Some \<lparr>money_unit = Some ''USD'', money_value = Some (Fin 20)\<rparr>, rr_tariff_id := Some ''p2''\<rparr>)"
  by (simp add: build_rating_grant_def priced_surroundings_def try_rate_against_def data_price_def sample_defs
      find_characteristic_value.simps rating_group_matches_def unit_grant_def to_u32_def size_grant_def
      parse_unit_pooling_def integer_characteristic_def empty_result_def empty_grant_def value_or_def to_upper_def)

definition charged_ledger :: ledger where
  "charged_ledger =
     sample_ledger \<lparr>l_buckets := [sample_bucket ''b1'' 80 20],
       l_events := [sample_event TopupBalance 100, (sample_event ReserveBalance 20)
         \<lparr>ev_units := Some ''USD'', ev_charging_data_ref := Some ''chg-1''\<rparr>]\<rparr>"

lemma sample_reserve:
  "reserve_subscriber_balance sample_database Delivered Delivered ''b1''
     \<lparr>money_unit = Some ''USD'', money_value = Some (Fin 20)\<rparr> ''chg-1'' sample_ledger1 = Some (charged_ledger, True)"
  by (simp add: reserve_subscriber_balance_def send_def resolve_bucket_id_def get_buckets_of_def
      find_shared_bucket_for_def shared_with_def post_reserve_def handle_def reserve_def finish_def checked_dates_def
      ts_in_def vf_start_def vf_end_def update_where_def chf_request_def amount_value_of_def amount_units_of_def
      json_number_def value_or_def charged_ledger_def sample_ledger_defs)

definition opened_chf :: chf_state where
  "opened_chf = initial_chf \<lparr>chf_ledger := sample_ledger1,
     chf_sessions := snd (create_session ''b1'' empty_charging_data_store)\<rparr>"

definition charged_chf :: chf_state where
  "charged_chf = fst (the (charge_one_usage priced_surroundings ''chg-1'' ''Create'' ''b1'' sample_create
     \<lparr>us_rating_group = 7, us_used = None, us_attributes = JNull\<rparr> opened_chf))"

definition sample_result :: rating_result where
  "sample_result = empty_result \<lparr>rr_grant := Some (empty_grant \<lparr>gu_time := Some 180\<rparr>),
     rr_cost := Some \<lparr>money_unit = Some ''USD'', money_value = Some (Fin 20)\<rparr>, rr_tariff_id := Some ''p2''\<rparr>"

lemma sample_reserve_rated:
  "reserve_rated priced_surroundings ''chg-1'' ''b1'' sample_result opened_chf =
     Some (opened_chf \<lparr>chf_ledger := charged_ledger, chf_sessions := add_reservation (sr_hincr priced_surroundings)
       ''chg-1'' sample_result (Fin 20) (chf_sessions opened_chf)\<rparr>, True)"
  using sample_reserve
  by (simp add: reserve_rated_def sample_result_def priced_surroundings_def sample_surroundings_def opened_chf_def)

lemma sample_charge:
  "charge_one_usage priced_surroundings ''chg-1'' ''Create'' ''b1'' sample_create
     \<lparr>us_rating_group = 7, us_used = None, us_attributes = JNull\<rparr> opened_chf =
   Some (charged_chf, \<lparr>charged_rating = sample_result, charged_reserved = True\<rparr>)"
proof -
  have s: "sr_json_eq priced_surroundings = (=)" "sr_advisor priced_surroundings = None"
    "sr_offerings priced_surroundings = None" "sr_price priced_surroundings = (\<lambda>_. None)"
    by (simp_all add: priced_surroundings_def sample_surroundings_def)
  have "\<exists>chf. charge_one_usage priced_surroundings ''chg-1'' ''Create'' ''b1'' sample_create
      \<lparr>us_rating_group = 7, us_used = None, us_attributes = JNull\<rparr> opened_chf =
    Some (chf, \<lparr>charged_rating = sample_result, charged_reserved = True\<rparr>)"
    using sample_rating sample_reserve_rated
    by (simp add: charge_one_usage_def s sample_result_def [symmetric] sample_create_def smf_create_request_def
        smf_request_def sample_time write_converged_charging_cdr_def serving_plmn_def)
  then show ?thesis
    by (auto simp: charged_chf_def)
qed

lemma first_reference [simp]: "to_string_nat (Suc 0) = ''1''"
  by code_simp

lemma sample_charged:
  "chf_ledger charged_chf = charged_ledger" "is_active_session (chf_sessions charged_chf) ''chg-1''"
  "get_reserved_total (chf_sessions charged_chf) ''chg-1'' = Fin 20"
proof -
  obtain chf1 where "reserve_rated priced_surroundings ''chg-1'' ''b1'' sample_result opened_chf = Some (chf1, True)"
    "chf_sessions charged_chf = chf_sessions chf1" "chf_ledger charged_chf = chf_ledger chf1"
    using sample_charge by (rule charge_one_usage_effect) simp
  then show "chf_ledger charged_chf = charged_ledger" "is_active_session (chf_sessions charged_chf) ''chg-1''"
    "get_reserved_total (chf_sessions charged_chf) ''chg-1'' = Fin 20"
    using sample_reserve_rated
    by (auto simp: is_active_session_def get_reserved_total_def opened_chf_def create_session_def Let_def
        empty_charging_data_store_def priced_surroundings_def value_or_def)
qed

lemma sample_create_step:
  "post_chargingdata priced_surroundings sample_create (initial_chf \<lparr>chf_ledger := sample_ledger1\<rparr>) =
     Some (charged_chf, SessionCreated ''chg-1'' (Some [unit_information_of
       \<lparr>us_rating_group = 7, us_used = None, us_attributes = JNull\<rparr>
       \<lparr>charged_rating = sample_result, charged_reserved = True\<rparr>]))"
proof -
  have "create_session ''b1'' (chf_sessions initial_chf) = (''chg-1'', chf_sessions opened_chf)"
    "initial_chf \<lparr>chf_ledger := sample_ledger1, chf_sessions := chf_sessions opened_chf\<rparr> = opened_chf"
    by (simp_all add: opened_chf_def initial_chf_def create_session_def Let_def empty_charging_data_store_def)
  then show ?thesis
    using sample_charge
    by (simp add: post_chargingdata_def sample_create_def smf_create_request_def smf_request_def value_or_def)
qed

lemma initial_chf_ledger: "chf_ledger initial_chf = empty_ledger"
  by (simp add: initial_chf_def)

lemma sample_chf_reaches: "chf_reaches sample_database (sr_hincr priced_surroundings) True charged_chf"
proof -
  have "chf_step sample_database (sr_hincr priced_surroundings) True initial_chf (initial_chf \<lparr>chf_ledger := sample_ledger1\<rparr>)"
    by (rule chf_step.foreign [OF _ sample_run1 [folded initial_chf_ledger]]) simp
  moreover have "chf_step sample_database (sr_hincr priced_surroundings) True (initial_chf \<lparr>chf_ledger := sample_ledger1\<rparr>) charged_chf"
    using sample_setting sample_create_step by (rule chf_step.create)
  ultimately show ?thesis
    unfolding chf_reaches_def by (meson rtranclp.rtrancl_refl rtranclp.rtrancl_into_rtrancl)
qed


theorem granted_units_are_paid_witness:
  "ui_granted (unit_information_of \<lparr>us_rating_group = 7, us_used = None, us_attributes = JNull\<rparr>
       \<lparr>charged_rating = sample_result, charged_reserved = True\<rparr>) = Some (empty_grant \<lparr>gu_time := Some 180\<rparr>) \<and>
   20 \<le> (100 :: rat) \<and> account_of charged_ledger ''b1'' = Some (80, 20)"
proof -
  have "account_of sample_ledger1 ''b1'' = Some (100, 0)" "distinct (map b_id (l_buckets sample_ledger1))"
    "resolve_bucket_id Delivered ''b1'' sample_ledger1 = ''b1''"
    by (simp_all add: account_of_def get_bucket_def resolve_bucket_id_def get_buckets_of_def
        find_shared_bucket_for_def shared_with_def sample_ledger_defs)
  moreover have "ui_granted (unit_information_of \<lparr>us_rating_group = 7, us_used = None, us_attributes = JNull\<rparr>
       \<lparr>charged_rating = sample_result, charged_reserved = True\<rparr>) = Some (empty_grant \<lparr>gu_time := Some 180\<rparr>)"
    by (simp add: unit_information_of_def sample_result_def)
  ultimately show ?thesis
    using granted_units_are_paid [OF sample_charge, where v = 20 and bid = "''b1''" and m = 100 and h = 0
        and cost = "\<lparr>money_unit = Some ''USD'', money_value = Some (Fin 20)\<rparr>"]
    by (simp add: sample_charged(1) sample_result_def priced_surroundings_def sample_surroundings_def opened_chf_def
        faithful_sample)
qed

end
