(* ===== verification/Idempotency.thy ===== *)
theory Idempotency
  imports Prelude
begin

text \<open>
  Detection of retransmitted charging requests (\<open>IdempotencyStore\<close> of
  \<open>nfs/chf/src/stores.cpp\<close> and its use in the handlers of \<open>nfs/chf/src/main.cpp\<close>). Each
  key is a Redis hash with the fields \<open>state\<close>, \<open>status\<close> and \<open>location\<close>, each
  operation one atomic command. Entries expire; what is proved holds while the entry of a key lives.
\<close>

section \<open>The store\<close>

record idem_entry =
  ie_pending :: bool
  ie_status :: "int option"
  ie_location :: "string option"

definition no_entry :: idem_entry where
  "no_entry = \<lparr>ie_pending = False, ie_status = None, ie_location = None\<rparr>"

type_synonym idem_store = "string \<Rightarrow> idem_entry"

record idem_config =
  ttl_seconds :: int
  poll_ms :: int
  max_wait_ms :: int

record idem_response =
  ir_status :: int
  ir_location :: string

datatype claim_result = Owned | Duplicate

definition enabled :: "idem_config \<Rightarrow> bool" where
  "enabled cfg \<longleftrightarrow> ttl_seconds cfg > 0"

definition claim :: "idem_config \<Rightarrow> string \<Rightarrow> idem_store \<Rightarrow> claim_result \<times> idem_store" where
  "claim cfg key st =
     (if \<not> enabled cfg \<or> key = [] then (Owned, st)
      else if ie_pending (st key) then (Duplicate, st)
      else (Owned, st(key := (st key) \<lparr>ie_pending := True\<rparr>)))"

text \<open>The two writes of \<open>remember\<close>.\<close>

definition write_location :: "string \<Rightarrow> idem_response \<Rightarrow> idem_store \<Rightarrow> idem_store" where
  "write_location key r st =
     (if ir_location r \<noteq> [] then st(key := (st key) \<lparr>ie_location := Some (ir_location r)\<rparr>) else st)"

definition write_status :: "string \<Rightarrow> idem_response \<Rightarrow> idem_store \<Rightarrow> idem_store" where
  "write_status key r st = st(key := (st key) \<lparr>ie_status := Some (ir_status r)\<rparr>)"

definition remember :: "idem_config \<Rightarrow> string \<Rightarrow> idem_response \<Rightarrow> idem_store \<Rightarrow> idem_store" where
  "remember cfg key r st =
     (if \<not> enabled cfg \<or> key = [] then st else write_status key r (write_location key r st))"

definition found_response :: "int \<Rightarrow> idem_entry \<Rightarrow> idem_response" where
  "found_response status e =
     \<lparr>ir_status = status, ir_location = (case ie_location e of Some loc \<Rightarrow> loc | None \<Rightarrow> [])\<rparr>"

text \<open>The polling loop. \<open>views n\<close> is the store at the \<open>n\<close>-th command that reads it: each
  round reads the status and, once there is one, the location. The result \<open>None\<close> is a loop that
  does not end.\<close>

partial_function (option) await_loop ::
  "idem_config \<Rightarrow> string \<Rightarrow> (nat \<Rightarrow> idem_store) \<Rightarrow> nat \<Rightarrow> int \<Rightarrow> idem_response option option" where
  "await_loop cfg key views n waited =
     (if waited < max_wait_ms cfg
      then (case ie_status (views n key) of
              Some status \<Rightarrow> Some (Some (found_response status (views (Suc n) key)))
            | None \<Rightarrow> await_loop cfg key views (Suc n) (waited + poll_ms cfg))
      else Some None)"

definition await_response :: "idem_config \<Rightarrow> string \<Rightarrow> (nat \<Rightarrow> idem_store) \<Rightarrow> idem_response option option" where
  "await_response cfg key views = (if \<not> enabled cfg \<or> key = [] then Some None else await_loop cfg key views 0 0)"

section \<open>The handlers\<close>

record 'b http_response =
  hr_status :: int
  hr_location :: string
  hr_body :: "'b option"

definition replay_idempotent :: "idem_response \<Rightarrow> 'b http_response" where
  "replay_idempotent r = \<lparr>hr_status = ir_status r, hr_location = ir_location r, hr_body = None\<rparr>"

text \<open>What processing a request comes to: a problem, answered at once, or the answer at the end of
  the handler, which is remembered.\<close>

datatype 'b processed = Problem "'b http_response" | Answered "'b http_response"

definition handle_idempotent ::
  "idem_config \<Rightarrow> string option \<Rightarrow> (nat \<Rightarrow> idem_store) \<Rightarrow> ('s \<Rightarrow> 's \<times> 'b processed) \<Rightarrow>
   's \<times> idem_store \<Rightarrow> (('s \<times> idem_store) \<times> 'b http_response) option" where
  "handle_idempotent cfg idem_key views process s =
     (let (claimed, st) = (case idem_key of Some key \<Rightarrow> claim cfg key (snd s) | None \<Rightarrow> (Owned, snd s))
      in case (if claimed = Duplicate then await_response cfg (the idem_key) views else Some None) of
           None \<Rightarrow> None
         | Some (Some seen) \<Rightarrow> Some ((fst s, st), replay_idempotent seen)
         | Some None \<Rightarrow>
             (case process (fst s) of
                (s', Problem resp) \<Rightarrow> Some ((s', st), resp)
              | (s', Answered resp) \<Rightarrow>
                  Some ((s', case idem_key of
                               Some key \<Rightarrow> remember cfg key \<lparr>ir_status = hr_status resp, ir_location = hr_location resp\<rparr> st
                             | None \<Rightarrow> st), resp)))"

section \<open>Waiting\<close>

lemma await_loop_positive:
  assumes "0 < poll_ms cfg"
  shows "\<exists>r. await_loop cfg key views n waited = Some r"
proof (induction "nat (max_wait_ms cfg - waited)" arbitrary: n waited rule: less_induct)
  case less
  show ?case
  proof (cases "waited < max_wait_ms cfg \<and> ie_status (views n key) = None")
    case True
    then have "\<exists>r. await_loop cfg key views (Suc n) (waited + poll_ms cfg) = Some r"
      using assms by (intro less) auto
    then show ?thesis
      using True by (subst await_loop.simps) simp
  next
    case False
    then show ?thesis
      by (subst await_loop.simps) (auto split: option.split)
  qed
qed

lemma await_loop_found:
  assumes "poll_ms cfg \<le> 0" "waited < max_wait_ms cfg" "ie_status (views (n + k) key) \<noteq> None"
  shows "\<exists>r. await_loop cfg key views n waited = Some r"
  using assms(2, 3)
proof (induction k arbitrary: n waited)
  case 0
  then show ?case
    by (subst await_loop.simps) auto
next
  case (Suc k)
  then have "\<exists>r. await_loop cfg key views (Suc n) (waited + poll_ms cfg) = Some r"
    using assms(1) by (intro Suc.IH) auto
  then show ?case
    by (subst await_loop.simps) (auto split: option.split)
qed

text \<open>Without progress of the clock and without an answer the loop does not end.\<close>

lemma await_loop_returns:
  assumes "await_loop cfg key views n waited = Some r"
  shows "poll_ms cfg \<le> 0 \<longrightarrow> waited < max_wait_ms cfg \<longrightarrow> (\<exists>k. ie_status (views (n + k) key) \<noteq> None)"
  using assms
proof (induction rule: await_loop.raw_induct [rotated, consumes 1, case_names round])
  case (round loop cfg key views n waited r)
  show ?case
  proof (intro impI)
    assume a: "poll_ms cfg \<le> 0" "waited < max_wait_ms cfg"
    show "\<exists>k. ie_status (views (n + k) key) \<noteq> None"
    proof (cases "ie_status (views n key)")
      case None
      then obtain k where "ie_status (views (Suc n + k) key) \<noteq> None"
        using round a by fastforce
      then show ?thesis
        by (intro exI [of _ "Suc k"]) simp
    qed (auto intro: exI [of _ 0])
  qed
qed

section \<open>Concurrent requests with one key\<close>

text \<open>Where a request with the key is: arrived; processing as the owner; the location written, the
  status not; answered; waiting as a duplicate; the status read, the location not; answered with
  the owner's response.\<close>

datatype phase =
    Arrived
  | Owning
  | Storing idem_response
  | Finished idem_response
  | Waiting
  | Found int
  | Replayed idem_response

text \<open>One command of one request. While no entry expires and no wait runs out.\<close>

inductive idem_step ::
  "idem_config \<Rightarrow> string \<Rightarrow> idem_store \<times> (nat \<Rightarrow> phase) \<Rightarrow> idem_store \<times> (nat \<Rightarrow> phase) \<Rightarrow> bool" for cfg key where
  claims: "ph p = Arrived \<Longrightarrow> claim cfg key st = (c, st') \<Longrightarrow>
    idem_step cfg key (st, ph) (st', ph(p := (case c of Owned \<Rightarrow> Owning | Duplicate \<Rightarrow> Waiting)))"
| locates: "ph p = Owning \<Longrightarrow> idem_step cfg key (st, ph) (write_location key r st, ph(p := Storing r))"
| publishes: "ph p = Storing r \<Longrightarrow> idem_step cfg key (st, ph) (write_status key r st, ph(p := Finished r))"
| polls: "ph p = Waiting \<Longrightarrow> ie_status (st key) = Some s \<Longrightarrow> idem_step cfg key (st, ph) (st, ph(p := Found s))"
| fetches: "ph p = Found s \<Longrightarrow> idem_step cfg key (st, ph) (st, ph(p := Replayed (found_response s (st key))))"

inductive_cases idem_stepE: "idem_step cfg key (st, ph) s'"

definition idem_reaches :: "idem_config \<Rightarrow> string \<Rightarrow> idem_store \<Rightarrow> (nat \<Rightarrow> phase) \<Rightarrow> bool" where
  "idem_reaches cfg key st ph \<longleftrightarrow> (idem_step cfg key)\<^sup>*\<^sup>* ((\<lambda>_. no_entry), (\<lambda>_. Arrived)) (st, ph)"

fun owns :: "phase \<Rightarrow> bool" where
  "owns Owning = True"
| "owns (Storing r) = True"
| "owns (Finished r) = True"
| "owns _ = False"

text \<open>The entry as the owner has written it so far.\<close>

fun entry_of :: "phase \<Rightarrow> idem_entry" where
  "entry_of Owning = no_entry \<lparr>ie_pending := True\<rparr>"
| "entry_of (Storing r) = no_entry \<lparr>ie_pending := True, ie_location := (if ir_location r = [] then None else Some (ir_location r))\<rparr>"
| "entry_of (Finished r) = no_entry \<lparr>ie_pending := True, ie_status := Some (ir_status r),
     ie_location := (if ir_location r = [] then None else Some (ir_location r))\<rparr>"
| "entry_of _ = no_entry"

definition protocol :: "string \<Rightarrow> idem_store \<Rightarrow> (nat \<Rightarrow> phase) \<Rightarrow> bool" where
  "protocol key st ph \<longleftrightarrow>
     (st key = no_entry \<and> (\<forall>p. ph p = Arrived)) \<or>
     (\<exists>w. owns (ph w) \<and> st key = entry_of (ph w) \<and> (\<forall>p. p \<noteq> w \<longrightarrow> \<not> owns (ph p)) \<and>
       (\<forall>p s. ph p = Found s \<longrightarrow> (\<exists>r. ph w = Finished r \<and> s = ir_status r)) \<and>
       (\<forall>p r. ph p = Replayed r \<longrightarrow> ph w = Finished r))"

lemma protocol_step:
  assumes "idem_step cfg key (st, ph) (st', ph')" "protocol key st ph" "enabled cfg" "key \<noteq> []"
  shows "protocol key st' ph'"
proof (cases "st key = no_entry \<and> (\<forall>p. ph p = Arrived)")
  case True
  from assms(1) show ?thesis
  proof cases
    case (claims p c)
    then show ?thesis
      using True assms(3, 4) unfolding protocol_def
      by (intro disjI2 exI [of _ p]) (auto simp: claim_def no_entry_def)
  qed (use True in simp_all)
next
  case False
  then obtain w where w: "owns (ph w)" "st key = entry_of (ph w)" "\<forall>p. p \<noteq> w \<longrightarrow> \<not> owns (ph p)"
    "\<forall>p s. ph p = Found s \<longrightarrow> (\<exists>r. ph w = Finished r \<and> s = ir_status r)"
    "\<forall>p r. ph p = Replayed r \<longrightarrow> ph w = Finished r"
    using assms(2) unfolding protocol_def by blast
  have pending: "ie_pending (st key)"
    using w(1, 2) by (cases "ph w") auto
  have keep: "protocol key st (ph(p := x))"
    if "p \<noteq> w" "\<not> owns x" "\<And>s. x = Found s \<Longrightarrow> \<exists>r. ph w = Finished r \<and> s = ir_status r"
      "\<And>r. x = Replayed r \<Longrightarrow> ph w = Finished r" for p x
    unfolding protocol_def using w that by (intro disjI2 exI [of _ w]) auto
  have move: "protocol key st2 (ph(w := x))"
    if "owns x" "st2 key = entry_of x" "\<And>r. ph w \<noteq> Finished r" for st2 x
    unfolding protocol_def using w that by (intro disjI2 exI [of _ w]) auto
  from assms(1) show ?thesis
  proof cases
    case (claims p c)
    have "p \<noteq> w"
      using claims(2) w(1) by auto
    moreover have "c = Duplicate" "st' = st"
      using claims(3) pending assms(3, 4) by (auto simp: claim_def)
    ultimately show ?thesis
      using claims(1) keep [of p Waiting] by simp
  next
    case (locates p r)
    then have "p = w"
      using w(3) by auto
    then show ?thesis
      unfolding locates(1, 2) by simp (rule move, use locates w(2) in \<open>simp_all add: write_location_def no_entry_def\<close>)
  next
    case (publishes p r)
    then have "p = w"
      using w(3) by auto
    then show ?thesis
      unfolding publishes(1, 2) by simp (rule move, use publishes w(2) in \<open>simp_all add: write_status_def no_entry_def\<close>)
  next
    case (polls p s)
    have "\<exists>r. ph w = Finished r \<and> s = ir_status r"
      using polls w(1, 2) by (cases "ph w") (auto simp: no_entry_def)
    then show ?thesis
      using polls keep [of p "Found s"] w(1) by (cases "p = w") auto
  next
    case (fetches p s)
    then obtain r where r: "ph w = Finished r" "s = ir_status r"
      using w(4) by blast
    then have "found_response s (st key) = r"
      using w(2) by (simp add: found_response_def no_entry_def)
    then show ?thesis
      using fetches keep [of p "Replayed r"] r by (cases "p = w") auto
  qed
qed

section \<open>Properties\<close>


text \<open>A request sent again after the first was answered, while its entry lives,
  changes nothing, neither the state the handler works on nor the store, and is answered with the
  first answer's status and Location, but without its body.\<close>

theorem retransmission_replays:
  assumes "enabled cfg" "key \<noteq> []" "0 < max_wait_ms cfg" "st key = no_entry"
    and "process s = (s1, Answered resp)"
    and "handle_idempotent cfg (Some key) views process (s, st) = Some ((s2, st2), resp2)"
  shows "s2 = s1 \<and> resp2 = resp \<and>
    handle_idempotent cfg (Some key) (\<lambda>_. st2) process (s2, st2) =
      Some ((s2, st2), \<lparr>hr_status = hr_status resp, hr_location = hr_location resp, hr_body = None\<rparr>)"
proof -
  have first: "s2 = s1" "resp2 = resp" "st2 = remember cfg key
      \<lparr>ir_status = hr_status resp, ir_location = hr_location resp\<rparr> (st(key := (st key) \<lparr>ie_pending := True\<rparr>))"
    using assms by (auto simp: handle_idempotent_def claim_def no_entry_def)
  then have e: "ie_pending (st2 key)" "ie_status (st2 key) = Some (hr_status resp)"
    "ie_location (st2 key) = (if hr_location resp = [] then None else Some (hr_location resp))"
    using assms(1, 2, 4) by (auto simp: remember_def write_status_def write_location_def no_entry_def)
  then have "await_loop cfg key (\<lambda>_. st2) 0 0 =
      Some (Some \<lparr>ir_status = hr_status resp, ir_location = hr_location resp\<rparr>)"
    using assms(3) by (subst await_loop.simps) (simp add: found_response_def)
  then show ?thesis
    using assms(1, 2) e(1) first(1, 2)
    by (simp add: handle_idempotent_def claim_def await_response_def replay_idempotent_def)
qed


section \<open>Concrete instances\<close>

definition sample_config :: idem_config where
  "sample_config = \<lparr>ttl_seconds = 60, poll_ms = 10, max_wait_ms = 100\<rparr>"

definition sample_answer :: idem_response where
  "sample_answer = \<lparr>ir_status = 201, ir_location = ''/chg-1''\<rparr>"

definition sample_store :: idem_store where
  "sample_store = (\<lambda>_. no_entry)(''k'' := \<lparr>ie_pending = True, ie_status = Some 201, ie_location = Some ''/chg-1''\<rparr>)"

lemma sample_run:
  "idem_reaches sample_config ''k'' sample_store ((\<lambda>_. Arrived)(0 := Finished sample_answer, 1 := Replayed sample_answer))"
proof -
  let ?st = "(\<lambda>_. no_entry)(''k'' := no_entry \<lparr>ie_pending := True\<rparr>)"
  let ?ph = "\<lambda>x y. (\<lambda>_. Arrived)(0 := x, 1 := y)"
  let ?step = "idem_step sample_config ''k''"
  have c: "claim sample_config ''k'' (\<lambda>_. no_entry) = (Owned, ?st)" "claim sample_config ''k'' ?st = (Duplicate, ?st)"
    by (simp_all add: claim_def enabled_def sample_config_def no_entry_def)
  have w: "write_status ''k'' sample_answer (write_location ''k'' sample_answer ?st) = sample_store"
    by (simp add: write_status_def write_location_def sample_answer_def sample_store_def no_entry_def fun_eq_iff)
  have "?step (\<lambda>_. no_entry, \<lambda>_. Arrived) (?st, ?ph Owning Arrived)"
    using claims [of "\<lambda>_. Arrived" 0, OF _ c(1)] by (simp add: fun_upd_idem)
  moreover have "?step (?st, ?ph Owning Arrived) (?st, ?ph Owning Waiting)"
    using claims [of "?ph Owning Arrived" 1, OF _ c(2)] by simp
  moreover have "?step (?st, ?ph Owning Waiting) (write_location ''k'' sample_answer ?st, ?ph (Storing sample_answer) Waiting)"
    using locates [of "?ph Owning Waiting" 0 sample_config "''k''" ?st sample_answer] by (simp add: fun_upd_twist)
  moreover have "?step (write_location ''k'' sample_answer ?st, ?ph (Storing sample_answer) Waiting)
      (sample_store, ?ph (Finished sample_answer) Waiting)"
    using publishes [of "?ph (Storing sample_answer) Waiting" 0 sample_answer sample_config "''k''"
        "write_location ''k'' sample_answer ?st", unfolded w]
    by (simp add: fun_upd_twist)
  moreover have "?step (sample_store, ?ph (Finished sample_answer) Waiting) (sample_store, ?ph (Finished sample_answer) (Found 201))"
    using polls [of "?ph (Finished sample_answer) Waiting" 1 sample_store "''k''" 201] by (simp add: sample_store_def)
  moreover have "?step (sample_store, ?ph (Finished sample_answer) (Found 201))
      (sample_store, ?ph (Finished sample_answer) (Replayed sample_answer))"
    using fetches [of "?ph (Finished sample_answer) (Found 201)" 1 201 sample_config "''k''" sample_store]
    by (simp add: sample_store_def found_response_def sample_answer_def)
  ultimately show ?thesis
    unfolding idem_reaches_def by (meson rtranclp.rtrancl_refl rtranclp.rtrancl_into_rtrancl)
qed


theorem retransmission_replays_witness:
  "handle_idempotent sample_config (Some ''k'') (\<lambda>_. sample_store) (\<lambda>n. (Suc n, Answered \<lparr>hr_status = 201, hr_location = ''/chg-1'', hr_body = Some True\<rparr>))
     (1, sample_store) = Some ((1, sample_store), \<lparr>hr_status = 201, hr_location = ''/chg-1'', hr_body = None\<rparr>)"
proof -
  let ?process = "\<lambda>n. (Suc n, Answered \<lparr>hr_status = 201, hr_location = ''/chg-1'', hr_body = Some True\<rparr>)"
  have "handle_idempotent sample_config (Some ''k'') (\<lambda>_ _. no_entry) ?process (0, \<lambda>_. no_entry) =
      Some ((1, sample_store), \<lparr>hr_status = 201, hr_location = ''/chg-1'', hr_body = Some True\<rparr>)"
    by (simp add: handle_idempotent_def claim_def enabled_def sample_config_def no_entry_def remember_def
        write_status_def write_location_def sample_store_def fun_eq_iff)
  from retransmission_replays [OF _ _ _ _ _ this] show ?thesis
    by (simp add: enabled_def sample_config_def)
qed

end
