(* ===== verification/Slice_Admission.thy ===== *)
theory Slice_Admission
  imports Decimal_Text Bss_Types "HOL-Library.FSet"
begin

text \<open>
  Network slice admission control (\<open>nfs/nsacf/src/stores.cpp\<close> and the handlers of its
  \<open>main.cpp\<close>): the users and sessions registered on a slice against its maxima, the
  subscriptions that are told when a threshold is reached, and the early-admission mode. The
  subscriptions are listed in the order the map happens to keep them.
\<close>

section \<open>Slices\<close>

definition to_string_int :: "int \<Rightarrow> string" where
  "to_string_int n = (if n < 0 then CHR ''-'' # to_string_nat (nat (- n)) else to_string_nat (nat n))"

definition slice_key :: "int \<Rightarrow> string option \<Rightarrow> string" where
  "slice_key sst sd =
     (case sd of Some d \<Rightarrow> if d \<noteq> [] then to_string_int sst @ ''-'' @ d else to_string_int sst
      | None \<Rightarrow> to_string_int sst)"

record slice =
  max_ues :: int
  max_pdus :: int
  ues :: "string fset"
  pdus :: "(string \<times> int) fset"

definition empty_slice :: slice where
  "empty_slice = \<lparr>max_ues = 0, max_pdus = 0, ues = {||}, pdus = {||}\<rparr>"

type_synonym slices = "string \<Rightarrow> slice option"

record admission_result =
  slice_known :: bool
  admitted :: bool
  current :: int
  maximum :: int

definition unknown_slice :: admission_result where
  "unknown_slice = \<lparr>slice_known = False, admitted = False, current = 0, maximum = 0\<rparr>"

definition configure :: "string \<Rightarrow> int \<Rightarrow> int \<Rightarrow> slices \<Rightarrow> slices" where
  "configure key n_ues n_pdus st =
     st(key := Some ((value_or empty_slice (st key)) \<lparr>max_ues := n_ues, max_pdus := n_pdus\<rparr>))"

definition quotas :: "slices \<Rightarrow> string \<Rightarrow> (int \<times> int) option" where
  "quotas st key = map_option (\<lambda>s. (max_ues s, max_pdus s)) (st key)"

text \<open>The handler of \<open>POST /slices/local-configs/update\<close>, once the body is parsed.\<close>

definition local_number_update :: "int \<Rightarrow> string option \<Rightarrow> int option \<Rightarrow> int option \<Rightarrow> slices \<Rightarrow> slices" where
  "local_number_update sst sd n_ues n_pdus st =
     (let key = slice_key sst sd; existing = value_or (0, 0) (quotas st key)
      in configure key (value_or (fst existing) n_ues) (value_or (snd existing) n_pdus) st)"

definition admit_ue :: "string \<Rightarrow> string \<Rightarrow> slices \<Rightarrow> slices \<times> admission_result" where
  "admit_ue key supi st =
     (case st key of
        None \<Rightarrow> (st, unknown_slice)
      | Some s \<Rightarrow>
          let result = (\<lambda>ok n. \<lparr>slice_known = True, admitted = ok, current = int n, maximum = max_ues s\<rparr>) in
          if supi |\<in>| ues s then (st, result True (fcard (ues s)))
          else if int (fcard (ues s)) \<ge> max_ues s then (st, result False (fcard (ues s)))
          else (let s' = s \<lparr>ues := finsert supi (ues s)\<rparr>
                in (st(key := Some s'), result True (fcard (ues s')))))"

definition release_ue :: "string \<Rightarrow> string \<Rightarrow> slices \<Rightarrow> slices" where
  "release_ue key supi st =
     (case st key of None \<Rightarrow> st | Some s \<Rightarrow> st(key := Some (s \<lparr>ues := ues s |-| {|supi|}\<rparr>)))"

definition admit_pdu :: "string \<Rightarrow> string \<Rightarrow> int \<Rightarrow> slices \<Rightarrow> slices \<times> admission_result" where
  "admit_pdu key supi session st =
     (case st key of
        None \<Rightarrow> (st, unknown_slice)
      | Some s \<Rightarrow>
          let result = (\<lambda>ok n. \<lparr>slice_known = True, admitted = ok, current = int n, maximum = max_pdus s\<rparr>) in
          if (supi, session) |\<in>| pdus s then (st, result True (fcard (pdus s)))
          else if int (fcard (pdus s)) \<ge> max_pdus s then (st, result False (fcard (pdus s)))
          else (let s' = s \<lparr>pdus := finsert (supi, session) (pdus s)\<rparr>
                in (st(key := Some s'), result True (fcard (pdus s')))))"

definition release_pdu :: "string \<Rightarrow> string \<Rightarrow> int \<Rightarrow> slices \<Rightarrow> slices" where
  "release_pdu key supi session st =
     (case st key of None \<Rightarrow> st | Some s \<Rightarrow> st(key := Some (s \<lparr>pdus := pdus s |-| {|(supi, session)|}\<rparr>)))"

definition ue_count :: "slices \<Rightarrow> string \<Rightarrow> int" where
  "ue_count st key = (case st key of None \<Rightarrow> 0 | Some s \<Rightarrow> int (fcard (ues s)))"

definition pdu_count :: "slices \<Rightarrow> string \<Rightarrow> int" where
  "pdu_count st key = (case st key of None \<Rightarrow> 0 | Some s \<Rightarrow> int (fcard (pdus s)))"

section \<open>Requests\<close>

text \<open>The enumerations of the interface are open: any other text is accepted.\<close>

datatype acu_flag = INCREASE | DECREASE | UPDATE | OTHER_FLAG string
datatype acu_failure = SLICE_NOT_FOUND | EXCEED_MAX_UE_NUM | EXCEED_MAX_PDU_NUM

record acu_operation =
  op_sst :: int
  op_sd :: "string option"
  op_flag :: acu_flag

definition op_key :: "acu_operation \<Rightarrow> string" where
  "op_key x = slice_key (op_sst x) (op_sd x)"

definition ue_operation :: "string \<Rightarrow> acu_operation \<Rightarrow> slices \<times> (acu_operation \<times> acu_failure) list \<Rightarrow>
    slices \<times> (acu_operation \<times> acu_failure) list" where
  "ue_operation supi x sf =
     (let (st, failures) = sf in
      if op_flag x = DECREASE then (release_ue (op_key x) supi st, failures)
      else (let (st', result) = admit_ue (op_key x) supi st in
        if \<not> slice_known result then (st', failures @ [(x, SLICE_NOT_FOUND)])
        else if \<not> admitted result then (st', failures @ [(x, EXCEED_MAX_UE_NUM)])
        else (st', failures)))"

definition pdu_operation :: "string \<Rightarrow> int \<Rightarrow> acu_operation \<Rightarrow> slices \<times> (acu_operation \<times> acu_failure) list \<Rightarrow>
    slices \<times> (acu_operation \<times> acu_failure) list" where
  "pdu_operation supi session x sf =
     (let (st, failures) = sf in
      if op_flag x = DECREASE then (release_pdu (op_key x) supi session st, failures)
      else (let (st', result) = admit_pdu (op_key x) supi session st in
        if \<not> slice_known result then (st', failures @ [(x, SLICE_NOT_FOUND)])
        else if \<not> admitted result then (st', failures @ [(x, EXCEED_MAX_PDU_NUM)])
        else (st', failures)))"

definition update_ues :: "(string \<times> acu_operation list) list \<Rightarrow> slices \<Rightarrow> slices \<times> (acu_operation \<times> acu_failure) list" where
  "update_ues infos st = fold (\<lambda>(supi, xs). fold (ue_operation supi) xs) infos (st, [])"

definition update_pdus ::
  "(string \<times> int \<times> acu_operation list) list \<Rightarrow> slices \<Rightarrow> slices \<times> (acu_operation \<times> acu_failure) list" where
  "update_pdus infos st = fold (\<lambda>(supi, session, xs). fold (pdu_operation supi session) xs) infos (st, [])"

section \<open>Reports\<close>

datatype sac_event = NUM_OF_REGD_UES | NUM_OF_ESTD_PDU_SESSIONS | OTHER_EVENT string
datatype sac_trigger = THRESHOLD | PERIODIC | OTHER_TRIGGER string

record sac_subscription =
  sac_id :: string
  sac_event_type :: sac_event
  sac_event_trigger :: sac_trigger
  sac_slices :: "(int \<times> string option) list"
  sac_threshold_absolute :: "int option"
  sac_threshold_percent :: "int option"
  sac_remain_reports :: "int option"
  sac_active :: bool

record sac_store =
  sac_next_id :: nat
  sac_subscriptions :: "sac_subscription list"

text \<open>The request as parsed, and the entry made from it.\<close>

record sac_info =
  num_ues :: "int option"
  num_pdu_sess :: "int option"
  perc_ues :: "int option"
  perc_pdu_sess :: "int option"

record sac_request =
  rq_event_type :: sac_event
  rq_event_trigger :: "sac_trigger option"
  rq_event_filter :: "(int \<times> string option) list"
  rq_notif_threshold :: "sac_info option"
  rq_max_reports :: "int option"

definition to_record :: "sac_request \<Rightarrow> sac_subscription" where
  "to_record rq =
     (let is_ue = (rq_event_type rq = NUM_OF_REGD_UES) in
      \<lparr>sac_id = [], sac_event_type = rq_event_type rq,
       sac_event_trigger = value_or THRESHOLD (rq_event_trigger rq), sac_slices = rq_event_filter rq,
       sac_threshold_absolute =
         Option.bind (rq_notif_threshold rq) (if is_ue then num_ues else num_pdu_sess),
       sac_threshold_percent =
         Option.bind (rq_notif_threshold rq) (if is_ue then perc_ues else perc_pdu_sess),
       sac_remain_reports = rq_max_reports rq, sac_active = True\<rparr>)"

definition create_sac :: "sac_subscription \<Rightarrow> sac_store \<Rightarrow> string \<times> sac_store" where
  "create_sac r s =
     (let i = ''sac-sub-'' @ to_string_nat (sac_next_id s)
      in (i, \<lparr>sac_next_id = Suc (sac_next_id s),
              sac_subscriptions = filter (\<lambda>x. sac_id x \<noteq> i) (sac_subscriptions s) @ [r \<lparr>sac_id := i\<rparr>]\<rparr>))"

definition replace_sac :: "string \<Rightarrow> sac_subscription \<Rightarrow> sac_store \<Rightarrow> bool \<times> sac_store" where
  "replace_sac i r s =
     (list_ex (\<lambda>x. sac_id x = i) (sac_subscriptions s),
      s \<lparr>sac_subscriptions := map (\<lambda>x. if sac_id x = i then r \<lparr>sac_id := i\<rparr> else x) (sac_subscriptions s)\<rparr>)"

definition remove_sac :: "string \<Rightarrow> sac_store \<Rightarrow> bool \<times> sac_store" where
  "remove_sac i s =
     (list_ex (\<lambda>x. sac_id x = i) (sac_subscriptions s),
      s \<lparr>sac_subscriptions := filter (\<lambda>x. sac_id x \<noteq> i) (sac_subscriptions s)\<rparr>)"

definition active_snapshot :: "sac_subscription list \<Rightarrow> sac_subscription list" where
  "active_snapshot subs = filter sac_active subs"

definition count_report :: "sac_subscription \<Rightarrow> sac_subscription" where
  "count_report x =
     (case sac_remain_reports x of
        None \<Rightarrow> x
      | Some n \<Rightarrow>
          (let n' = (if n > 0 then n - 1 else n)
           in x \<lparr>sac_remain_reports := Some n', sac_active := sac_active x \<and> n' \<noteq> 0\<rparr>))"

text \<open>\<open>record_report_sent\<close>, on the entry with the identifier. A report is its subscription and
  the number it tells.\<close>

definition deliver_report :: "string \<Rightarrow> int \<Rightarrow> sac_subscription list \<times> (string \<times> int) list \<Rightarrow>
    sac_subscription list \<times> (string \<times> int) list" where
  "deliver_report i n sr =
     (map (\<lambda>x. if sac_id x = i then count_report x else x) (fst sr), snd sr @ [(i, n)])"

definition threshold_reached :: "sac_subscription \<Rightarrow> int \<Rightarrow> int \<Rightarrow> bool" where
  "threshold_reached sub cur mx =
     (if (case sac_threshold_absolute sub of Some a \<Rightarrow> cur \<ge> a | None \<Rightarrow> False) then True
      else (case sac_threshold_percent sub of Some p \<Rightarrow> mx > 0 \<and> (cur * 100) div mx \<ge> p | None \<Rightarrow> False))"

definition report_threshold_events ::
  "slices \<Rightarrow> sac_event \<Rightarrow> int \<Rightarrow> string option \<Rightarrow> sac_subscription list \<times> (string \<times> int) list \<Rightarrow>
   sac_subscription list \<times> (string \<times> int) list" where
  "report_threshold_events st event sst sd sr =
     (let key = slice_key sst sd in
      case quotas st key of
        None \<Rightarrow> sr
      | Some (mu, mp) \<Rightarrow>
          (let cur = (if event = NUM_OF_REGD_UES then ue_count st key else pdu_count st key);
               mx = (if event = NUM_OF_REGD_UES then mu else mp)
           in fold (\<lambda>sub acc.
                if sac_event_type sub = event \<and> sac_event_trigger sub = THRESHOLD \<and>
                   list_ex (\<lambda>(t, d). slice_key t d = key) (sac_slices sub) \<and> threshold_reached sub cur mx
                then deliver_report (sac_id sub) cur acc else acc)
              (active_snapshot (fst sr)) sr))"

text \<open>One due round of a periodic subscription: every slice it watches, whatever reports remain.\<close>

definition report_periodic ::
  "slices \<Rightarrow> sac_subscription \<Rightarrow> sac_subscription list \<times> (string \<times> int) list \<Rightarrow>
   sac_subscription list \<times> (string \<times> int) list" where
  "report_periodic st sub sr =
     fold (\<lambda>(sst, sd). deliver_report (sac_id sub)
        (if sac_event_type sub = NUM_OF_REGD_UES then ue_count st (slice_key sst sd) else pdu_count st (slice_key sst sd)))
       (sac_slices sub) sr"

section \<open>Early admission control\<close>

record eac_store =
  eac_active :: "string \<Rightarrow> bool option"
  eac_uri :: "string option"

definition set_active :: "string \<Rightarrow> bool \<Rightarrow> eac_store \<Rightarrow> bool option \<times> eac_store" where
  "set_active key active s =
     (let previous = (eac_active s key = Some True) in
      if eac_active s key \<noteq> None \<and> previous = active then (None, s)
      else if eac_active s key = None \<and> \<not> active then (None, s \<lparr>eac_active := (eac_active s)(key := Some False)\<rparr>)
      else (Some active, s \<lparr>eac_active := (eac_active s)(key := Some active)\<rparr>))"

text \<open>The notification to send, if any: where, which slice, which mode.\<close>

definition evaluate_eac_mode ::
  "slices \<Rightarrow> int \<Rightarrow> string option \<Rightarrow> int \<Rightarrow> eac_store \<Rightarrow> (string \<times> string \<times> bool) option \<times> eac_store" where
  "evaluate_eac_mode st sst sd activation_percent s =
     (let key = slice_key sst sd in
      case quotas st key of
        None \<Rightarrow> (None, s)
      | Some (mu, _) \<Rightarrow>
          if mu \<le> 0 then (None, s)
          else (let (changed, s') = set_active key ((ue_count st key * 100) div mu \<ge> activation_percent) s
                in ((case (changed, eac_uri s') of (Some m, Some uri) \<Rightarrow> Some (uri, key, m) | _ \<Rightarrow> None), s')))"

section \<open>Handlers\<close>

record nsacf =
  n_slices :: slices
  n_subs :: "sac_subscription list"
  n_sent :: "(string \<times> int) list"
  n_eac :: eac_store

datatype acu_request =
    Post_ues "(string \<times> acu_operation list) list" "string option"
  | Post_pdus "(string \<times> int \<times> acu_operation list) list"

definition report_operations :: "slices \<Rightarrow> sac_event \<Rightarrow> acu_operation list \<Rightarrow>
    sac_subscription list \<times> (string \<times> int) list \<Rightarrow> sac_subscription list \<times> (string \<times> int) list" where
  "report_operations st event xs sr = fold (\<lambda>x. report_threshold_events st event (op_sst x) (op_sd x)) xs sr"

text \<open>The handlers of \<open>POST /slices/ues\<close> and \<open>POST /slices/pdus\<close>: the operations of the whole
  request first, then reports (and mode) operation by operation. The reports of the loop and its mode
  changes touch different stores, so the two can be run one after the other.\<close>

definition post_slices_ues ::
  "int \<Rightarrow> (string \<times> acu_operation list) list \<Rightarrow> string option \<Rightarrow> nsacf \<Rightarrow> nsacf \<times> (acu_operation \<times> acu_failure) list" where
  "post_slices_ues activation_percent infos uri n =
     (let (st, failures) = update_ues infos (n_slices n);
          eac = (case uri of Some u \<Rightarrow> n_eac n \<lparr>eac_uri := Some u\<rparr> | None \<Rightarrow> n_eac n);
          xs = concat (map snd infos);
          (subs, sent) = report_operations st NUM_OF_REGD_UES xs (n_subs n, n_sent n)
      in (\<lparr>n_slices = st, n_subs = subs, n_sent = sent,
           n_eac = fold (\<lambda>x e. snd (evaluate_eac_mode st (op_sst x) (op_sd x) activation_percent e)) xs eac\<rparr>,
          failures))"

definition post_slices_pdus ::
  "(string \<times> int \<times> acu_operation list) list \<Rightarrow> nsacf \<Rightarrow> nsacf \<times> (acu_operation \<times> acu_failure) list" where
  "post_slices_pdus infos n =
     (let (st, failures) = update_pdus infos (n_slices n);
          (subs, sent) = report_operations st NUM_OF_ESTD_PDU_SESSIONS (concat (map (snd \<circ> snd) infos)) (n_subs n, n_sent n)
      in (n \<lparr>n_slices := st, n_subs := subs, n_sent := sent\<rparr>, failures))"

fun serve_acu :: "int \<Rightarrow> acu_request \<Rightarrow> nsacf \<Rightarrow> nsacf" where
  "serve_acu activation_percent (Post_ues infos uri) n = fst (post_slices_ues activation_percent infos uri n)"
| "serve_acu activation_percent (Post_pdus infos) n = fst (post_slices_pdus infos n)"

section \<open>Counts and maxima\<close>

text \<open>The maxima bound the registrations, relative to counts \<open>a\<close> and \<open>b\<close> there were at the start: a
  maximum lowered below them stops further admissions and removes nobody.\<close>

definition slice_fits :: "int \<Rightarrow> int \<Rightarrow> slice \<Rightarrow> bool" where
  "slice_fits a b s \<longleftrightarrow> int (fcard (ues s)) \<le> max a (max_ues s) \<and> int (fcard (pdus s)) \<le> max b (max_pdus s)"

definition not_overfull :: "(string \<Rightarrow> int) \<Rightarrow> (string \<Rightarrow> int) \<Rightarrow> slices \<Rightarrow> bool" where
  "not_overfull a b st \<longleftrightarrow> (\<forall>key s. st key = Some s \<longrightarrow> slice_fits (a key) (b key) s)"

lemma fcard_finsert_new: "x |\<notin>| A \<Longrightarrow> fcard (finsert x A) = Suc (fcard A)"
  by (simp add: fcard_finsert_disjoint)

lemma fcard_remove_le: "fcard (A |-| {|x|}) \<le> fcard A"
  by (rule fcard_mono) auto

lemma not_overfullD: "not_overfull a b st \<Longrightarrow> st key = Some s \<Longrightarrow> slice_fits (a key) (b key) s"
  by (auto simp: not_overfull_def)

lemma not_overfull_upd:
  "not_overfull a b st \<Longrightarrow> slice_fits (a key) (b key) s \<Longrightarrow> not_overfull a b (st(key := Some s))"
  by (auto simp: not_overfull_def)

lemma slice_fits_add_ue: "slice_fits a b s \<Longrightarrow> int (fcard (ues s)) < max_ues s \<Longrightarrow> x |\<notin>| ues s \<Longrightarrow>
    slice_fits a b (s \<lparr>ues := finsert x (ues s)\<rparr>)"
  by (simp add: slice_fits_def fcard_finsert_new)

lemma slice_fits_add_pdu: "slice_fits a b s \<Longrightarrow> int (fcard (pdus s)) < max_pdus s \<Longrightarrow> x |\<notin>| pdus s \<Longrightarrow>
    slice_fits a b (s \<lparr>pdus := finsert x (pdus s)\<rparr>)"
  by (simp add: slice_fits_def fcard_finsert_new)

lemma slice_fits_remove_ue: "slice_fits a b s \<Longrightarrow> slice_fits a b (s \<lparr>ues := ues s |-| {|x|}\<rparr>)"
  using fcard_remove_le [of "ues s" x] by (simp add: slice_fits_def)

lemma slice_fits_remove_pdu: "slice_fits a b s \<Longrightarrow> slice_fits a b (s \<lparr>pdus := pdus s |-| {|x|}\<rparr>)"
  using fcard_remove_le [of "pdus s" x] by (simp add: slice_fits_def)

lemma admission_fits:
  assumes "not_overfull a b st"
  shows "not_overfull a b (fst (admit_ue key supi st))" "not_overfull a b (fst (admit_pdu key supi session st))"
    "not_overfull a b (release_ue key supi st)" "not_overfull a b (release_pdu key supi session st)"
  using assms
  by (auto simp: admit_ue_def admit_pdu_def release_ue_def release_pdu_def Let_def not_overfullD
      intro!: not_overfull_upd slice_fits_add_ue slice_fits_add_pdu slice_fits_remove_ue slice_fits_remove_pdu
      split: option.split)

lemma ue_operation_fits: "not_overfull a b (fst sf) \<Longrightarrow> not_overfull a b (fst (ue_operation supi x sf))"
  using admission_fits(1) [of a b "fst sf" "op_key x" supi]
  by (auto simp: ue_operation_def admission_fits(3) split: prod.splits)

lemma pdu_operation_fits: "not_overfull a b (fst sf) \<Longrightarrow> not_overfull a b (fst (pdu_operation supi session x sf))"
  using admission_fits(2) [of a b "fst sf" "op_key x" supi session]
  by (auto simp: pdu_operation_def admission_fits(4) split: prod.splits)

lemma fold_invariant_fst:
  assumes "\<And>x sf. P (fst sf) \<Longrightarrow> P (fst (f x sf))" "P (fst sf)"
  shows "P (fst (fold f xs sf))"
  using assms(2) by (induction xs arbitrary: sf) (simp_all add: assms(1))

lemma admit_quotas [simp]: "quotas (fst (admit_ue key supi st)) = quotas st"
    "quotas (fst (admit_pdu key supi session st)) = quotas st"
    "quotas (release_ue key supi st) = quotas st" "quotas (release_pdu key supi session st) = quotas st"
  by (auto simp: quotas_def fun_eq_iff admit_ue_def admit_pdu_def release_ue_def release_pdu_def Let_def
      split: option.split)

lemma operation_quotas: "quotas (fst (ue_operation supi x sf)) = quotas (fst sf)"
    "quotas (fst (pdu_operation supi session x sf)) = quotas (fst sf)"
  using admit_quotas(1) [of "op_key x" supi "fst sf"] admit_quotas(2) [of "op_key x" supi session "fst sf"]
  by (auto simp: ue_operation_def pdu_operation_def split: prod.splits simp del: admit_quotas(1,2))

text \<open>What every step of a request keeps, the whole request keeps.\<close>

lemma update_ues_keeps:
  assumes "\<And>supi x sf. P (fst sf) \<Longrightarrow> P (fst (ue_operation supi x sf))" "P st"
  shows "P (fst (update_ues infos st))"
proof -
  have "P (fst (case i of (supi, xs) \<Rightarrow> fold (ue_operation supi) xs sf))" if "P (fst sf)" for i and sf
    using that by (cases i) (simp add: fold_invariant_fst [where P = P] assms(1))
  then show ?thesis
    unfolding update_ues_def by (intro fold_invariant_fst [where P = P]) (simp_all add: assms(2) case_prod_beta)
qed

lemma update_pdus_keeps:
  assumes "\<And>supi session x sf. P (fst sf) \<Longrightarrow> P (fst (pdu_operation supi session x sf))" "P st"
  shows "P (fst (update_pdus infos st))"
proof -
  have "P (fst (case i of (supi, session, xs) \<Rightarrow> fold (pdu_operation supi session) xs sf))"
    if "P (fst sf)" for i and sf
    using that by (cases i) (simp add: fold_invariant_fst [where P = P] assms(1))
  then show ?thesis
    unfolding update_pdus_def by (intro fold_invariant_fst [where P = P]) (simp_all add: assms(2) case_prod_beta)
qed

lemma serve_slices:
  "n_slices (serve_acu p (Post_ues infos uri) n) = fst (update_ues infos (n_slices n))"
  "n_slices (serve_acu p (Post_pdus pinfos) n) = fst (update_pdus pinfos (n_slices n))"
  by (simp_all add: post_slices_ues_def post_slices_pdus_def Let_def split: prod.split)

lemma acu_steps_fit: "not_overfull a b (n_slices n) \<Longrightarrow> not_overfull a b (n_slices (fold (serve_acu p) rs n))"
proof (induction rs arbitrary: n)
  case (Cons r rs)
  then show ?case
    by (cases r) (simp_all add: serve_slices update_ues_keeps [where P = "not_overfull a b"] ue_operation_fits
        update_pdus_keeps [where P = "not_overfull a b"] pdu_operation_fits del: serve_acu.simps)
qed simp

lemma acu_step_quotas: "quotas (n_slices (serve_acu p r n)) = quotas (n_slices n)"
  by (cases r) (simp_all add: serve_slices update_ues_keeps [where P = "\<lambda>t. quotas t = quotas (n_slices n)"]
        update_pdus_keeps [where P = "\<lambda>t. quotas t = quotas (n_slices n)"] operation_quotas del: serve_acu.simps)

lemma acu_steps_quotas: "quotas (n_slices (fold (serve_acu p) rs n)) = quotas (n_slices n)"
  by (induction rs arbitrary: n) (simp_all add: acu_step_quotas)

lemma not_overfull_counts:
  assumes "not_overfull a b st"
  shows "ue_count st key \<le> (case quotas st key of Some (u, p) \<Rightarrow> max (a key) u | None \<Rightarrow> 0)"
    "pdu_count st key \<le> (case quotas st key of Some (u, p) \<Rightarrow> max (b key) p | None \<Rightarrow> 0)"
  using not_overfullD [OF assms, of key]
  by (auto simp: ue_count_def pdu_count_def quotas_def slice_fits_def split: option.split)

lemma not_overfull_self: "not_overfull (ue_count st) (pdu_count st) st"
  by (simp add: not_overfull_def slice_fits_def ue_count_def pdu_count_def)

text \<open>Property C16: a slice is never overfull. Whatever UE and PDU requests are answered, the users
  and the sessions registered on a slice stay within its maxima, or, where an operator has lowered a
  maximum below what was already registered, do not grow.\<close>

theorem slices_never_overfull:
  "ue_count (n_slices (fold (serve_acu p) rs n)) key \<le>
     (case quotas (n_slices n) key of Some (u, v) \<Rightarrow> max (ue_count (n_slices n) key) u | None \<Rightarrow> 0) \<and>
   pdu_count (n_slices (fold (serve_acu p) rs n)) key \<le>
     (case quotas (n_slices n) key of Some (u, v) \<Rightarrow> max (pdu_count (n_slices n) key) v | None \<Rightarrow> 0)"
  using not_overfull_counts [OF acu_steps_fit [OF not_overfull_self], of p rs n key]
  by (simp add: acu_steps_quotas)

section \<open>Reports against their maximum\<close>

definition reports_to :: "string \<Rightarrow> (string \<times> int) list \<Rightarrow> int" where
  "reports_to i sent = int (length (filter (\<lambda>(j, _). j = i) sent))"

lemma reports_to_simps [simp]: "reports_to i [] = 0"
    "reports_to i ((j, n) # xs) = (if j = i then 1 else 0) + reports_to i xs"
    "reports_to i (xs @ ys) = reports_to i xs + reports_to i ys"
  by (simp_all add: reports_to_def)

text \<open>The reports of one call in closed form: every matching subscription of the snapshot, once.\<close>

lemma count_report_id [simp]: "sac_id (count_report x) = sac_id x"
  by (simp add: count_report_def Let_def split: option.split)

lemma deliver_fold:
  assumes "distinct (map sac_id xs)"
  shows "fold (\<lambda>sub acc. if C sub then deliver_report (sac_id sub) cur acc else acc) xs (subs, out) =
     (map (\<lambda>x. if sac_id x \<in> sac_id ` {y \<in> set xs. C y} then count_report x else x) subs,
      out @ map (\<lambda>x. (sac_id x, cur)) (filter C xs))"
  using assms
proof (induction xs arbitrary: subs out)
  case (Cons z xs)
  have "sac_id y \<noteq> sac_id z" if "y \<in> set xs" for y
    using Cons.prems that by (metis distinct.simps(2) image_eqI list.set_map list.simps(9))
  then show ?case
    using Cons by (auto simp: deliver_report_def image_iff)
qed simp

lemma report_threshold_shape:
  assumes "distinct (map sac_id subs)"
  obtains C cur where "report_threshold_events st event sst sd (subs, out) =
     (map (\<lambda>x. if sac_active x \<and> C x then count_report x else x) subs,
      out @ map (\<lambda>x. (sac_id x, cur)) (filter (\<lambda>x. sac_active x \<and> C x) subs))"
proof (cases "quotas st (slice_key sst sd)")
  case None
  then show ?thesis
    by (intro that [of "\<lambda>_. False"]) (simp add: report_threshold_events_def)
next
  case (Some q)
  define cur where "cur = (if event = NUM_OF_REGD_UES then ue_count st (slice_key sst sd) else pdu_count st (slice_key sst sd))"
  define mx where "mx = (if event = NUM_OF_REGD_UES then fst q else snd q)"
  define C where "C x \<longleftrightarrow> sac_event_type x = event \<and> sac_event_trigger x = THRESHOLD \<and>
     list_ex (\<lambda>(t, d). slice_key t d = slice_key sst sd) (sac_slices x) \<and> threshold_reached x cur mx" for x
  have eq: "report_threshold_events st event sst sd (subs, out) =
      fold (\<lambda>sub acc. if C sub then deliver_report (sac_id sub) cur acc else acc) (filter sac_active subs) (subs, out)"
    using Some unfolding report_threshold_events_def C_def cur_def mx_def active_snapshot_def Let_def
    by (simp add: case_prod_beta)
  have member: "sac_id x \<in> sac_id ` {y \<in> set (filter sac_active subs). C y} \<longleftrightarrow> sac_active x \<and> C x"
    if "x \<in> set subs" for x
    using that assms by (auto simp: distinct_map inj_on_def)
  have "map (\<lambda>x. if sac_id x \<in> sac_id ` {y \<in> set (filter sac_active subs). C y} then count_report x else x) subs =
      map (\<lambda>x. if sac_active x \<and> C x then count_report x else x) subs"
    by (intro map_cong refl) (simp only: member)
  then show ?thesis
    by (intro that [of C cur]) (simp only: eq deliver_fold [OF distinct_map_filter [OF assms]], simp add: conj_commute)
qed

text \<open>The reports still due to \<open>i\<close>: those sent and those remaining never pass \<open>cap\<close>, and a
  subscription that has none remaining has been silent or is no longer active.\<close>

definition reports_due :: "string \<Rightarrow> int \<Rightarrow> sac_subscription list \<times> (string \<times> int) list \<Rightarrow> bool" where
  "reports_due i cap sr \<longleftrightarrow>
     distinct (map sac_id (fst sr)) \<and> reports_to i (snd sr) \<le> cap \<and>
     (\<forall>x \<in> set (fst sr). sac_id x = i \<longrightarrow>
        (\<exists>m. sac_remain_reports x = Some m \<and> 0 \<le> m \<and> reports_to i (snd sr) + m \<le> cap \<and>
           (m = 0 \<longrightarrow> sac_active x \<longrightarrow> reports_to i (snd sr) < cap)))"

lemma reports_of_snapshot:
  assumes "distinct (map sac_id subs)"
  shows "reports_to i (map (\<lambda>x. (sac_id x, cur)) (filter P subs)) =
    (if \<exists>x \<in> set subs. sac_id x = i \<and> P x then 1 else 0)"
  using assms
proof (induction subs)
  case (Cons z subs)
  have "sac_id y \<noteq> sac_id z" if "y \<in> set subs" for y
    using Cons.prems that by (metis distinct.simps(2) image_eqI list.set_map list.simps(9))
  then show ?case
    using Cons by auto
qed simp

lemma report_threshold_due:
  assumes "reports_due i cap (subs, sent)"
  shows "reports_due i cap (report_threshold_events st event sst sd (subs, sent))"
proof -
  have dist: "distinct (map sac_id subs)"
    using assms by (simp add: reports_due_def)
  obtain C cur where sr: "report_threshold_events st event sst sd (subs, sent) =
     (map (\<lambda>x. if sac_active x \<and> C x then count_report x else x) subs,
      sent @ map (\<lambda>x. (sac_id x, cur)) (filter (\<lambda>x. sac_active x \<and> C x) subs))"
    using report_threshold_shape [OF dist] .
  have ids: "map (sac_id \<circ> (\<lambda>x. if sac_active x \<and> C x then count_report x else x)) subs = map sac_id subs"
    by (rule map_cong) simp_all
  have new: "reports_to i (map (\<lambda>x. (sac_id x, cur)) (filter (\<lambda>x. sac_active x \<and> C x) subs)) =
      (if \<exists>x \<in> set subs. sac_id x = i \<and> sac_active x \<and> C x then 1 else 0)"
    using reports_of_snapshot [OF dist] by (simp add: conj_assoc)
  show ?thesis
    unfolding reports_due_def sr fst_conv snd_conv map_map ids reports_to_simps new
  proof (intro conjI ballI impI)
    show "distinct (map sac_id subs)" by (rule dist)
  next
    show "reports_to i sent + (if \<exists>x \<in> set subs. sac_id x = i \<and> sac_active x \<and> C x then 1 else 0) \<le> cap"
      using assms by (fastforce simp: reports_due_def)
  next
    fix x
    assume "x \<in> set (map (\<lambda>x. if sac_active x \<and> C x then count_report x else x) subs)" and i: "sac_id x = i"
    then obtain y where y: "y \<in> set subs" "x = (if sac_active y \<and> C y then count_report y else y)"
      by auto
    have yi: "sac_id y = i"
      using i y by (simp split: if_splits)
    have only: "(\<exists>x \<in> set subs. sac_id x = i \<and> sac_active x \<and> C x) \<longleftrightarrow> sac_active y \<and> C y"
      using dist y(1) yi by (auto simp: distinct_map dest: inj_onD)
    from assms y(1) yi obtain m where "sac_remain_reports y = Some m" "0 \<le> m" "reports_to i sent + m \<le> cap"
        "m = 0 \<longrightarrow> sac_active y \<longrightarrow> reports_to i sent < cap"
      by (auto simp: reports_due_def)
    then show "\<exists>m. sac_remain_reports x = Some m \<and> 0 \<le> m \<and>
        reports_to i sent + (if \<exists>x \<in> set subs. sac_id x = i \<and> sac_active x \<and> C x then 1 else 0) + m \<le> cap \<and>
        (m = 0 \<longrightarrow> sac_active x \<longrightarrow>
           reports_to i sent + (if \<exists>x \<in> set subs. sac_id x = i \<and> sac_active x \<and> C x then 1 else 0) < cap)"
      unfolding only y(2) by (auto simp: count_report_def Let_def)
  qed
qed

lemma report_operations_due: "reports_due i cap sr \<Longrightarrow> reports_due i cap (report_operations st event xs sr)"
proof (induction xs arbitrary: sr)
  case (Cons x xs)
  then show ?case
    using report_threshold_due [of i cap "fst sr" "snd sr"] by (simp add: report_operations_def)
qed (simp add: report_operations_def)

lemma serve_reports: "\<exists>st event xs.
    (n_subs (serve_acu p r n), n_sent (serve_acu p r n)) = report_operations st event xs (n_subs n, n_sent n)"
proof (cases r)
  case (Post_ues infos uri)
  then show ?thesis
    by (intro exI [of _ "fst (update_ues infos (n_slices n))"] exI [of _ NUM_OF_REGD_UES]
          exI [of _ "concat (map snd infos)"])
      (simp add: post_slices_ues_def Let_def case_prod_beta)
next
  case (Post_pdus infos)
  then show ?thesis
    by (intro exI [of _ "fst (update_pdus infos (n_slices n))"] exI [of _ NUM_OF_ESTD_PDU_SESSIONS]
          exI [of _ "concat (map (snd \<circ> snd) infos)"])
      (simp add: post_slices_pdus_def Let_def case_prod_beta)
qed

lemma serve_reports_due: "reports_due i cap (n_subs n, n_sent n) \<Longrightarrow>
    reports_due i cap (n_subs (serve_acu p r n), n_sent (serve_acu p r n))"
  using serve_reports [of p r n] by (auto simp: report_operations_due)

lemma serves_reports_due: "reports_due i cap (n_subs n, n_sent n) \<Longrightarrow>
    reports_due i cap (n_subs (fold (serve_acu p) rs n), n_sent (fold (serve_acu p) rs n))"
  by (induction rs arbitrary: n) (simp_all add: serve_reports_due)

text \<open>A subscription is not told more often than it asked. Whatever UE and PDU requests
  are answered, a subscription created with a number of reports receives no more than that many (one,
  where it asked for none at all).\<close>

theorem threshold_reports_bounded:
  assumes "distinct (map sac_id (n_subs n))" "x \<in> set (n_subs n)" "sac_remain_reports x = Some k" "0 \<le> k"
  shows "reports_to (sac_id x) (n_sent (fold (serve_acu p) rs n)) \<le> reports_to (sac_id x) (n_sent n) + max 1 k"
proof -
  have same: "y = x" if "y \<in> set (n_subs n)" "sac_id y = sac_id x" for y
    using assms(1,2) that by (auto simp: distinct_map dest: inj_onD)
  have "reports_due (sac_id x) (reports_to (sac_id x) (n_sent n) + max 1 k) (n_subs n, n_sent n)"
    unfolding reports_due_def using assms by (auto dest!: same)
  then show ?thesis
    using serves_reports_due [of "sac_id x" _ n p rs] by (simp add: reports_due_def)
qed

text \<open>A subscription that wants one report of a slice from its first user on: the second request is silent.\<close>

definition demo_subscription :: sac_subscription where
  "demo_subscription = \<lparr>sac_id = ''sac-sub-1'', sac_event_type = NUM_OF_REGD_UES, sac_event_trigger = THRESHOLD,
     sac_slices = [(1, None)], sac_threshold_absolute = Some 1, sac_threshold_percent = None,
     sac_remain_reports = Some 1, sac_active = True\<rparr>"

definition demo_nsacf :: nsacf where
  "demo_nsacf = \<lparr>n_slices = configure (slice_key 1 None) 4 4 (\<lambda>_. None), n_subs = [demo_subscription],
     n_sent = [], n_eac = \<lparr>eac_active = \<lambda>_. None, eac_uri = None\<rparr>\<rparr>"

definition demo_requests :: "acu_request list" where
  "demo_requests =
     (let x = \<lparr>op_sst = 1, op_sd = None, op_flag = INCREASE\<rparr>
      in [Post_ues [(''a'', [x])] None, Post_ues [(''b'', [x])] None])"

theorem threshold_reports_bounded_witness:
  "reports_to ''sac-sub-1'' (n_sent (fold (serve_acu 80) demo_requests demo_nsacf)) \<le> 1"
  using threshold_reports_bounded [of demo_nsacf demo_subscription 1 80 demo_requests]
  by (simp add: demo_nsacf_def demo_subscription_def)

lemma demo_reports_one:
  "n_sent (fold (serve_acu 80) demo_requests demo_nsacf) = [(''sac-sub-1'', 1)]"
  by code_simp

text \<open>Identifiers stay distinct through the subscription operations, the premise above.\<close>

lemma sac_ids_distinct:
  assumes "distinct (map sac_id (sac_subscriptions s))"
  shows "distinct (map sac_id (sac_subscriptions (snd (create_sac r s))))"
    "distinct (map sac_id (sac_subscriptions (snd (replace_sac i r s))))"
    "distinct (map sac_id (sac_subscriptions (snd (remove_sac i s))))"
proof -
  have ids: "map (sac_id \<circ> (\<lambda>x. if sac_id x = i then r \<lparr>sac_id := i\<rparr> else x)) (sac_subscriptions s) =
      map sac_id (sac_subscriptions s)"
    by (rule map_cong) simp_all
  have "map sac_id (sac_subscriptions (snd (replace_sac i r s))) = map sac_id (sac_subscriptions s)"
    unfolding replace_sac_def using ids by (simp del: map_eq_conv)
  then show "distinct (map sac_id (sac_subscriptions (snd (replace_sac i r s))))"
    using assms by simp
qed (use assms in \<open>auto simp: create_sac_def remove_sac_def Let_def distinct_map_filter\<close>)

text \<open>A periodic round reports every slice watched, whatever number of reports remains.\<close>

lemma periodic_round_ignores_remaining:
  "reports_to (sac_id x) (snd (report_periodic st x sr)) = reports_to (sac_id x) (snd sr) + int (length (sac_slices x))"
proof -
  have "reports_to (sac_id x) (snd (fold (\<lambda>(sst, sd). deliver_report (sac_id x) (f sst sd)) xs sr)) =
      reports_to (sac_id x) (snd sr) + int (length xs)" for f and xs :: "(int \<times> string option) list"
    by (induction xs arbitrary: sr) (auto simp: deliver_report_def)
  then show ?thesis
    by (simp add: report_periodic_def)
qed

section \<open>Early admission mode\<close>

definition mode_due :: "slices \<Rightarrow> int \<Rightarrow> string \<Rightarrow> bool option" where
  "mode_due st activation_percent key =
     (case quotas st key of
        Some (mu, _) \<Rightarrow> if mu \<le> 0 then None else Some ((ue_count st key * 100) div mu \<ge> activation_percent)
      | None \<Rightarrow> None)"

lemma evaluate_eac_mode_active:
  "eac_active (snd (evaluate_eac_mode st sst sd p s)) =
     (case mode_due st p (slice_key sst sd) of
        None \<Rightarrow> eac_active s | Some m \<Rightarrow> (eac_active s)(slice_key sst sd := Some m))"
  by (auto simp: evaluate_eac_mode_def mode_due_def set_active_def Let_def fun_eq_iff split: option.split prod.split)

lemma evaluate_eac_modes_active:
  "eac_active (fold (\<lambda>x e. snd (evaluate_eac_mode st (op_sst x) (op_sd x) p e)) xs s) key =
     (if key \<in> op_key ` set xs \<and> mode_due st p key \<noteq> None then mode_due st p key else eac_active s key)"
  by (induction xs arbitrary: s) (auto simp: evaluate_eac_mode_active op_key_def split: option.split)

text \<open>Early admission follows the load. After a UE request, every slice it named that
  has a positive maximum is in early admission exactly when its registered users reach the
  configured share of the maximum, and every other slice keeps its mode.\<close>

theorem early_admission_follows_load:
  "eac_active (n_eac (fst (post_slices_ues p infos uri n))) key =
     (let st = fst (update_ues infos (n_slices n))
      in if key \<in> op_key ` set (concat (map snd infos)) \<and> mode_due st p key \<noteq> None
         then mode_due st p key else eac_active (n_eac n) key)"
  by (cases uri) (auto simp: post_slices_ues_def Let_def case_prod_beta evaluate_eac_modes_active)

end
