(* ===== verification/Regex_Match.thy ===== *)
theory Regex_Match
  imports Decimal_Text
begin

text \<open>
  \<open>std::regex_match\<close> for the fixed patterns the registry checks texts with. A pattern is a value
  of \<^verbatim>\<open>rx\<close>; a whole text is matched by derivatives, and \<^verbatim>\<open>lang\<close> is the set of texts a pattern
  describes. Anchors at both ends of a pattern add nothing to a whole match.
\<close>

section \<open>Patterns\<close>

datatype rx = Eps | Chr "char \<Rightarrow> bool" | Alt rx rx | Seq rx rx | Star rx

fun nullable :: "rx \<Rightarrow> bool" where
  "nullable Eps = True"
| "nullable (Chr _) = False"
| "nullable (Alt r s) = (nullable r \<or> nullable s)"
| "nullable (Seq r s) = (nullable r \<and> nullable s)"
| "nullable (Star _) = True"

fun deriv :: "char \<Rightarrow> rx \<Rightarrow> rx" where
  "deriv c Eps = Chr (\<lambda>_. False)"
| "deriv c (Chr p) = (if p c then Eps else Chr (\<lambda>_. False))"
| "deriv c (Alt r s) = Alt (deriv c r) (deriv c s)"
| "deriv c (Seq r s) =
     (if nullable r then Alt (Seq (deriv c r) s) (deriv c s) else Seq (deriv c r) s)"
| "deriv c (Star r) = Seq (deriv c r) (Star r)"

definition regex_match :: "rx \<Rightarrow> string \<Rightarrow> bool" where
  "regex_match r s \<longleftrightarrow> nullable (foldl (\<lambda>q c. deriv c q) r s)"

fun rx_text :: "string \<Rightarrow> rx" where
  "rx_text [] = Eps"
| "rx_text (c # cs) = Seq (Chr (\<lambda>d. d = c)) (rx_text cs)"

fun rx_repeat :: "nat \<Rightarrow> rx \<Rightarrow> rx" where
  "rx_repeat 0 r = Eps"
| "rx_repeat (Suc n) r = Seq r (rx_repeat n r)"

definition rx_optional :: "rx \<Rightarrow> rx" where
  "rx_optional r = Alt r Eps"

fun rx_at_most :: "nat \<Rightarrow> rx \<Rightarrow> rx" where
  "rx_at_most 0 r = Eps"
| "rx_at_most (Suc n) r = Alt (Seq r (rx_at_most n r)) Eps"

definition rx_plus :: "rx \<Rightarrow> rx" where
  "rx_plus r = Seq r (Star r)"

definition between :: "char \<Rightarrow> char \<Rightarrow> char \<Rightarrow> bool" where
  "between a b c \<longleftrightarrow> (of_char a :: nat) \<le> of_char c \<and> (of_char c :: nat) \<le> of_char b"

text \<open>\<open>std::tolower\<close> and \<open>std::toupper\<close> in the classic locale; \<open>icase\<close> tries both on a set.\<close>

definition to_lower :: "char \<Rightarrow> char" where
  "to_lower c = (if between (CHR ''A'') (CHR ''Z'') c then char_of ((of_char c :: nat) + 32) else c)"

definition to_upper :: "char \<Rightarrow> char" where
  "to_upper c = (if between (CHR ''a'') (CHR ''z'') c then char_of ((of_char c :: nat) - 32) else c)"

definition icase :: "(char \<Rightarrow> bool) \<Rightarrow> char \<Rightarrow> bool" where
  "icase p c \<longleftrightarrow> p (to_lower c) \<or> p (to_upper c)"

section \<open>Languages\<close>

inductive_set star :: "string set \<Rightarrow> string set" for A where
  star_Nil: "[] \<in> star A"
| star_app: "u \<in> A \<Longrightarrow> v \<in> star A \<Longrightarrow> u @ v \<in> star A"

fun lang :: "rx \<Rightarrow> string set" where
  "lang Eps = {[]}"
| "lang (Chr p) = {[c] | c. p c}"
| "lang (Alt r s) = lang r \<union> lang s"
| "lang (Seq r s) = {u @ v | u v. u \<in> lang r \<and> v \<in> lang s}"
| "lang (Star r) = star (lang r)"

lemma nullable_lang: "nullable r \<longleftrightarrow> [] \<in> lang r"
  by (induction r) (auto intro: star_Nil)

lemma star_Cons: "c # w \<in> star A \<longleftrightarrow> (\<exists>u v. w = u @ v \<and> c # u \<in> A \<and> v \<in> star A)"
proof
  assume "c # w \<in> star A"
  then show "\<exists>u v. w = u @ v \<and> c # u \<in> A \<and> v \<in> star A"
    by (induction "c # w" arbitrary: w rule: star.induct) (auto simp: append_eq_Cons_conv)
next
  assume "\<exists>u v. w = u @ v \<and> c # u \<in> A \<and> v \<in> star A"
  then obtain u v where "w = u @ v" "c # u \<in> A" "v \<in> star A" by blast
  then show "c # w \<in> star A"
    using star_app [of "c # u" A v] by simp
qed

lemma lang_deriv: "w \<in> lang (deriv c r) \<longleftrightarrow> c # w \<in> lang r"
proof (induction r arbitrary: w)
  case (Seq r s)
  show ?case
    by (auto simp: Seq.IH nullable_lang Cons_eq_append_conv)
next
  case (Star r)
  show ?case
    by (auto simp: Star.IH star_Cons)
qed auto

lemma regex_match_lang: "regex_match r s \<longleftrightarrow> s \<in> lang r"
proof (induction s arbitrary: r)
  case Nil
  show ?case by (simp add: regex_match_def nullable_lang)
next
  case (Cons c s)
  then show ?case by (simp add: regex_match_def lang_deriv)
qed

lemma lang_text [simp]: "lang (rx_text s) = {s}"
  by (induction s) auto

lemma lang_repeat: "lang (rx_repeat n r) = {concat ws | ws. length ws = n \<and> set ws \<subseteq> lang r}"
proof (induction n)
  case (Suc n)
  show ?case
  proof (intro set_eqI iffI)
    fix w assume "w \<in> lang (rx_repeat (Suc n) r)"
    then obtain u ws where "w = u @ concat ws" "u \<in> lang r" "length ws = n" "set ws \<subseteq> lang r"
      by (auto simp: Suc.IH)
    then show "w \<in> {concat ws | ws. length ws = Suc n \<and> set ws \<subseteq> lang r}"
      by (intro CollectI exI [of _ "u # ws"]) auto
  next
    fix w assume "w \<in> {concat ws | ws. length ws = Suc n \<and> set ws \<subseteq> lang r}"
    then show "w \<in> lang (rx_repeat (Suc n) r)"
      by (force simp: Suc.IH length_Suc_conv)
  qed
qed auto

lemma lang_Seq_assoc: "lang (Seq r (Seq s t)) = lang (Seq (Seq r s) t)"
proof -
  have "w \<in> lang (Seq r (Seq s t)) \<longleftrightarrow> w \<in> lang (Seq (Seq r s) t)" for w
    by (simp, metis append.assoc)
  then show ?thesis by blast
qed

lemma rx_repeat_numeral: "rx_repeat (numeral k) r = Seq r (rx_repeat (pred_numeral k) r)"
  by (simp add: numeral_eq_Suc)

lemma Chr_Seq_lang: "c # s \<in> lang (Seq (Chr p) r) \<longleftrightarrow> p c \<and> s \<in> lang r"
proof
  assume "p c \<and> s \<in> lang r"
  then have "[c] \<in> lang (Chr p)" "s \<in> lang r" by auto
  then have "[c] @ s \<in> lang (Seq (Chr p) r)" unfolding lang.simps(4) by blast
  then show "c # s \<in> lang (Seq (Chr p) r)" by simp
qed auto

text \<open>Matching a concrete text against a pattern, character by character.\<close>

lemma match_simps:
  "regex_match (Seq (Seq q r) t) s = regex_match (Seq q (Seq r t)) s"
  "regex_match (Seq Eps r) s = regex_match r s"
  "regex_match (Seq (Chr p) r) (c # s) \<longleftrightarrow> p c \<and> regex_match r s"
  "regex_match (Chr p) (c # s) \<longleftrightarrow> p c \<and> s = []"
  "regex_match Eps s \<longleftrightarrow> s = []"
proof -
  show "regex_match (Seq (Seq q r) t) s = regex_match (Seq q (Seq r t)) s"
    by (simp only: regex_match_lang lang_Seq_assoc)
  show "regex_match (Seq (Chr p) r) (c # s) \<longleftrightarrow> p c \<and> regex_match r s"
    by (simp only: regex_match_lang Chr_Seq_lang)
qed (auto simp: regex_match_lang)

section \<open>The patterns\<close>

abbreviation digit :: "char \<Rightarrow> bool" where "digit \<equiv> between (CHR ''0'') (CHR ''9'')"
abbreviation hex :: "char \<Rightarrow> bool" where "hex c \<equiv> between (CHR ''0'') (CHR ''9'') c \<or> between (CHR ''a'') (CHR ''f'') c"

definition uuid_pattern :: rx where
  "uuid_pattern =
     Seq (rx_repeat 8 (Chr (icase hex))) (Seq (rx_text ''-'') (Seq (rx_repeat 4 (Chr (icase hex)))
       (Seq (rx_text ''-4'') (Seq (rx_repeat 3 (Chr (icase hex)))
         (Seq (rx_text ''-'') (Seq (Chr (icase (\<lambda>c. c \<in> set ''89ab''))) (Seq (rx_repeat 3 (Chr (icase hex)))
           (Seq (rx_text ''-'') (rx_repeat 12 (Chr (icase hex)))))))))))"

definition is_uuid_v4 :: "string \<Rightarrow> bool" where
  "is_uuid_v4 s = regex_match uuid_pattern s"

definition octet_pattern :: rx where
  "octet_pattern =
     Alt (Chr digit) (Alt (Seq (Chr (between (CHR ''1'') (CHR ''9''))) (Chr digit))
       (Alt (Seq (rx_text ''1'') (rx_repeat 2 (Chr digit)))
         (Alt (Seq (rx_text ''2'') (Seq (Chr (between (CHR ''0'') (CHR ''4''))) (Chr digit)))
           (Seq (rx_text ''25'') (Chr (between (CHR ''0'') (CHR ''5'')))))))"

definition ipv4_pattern :: rx where
  "ipv4_pattern = Seq (rx_repeat 3 (Seq octet_pattern (rx_text ''.''))) octet_pattern"

definition is_ipv4 :: "string \<Rightarrow> bool" where
  "is_ipv4 s = regex_match ipv4_pattern s"

definition group_pattern :: rx where
  "group_pattern =
     Alt (rx_optional (rx_text ''0''))
       (Seq (Chr (icase (\<lambda>c. between (CHR ''1'') (CHR ''9'') c \<or> between (CHR ''a'') (CHR ''f'') c)))
         (rx_at_most 3 (Chr (icase hex))))"

definition ipv6_pattern1 :: rx where
  "ipv6_pattern1 =
     Seq (Seq (Alt (rx_text '':'') group_pattern) (rx_text '':''))
       (Seq (rx_at_most 6 (Seq group_pattern (rx_text '':'')))
         (Alt (rx_text '':'') group_pattern))"

definition ipv6_pattern2 :: rx where
  "ipv6_pattern2 =
     (let part = rx_plus (Chr (\<lambda>c. c \<noteq> CHR '':'')); side = rx_optional (Seq (Star (Seq part (rx_text '':''))) part)
      in Alt (Seq (rx_repeat 7 (Seq part (rx_text '':''))) part) (Seq side (Seq (rx_text ''::'') side)))"

definition is_ipv6 :: "string \<Rightarrow> bool" where
  "is_ipv6 s \<longleftrightarrow> regex_match ipv6_pattern1 s \<and> regex_match ipv6_pattern2 s"

section \<open>Dotted decimals\<close>

lemma lang_digits:
  assumes "m < 10" "n < 10"
  shows "lang (Chr (between (digit_char m) (digit_char n))) = (\<lambda>d. [digit_char d]) ` {m..n}"
proof (intro set_eqI iffI)
  fix w assume "w \<in> lang (Chr (between (digit_char m) (digit_char n)))"
  then obtain c where c: "w = [c]" "48 + m \<le> (of_char c :: nat)" "(of_char c :: nat) \<le> 48 + n"
    using assms by (auto simp: between_def)
  then have "c = digit_char (of_char c - 48)" "of_char c - 48 \<in> {m..n}"
    by (auto simp: digit_char_def)
  with c(1) show "w \<in> (\<lambda>d. [digit_char d]) ` {m..n}" by blast
qed (use assms in \<open>auto simp: between_def\<close>)

lemma digit_chars:
  "CHR ''0'' = digit_char 0" "CHR ''1'' = digit_char 1" "CHR ''2'' = digit_char 2"
  "CHR ''4'' = digit_char 4" "CHR ''5'' = digit_char 5" "CHR ''9'' = digit_char 9"
  by code_simp+

lemma to_string_digit: "n < 10 \<Longrightarrow> to_string_nat n = [digit_char n]"
  by (subst to_string_nat.simps) simp

lemma to_string_last: "0 < m \<Longrightarrow> d < 10 \<Longrightarrow> to_string_nat (10 * m + d) = to_string_nat m @ [digit_char d]"
  by (subst to_string_nat.simps) simp

lemma lang_Seq_image: "lang r = f ` A \<Longrightarrow> lang s = g ` B \<Longrightarrow>
    lang (Seq r s) = (\<lambda>(a, b). f a @ g b) ` (A \<times> B)"
  by auto

lemma lang_next_digit:
  assumes "lang r = to_string_nat ` A" "0 \<notin> A" "m < 10" "n < 10"
  shows "lang (Seq r (Chr (between (digit_char m) (digit_char n)))) = to_string_nat ` (\<lambda>(a, b). 10 * a + b) ` (A \<times> {m..n})"
proof -
  have "lang (Seq r (Chr (between (digit_char m) (digit_char n)))) =
      (\<lambda>(a, b). to_string_nat a @ [digit_char b]) ` (A \<times> {m..n})"
    by (rule lang_Seq_image [OF assms(1) lang_digits [OF assms(3,4)]])
  also have "\<dots> = (\<lambda>(a, b). to_string_nat (10 * a + b)) ` (A \<times> {m..n})"
  proof (rule image_cong)
    fix x assume x: "x \<in> A \<times> {m..n}"
    then have "0 < fst x" using assms(2) by (cases "fst x = 0") auto
    with x assms(4) show "(\<lambda>(a, b). to_string_nat a @ [digit_char b]) x = (\<lambda>(a, b). to_string_nat (10 * a + b)) x"
      by (auto simp: to_string_last)
  qed simp
  finally show ?thesis by (simp add: image_image case_prod_beta)
qed

text \<open>The texts of one component are the numbers below 256 without leading zeros.\<close>

definition octet_numbers :: "nat set" where
  "octet_numbers =
     {0..9} \<union> (\<lambda>(a, b). 10 * a + b) ` ({1..9} \<times> {0..9}) \<union>
     (\<lambda>(a, b). 10 * (10 * 1 + a) + b) ` ({0..9} \<times> {0..9}) \<union>
     (\<lambda>(a, b). 10 * (10 * 2 + a) + b) ` ({0..4} \<times> {0..9}) \<union>
     (\<lambda>b. 10 * (10 * 2 + 5) + b) ` {0..5}"

lemma octet_numbers_eq: "octet_numbers = {..<256}"
proof (intro set_eqI iffI)
  fix n :: nat assume "n \<in> {..<256}"
  then have n: "n < 256" by simp
  define q r where "q = n div 10" and "r = n mod 10"
  have qr: "n = 10 * q + r" "r < 10"
    by (simp_all add: q_def r_def)
  consider "q = 0" | "1 \<le> q" "q < 10" | "10 \<le> q" "q < 20" | "20 \<le> q" "q < 25" | "25 \<le> q" by linarith
  then show "n \<in> octet_numbers"
  proof cases
    case 2
    then have "n = (\<lambda>(a, b). 10 * a + b) (q, r)" "(q, r) \<in> {1..9} \<times> {0..9}"
      using qr by auto
    then show ?thesis unfolding octet_numbers_def by blast
  next
    case 3
    then have "n = (\<lambda>(a, b). 10 * (10 * 1 + a) + b) (q - 10, r)" "(q - 10, r) \<in> {0..9} \<times> {0..9}"
      using qr by auto
    then show ?thesis unfolding octet_numbers_def by blast
  next
    case 4
    then have "n = (\<lambda>(a, b). 10 * (10 * 2 + a) + b) (q - 20, r)" "(q - 20, r) \<in> {0..4} \<times> {0..9}"
      using qr by auto
    then show ?thesis unfolding octet_numbers_def by blast
  next
    case 5
    then have "n = (\<lambda>b. 10 * (10 * 2 + 5) + b) (n - 250)" "n - 250 \<in> {0..5}"
      using qr n by auto
    then show ?thesis unfolding octet_numbers_def by blast
  qed (use qr in \<open>simp add: octet_numbers_def\<close>)
qed (auto simp: octet_numbers_def)

lemma lang_number: "n < 10 \<Longrightarrow> lang (rx_text [digit_char n]) = to_string_nat ` {n}"
  by (simp add: to_string_digit)

lemma octet_lang: "lang octet_pattern = to_string_nat ` {..<256}"
proof -
  let ?d = "\<lambda>m n. Chr (between (digit_char m) (digit_char n))"
  have 1: "lang (?d 0 9) = to_string_nat ` {0..9}"
    by (simp only: lang_digits) (rule image_cong, simp_all add: to_string_digit)
  have 2: "lang (?d 1 9) = to_string_nat ` {1..9}"
    by (simp only: lang_digits) (rule image_cong, simp_all add: to_string_digit)
  have 22: "lang (Seq (?d 1 9) (?d 0 9)) = to_string_nat ` (\<lambda>(a, b). 10 * a + b) ` ({1..9} \<times> {0..9})"
    by (rule lang_next_digit [OF 2]) simp_all
  have nest: "(\<lambda>(a, b). 10 * a + b) ` ((\<lambda>(a, b). 10 * a + b) ` ({n} \<times> {0..m}) \<times> {0..9}) =
      (\<lambda>(a, b). 10 * (10 * n + a) + b) ` ({0..m} \<times> {0..9})" for n m :: nat
    by force
  have 3: "lang (Seq (rx_text [digit_char n]) (rx_repeat 2 (?d 0 9))) =
      to_string_nat ` (\<lambda>(a, b). 10 * (10 * n + a) + b) ` ({0..9} \<times> {0..9})"
    and 4: "lang (Seq (rx_text [digit_char n]) (Seq (?d 0 4) (?d 0 9))) =
      to_string_nat ` (\<lambda>(a, b). 10 * (10 * n + a) + b) ` ({0..4} \<times> {0..9})"
    if "0 < n" "n < 10" for n
  proof -
    have eps: "lang (Seq r (rx_repeat 2 s)) = lang (Seq r (Seq s s))" for r s
      by (simp add: numeral_2_eq_2)
    show "lang (Seq (rx_text [digit_char n]) (rx_repeat 2 (?d 0 9))) =
        to_string_nat ` (\<lambda>(a, b). 10 * (10 * n + a) + b) ` ({0..9} \<times> {0..9})"
      unfolding eps lang_Seq_assoc nest [symmetric]
      by (intro lang_next_digit lang_number) (use that in auto)
    show "lang (Seq (rx_text [digit_char n]) (Seq (?d 0 4) (?d 0 9))) =
        to_string_nat ` (\<lambda>(a, b). 10 * (10 * n + a) + b) ` ({0..4} \<times> {0..9})"
      unfolding lang_Seq_assoc nest [symmetric]
      by (intro lang_next_digit lang_number) (use that in auto)
  qed
  have "lang (rx_text [digit_char 2, digit_char 5]) = to_string_nat ` {25}"
    using to_string_last [of 2 5] to_string_digit [of 2] by simp
  then have "lang (Seq (rx_text [digit_char 2, digit_char 5]) (?d 0 5)) =
      to_string_nat ` (\<lambda>(a, b). 10 * a + b) ` ({25} \<times> {0..5})"
    by (rule lang_next_digit) simp_all
  also have "(\<lambda>(a, b). 10 * a + b) ` ({25} \<times> {0..5}) = (\<lambda>b. 10 * (10 * 2 + 5) + b :: nat) ` {0..5}"
    by (rule set_eqI) (simp add: image_iff Bex_def, presburger)
  finally have 5: "lang (Seq (rx_text [digit_char 2, digit_char 5]) (?d 0 5)) =
      to_string_nat ` (\<lambda>b. 10 * (10 * 2 + 5) + b) ` {0..5}" .
  have small: "(0::nat) < 1" "(1::nat) < 10" "(0::nat) < 2" "(2::nat) < 10"
    by simp_all
  have "lang octet_pattern = to_string_nat ` octet_numbers"
    unfolding octet_numbers_def octet_pattern_def digit_chars lang.simps(3) image_Un
      1 22 3 [OF small(1,2)] 4 [OF small(3,4)] 5
    by (simp only: Un_assoc)
  then show ?thesis by (simp only: octet_numbers_eq)
qed

lemma ipv4_lang: "lang ipv4_pattern =
    (\<lambda>((a, b, c, _), d). (to_string_nat a @ ''.'') @ (to_string_nat b @ ''.'') @ (to_string_nat c @ ''.'') @ to_string_nat d) `
      (({..<256} \<times> {..<256} \<times> {..<256} \<times> {()}) \<times> {..<256})"
proof -
  have part: "lang (Seq octet_pattern (rx_text ''.'')) = (\<lambda>n. to_string_nat n @ ''.'') ` {..<256}"
    by (auto simp: octet_lang)
  have eps: "lang Eps = (\<lambda>_. []) ` {()}" by simp
  show ?thesis
    unfolding ipv4_pattern_def numeral_3_eq_3 rx_repeat.simps
    by (subst lang_Seq_image [OF lang_Seq_image [OF part lang_Seq_image [OF part lang_Seq_image [OF part eps]]] octet_lang])
      (rule image_cong, auto)
qed

text \<open>The address check accepts exactly dotted decimals: four numbers below 256, each
  without leading zeros, with dots between them.\<close>

theorem is_ipv4_iff:
  "is_ipv4 s \<longleftrightarrow> (\<exists>a b c d. a < 256 \<and> b < 256 \<and> c < 256 \<and> d < 256 \<and>
     s = to_string_nat a @ ''.'' @ to_string_nat b @ ''.'' @ to_string_nat c @ ''.'' @ to_string_nat d)"
  unfolding is_ipv4_def regex_match_lang ipv4_lang by (auto simp: image_iff)

end
