(* ===== verification/Nrf_Registry.thy ===== *)
theory Nrf_Registry
  imports Json_Value Bss_Types Regex_Match "HOL-Library.AList"
begin

text \<open>
  The registry of network functions (\<open>nfs/nrf/src/registry.cpp\<close>) and the checks a profile
  passes before it is stored (\<open>validate_nf_profile\<close> of \<open>nfs/nrf/src/main.cpp\<close>). Profiles
  are JSON values, listed in the order the map happens to keep them. \<^verbatim>\<open>None\<close> is an exception of the
  JSON library, or arithmetic that C++ leaves undefined.
\<close>

section \<open>Profiles\<close>

text \<open>Profiles by identifier, and the time in nanoseconds of each one's last heartbeat.\<close>

record nf_registry =
  profiles :: "(string \<times> json) list"
  last_heartbeat :: "(string \<times> int) list"

definition empty_registry :: nf_registry where
  "empty_registry = \<lparr>profiles = [], last_heartbeat = []\<rparr>"

definition put_profile :: "int \<Rightarrow> string \<Rightarrow> json \<Rightarrow> nf_registry \<Rightarrow> bool \<times> nf_registry" where
  "put_profile now i profile r =
     (map_of (profiles r) i = None,
      \<lparr>profiles = AList.update i profile (profiles r), last_heartbeat = AList.update i now (last_heartbeat r)\<rparr>)"

definition get_profile :: "string \<Rightarrow> nf_registry \<Rightarrow> json option" where
  "get_profile i r = map_of (profiles r) i"

text \<open>\<open>json::patch\<close> is the library's: \<open>patch\<close> gives the changed document, \<^verbatim>\<open>None\<close> when it throws.\<close>

definition apply_patch ::
  "(json \<Rightarrow> json \<Rightarrow> json option) \<Rightarrow> string \<Rightarrow> json \<Rightarrow> nf_registry \<Rightarrow> (json option \<times> nf_registry) option" where
  "apply_patch patch i ops r =
     (case map_of (profiles r) i of
        None \<Rightarrow> Some (None, r)
      | Some p \<Rightarrow>
          (case patch p ops of
             None \<Rightarrow> None
           | Some p' \<Rightarrow> Some (Some p', r \<lparr>profiles := AList.update i p' (profiles r)\<rparr>)))"

definition remove_profile :: "string \<Rightarrow> nf_registry \<Rightarrow> bool \<times> nf_registry" where
  "remove_profile i r =
     (map_of (profiles r) i \<noteq> None,
      \<lparr>profiles = AList.delete i (profiles r), last_heartbeat = AList.delete i (last_heartbeat r)\<rparr>)"

definition list_all_profiles :: "nf_registry \<Rightarrow> json list" where
  "list_all_profiles r = map snd (profiles r)"

definition search_by_type :: "string \<Rightarrow> nf_registry \<Rightarrow> json list option" where
  "search_by_type t r =
     filter_m (\<lambda>p. map_option (\<lambda>n. n = t) (value_string p ''nfType'' [])) (map snd (profiles r))"

definition touch_heartbeat :: "int \<Rightarrow> string \<Rightarrow> nf_registry \<Rightarrow> nf_registry" where
  "touch_heartbeat now i r = r \<lparr>last_heartbeat := AList.update i now (last_heartbeat r)\<rparr>"

text \<open>The test of the sweep: seconds are added on 64 bits and compared as 64-bit nanoseconds.\<close>

definition fits_int64 :: "int \<Rightarrow> bool" where
  "fits_int64 n \<longleftrightarrow> - (2 ^ 63) \<le> n \<and> n < 2 ^ 63"

definition profile_expired :: "int \<Rightarrow> int \<Rightarrow> (string \<times> int) list \<Rightarrow> string \<times> json \<Rightarrow> bool option" where
  "profile_expired margin now heartbeats ip =
     (case member (snd ip) ''heartBeatTimer'' of
        None \<Rightarrow> Some False
      | Some t \<Rightarrow>
          if \<not> is_number t then Some False
          else (case number_int64 t of
             None \<Rightarrow> None
           | Some timer \<Rightarrow>
               (let last = (case map_of heartbeats (fst ip) of Some l \<Rightarrow> l | None \<Rightarrow> now)
                in if fits_int64 (timer + margin) \<and> fits_int64 ((timer + margin) * 10 ^ 9) \<and> fits_int64 (now - last)
                   then Some (now - last > (timer + margin) * 10 ^ 9) else None)))"

definition sweep_expired :: "int \<Rightarrow> int \<Rightarrow> nf_registry \<Rightarrow> (string list \<times> nf_registry) option" where
  "sweep_expired margin now r =
     (case filter_m (profile_expired margin now (last_heartbeat r)) (profiles r) of
        None \<Rightarrow> None
      | Some gone \<Rightarrow>
          (let ids = map fst gone
           in Some (ids, \<lparr>profiles = filter (\<lambda>ip. fst ip \<notin> set ids) (profiles r),
                          last_heartbeat = filter (\<lambda>il. fst il \<notin> set ids) (last_heartbeat r)\<rparr>)))"

section \<open>Subscriptions and stored searches\<close>

record nf_subscriptions =
  subs :: "(string \<times> json) list"
  subs_next_id :: nat

text \<open>\<open>j[k] = v\<close>: on an object, and on null, which becomes an object; otherwise it throws.\<close>

fun set_member :: "string \<Rightarrow> json \<Rightarrow> json \<Rightarrow> json option" where
  "set_member k v (JObject kvs) = Some (JObject (AList.update k v kvs))"
| "set_member k v JNull = Some (JObject [(k, v)])"
| "set_member k v _ = None"

definition create_subscription :: "json \<Rightarrow> nf_subscriptions \<Rightarrow> (json \<times> nf_subscriptions) option" where
  "create_subscription data s =
     (let i = to_string_nat (subs_next_id s) in
      map_option (\<lambda>d. (d, \<lparr>subs = AList.update i d (subs s), subs_next_id = Suc (subs_next_id s)\<rparr>))
        (set_member ''subscriptionId'' (JString i) data))"

definition update_subscription ::
  "string \<Rightarrow> json \<Rightarrow> nf_subscriptions \<Rightarrow> (json option \<times> nf_subscriptions) option" where
  "update_subscription i data s =
     (case map_of (subs s) i of
        None \<Rightarrow> Some (None, s)
      | Some _ \<Rightarrow> map_option (\<lambda>d. (Some d, s \<lparr>subs := AList.update i d (subs s)\<rparr>))
          (set_member ''subscriptionId'' (JString i) data))"

definition remove_subscription :: "string \<Rightarrow> nf_subscriptions \<Rightarrow> bool \<times> nf_subscriptions" where
  "remove_subscription i s = (map_of (subs s) i \<noteq> None, s \<lparr>subs := AList.delete i (subs s)\<rparr>)"

fun notification_uris :: "json list \<Rightarrow> string list option" where
  "notification_uris [] = Some []"
| "notification_uris (d # ds) =
     (case member d ''nfStatusNotificationUri'' of
        None \<Rightarrow> notification_uris ds
      | Some u \<Rightarrow>
          (case get_string u of
             None \<Rightarrow> None
           | Some uri \<Rightarrow> map_option (\<lambda>us. uri # us) (notification_uris ds)))"

definition all_notification_uris :: "nf_subscriptions \<Rightarrow> string list option" where
  "all_notification_uris s = notification_uris (map snd (subs s))"

text \<open>The handler of \<open>POST /subscriptions\<close> on a parsed body: the status, and the new store;
  \<^verbatim>\<open>None\<close> when it throws.\<close>

definition post_subscription :: "json \<Rightarrow> nf_subscriptions \<Rightarrow> (nat \<times> nf_subscriptions) option" where
  "post_subscription data s =
     (if \<not> contains data ''nfStatusNotificationUri'' then Some (400, s)
      else map_option (\<lambda>(_, s'). (201, s')) (create_subscription data s))"

record stored_searches =
  search_results :: "(string \<times> json) list"
  search_next_id :: nat

definition put_search :: "json \<Rightarrow> stored_searches \<Rightarrow> string \<times> stored_searches" where
  "put_search found s =
     (let i = ''search-'' @ to_string_nat (search_next_id s)
      in (i, \<lparr>search_results =
                (if map_of (search_results s) i = None then search_results s @ [(i, found)] else search_results s),
              search_next_id = Suc (search_next_id s)\<rparr>))"

definition get_search :: "string \<Rightarrow> stored_searches \<Rightarrow> json option" where
  "get_search i s = map_of (search_results s) i"

section \<open>Checks of a profile\<close>

definition known_nf_types :: "string list" where
  "known_nf_types =
    [''NRF'', ''UDM'', ''AMF'', ''SMF'', ''AUSF'', ''NEF'', ''PCF'', ''SMSF'',
     ''NSSF'', ''UDR'', ''LMF'', ''GMLC'', ''5G_EIR'', ''SEPP'', ''UPF'', ''N3IWF'',
     ''AF'', ''UDSF'', ''BSF'', ''CHF'', ''NWDAF'', ''PCSCF'', ''CBCF'', ''HSS'',
     ''UCMF'', ''SOR_AF'', ''SPAF'', ''MME'', ''SCSAS'', ''SCEF'', ''SCP'', ''NSSAAF'',
     ''ICSCF'', ''SCSCF'', ''DRA'', ''IMS_AS'', ''AANF'', ''5G_DDNMF'', ''NSACF'', ''MFAF'',
     ''EASDF'', ''DCCF'', ''MB_SMF'', ''TSCTSF'', ''ADRF'', ''GBA_BSF'', ''CEF'', ''MB_UPF'',
     ''NSWOF'', ''PKMF'', ''MNPF'', ''SMS_GMSC'', ''SMS_IWMSC'', ''MBSF'', ''MBSTF'', ''PANF'',
     ''IP_SM_GW'', ''SMS_ROUTER'', ''DCSF'', ''MRF'', ''MRFP'', ''MF'', ''SLPKMF'', ''RH'',
     ''EIF'', ''AIOTF'', ''ADM'']"

definition known_status_values :: "string list" where
  "known_status_values = [''REGISTERED'', ''SUSPENDED'', ''UNDISCOVERABLE'', ''CANARY_RELEASE'']"

text \<open>\<open>j.contains(k) && j.at(k).is_string()\<close> and the text then read.\<close>

definition string_member :: "json \<Rightarrow> string \<Rightarrow> string option" where
  "string_member j k = Option.bind (member j k) get_string"

definition member_violates :: "json \<Rightarrow> string \<Rightarrow> (string \<Rightarrow> bool) \<Rightarrow> bool" where
  "member_violates j k ok = (case string_member j k of Some s \<Rightarrow> \<not> ok s | None \<Rightarrow> False)"

definition number_member :: "json \<Rightarrow> string \<Rightarrow> int option option" where
  "number_member j k =
     (case member j k of Some v \<Rightarrow> if is_number v then map_option Some (number_int64 v) else Some None
      | None \<Rightarrow> Some None)"

definition array_member :: "json \<Rightarrow> string \<Rightarrow> json list" where
  "array_member j k = (case member j k of Some (JArray xs) \<Rightarrow> xs | _ \<Rightarrow> [])"

text \<open>The first violation found, \<^verbatim>\<open>Some None\<close> when there is none; \<^verbatim>\<open>None\<close> when a floating number is
  converted out of range, which C++ leaves undefined.\<close>

type_synonym verdict = "string option option"

fun or_then :: "verdict \<Rightarrow> verdict \<Rightarrow> verdict" where
  "or_then None k = None"
| "or_then (Some (Some e)) k = Some (Some e)"
| "or_then (Some None) k = k"

definition check :: "bool \<Rightarrow> string \<Rightarrow> verdict" where
  "check bad e = Some (if bad then Some e else None)"

fun first_of :: "('a \<Rightarrow> verdict) \<Rightarrow> 'a list \<Rightarrow> verdict" where
  "first_of f [] = Some None"
| "first_of f (x # xs) = or_then (f x) (first_of f xs)"

definition validate_ip_endpoint :: "json \<Rightarrow> verdict" where
  "validate_ip_endpoint ep =
     or_then (check (member_violates ep ''ipv4Address'' is_ipv4)
       ''ipEndPoints[].ipv4Address is not a valid dotted-decimal IPv4 address'')
    (or_then (check (member_violates ep ''ipv6Address'' is_ipv6)
       ''ipEndPoints[].ipv6Address is not a valid IPv6 address'')
    (or_then (check (member_violates ep ''transport'' (\<lambda>t. t = ''TCP''))
       ''ipEndPoints[].transport must be TCP'')
    (case number_member ep ''port'' of
       None \<Rightarrow> None
     | Some port \<Rightarrow> check (case port of Some n \<Rightarrow> n < 0 \<or> n > 65535 | None \<Rightarrow> False)
         ''ipEndPoints[].port must be in [0, 65535]'')))"

definition validate_service :: "json \<Rightarrow> verdict" where
  "validate_service svc =
     or_then (check (member_violates svc ''scheme'' (\<lambda>s. s = ''http'' \<or> s = ''https''))
       ''nfServices[].scheme must be http or https'')
    (or_then (check (member_violates svc ''nfServiceStatus'' (\<lambda>s. s \<in> set known_status_values))
       ''nfServices[].nfServiceStatus is not a known status'')
    (first_of validate_ip_endpoint (array_member svc ''ipEndPoints'')))"

definition validate_nf_profile :: "json \<Rightarrow> verdict" where
  "validate_nf_profile profile =
     or_then (check (member_violates profile ''nfInstanceId'' is_uuid_v4) ''nfInstanceId must be a UUID v4'')
    (or_then (check (member_violates profile ''nfType'' (\<lambda>t. t \<in> set known_nf_types)) ''nfType is not a recognized NFType'')
    (or_then (check (member_violates profile ''nfStatus'' (\<lambda>s. s \<in> set known_status_values)) ''nfStatus is not a known status'')
    (or_then (case number_member profile ''heartBeatTimer'' of
        None \<Rightarrow> None
      | Some t \<Rightarrow> check (case t of Some n \<Rightarrow> n < 1 | None \<Rightarrow> False) ''heartBeatTimer must be >= 1'')
    (or_then (first_of (\<lambda>a. check (case a of JString s \<Rightarrow> \<not> is_ipv4 s | _ \<Rightarrow> False)
        ''ipv4Addresses contains an invalid IPv4 address'') (array_member profile ''ipv4Addresses''))
    (or_then (first_of (\<lambda>a. check (case a of JString s \<Rightarrow> \<not> is_ipv6 s | _ \<Rightarrow> False)
        ''ipv6Addresses contains an invalid IPv6 address'') (array_member profile ''ipv6Addresses''))
    (first_of validate_service (array_member profile ''nfServices'')))))))"

text \<open>The rest of the handler of \<open>PUT /nf-instances/{id}\<close> once the body is parsed.\<close>

definition missing_ie :: "json \<Rightarrow> string option" where
  "missing_ie profile = find (\<lambda>k. \<not> contains profile k) [''nfInstanceId'', ''nfType'', ''nfStatus'']"

text \<open>Notifying the subscribers reads every URI first. The handler has stored the profile by then;
  an exception of the notification answers 500.\<close>

definition register_instance ::
  "int \<Rightarrow> string \<Rightarrow> json \<Rightarrow> nf_subscriptions \<Rightarrow> nf_registry \<Rightarrow> (nat \<times> nf_registry) option" where
  "register_instance now i profile s r =
     (if missing_ie profile \<noteq> None then Some (400, r)
      else (case validate_nf_profile profile of
          None \<Rightarrow> None
        | Some (Some _) \<Rightarrow> Some (400, r)
        | Some None \<Rightarrow>
            (let (is_new, r') = put_profile now i profile r
             in Some (if all_notification_uris s = None then 500 else if is_new then 201 else 200, r'))))"

text \<open>One round of the sweep thread, which catches no exception: an exception of the notification
  ends the process. A successful round tells what was told to whom.\<close>

datatype sweep_round = Terminated | Swept "(string \<times> string list) list" nf_registry

definition sweep_round :: "int \<Rightarrow> int \<Rightarrow> nf_subscriptions \<Rightarrow> nf_registry \<Rightarrow> sweep_round option" where
  "sweep_round margin now s r =
     (case sweep_expired margin now r of
        None \<Rightarrow> None
      | Some (ids, r') \<Rightarrow>
          (case all_notification_uris s of
             Some uris \<Rightarrow> Some (Swept (map (\<lambda>i. (i, uris)) ids) r')
           | None \<Rightarrow> Some (if ids = [] then Swept [] r' else Terminated)))"

section \<open>Facts\<close>

lemma map_of_filter_keys: "map_of (filter (\<lambda>ip. fst ip \<notin> K) xs) i = (if i \<in> K then None else map_of xs i)"
  by (induction xs) auto

lemma sweep_expired_Some:
  assumes "sweep_expired margin now r = Some (ids, r')"
  shows "ids = map fst (filter (\<lambda>ip. profile_expired margin now (last_heartbeat r) ip = Some True) (profiles r))"
    "ip \<in> set (profiles r) \<Longrightarrow> profile_expired margin now (last_heartbeat r) ip \<noteq> None"
    "profiles r' = filter (\<lambda>ip. fst ip \<notin> set ids) (profiles r)"
  using assms by (auto simp: sweep_expired_def filter_m_eq Let_def split: option.splits if_splits)

lemma expired_ids:
  assumes "sweep_expired margin now r = Some (ids, r')" "distinct (map fst (profiles r))" "get_profile i r = Some p"
  shows "i \<in> set ids \<longleftrightarrow> profile_expired margin now (last_heartbeat r) (i, p) = Some True"
    "profile_expired margin now (last_heartbeat r) (i, p) \<noteq> None"
    "get_profile i r' = (if i \<in> set ids then None else Some p)"
proof -
  have ip: "(i, p) \<in> set (profiles r)"
    using assms(3) by (simp add: get_profile_def map_of_SomeD)
  have only: "q = p" if "(i, q) \<in> set (profiles r)" for q
    using that ip assms(2) by (metis eq_key_imp_eq_value)
  show "profile_expired margin now (last_heartbeat r) (i, p) \<noteq> None"
    by (rule sweep_expired_Some(2) [OF assms(1) ip])
  show "i \<in> set ids \<longleftrightarrow> profile_expired margin now (last_heartbeat r) (i, p) = Some True"
  proof -
    have "i \<in> set ids \<longleftrightarrow>
        (\<exists>q. (i, q) \<in> set (profiles r) \<and> profile_expired margin now (last_heartbeat r) (i, q) = Some True)"
      unfolding sweep_expired_Some(1) [OF assms(1)] by (auto simp: image_iff)
    then show ?thesis using ip only by blast
  qed
  show "get_profile i r' = (if i \<in> set ids then None else Some p)"
    using assms(3) by (simp add: get_profile_def sweep_expired_Some(3) [OF assms(1)] map_of_filter_keys)
qed

text \<open>The sweep removes exactly the functions that fell silent. In a sweep, a registered
  function is removed exactly when it declared a heartbeat period and its last heartbeat is older than
  that period plus the margin; every other profile stays as it is.\<close>

theorem sweep_removes_silent:
  assumes "sweep_expired margin now r = Some (ids, r')" "distinct (map fst (profiles r))" "get_profile i r = Some p"
  shows "(i \<in> set ids) =
      (case member p ''heartBeatTimer'' of
         Some v \<Rightarrow> is_number v \<and>
           now - value_or now (map_of (last_heartbeat r) i) > (the (number_int64 v) + margin) * 10 ^ 9
       | None \<Rightarrow> False) \<and>
    get_profile i r' = (if i \<in> set ids then None else Some p)"
  using expired_ids [OF assms]
  by (cases "member p ''heartBeatTimer''")
    (auto simp: profile_expired_def Let_def value_or_def split: option.splits if_splits)

text \<open>A period of ten thousand million seconds passes the checks, and the sweep then overflows.\<close>

definition demo_profile :: "json \<Rightarrow> json \<Rightarrow> json" where
  "demo_profile t period =
     JObject [(''heartBeatTimer'', period), (''nfInstanceId'', JString ''5ba9a927-1d31-4c8e-8a10-000000000002''),
       (''nfStatus'', JString ''REGISTERED''), (''nfType'', t)]"

lemma demo_uuid: "is_uuid_v4 ''5ba9a927-1d31-4c8e-8a10-000000000002''"
  by (simp add: is_uuid_v4_def uuid_pattern_def match_simps rx_repeat_numeral icase_def to_lower_def to_upper_def between_def)

text \<open>A profile whose type is not a text blocks discovery. Such a registration is accepted,
  and from then on every search by type fails, whatever type it asks for.\<close>

theorem untyped_profile_blocks_discovery:
  assumes "register_instance now i p s r = Some (code, r')" "code \<noteq> 400"
    "member p ''nfType'' = Some v" "get_string v = None"
  shows "search_by_type t r' = None"
proof -
  have r': "r' = snd (put_profile now i p r)"
    using assms(1,2) by (auto simp: register_instance_def split: if_splits option.splits prod.splits)
  have "map_of (profiles r') i = Some p"
    unfolding r' by (simp add: put_profile_def update_conv')
  then have "p \<in> set (map snd (profiles r'))"
    by (force dest: map_of_SomeD)
  moreover have "value_string p ''nfType'' [] = None"
    using assms(3,4) by (cases p) (auto simp: value_string_def)
  ultimately show ?thesis
    by (auto simp: search_by_type_def filter_m_eq)
qed

text \<open>The registration used below: it passes every check.\<close>

lemma demo_valid: "number_int64 period = Some n \<Longrightarrow> is_number period \<Longrightarrow> 1 \<le> n \<Longrightarrow>
    get_string t = None \<or> get_string t = Some ''UDM'' \<Longrightarrow>
    validate_nf_profile (demo_profile t period) = Some None \<and> missing_ie (demo_profile t period) = None"
  by (auto simp: validate_nf_profile_def demo_profile_def member_violates_def string_member_def demo_uuid check_def
      number_member_def array_member_def known_nf_types_def known_status_values_def missing_ie_def contains_def)

definition no_subscriptions :: nf_subscriptions where
  "no_subscriptions = \<lparr>subs = [], subs_next_id = 1\<rparr>"

lemma demo_registered:
  assumes "number_int64 period = Some n" "is_number period" "1 \<le> n" "get_string t = None \<or> get_string t = Some ''UDM''"
  shows "register_instance 0 i (demo_profile t period) no_subscriptions empty_registry =
    Some (201, \<lparr>profiles = [(i, demo_profile t period)], last_heartbeat = [(i, 0)]\<rparr>)"
  using demo_valid [OF assms]
  by (simp add: register_instance_def put_profile_def empty_registry_def all_notification_uris_def no_subscriptions_def)

theorem untyped_profile_blocks_discovery_witness:
  "search_by_type ''UDM''
     \<lparr>profiles = [(''a'', demo_profile (JUnsigned 5) (JUnsigned 10))], last_heartbeat = [(''a'', 0)]\<rparr> = None"
proof -
  have "register_instance 0 ''a'' (demo_profile (JUnsigned 5) (JUnsigned 10)) no_subscriptions empty_registry =
      Some (201, \<lparr>profiles = [(''a'', demo_profile (JUnsigned 5) (JUnsigned 10))], last_heartbeat = [(''a'', 0)]\<rparr>)"
    by (rule demo_registered [where n = 10]) simp_all
  then show ?thesis
    by (rule untyped_profile_blocks_discovery [where v = "JUnsigned 5"]) (simp_all add: demo_profile_def)
qed

text \<open>A period of ten thousand million seconds passes the checks, and the sweep then overflows.\<close>

lemma long_period_overflows:
  "register_instance 0 ''a'' (demo_profile (JString ''UDM'') (JUnsigned 10000000000)) no_subscriptions empty_registry =
     Some (201, \<lparr>profiles = [(''a'', demo_profile (JString ''UDM'') (JUnsigned 10000000000))], last_heartbeat = [(''a'', 0)]\<rparr>)"
  "sweep_expired 5 1
     \<lparr>profiles = [(''a'', demo_profile (JString ''UDM'') (JUnsigned 10000000000))], last_heartbeat = [(''a'', 0)]\<rparr> = None"
proof -
  show "register_instance 0 ''a'' (demo_profile (JString ''UDM'') (JUnsigned 10000000000)) no_subscriptions empty_registry =
     Some (201, \<lparr>profiles = [(''a'', demo_profile (JString ''UDM'') (JUnsigned 10000000000))], last_heartbeat = [(''a'', 0)]\<rparr>)"
    by (rule demo_registered [where n = 10000000000]) simp_all
qed (simp add: sweep_expired_def profile_expired_def demo_profile_def fits_int64_def)

definition demo_silent :: nf_registry where
  "demo_silent =
     \<lparr>profiles = [(''a'', demo_profile (JString ''UDM'') (JUnsigned 10))], last_heartbeat = [(''a'', 0)]\<rparr>"

lemma demo_silent_sweep:
  "sweep_expired 5 20000000000 demo_silent = Some ([''a''], \<lparr>profiles = [], last_heartbeat = []\<rparr>)"
  by (simp add: sweep_expired_def profile_expired_def demo_profile_def demo_silent_def fits_int64_def)

theorem sweep_removes_silent_witness:
  "get_profile ''a'' \<lparr>profiles = [], last_heartbeat = []\<rparr> = None"
proof -
  have "get_profile ''a'' \<lparr>profiles = [], last_heartbeat = []\<rparr> =
      (if ''a'' \<in> set [''a''] then None else Some (demo_profile (JString ''UDM'') (JUnsigned 10)))"
    by (rule conjunct2 [OF sweep_removes_silent [OF demo_silent_sweep]]) (simp_all add: get_profile_def demo_silent_def)
  then show ?thesis by (simp only: list.set_intros if_True)
qed

text \<open>One malformed subscription ends the registry. The subscription handler accepts any
  object with the notification member, whatever its kind; once one is stored whose member is not a text,
  the next sweep that finds an expired function ends the process.\<close>

theorem malformed_subscription_ends_sweep:
  assumes "member data ''nfStatusNotificationUri'' = Some u" "get_string u = None" "is_object data"
  shows "\<exists>s'. post_subscription data s = Some (201, s') \<and>
    (\<forall>ids r'. sweep_expired margin now r = Some (ids, r') \<longrightarrow> ids \<noteq> [] \<longrightarrow> sweep_round margin now s' r = Some Terminated)"
proof -
  obtain kvs where kvs: "data = JObject kvs"
    using assms(3) by (cases data) auto
  let ?i = "to_string_nat (subs_next_id s)"
  let ?d = "JObject (AList.update ''subscriptionId'' (JString ?i) kvs)"
  let ?s = "\<lparr>subs = AList.update ?i ?d (subs s), subs_next_id = Suc (subs_next_id s)\<rparr>"
  have fails: "notification_uris ds = None"
    if "d \<in> set ds" "member d ''nfStatusNotificationUri'' = Some v" "get_string v = None" for d ds v
    using that by (induction ds) (auto split: option.splits)
  have "map_of (subs ?s) ?i = Some ?d"
    by (simp add: update_conv')
  then have "?d \<in> set (map snd (subs ?s))"
    by (force dest: map_of_SomeD)
  then have "all_notification_uris ?s = None"
    unfolding all_notification_uris_def
    by (rule fails) (use assms(1,2) kvs in \<open>simp_all add: update_conv'\<close>)
  then show ?thesis
    using assms(1) kvs
    by (intro exI [of _ ?s])
      (auto simp: post_subscription_def contains_def create_subscription_def sweep_round_def Let_def)
qed

theorem malformed_subscription_ends_sweep_witness:
  "\<exists>s'. post_subscription (JObject [(''nfStatusNotificationUri'', JUnsigned 5)]) no_subscriptions = Some (201, s') \<and>
    sweep_round 5 20000000000 s' demo_silent = Some Terminated"
proof -
  have "\<exists>s'. post_subscription (JObject [(''nfStatusNotificationUri'', JUnsigned 5)]) no_subscriptions = Some (201, s') \<and>
    (\<forall>ids r'. sweep_expired 5 20000000000 demo_silent = Some (ids, r') \<longrightarrow> ids \<noteq> [] \<longrightarrow>
       sweep_round 5 20000000000 s' demo_silent = Some Terminated)"
    by (rule malformed_subscription_ends_sweep [where u = "JUnsigned 5"]) simp_all
  then show ?thesis by (simp add: demo_silent_sweep)
qed

end
