(* ===== verification/Sbi_Text.thy ===== *)
theory Sbi_Text
  imports Regex_Match
begin

text \<open>
  Texts of the service-based interfaces: form bodies as the token client writes them
  (\<open>form_urlencode\<close> of \<open>libs/sbi-core/src/oauth2_client.cpp\<close>) and as the NRF reads them
  (\<open>url_decode\<close>, \<open>parse_form_urlencoded\<close> of \<open>nfs/nrf/src/main.cpp\<close>), and the paths and
  query strings of the server (\<open>libs/sbi-core/src/http2_server.cpp\<close>).
\<close>

section \<open>Pieces\<close>

text \<open>The pieces between separators, empty ones included; a text without separator is one piece.\<close>

fun split_on :: "char \<Rightarrow> string \<Rightarrow> string list" where
  "split_on sep [] = [[]]"
| "split_on sep (c # cs) =
     (if c = sep then [] # split_on sep cs
      else (case split_on sep cs of [] \<Rightarrow> [[c]] | p # ps \<Rightarrow> (c # p) # ps))"

lemma split_on_nonempty [simp]: "split_on sep s \<noteq> []"
  by (induction s) (auto split: list.split)

lemma split_on_none: "sep \<notin> set s \<Longrightarrow> split_on sep s = [s]"
  by (induction s) auto

lemma split_on_app: "sep \<notin> set p \<Longrightarrow> split_on sep (p @ sep # s) = p # split_on sep s"
  by (induction p) auto

text \<open>Joining the pieces with the separator gives the text back.\<close>

fun join_with :: "char \<Rightarrow> string list \<Rightarrow> string" where
  "join_with sep [] = []"
| "join_with sep [p] = p"
| "join_with sep (p # q # ps) = p @ sep # join_with sep (q # ps)"

lemma join_split: "join_with sep (split_on sep s) = s"
proof (induction s)
  case (Cons c s)
  obtain p ps where "split_on sep s = p # ps"
    using split_on_nonempty [of sep s] by (cases "split_on sep s") auto
  with Cons show ?case
    by (cases ps) auto
qed simp

text \<open>\<open>split_path\<close>: the segments between slashes that are not empty.\<close>

definition split_path :: "string \<Rightarrow> string list" where
  "split_path p = filter (\<lambda>s. s \<noteq> []) (split_on (CHR ''/'') p)"

text \<open>\<open>find(sep)\<close> as the text before and after its first occurrence.\<close>

fun split_first :: "char \<Rightarrow> string \<Rightarrow> (string \<times> string) option" where
  "split_first sep [] = None"
| "split_first sep (c # cs) =
     (if c = sep then Some ([], cs) else map_option (\<lambda>(a, b). (c # a, b)) (split_first sep cs))"

lemma split_first_None: "split_first sep s = None \<longleftrightarrow> sep \<notin> set s"
  by (induction s) auto

lemma split_first_app: "sep \<notin> set a \<Longrightarrow> split_first sep (a @ sep # b) = Some (a, b)"
  by (induction a) auto

section \<open>Escapes\<close>

definition hex_value :: "char \<Rightarrow> nat option" where
  "hex_value c =
     (if between (CHR ''0'') (CHR ''9'') c then Some (of_char c - 48)
      else if between (CHR ''a'') (CHR ''f'') c then Some (of_char c - 87)
      else if between (CHR ''A'') (CHR ''F'') c then Some (of_char c - 55) else None)"

definition is_space :: "char \<Rightarrow> bool" where
  "is_space c \<longleftrightarrow> of_char c = (32 :: nat) \<or> 9 \<le> (of_char c :: nat) \<and> (of_char c :: nat) \<le> 13"

text \<open>\<open>std::stoi(s, nullptr, 16)\<close> on two characters: spaces and one sign are skipped, and what
  follows the digits is ignored; \<^verbatim>\<open>None\<close> is the exception when there is no digit. The result is
  taken as an octet.\<close>

definition stoi_hex2 :: "char \<Rightarrow> char \<Rightarrow> char option" where
  "stoi_hex2 a b =
     (case hex_value a of
        Some x \<Rightarrow> Some (char_of (case hex_value b of Some y \<Rightarrow> 16 * x + y | None \<Rightarrow> x))
      | None \<Rightarrow>
          if is_space a \<or> a = CHR ''+'' then map_option char_of (hex_value b)
          else if a = CHR ''-'' then map_option (\<lambda>y. char_of (256 - y)) (hex_value b)
          else None)"

fun url_decode :: "string \<Rightarrow> string option" where
  "url_decode [] = Some []"
| "url_decode (c # cs) =
     (if c = CHR ''%'' then
        (case cs of
           a # b # rest \<Rightarrow>
             (case stoi_hex2 a b of None \<Rightarrow> None | Some d \<Rightarrow> map_option (\<lambda>s. d # s) (url_decode rest))
         | _ \<Rightarrow> map_option (\<lambda>s. c # s) (url_decode cs))
      else map_option (\<lambda>s. (if c = CHR ''+'' then CHR '' '' else c) # s) (url_decode cs))"

text \<open>The server's own reader of queries: an escape without two hexadecimal digits stays as it is.\<close>

fun percent_decode :: "string \<Rightarrow> string" where
  "percent_decode [] = []"
| "percent_decode (c # cs) =
     (case (c = CHR ''%'', cs) of
        (True, a # b # rest) \<Rightarrow>
          (case (hex_value a, hex_value b) of
             (Some x, Some y) \<Rightarrow> char_of (16 * x + y) # percent_decode rest
           | _ \<Rightarrow> c # percent_decode cs)
      | _ \<Rightarrow> (if c = CHR ''+'' then CHR '' '' else c) # percent_decode cs)"

definition is_alnum :: "char \<Rightarrow> bool" where
  "is_alnum c \<longleftrightarrow> between (CHR ''0'') (CHR ''9'') c \<or> between (CHR ''a'') (CHR ''z'') c \<or> between (CHR ''A'') (CHR ''Z'') c"

definition hex_digit :: "nat \<Rightarrow> char" where
  "hex_digit n = char_of (if n < 10 then 48 + n else 55 + n)"

definition form_escape :: "char \<Rightarrow> string" where
  "form_escape c =
     (if is_alnum c \<or> c \<in> set ''-_.~'' then [c]
      else if c = CHR '' '' then ''+''
      else [CHR ''%'', hex_digit (of_char c div 16), hex_digit (of_char c mod 16)])"

definition form_urlencode :: "string \<Rightarrow> string" where
  "form_urlencode s = concat (map form_escape s)"

section \<open>Forms and queries\<close>

text \<open>\<open>fields[k] = v\<close> for each pair in turn; a pair without \<open>=\<close> is skipped. Decoding can throw.\<close>

fun form_fields :: "string list \<Rightarrow> (string \<Rightarrow> string option) \<Rightarrow> (string \<Rightarrow> string option) option" where
  "form_fields [] f = Some f"
| "form_fields (p # ps) f =
     (case split_first (CHR ''='') p of
        None \<Rightarrow> form_fields ps f
      | Some (k, v) \<Rightarrow>
          (case (url_decode k, url_decode v) of
             (Some k', Some v') \<Rightarrow> form_fields ps (f(k' \<mapsto> v'))
           | _ \<Rightarrow> None))"

definition parse_form_urlencoded :: "string \<Rightarrow> (string \<Rightarrow> string option) option" where
  "parse_form_urlencoded body = form_fields (split_on (CHR ''&'') body) (\<lambda>_. None)"

definition query_of :: "string \<Rightarrow> string option" where
  "query_of path = map_option snd (split_first (CHR ''?'') path)"

definition path_only :: "string \<Rightarrow> string" where
  "path_only path = takeWhile (\<lambda>c. c \<noteq> CHR ''?'') path"

definition parse_query_string :: "string \<Rightarrow> (string \<times> string) list" where
  "parse_query_string path =
     (case query_of path of
        None \<Rightarrow> []
      | Some q \<Rightarrow>
          map (\<lambda>p. case split_first (CHR ''='') p of
                None \<Rightarrow> (percent_decode p, [])
              | Some (k, v) \<Rightarrow> (percent_decode k, percent_decode v))
            (filter (\<lambda>p. p \<noteq> []) (split_on (CHR ''&'') q)))"

section \<open>Reading back what was written\<close>

lemma hex_value_digit [simp]: "n < 16 \<Longrightarrow> hex_value (hex_digit n) = Some n"
  by (auto simp: hex_value_def hex_digit_def between_def)

lemma stoi_hex_digits: "stoi_hex2 (hex_digit (of_char c div 16)) (hex_digit (of_char c mod 16)) = Some c"
proof -
  have "(of_char c :: nat) div 16 < 16"
    using nat_of_char_less_256 [of c] by (simp add: less_mult_imp_div_less)
  then show ?thesis
    by (simp add: stoi_hex2_def)
qed

lemma decode_escape: "url_decode (form_escape c @ s) = map_option (\<lambda>t. c # t) (url_decode s)"
proof -
  consider "is_alnum c \<or> c \<in> set ''-_.~''" | "\<not> (is_alnum c \<or> c \<in> set ''-_.~'')" "c = CHR '' ''"
    | "\<not> (is_alnum c \<or> c \<in> set ''-_.~'')" "c \<noteq> CHR '' ''" by blast
  then show ?thesis
  proof cases
    case 1
    then have "c \<noteq> CHR ''%''" "c \<noteq> CHR ''+''" by (auto simp: is_alnum_def between_def)
    with 1 show ?thesis by (simp add: form_escape_def)
  next
    case 2
    then show ?thesis by (simp add: form_escape_def)
  next
    case 3
    then have "form_escape c = [CHR ''%'', hex_digit (of_char c div 16), hex_digit (of_char c mod 16)]"
      by (simp add: form_escape_def)
    then show ?thesis by (simp add: stoi_hex_digits)
  qed
qed

lemma url_decode_encode [simp]: "url_decode (form_urlencode s) = Some s"
  by (induction s) (simp_all add: form_urlencode_def decode_escape)

text \<open>An encoded text holds no separator.\<close>

lemma hex_digit_alnum: "n < 16 \<Longrightarrow> is_alnum (hex_digit n)"
  by (auto simp: is_alnum_def hex_digit_def between_def)

lemma form_escape_safe: "d \<in> set (form_escape c) \<Longrightarrow> is_alnum d \<or> d \<in> set ''-_.~+%''"
  using nat_of_char_less_256 [of c]
  by (auto simp: form_escape_def hex_digit_alnum less_mult_imp_div_less split: if_splits)

lemma form_urlencode_safe: "CHR ''&'' \<notin> set (form_urlencode s)" "CHR ''='' \<notin> set (form_urlencode s)"
proof -
  have "\<not> is_alnum (CHR ''&'')" "\<not> is_alnum (CHR ''='')"
    by (simp_all add: is_alnum_def between_def)
  then show "CHR ''&'' \<notin> set (form_urlencode s)" "CHR ''='' \<notin> set (form_urlencode s)"
    by (auto simp: form_urlencode_def dest!: form_escape_safe)
qed

text \<open>The body \<open>OAuth2Client::fetch_token\<close> sends.\<close>

definition token_request_body :: "string \<Rightarrow> string \<Rightarrow> string \<Rightarrow> string" where
  "token_request_body instance scope target =
     ''grant_type='' @ form_urlencode ''client_credentials'' @
     ''&nfInstanceId='' @ form_urlencode instance @
     ''&scope='' @ form_urlencode scope @
     ''&targetNfType='' @ form_urlencode target"

lemma form_fields_pair:
  assumes "CHR ''='' \<notin> set k" "url_decode k = Some k"
  shows "form_fields ((k @ CHR ''='' # form_urlencode v) # ps) f = form_fields ps (f(k \<mapsto> v))"
  by (simp add: split_first_app assms)

lemma parse_token_request:
  "parse_form_urlencoded (token_request_body instance scope target) =
     Some [''grant_type'' \<mapsto> ''client_credentials'', ''nfInstanceId'' \<mapsto> instance, ''scope'' \<mapsto> scope, ''targetNfType'' \<mapsto> target]"
proof -
  let ?p = "\<lambda>k v. k @ CHR ''='' # form_urlencode v"
  have body: "token_request_body instance scope target =
      ?p ''grant_type'' ''client_credentials'' @ CHR ''&'' # ?p ''nfInstanceId'' instance @ CHR ''&'' #
      ?p ''scope'' scope @ CHR ''&'' # ?p ''targetNfType'' target"
    by (simp add: token_request_body_def)
  have safe: "CHR ''&'' \<notin> set (?p k v)" if "CHR ''&'' \<notin> set k" for k v
    using that by (simp add: form_urlencode_safe)
  have pieces: "split_on (CHR ''&'') (token_request_body instance scope target) =
      [?p ''grant_type'' ''client_credentials'', ?p ''nfInstanceId'' instance, ?p ''scope'' scope, ?p ''targetNfType'' target]"
    unfolding body
    by (subst split_on_app, rule safe, simp)+ (subst split_on_none, rule safe, simp, rule refl)
  show ?thesis
    unfolding parse_form_urlencoded_def pieces
    by (subst form_fields_pair, simp, simp)+ simp
qed

text \<open>The NRF reads the token client's request as it was meant: each of the four fields
  with exactly its value, whatever characters the values hold, and no other field.\<close>

theorem token_request_roundtrip:
  "parse_form_urlencoded (token_request_body instance scope target) =
     Some [''grant_type'' \<mapsto> ''client_credentials'', ''nfInstanceId'' \<mapsto> instance, ''scope'' \<mapsto> scope, ''targetNfType'' \<mapsto> target]"
  by (rule parse_token_request)

end
