(* ===== verification/Nrf_Authorization.thy ===== *)
theory Nrf_Authorization
  imports Nrf_Registry Sbi_Text
begin

text \<open>
  Who may discover and who may use a service (\<open>nfs/nrf/src/discovery_authz.cpp\<close>,
  \<open>nfs/nrf/src/token_authz.cpp\<close>) and the token endpoint of \<open>nfs/nrf/src/main.cpp\<close>. What
  the code takes from outside the repository is the record \<^verbatim>\<open>json_lib\<close>: equality of JSON values, the
  value a floating number out of range converts to, and the search for a pattern written in a profile
  (\<^verbatim>\<open>None\<close> when the pattern is not a regular expression). \<^verbatim>\<open>None\<close> as a result is an exception.
\<close>

section \<open>Requesters and lists\<close>

record json_lib =
  lib_equal :: json_eq
  lib_out_of_range :: "double \<Rightarrow> int"
  lib_search :: "string \<Rightarrow> string \<Rightarrow> bool option"

record requester =
  rq_nf_type :: "string option"
  rq_plmns :: json
  rq_snssais :: json
  rq_fqdn :: "string option"

text \<open>\<open>value(key, -1)\<close>: any number or truth value as a 32-bit integer.\<close>

fun get_int32 :: "json_lib \<Rightarrow> json \<Rightarrow> 32 word option" where
  "get_int32 L (JInt w) = Some (ucast w)"
| "get_int32 L (JUnsigned w) = Some (ucast w)"
| "get_int32 L (JFloat d) =
     Some (word_of_int (case d_to_signed 32 d of Some n \<Rightarrow> n | None \<Rightarrow> lib_out_of_range L d))"
| "get_int32 L (JBool b) = Some (if b then 1 else 0)"
| "get_int32 L _ = None"

definition value_int32 :: "json_lib \<Rightarrow> json \<Rightarrow> string \<Rightarrow> 32 word \<Rightarrow> 32 word option" where
  "value_int32 L j k d =
     (if \<not> is_object j then None else case member j k of None \<Rightarrow> Some d | Some v \<Rightarrow> get_int32 L v)"

definition plmn_eq :: "json \<Rightarrow> json \<Rightarrow> bool option" where
  "plmn_eq a b =
     (if \<not> (is_object a \<and> is_object b) then Some False
      else (case (value_string a ''mcc'' [], value_string b ''mcc'' ''#'') of
          (Some x, Some y) \<Rightarrow>
            if x \<noteq> y then Some False
            else (case (value_string a ''mnc'' [], value_string b ''mnc'' ''#'') of
                (Some x, Some y) \<Rightarrow> Some (x = y) | _ \<Rightarrow> None)
        | _ \<Rightarrow> None))"

definition snssai_eq :: "json_lib \<Rightarrow> json \<Rightarrow> json \<Rightarrow> bool option" where
  "snssai_eq L a b =
     (if \<not> is_object a \<or> \<not> is_object b then Some False
      else (case member a ''sst'' of
          None \<Rightarrow> Some False
        | Some sst \<Rightarrow>
            (case value_int32 L b ''sst'' (- 1) of
               None \<Rightarrow> None
             | Some n \<Rightarrow>
                 if \<not> lib_equal L sst (JInt (scast n)) then Some False
                 else (case (member a ''sd'', member b ''sd'') of
                     (None, None) \<Rightarrow> Some True
                   | (Some x, Some y) \<Rightarrow> Some (lib_equal L x y)
                   | _ \<Rightarrow> Some False))))"

definition array_at :: "json \<Rightarrow> string \<Rightarrow> json list option" where
  "array_at j k = (case member j k of Some (JArray xs) \<Rightarrow> Some xs | _ \<Rightarrow> None)"

definition list_of :: "json \<Rightarrow> json \<Rightarrow> string \<Rightarrow> json list option" where
  "list_of service profile k =
     (case array_at service k of Some xs \<Rightarrow> Some xs | None \<Rightarrow> array_at profile k)"

section \<open>Allowed\<close>

text \<open>The four lists. Each answers whether the requester passes it.\<close>

definition allowed_type :: "requester \<Rightarrow> json list \<Rightarrow> bool option" where
  "allowed_type r types =
     (case rq_nf_type r of None \<Rightarrow> Some False
      | Some t \<Rightarrow> Some (list_ex (\<lambda>j. get_string j = Some t) types))"

definition allowed_domain :: "json_lib \<Rightarrow> requester \<Rightarrow> json list \<Rightarrow> bool option" where
  "allowed_domain L r domains =
     (case rq_fqdn r of None \<Rightarrow> Some False
      | Some name \<Rightarrow>
          Some (list_ex (\<lambda>d. case get_string d of Some pat \<Rightarrow> lib_search L pat name = Some True | None \<Rightarrow> False) domains))"

definition allowed_plmn :: "json \<Rightarrow> requester \<Rightarrow> json list \<Rightarrow> bool option" where
  "allowed_plmn profile r plmns =
     (case rq_plmns r of
        JArray (x # xs) \<Rightarrow>
          any_m (\<lambda>(rp, p). plmn_eq rp p)
            (concat (map (\<lambda>rp. map (Pair rp) (plmns @ array_member profile ''plmnList'')) (x # xs)))
      | _ \<Rightarrow> Some False)"

definition allowed_nssai :: "json_lib \<Rightarrow> requester \<Rightarrow> json list \<Rightarrow> bool option" where
  "allowed_nssai L r nssais =
     (case rq_snssais r of
        JArray (x # xs) \<Rightarrow>
          any_m (\<lambda>(rs, s). snssai_eq L rs s) (concat (map (\<lambda>rs. map (Pair rs) nssais) (x # xs)))
      | _ \<Rightarrow> Some False)"

text \<open>A list that is there must be passed before the next is looked at.\<close>

definition passes :: "json list option \<Rightarrow> (json list \<Rightarrow> bool option) \<Rightarrow> bool option \<Rightarrow> bool option" where
  "passes xs test rest =
     (case xs of None \<Rightarrow> rest
      | Some l \<Rightarrow> (case test l of None \<Rightarrow> None | Some True \<Rightarrow> rest | Some False \<Rightarrow> Some False))"

definition allowed :: "json_lib \<Rightarrow> json \<Rightarrow> json \<Rightarrow> requester \<Rightarrow> bool option" where
  "allowed L service profile r =
     passes (list_of service profile ''allowedNfTypes'') (allowed_type r)
    (passes (list_of service profile ''allowedNfDomains'') (allowed_domain L r)
    (passes (list_of service profile ''allowedPlmns'') (allowed_plmn profile r)
    (passes (list_of service profile ''allowedNssais'') (allowed_nssai L r) (Some True))))"

definition profile_discoverable_by :: "json_lib \<Rightarrow> json \<Rightarrow> requester \<Rightarrow> bool option" where
  "profile_discoverable_by L profile r =
     (case member profile ''nfServices'' of
        Some svcs \<Rightarrow>
          if elements svcs \<noteq> [] then any_m (\<lambda>s. allowed L s profile r) (elements svcs)
          else allowed L JNull profile r
      | None \<Rightarrow> allowed L JNull profile r)"

text \<open>The services a profile lists, in either place, in the order they are tried.\<close>

definition listed_services :: "json \<Rightarrow> json list" where
  "listed_services profile =
     concat (map (\<lambda>k. case member profile k of Some svcs \<Rightarrow> elements svcs | None \<Rightarrow> []) [''nfServiceList'', ''nfServices''])"

definition service_matches :: "json_lib \<Rightarrow> json \<Rightarrow> string \<Rightarrow> requester \<Rightarrow> json \<Rightarrow> bool option" where
  "service_matches L profile name r s =
     (if \<not> is_object s then Some False
      else (case value_string s ''serviceName'' [] of
          None \<Rightarrow> None
        | Some n \<Rightarrow> if n = name then allowed L s profile r else Some False))"

definition service_authorized_for :: "json_lib \<Rightarrow> json \<Rightarrow> string \<Rightarrow> requester \<Rightarrow> bool option" where
  "service_authorized_for L profile name r =
     (case any_m (service_matches L profile name r) (listed_services profile) of
        None \<Rightarrow> None
      | Some True \<Rightarrow> Some True
      | Some False \<Rightarrow> if listed_services profile \<noteq> [] then Some False else allowed L JNull profile r)"

section \<open>Token requests\<close>

type_synonym form = "string \<Rightarrow> string option"

record tls_peer =
  cert_cn :: string
  cert_dns_names :: "string list"

text \<open>The error word of a refusal; the description is for the log.\<close>

datatype token_decision = Authorized | Refused string

definition check_token_request_form :: "form \<Rightarrow> token_decision" where
  "check_token_request_form f =
     (case f ''grant_type'' of
        None \<Rightarrow> Refused ''invalid_request''
      | Some g \<Rightarrow>
          if g \<noteq> ''client_credentials'' then Refused ''unsupported_grant_type''
          else (case (f ''nfInstanceId'', f ''scope'') of
              (Some _, Some sc) \<Rightarrow> if sc = [] then Refused ''invalid_request'' else Authorized
            | _ \<Rightarrow> Refused ''invalid_request''))"

definition lower :: "string \<Rightarrow> string" where
  "lower s = map to_lower s"

text \<open>\<open>words >> s\<close> until the end of the text.\<close>

function words_of :: "string \<Rightarrow> string list" where
  "words_of s =
     (case dropWhile is_space s of
        [] \<Rightarrow> []
      | c # t \<Rightarrow> (c # takeWhile (\<lambda>d. \<not> is_space d) t) # words_of (dropWhile (\<lambda>d. \<not> is_space d) t))"
  by pat_completeness auto

termination
proof (relation "measure length")
  fix s c t assume "dropWhile is_space s = c # t"
  then have "length (c # t) \<le> length s"
    by (metis length_dropWhile_le)
  then show "(dropWhile (\<lambda>d. \<not> is_space d) t, s) \<in> measure length"
    using length_dropWhile_le [of "\<lambda>d. \<not> is_space d" t] by simp
qed simp

declare words_of.simps [simp del]

definition requester_of :: "json \<Rightarrow> string \<Rightarrow> requester" where
  "requester_of profile t =
     \<lparr>rq_nf_type = Some t,
      rq_plmns = value_or JNull (member profile ''plmnList''), rq_snssais = value_or JNull (member profile ''sNssais''),
      rq_fqdn = string_member profile ''fqdn''\<rparr>"

text \<open>The check of one requested scope: a resource or operation scope passes unseen.\<close>

definition scope_ok :: "json_lib \<Rightarrow> json list \<Rightarrow> requester \<Rightarrow> string \<Rightarrow> bool option" where
  "scope_ok L producers who s =
     (if CHR '':'' \<in> set s then Some True else any_m (\<lambda>p. service_authorized_for L p s who) producers)"

fun all_scopes :: "(string \<Rightarrow> bool option) \<Rightarrow> string list \<Rightarrow> token_decision option" where
  "all_scopes ok [] = Some Authorized"
| "all_scopes ok (s # ss) =
     (case ok s of None \<Rightarrow> None | Some False \<Rightarrow> Some (Refused ''invalid_scope'') | Some True \<Rightarrow> all_scopes ok ss)"

definition authorize_token_request ::
  "json_lib \<Rightarrow> form \<Rightarrow> tls_peer \<Rightarrow> nf_registry \<Rightarrow> token_decision option" where
  "authorize_token_request L f peer r =
     (case check_token_request_form f of
        Refused e \<Rightarrow> Some (Refused e)
      | Authorized \<Rightarrow>
          (case Option.bind (f ''nfInstanceId'') (\<lambda>i. get_profile i r) of
             None \<Rightarrow> Some (Refused ''invalid_client'')
           | Some profile \<Rightarrow>
               (case string_member profile ''nfType'' of
                  None \<Rightarrow> Some (Refused ''invalid_client'')
                | Some t \<Rightarrow>
                    if f ''nfType'' \<noteq> None \<and> f ''nfType'' \<noteq> Some t then Some (Refused ''invalid_client'')
                    else if lower (cert_cn peer) \<noteq> lower t \<and> \<not> list_ex (\<lambda>n. lower n = lower t) (cert_dns_names peer)
                    then Some (Refused ''invalid_client'')
                    else (let target = value_or ''NRF'' (f ''targetNfType'') in
                      if target = ''NRF'' then Some Authorized
                      else (case search_by_type target r of
                          None \<Rightarrow> None
                        | Some producers \<Rightarrow>
                            all_scopes (scope_ok L producers (requester_of profile t)) (words_of (value_or [] (f ''scope'')))))))) "

section \<open>The token endpoint\<close>

record token_claims =
  tc_sub :: string
  tc_aud :: string
  tc_scope :: string

datatype token_answer = Token_error string | Token_issued token_claims

text \<open>The handler of \<open>POST /oauth2/token\<close>; the switch turns the check of the requester on.\<close>

definition post_token :: "json_lib \<Rightarrow> bool \<Rightarrow> string \<Rightarrow> tls_peer \<Rightarrow> nf_registry \<Rightarrow> token_answer option" where
  "post_token L authorization body peer r =
     (case parse_form_urlencoded body of
        None \<Rightarrow> None
      | Some f \<Rightarrow>
          (case (if authorization then authorize_token_request L f peer r else Some (check_token_request_form f)) of
             None \<Rightarrow> None
           | Some (Refused e) \<Rightarrow> Some (Token_error e)
           | Some Authorized \<Rightarrow>
               Some (Token_issued \<lparr>tc_sub = value_or [] (f ''nfInstanceId''), tc_aud = value_or ''NRF'' (f ''targetNfType''),
                  tc_scope = value_or [] (f ''scope'')\<rparr>)))"

text \<open>The handler of \<open>GET /nf-instances\<close> of discovery, from the parsed query on.\<close>

definition discover :: "json_lib \<Rightarrow> string \<Rightarrow> requester \<Rightarrow> nf_registry \<Rightarrow> json list option" where
  "discover L target who r =
     (case search_by_type target r of
        None \<Rightarrow> None | Some ps \<Rightarrow> filter_m (\<lambda>p. profile_discoverable_by L p who) ps)"

section \<open>Words\<close>

lemma words_of_spaces: "list_all is_space p \<Longrightarrow> words_of (p @ s) = words_of s"
  by (subst (1 2) words_of.simps) (simp add: list_all_iff dropWhile_append2)

lemma words_of_Nil [simp]: "words_of [] = []"
  by (subst words_of.simps) simp

lemma words_of_Cons: "\<not> is_space c \<Longrightarrow>
    words_of (c # t) = (c # takeWhile (\<lambda>d. \<not> is_space d) t) # words_of (dropWhile (\<lambda>d. \<not> is_space d) t)"
  by (subst words_of.simps) simp

lemma words_of_app:
  assumes "is_space c"
  shows "words_of (p @ c # s) = words_of p @ words_of s"
proof (induction p rule: words_of.induct)
  case (1 p)
  show ?case
  proof (cases "dropWhile is_space p")
    case Nil
    then have sp: "list_all is_space p"
      by (simp add: dropWhile_eq_Nil_conv list_all_iff)
    then have "words_of p = []"
      using words_of_spaces [of p "[]"] by simp
    moreover have "words_of (p @ c # s) = words_of s"
      using words_of_spaces [of "p @ [c]" s] sp assms by simp
    ultimately show ?thesis by simp
  next
    case (Cons a t)
    have na: "\<not> is_space a"
      using Cons by (metis dropWhile_eq_Cons_conv)
    obtain q where p: "p = q @ a # t" "list_all is_space q"
      using takeWhile_dropWhile_id [of is_space p] Cons by (metis list_all_iff set_takeWhileD)
    have l: "words_of (p @ c # s) = words_of (a # t @ c # s)" "words_of p = words_of (a # t)"
      unfolding p(1) using words_of_spaces [OF p(2)] by simp_all
    show ?thesis
    proof (cases "list_all (\<lambda>d. \<not> is_space d) t")
      case True
      then have t: "takeWhile (\<lambda>d. \<not> is_space d) (t @ c # s) = t" "dropWhile (\<lambda>d. \<not> is_space d) (t @ c # s) = c # s"
          "takeWhile (\<lambda>d. \<not> is_space d) t = t" "dropWhile (\<lambda>d. \<not> is_space d) t = []"
        using assms by (induction t) auto
      show ?thesis
        unfolding l words_of_Cons [OF na] t using words_of_spaces [of "[c]" s] assms by simp
    next
      case False
      then have t: "takeWhile (\<lambda>d. \<not> is_space d) (t @ c # s) = takeWhile (\<lambda>d. \<not> is_space d) t"
          "dropWhile (\<lambda>d. \<not> is_space d) (t @ c # s) = dropWhile (\<lambda>d. \<not> is_space d) t @ c # s"
        by (induction t) auto
      show ?thesis
        unfolding l words_of_Cons [OF na] t using 1 [OF Cons] by simp
    qed
  qed
qed

lemma take_word: "list_all (\<lambda>c. \<not> is_space c) t \<Longrightarrow>
    takeWhile (\<lambda>d. \<not> is_space d) t = t \<and> dropWhile (\<lambda>d. \<not> is_space d) t = []"
  by (induction t) auto

lemma word_of_itself: "w \<noteq> [] \<Longrightarrow> list_all (\<lambda>c. \<not> is_space c) w \<Longrightarrow> words_of w = [w]"
  by (cases w) (simp_all add: words_of_Cons take_word)

text \<open>A piece between blanks that holds no other white space is one of the words.\<close>

lemma piece_is_word:
  assumes "w \<in> set (split_on (CHR '' '') s)" "w \<noteq> []" "list_all (\<lambda>c. \<not> is_space c) w"
  shows "w \<in> set (words_of s)"
proof -
  have sp: "is_space (CHR '' '')" by (simp add: is_space_def)
  have "words_of (join_with (CHR '' '') ps) = concat (map words_of ps)" for ps
    by (induction ps rule: induct_list012) (simp_all add: words_of_app [OF sp])
  from this [of "split_on (CHR '' '') s"] have "words_of s = concat (map words_of (split_on (CHR '' '') s))"
    by (simp only: join_split)
  then show ?thesis
    using assms(1) word_of_itself [OF assms(2,3)] by (auto intro!: bexI [of _ w])
qed

section \<open>What an authorization rests on\<close>

lemma passes_True: "passes xs test rest = Some True \<longleftrightarrow> rest = Some True \<and> (\<forall>l. xs = Some l \<longrightarrow> test l = Some True)"
  by (auto simp: passes_def split: option.split bool.split)

lemma all_scopes_Authorized: "all_scopes ok ss = Some Authorized \<longleftrightarrow> (\<forall>s \<in> set ss. ok s = Some True)"
  by (induction ss) (auto split: option.split bool.split)

text \<open>A service is offered to a requester.\<close>

definition offered :: "json_lib \<Rightarrow> json \<Rightarrow> string \<Rightarrow> requester \<Rightarrow> bool" where
  "offered L profile name who \<longleftrightarrow>
     (\<exists>s \<in> set (listed_services profile). value_string s ''serviceName'' [] = Some name \<and> allowed L s profile who = Some True) \<or>
     listed_services profile = [] \<and> allowed L JNull profile who = Some True"

lemma service_authorized_offered:
  assumes "service_authorized_for L profile name who = Some True"
  shows "offered L profile name who"
proof (cases "any_m (service_matches L profile name who) (listed_services profile) = Some True")
  case True
  then obtain s where "s \<in> set (listed_services profile)" "service_matches L profile name who s = Some True"
    by (blast dest: any_m_TrueD)
  then show ?thesis
    by (auto simp: offered_def service_matches_def split: if_splits option.splits)
next
  case False
  with assms show ?thesis
    by (auto simp: offered_def service_authorized_for_def split: option.splits bool.splits if_splits)
qed

lemma authorized_token_request:
  assumes "authorize_token_request L f peer r = Some Authorized"
  obtains i profile t scope where
    "f ''nfInstanceId'' = Some i" "f ''scope'' = Some scope" "get_profile i r = Some profile" "string_member profile ''nfType'' = Some t"
    "lower (cert_cn peer) = lower t \<or> (\<exists>n \<in> set (cert_dns_names peer). lower n = lower t)"
    "\<And>target. f ''targetNfType'' = Some target \<Longrightarrow> target \<noteq> ''NRF'' \<Longrightarrow>
      \<exists>producers. search_by_type target r = Some producers \<and>
        (\<forall>s \<in> set (words_of scope). CHR '':'' \<notin> set s \<longrightarrow> (\<exists>p \<in> set producers. offered L p s (requester_of profile t)))"
proof -
  have form: "check_token_request_form f = Authorized"
    using assms by (auto simp: authorize_token_request_def split: token_decision.splits)
  then obtain i scope where f: "f ''nfInstanceId'' = Some i" "f ''scope'' = Some scope"
    by (auto simp: check_token_request_form_def split: option.splits if_splits)
  obtain profile t where p: "get_profile i r = Some profile" "string_member profile ''nfType'' = Some t"
    using assms by (auto simp: authorize_token_request_def form f split: option.splits)
  have cert: "lower (cert_cn peer) = lower t \<or> (\<exists>n \<in> set (cert_dns_names peer). lower n = lower t)"
    using assms by (auto simp: authorize_token_request_def form f p list_ex_iff split: if_splits)
  have "\<exists>producers. search_by_type target r = Some producers \<and>
        (\<forall>s \<in> set (words_of scope). CHR '':'' \<notin> set s \<longrightarrow> (\<exists>p \<in> set producers. offered L p s (requester_of profile t)))"
    if target: "f ''targetNfType'' = Some target" "target \<noteq> ''NRF''" for target
  proof -
    have "(case search_by_type target r of None \<Rightarrow> None
        | Some producers \<Rightarrow> all_scopes (scope_ok L producers (requester_of profile t)) (words_of scope)) = Some Authorized"
      using assms target by (simp add: authorize_token_request_def form f p split: if_splits cong: option.case_cong)
    then obtain producers where "search_by_type target r = Some producers"
        "\<forall>s \<in> set (words_of scope). scope_ok L producers (requester_of profile t) s = Some True"
      by (auto simp: all_scopes_Authorized split: option.splits)
    then show ?thesis
      by (fastforce simp: scope_ok_def dest!: any_m_TrueD dest: service_authorized_offered split: if_splits)
  qed
  from that [OF f p cert this] show ?thesis .
qed

text \<open>Property C21: an allowed requester satisfies every restriction. Whenever the check admits a requester to
  a service, each of the four lists that applies, the service's own where it has one and the profile's
  otherwise, names the requester's type, its domain, one of its networks (or one of the producer's own) or
  one of its slices.\<close>

theorem allowed_meets_every_list:
  assumes "allowed L service profile who = Some True"
  shows "(\<forall>types. list_of service profile ''allowedNfTypes'' = Some types \<longrightarrow>
        (\<exists>t. rq_nf_type who = Some t \<and> JString t \<in> set types)) \<and>
    (\<forall>domains. list_of service profile ''allowedNfDomains'' = Some domains \<longrightarrow>
        (\<exists>name pat. rq_fqdn who = Some name \<and> JString pat \<in> set domains \<and> lib_search L pat name = Some True)) \<and>
    (\<forall>plmns. list_of service profile ''allowedPlmns'' = Some plmns \<longrightarrow>
        (\<exists>own. rq_plmns who = JArray own \<and>
          (\<exists>a \<in> set own. \<exists>b \<in> set plmns \<union> set (array_member profile ''plmnList''). plmn_eq a b = Some True))) \<and>
    (\<forall>nssais. list_of service profile ''allowedNssais'' = Some nssais \<longrightarrow>
        (\<exists>own. rq_snssais who = JArray own \<and> (\<exists>a \<in> set own. \<exists>b \<in> set nssais. snssai_eq L a b = Some True)))"
proof -
  have str: "get_string j = Some t \<longleftrightarrow> j = JString t" for j t by (cases j) auto
  note all = assms [unfolded allowed_def passes_True]
  show ?thesis
  proof (intro conjI allI impI)
    fix types assume "list_of service profile ''allowedNfTypes'' = Some types"
    with all show "\<exists>t. rq_nf_type who = Some t \<and> JString t \<in> set types"
      by (auto simp: allowed_type_def list_ex_iff str split: option.splits)
  next
    fix domains assume "list_of service profile ''allowedNfDomains'' = Some domains"
    with all show "\<exists>name pat. rq_fqdn who = Some name \<and> JString pat \<in> set domains \<and> lib_search L pat name = Some True"
      by (fastforce simp: allowed_domain_def list_ex_iff str split: option.splits)
  next
    fix plmns assume "list_of service profile ''allowedPlmns'' = Some plmns"
    with all have "allowed_plmn profile who plmns = Some True" by blast
    then show "\<exists>own. rq_plmns who = JArray own \<and>
          (\<exists>a \<in> set own. \<exists>b \<in> set plmns \<union> set (array_member profile ''plmnList''). plmn_eq a b = Some True)"
      by (auto simp: allowed_plmn_def split: json.splits list.splits dest!: any_m_TrueD)
  next
    fix nssais assume "list_of service profile ''allowedNssais'' = Some nssais"
    with all have "allowed_nssai L who nssais = Some True" by blast
    then show "\<exists>own. rq_snssais who = JArray own \<and> (\<exists>a \<in> set own. \<exists>b \<in> set nssais. snssai_eq L a b = Some True)"
      by (auto simp: allowed_nssai_def split: json.splits list.splits dest!: any_m_TrueD)
  qed
qed

definition demo_lib :: json_lib where
  "demo_lib = \<lparr>lib_equal = (=), lib_out_of_range = (\<lambda>_. 0), lib_search = (\<lambda>pat s. Some (pat = s))\<rparr>"

definition demo_udm :: json where
  "demo_udm =
     JObject [(''nfServices'', JArray [JObject [(''allowedNfTypes'', JArray [JString ''AMF'']), (''serviceName'', JString ''nudm-sdm'')]]),
       (''nfType'', JString ''UDM'')]"

definition demo_service :: json where
  "demo_service = JObject [(''allowedNfTypes'', JArray [JString ''AMF'']), (''serviceName'', JString ''nudm-sdm'')]"

definition demo_amf :: json where
  "demo_amf = JObject [(''nfType'', JString ''AMF'')]"

theorem allowed_meets_every_list_witness:
  "\<exists>t. rq_nf_type (requester_of demo_amf ''AMF'') = Some t \<and> JString t \<in> set [JString ''AMF'']"
proof -
  have "allowed demo_lib demo_service demo_udm (requester_of demo_amf ''AMF'') = Some True"
    by code_simp
  note this [THEN allowed_meets_every_list, THEN conjunct1]
  moreover have "list_of demo_service demo_udm ''allowedNfTypes'' = Some [JString ''AMF'']"
    by code_simp
  ultimately show ?thesis by blast
qed

end
