(* ===== verification/Registry_Life.thy ===== *)
theory Registry_Life
  imports Nrf_Registry
begin

text \<open>
  The registry over time: registrations, updates, deregistrations and sweeps in the order in which
  their critical sections run. \<^verbatim>\<open>None\<close> is arithmetic that C++ leaves undefined; a request that throws
  leaves the registry as it is.
\<close>

datatype registry_event =
    Ev_register int string json nf_subscriptions
  | Ev_patch int string json
  | Ev_deregister string
  | Ev_sweep int int

text \<open>The handler of \<open>PATCH /nf-instances/{id}\<close> counts as a heartbeat once the patch is applied.\<close>

fun apply_event :: "(json \<Rightarrow> json \<Rightarrow> json option) \<Rightarrow> registry_event \<Rightarrow> nf_registry \<Rightarrow> nf_registry option" where
  "apply_event patch (Ev_register now i profile s) r = map_option snd (register_instance now i profile s r)"
| "apply_event patch (Ev_patch now i ops) r =
     (case apply_patch patch i ops r of
        Some (Some _, r') \<Rightarrow> Some (touch_heartbeat now i r')
      | _ \<Rightarrow> Some r)"
| "apply_event patch (Ev_deregister i) r = Some (snd (remove_profile i r))"
| "apply_event patch (Ev_sweep margin now) r = map_option snd (sweep_expired margin now r)"

fun run_events :: "(json \<Rightarrow> json \<Rightarrow> json option) \<Rightarrow> registry_event list \<Rightarrow> nf_registry \<Rightarrow> nf_registry option" where
  "run_events patch [] r = Some r"
| "run_events patch (e # es) r = Option.bind (apply_event patch e r) (run_events patch es)"

section \<open>Well-formedness\<close>

text \<open>No identifier is registered twice, and every registered function has a time of its last sign of life.\<close>

definition well_formed :: "nf_registry \<Rightarrow> bool" where
  "well_formed r \<longleftrightarrow>
     distinct (map fst (profiles r)) \<and> distinct (map fst (last_heartbeat r)) \<and>
     fst ` set (profiles r) \<subseteq> fst ` set (last_heartbeat r)"

lemma well_formed_empty: "well_formed empty_registry"
  by (simp add: well_formed_def empty_registry_def)

lemma keys_delete: "fst ` set (AList.delete k xs) = fst ` set xs - {k}"
  using arg_cong [OF delete_keys [of k xs], of set] by simp

lemma well_formed_put: "well_formed r \<Longrightarrow> well_formed (snd (put_profile now i p r))"
  by (auto simp: well_formed_def put_profile_def distinct_update dom_update)

lemma well_formed_sweep:
  assumes "well_formed r" "sweep_expired margin now r = Some (ids, r')"
  shows "well_formed r'"
proof -
  have r': "profiles r' = filter (\<lambda>ip. fst ip \<notin> set ids) (profiles r)"
    "last_heartbeat r' = filter (\<lambda>il. fst il \<notin> set ids) (last_heartbeat r)"
    using assms(2) by (auto simp: sweep_expired_def Let_def split: option.splits)
  have "i \<in> fst ` set (last_heartbeat r')" if "(i, p) \<in> set (profiles r')" for i p
  proof -
    from that have i: "(i, p) \<in> set (profiles r)" "i \<notin> set ids"
      by (auto simp: r')
    then obtain l where "(i, l) \<in> set (last_heartbeat r)"
      using assms(1) by (force simp: well_formed_def)
    with i(2) show ?thesis by (force simp: r')
  qed
  then have "fst ` set (profiles r') \<subseteq> fst ` set (last_heartbeat r')"
    by (auto simp: image_subset_iff)
  then show ?thesis
    using assms(1) by (auto simp: well_formed_def r' distinct_map_filter)
qed

lemma well_formed_patch:
  assumes "well_formed r" "apply_patch patch i ops r = Some (Some p, r')"
  shows "well_formed (touch_heartbeat now i r')"
proof -
  have "r' = r \<lparr>profiles := AList.update i p (profiles r)\<rparr>" "i \<in> fst ` set (profiles r)"
    using assms(2) by (auto simp: apply_patch_def split: option.splits dest!: map_of_SomeD intro: rev_image_eqI)
  then show ?thesis
    using assms(1) by (auto simp: well_formed_def touch_heartbeat_def distinct_update dom_update)
qed

lemma well_formed_remove: "well_formed r \<Longrightarrow> well_formed (snd (remove_profile i r))"
  by (auto simp: well_formed_def remove_profile_def distinct_delete keys_delete)

lemma register_registry: "register_instance now i p s r = Some (code, r') \<Longrightarrow> r' = r \<or> r' = snd (put_profile now i p r)"
  by (auto simp: register_instance_def split: if_splits option.splits prod.splits)

lemma well_formed_event: "well_formed r \<Longrightarrow> apply_event patch e r = Some r' \<Longrightarrow> well_formed r'"
proof (cases e)
  case (Ev_register now i p s)
  assume "well_formed r" "apply_event patch e r = Some r'"
  then show ?thesis
    using register_registry well_formed_put by (fastforce simp: Ev_register)
qed (auto intro: well_formed_remove well_formed_sweep well_formed_patch split: option.splits)

text \<open>Property C20: the registry stays well-formed. After any events no function is registered twice and for
  every registered function the time of its last sign of life is known, so that the sweep never takes
  its default.\<close>

theorem registry_well_formed:
  assumes "run_events patch es empty_registry = Some r"
  shows "well_formed r"
proof -
  have "well_formed r" if "run_events patch es s = Some r" "well_formed s" for s
    using that by (induction es arbitrary: s) (auto simp: Option.bind_eq_Some_conv dest: well_formed_event)
  then show ?thesis using assms well_formed_empty by blast
qed

section \<open>Silence\<close>

text \<open>Events that are a sign of life of \<open>i\<close>, and events that end its registration.\<close>

fun sign_of_life :: "string \<Rightarrow> registry_event \<Rightarrow> bool" where
  "sign_of_life i (Ev_register _ j _ _) = (j = i)"
| "sign_of_life i (Ev_patch _ j _) = (j = i)"
| "sign_of_life i _ = False"

fun ends_registration :: "string \<Rightarrow> json \<Rightarrow> int \<Rightarrow> registry_event \<Rightarrow> bool" where
  "ends_registration i p seen (Ev_deregister j) = (j = i)"
| "ends_registration i p seen (Ev_sweep margin now) =
     (case member p ''heartBeatTimer'' of
        Some v \<Rightarrow> is_number v \<and> now - seen > (the (number_int64 v) + margin) * 10 ^ 9
      | None \<Rightarrow> False)"
| "ends_registration i p seen _ = False"

lemma map_of_put: "map_of (profiles (snd (put_profile now j p r))) i = (if i = j then Some p else map_of (profiles r) i)"
    "map_of (last_heartbeat (snd (put_profile now j p r))) i = (if i = j then Some now else map_of (last_heartbeat r) i)"
  by (simp_all add: put_profile_def update_conv')

lemma sweep_event:
  assumes "sweep_expired margin now r = Some (ids, r')" "well_formed r" "get_profile i r = Some p"
    "map_of (last_heartbeat r) i = Some seen"
  shows "get_profile i r' = (if ends_registration i p seen (Ev_sweep margin now) then None else Some p)"
    "\<not> ends_registration i p seen (Ev_sweep margin now) \<Longrightarrow> map_of (last_heartbeat r') i = Some seen"
proof -
  have dist: "distinct (map fst (profiles r))"
    using assms(2) by (simp add: well_formed_def)
  have ids: "i \<in> set ids \<longleftrightarrow> ends_registration i p seen (Ev_sweep margin now)"
    using expired_ids(1,2) [OF assms(1) dist assms(3)] assms(4)
    by (cases "member p ''heartBeatTimer''") (auto simp: profile_expired_def Let_def split: option.splits if_splits)
  show "get_profile i r' = (if ends_registration i p seen (Ev_sweep margin now) then None else Some p)"
    using expired_ids(3) [OF assms(1) dist assms(3)] by (simp only: ids)
  have "last_heartbeat r' = filter (\<lambda>il. fst il \<notin> set ids) (last_heartbeat r)"
    using assms(1) by (auto simp: sweep_expired_def Let_def split: option.splits)
  then show "map_of (last_heartbeat r') i = Some seen" if "\<not> ends_registration i p seen (Ev_sweep margin now)"
    using that ids assms(4) by (simp add: map_of_filter_keys)
qed

lemma other_event:
  assumes "apply_event patch e r = Some r'" "\<not> sign_of_life i e" "well_formed r" "get_profile i r = Some p"
    "map_of (last_heartbeat r) i = Some seen"
  shows "get_profile i r' = (if ends_registration i p seen e then None else Some p) \<and>
    (ends_registration i p seen e \<or> map_of (last_heartbeat r') i = Some seen)"
proof (cases e)
  case (Ev_register now j q s)
  then obtain code where "register_instance now j q s r = Some (code, r')"
    using assms(1) by auto
  then show ?thesis
    using register_registry [of now j q s r code r'] assms(2,4,5)
    by (auto simp: Ev_register get_profile_def map_of_put)
next
  case (Ev_patch now j ops)
  then show ?thesis
    using assms(1,2,4,5)
    by (auto simp: apply_patch_def touch_heartbeat_def get_profile_def update_conv' split: option.splits)
next
  case (Ev_deregister j)
  then show ?thesis
    using assms(1,4,5) by (auto simp: remove_profile_def get_profile_def delete_conv')
next
  case (Ev_sweep margin now)
  then obtain ids where "sweep_expired margin now r = Some (ids, r')"
    using assms(1) by auto
  from sweep_event [OF this assms(3,4,5)] show ?thesis
    unfolding Ev_sweep by blast
qed

lemma stays_away:
  assumes "apply_event patch e r = Some r'" "\<not> sign_of_life i e" "get_profile i r = None"
  shows "get_profile i r' = None"
proof (cases e)
  case (Ev_register now j q s)
  then obtain code where "register_instance now j q s r = Some (code, r')"
    using assms(1) by auto
  then show ?thesis
    using register_registry [of now j q s r code r'] assms(2,3) by (auto simp: Ev_register get_profile_def map_of_put)
qed (use assms in \<open>auto simp: apply_patch_def touch_heartbeat_def get_profile_def update_conv' remove_profile_def delete_conv'
    sweep_expired_def Let_def map_of_filter_keys split: option.splits\<close>)

lemma silent_run:
  assumes "run_events patch es r = Some r'" "list_all (\<lambda>e. \<not> sign_of_life i e) es" "well_formed r"
    "get_profile i r = Some p" "map_of (last_heartbeat r) i = Some seen"
  shows "get_profile i r' = (if list_ex (ends_registration i p seen) es then None else Some p)"
  using assms
proof (induction es arbitrary: r)
  case (Cons e es)
  from Cons.prems(1) obtain s where s: "apply_event patch e r = Some s" "run_events patch es s = Some r'"
    by (auto simp: Option.bind_eq_Some_conv)
  have e: "\<not> sign_of_life i e" "list_all (\<lambda>e. \<not> sign_of_life i e) es"
    using Cons.prems(2) by simp_all
  note step = other_event [OF s(1) e(1) Cons.prems(3,4,5)]
  show ?case
  proof (cases "ends_registration i p seen e")
    case True
    then have gone: "get_profile i s = None" using step by simp
    have "get_profile i r' = None" if "run_events patch es t = Some r'" "get_profile i t = None" for t
      using that e(2) by (induction es arbitrary: t) (auto simp: Option.bind_eq_Some_conv dest: stays_away)
    with s(2) gone True show ?thesis by simp
  next
    case False
    with step Cons.IH [OF s(2) e(2) well_formed_event [OF Cons.prems(3) s(1)]] show ?thesis by simp
  qed
qed simp

text \<open>Property C19: a function that falls silent is removed, and only then. While a registered function gives no
  sign of life, it stays registered unchanged until it deregisters or until a sweep comes later than its
  heartbeat period and the margin after its last sign of life, and is gone from then on; a function that
  declares no period is kept for ever.\<close>

theorem silent_function_removed:
  assumes "run_events patch es r = Some r'" "list_all (\<lambda>e. \<not> sign_of_life i e) es" "well_formed r"
    "get_profile i r = Some p" "map_of (last_heartbeat r) i = Some seen"
  shows "get_profile i r' = (if list_ex (ends_registration i p seen) es then None else Some p)"
  by (rule silent_run [OF assms])

theorem silent_function_removed_witness:
  "get_profile ''a'' \<lparr>profiles = [], last_heartbeat = []\<rparr> =
     (if list_ex (ends_registration ''a'' (demo_profile (JString ''UDM'') (JUnsigned 10)) 0) [Ev_sweep 5 20000000000]
      then None else Some (demo_profile (JString ''UDM'') (JUnsigned 10)))"
proof (rule silent_function_removed)
  show "run_events (\<lambda>_ _. None) [Ev_sweep 5 20000000000] demo_silent = Some \<lparr>profiles = [], last_heartbeat = []\<rparr>"
    by (simp add: demo_silent_sweep)
qed (simp_all add: demo_silent_def well_formed_def get_profile_def)

theorem registry_well_formed_witness:
  "well_formed \<lparr>profiles = [(''a'', demo_profile (JString ''UDM'') (JUnsigned 10))], last_heartbeat = [(''a'', 0)]\<rparr>"
proof (rule registry_well_formed)
  show "run_events (\<lambda>_ _. None) [Ev_register 0 ''a'' (demo_profile (JString ''UDM'') (JUnsigned 10)) no_subscriptions] empty_registry =
      Some \<lparr>profiles = [(''a'', demo_profile (JString ''UDM'') (JUnsigned 10))], last_heartbeat = [(''a'', 0)]\<rparr>"
    by (simp add: demo_registered [where n = 10])
qed

end
