(* ===== verification/Api_Catalog.thy ===== *)
theory Api_Catalog
  imports Sbi_Text
begin

text \<open>
  The catalogue of service interfaces (\<open>libs/sbi-core/src/api_catalog.cpp\<close> and its table
  \<open>api_catalog.inc\<close>): the name of an interface, the scope a token needs for it (empty where
  none is needed), and the type of function that provides it; and the interface a path belongs to.
\<close>

definition api_rows :: "(string \<times> string \<times> string) list" where
  "api_rows =
    [(''3gpp-5glan-pp'', '''', ''''),
     (''3gpp-acs-pp'', '''', ''''),
     (''3gpp-addr-pp'', '''', ''''),
     (''3gpp-aiot'', '''', ''''),
     (''3gpp-akma'', ''nnef-akma:gpsi-access'', ''''),
     (''3gpp-am-influence'', '''', ''''),
     (''3gpp-am-policyauthorization'', '''', ''''),
     (''3gpp-analyticsexposure'', '''', ''''),
     (''3gpp-applying-bdt-policy'', '''', ''''),
     (''3gpp-as-session-with-qos'', '''', ''''),
     (''3gpp-asti'', '''', ''''),
     (''3gpp-bdt'', '''', ''''),
     (''3gpp-caginfo-pp'', '''', ''''),
     (''3gpp-chargeable-party'', '''', ''''),
     (''3gpp-cp-parameter-provisioning'', '''', ''''),
     (''3gpp-data-reporting'', '''', ''''),
     (''3gpp-data-reporting-provisioning'', '''', ''''),
     (''3gpp-device-triggering'', '''', ''''),
     (''3gpp-dnai-mapping'', '''', ''''),
     (''3gpp-eas-deployment'', '''', ''''),
     (''3gpp-ecr-control'', '''', ''''),
     (''3gpp-ecs-address'', '''', ''''),
     (''3gpp-ecs-address-provision'', '''', ''''),
     (''3gpp-group-message-delivery-mb2'', '''', ''''),
     (''3gpp-group-message-delivery-xmb'', '''', ''''),
     (''3gpp-grp-pp'', '''', ''''),
     (''3gpp-ims-ee'', '''', ''''),
     (''3gpp-ims-pp'', '''', ''''),
     (''3gpp-ims-sm'', '''', ''''),
     (''3gpp-iptvconfiguration'', '''', ''''),
     (''3gpp-lpi-pp'', '''', ''''),
     (''3gpp-mbs-group-msg'', '''', ''''),
     (''3gpp-mbs-session'', '''', ''''),
     (''3gpp-mbs-tmgi'', '''', ''''),
     (''3gpp-mbs-ud-ingest'', '''', ''''),
     (''3gpp-mbs-us'', '''', ''''),
     (''3gpp-mo-lcs-notify'', '''', ''''),
     (''3gpp-monitoring-event'', '''', ''''),
     (''3gpp-ms-event-exposure'', '''', ''''),
     (''3gpp-musa'', '''', ''''),
     (''3gpp-ndcaf_data-reporting'', '''', ''''),
     (''3gpp-ndcaf_data-reporting-provisioning'', '''', ''''),
     (''3gpp-net-stat-report'', '''', ''''),
     (''3gpp-network-parameter-configuration'', '''', ''''),
     (''3gpp-nidd'', '''', ''''),
     (''3gpp-pdtq-policy-negotiation'', '''', ''''),
     (''3gpp-pfd-management'', '''', ''''),
     (''3gpp-racs-pp'', '''', ''''),
     (''3gpp-rslppi-pp'', '''', ''''),
     (''3gpp-service-parameter'', '''', ''''),
     (''3gpp-slice-pp'', '''', ''''),
     (''3gpp-time-sync'', '''', ''''),
     (''3gpp-traffic-influence'', '''', ''''),
     (''3gpp-uav-fa'', '''', ''''),
     (''3gpp-ue-address'', '''', ''''),
     (''3gpp-ueid'', '''', ''''),
     (''3gpp-vfl-inference'', ''3gpp-vfl-inference'', ''''),
     (''3gpp-vfl-nf-discovery'', '''', ''''),
     (''3gpp-vfl-training'', '''', ''''),
     (''Nslpkmf-discovery'', ''Nslpkmf-disc'', ''SLPKMF''),
     (''adae-sc'', '''', ''''),
     (''aimlec-cp'', '''', ''''),
     (''aimlec-data-proc'', '''', ''''),
     (''aimlec-flgi'', '''', ''''),
     (''aimlec-hfl-trng'', '''', ''''),
     (''aimlec-ml-mtce'', '''', ''''),
     (''aimlec-serv-ops'', '''', ''''),
     (''aimlec-task-transfer'', '''', ''''),
     (''aimles-amlmsel'', '''', ''''),
     (''aimles-client-reg'', '''', ''''),
     (''aimles-ct'', '''', ''''),
     (''aimles-disc'', '''', ''''),
     (''aimles-dm'', '''', ''''),
     (''aimles-fl'', '''', ''''),
     (''aimles-hca'', '''', ''''),
     (''aimles-mlmpm'', '''', ''''),
     (''aimles-mlmr'', '''', ''''),
     (''aimles-mlmupd'', '''', ''''),
     (''aimles-opm'', '''', ''''),
     (''aimles-sel'', '''', ''''),
     (''aimles-sonreg'', '''', ''''),
     (''aimles-sopl'', '''', ''''),
     (''aimles-splitopevent'', '''', ''''),
     (''aimles-task-transfer'', '''', ''''),
     (''aimles-tlmsa'', '''', ''''),
     (''aimles-trn'', '''', ''''),
     (''aimles-ue-tl-msa'', '''', ''''),
     (''api-invoker-management'', '''', ''''),
     (''ecas-selected-ees'', '''', ''''),
     (''eecs-ae'', '''', ''''),
     (''eecs-ecsdiscovery'', '''', ''''),
     (''eecs-eesregistration'', '''', ''''),
     (''eecs-eim'', '''', ''''),
     (''eecs-esp'', '''', ''''),
     (''eecs-serviceprovisioning'', '''', ''''),
     (''eecs-targeteesdiscovery'', '''', ''''),
     (''eees-acr-param'', '''', ''''),
     (''eees-acrevents'', '''', ''''),
     (''eees-acrmgntevent'', '''', ''''),
     (''eees-acrstatus-update'', '''', ''''),
     (''eees-appclientinformation'', '''', ''''),
     (''eees-appctxtreloc'', ''eees-appctxtreloc'', ''''),
     (''eees-cea'', '''', ''''),
     (''eees-easdiscovery'', '''', ''''),
     (''eees-easinfoprov'', '''', ''''),
     (''eees-easregistration'', '''', ''''),
     (''eees-eeccontextreloc'', '''', ''''),
     (''eees-eecregistration'', '''', ''''),
     (''eees-eel-acr'', '''', ''''),
     (''eees-session-with-qos'', '''', ''''),
     (''eees-tie'', '''', ''''),
     (''eees-ueidentifier'', '''', ''''),
     (''eees-uelocation'', '''', ''''),
     (''mlr-fl'', '''', ''''),
     (''mlr-fle'', '''', ''''),
     (''mlr-mid'', '''', ''''),
     (''mlr-mlmm'', '''', ''''),
     (''mmtel-callcontrol'', '''', ''''),
     (''mmtel-callevent'', '''', ''''),
     (''mmtel-dcappcall'', '''', ''''),
     (''mmtel-dcappmgmt'', '''', ''''),
     (''msgg-bgdelivery'', '''', ''''),
     (''msgg-l3gdelivery'', '''', ''''),
     (''msgg-n3gdelivery'', '''', ''''),
     (''msgs-asregistration'', '''', ''''),
     (''msgs-msgdelivery'', '''', ''''),
     (''msgs-topiclistevent'', '''', ''''),
     (''n5g-ddnmf-disc'', ''n5g-ddnmf-disc'', ''5G_DDNMF''),
     (''n5g-eir-eic'', ''n5g-eir-eic'', ''5G_EIR''),
     (''naanf-akma'', ''naanf-akma'', ''AANF''),
     (''nadm-dm'', ''nadm-dm'', ''ADM''),
     (''nadrf-datamanagement'', ''nadrf-datamanagement'', ''ADRF''),
     (''nadrf-mlmodelmanagement'', ''nadrf-mlmodelmanagement'', ''ADRF''),
     (''naf-auth'', '''', ''AF''),
     (''naf-eventexposure'', '''', ''AF''),
     (''naf-inference'', ''naf-inference'', ''AF''),
     (''naf-prose'', ''naf-prose'', ''AF''),
     (''naf-train'', ''naf-train'', ''AF''),
     (''naf-vfl-train'', ''naf-vfl-train'', ''AF''),
     (''naf-vflinference'', ''naf-vflinference'', ''AF''),
     (''naiotf-aiot'', ''naiotf-aiot'', ''AIOTF''),
     (''namf-aiot'', ''namf-aiot'', ''AMF''),
     (''namf-comm'', ''namf-comm'', ''AMF''),
     (''namf-evts'', ''namf-evts'', ''AMF''),
     (''namf-loc'', ''namf-loc'', ''AMF''),
     (''namf-mbs-bc'', ''namf-mbs-bc'', ''AMF''),
     (''namf-mbs-comm'', ''namf-mbs-comm'', ''AMF''),
     (''namf-mt'', ''namf-mt'', ''AMF''),
     (''nausf-auth'', ''nausf-auth'', ''AUSF''),
     (''nausf-sorprotection'', ''nausf-sorprotection'', ''AUSF''),
     (''nausf-upuprotection'', ''nausf-upuprotection'', ''AUSF''),
     (''nbsf-management'', ''nbsf-management'', ''BSF''),
     (''nbsp-gba'', ''nbsp-gba'', ''''),
     (''nchf-convergedcharging'', ''nchf-convergedcharging'', ''CHF''),
     (''nchf-offlineonlycharging'', ''nchf-offlineonlycharging'', ''CHF''),
     (''nchf-spendinglimitcontrol'', ''nchf-spendinglimitcontrol'', ''CHF''),
     (''ndccf-contextmanagement'', ''ndccf-contextmanagement'', ''DCCF''),
     (''ndccf-datamanagement'', ''ndccf-datamanagement'', ''DCCF''),
     (''neasdf-baselinednspattern'', ''neasdf-baselinednspattern'', ''EASDF''),
     (''neasdf-dnscontext'', ''neasdf-dnscontext'', ''EASDF''),
     (''neif-ee'', ''neif-ee'', ''EIF''),
     (''ngmlc-loc'', ''ngmlc-loc'', ''GMLC''),
     (''nhss-ee'', ''nhss-ee'', ''HSS''),
     (''nhss-gba-sdm'', ''nhss-gba-sdm'', ''HSS''),
     (''nhss-gba-ueau'', ''nhss-gba-ueau'', ''HSS''),
     (''nhss-ims-ee'', ''nhss-ims-ee'', ''HSS''),
     (''nhss-ims-sdm'', ''nhss-ims-sdm'', ''HSS''),
     (''nhss-ims-ueau'', ''nhss-ims-ueau'', ''HSS''),
     (''nhss-ims-uecm'', ''nhss-ims-uecm'', ''HSS''),
     (''nhss-pp'', ''nhss-pp'', ''HSS''),
     (''nhss-sdm'', ''nhss-sdm'', ''HSS''),
     (''nhss-ueau'', ''nhss-ueau'', ''HSS''),
     (''nhss-uecm'', ''nhss-uecm'', ''HSS''),
     (''nimsas-ee'', ''nimsas-ee'', ''IMS_AS''),
     (''nimsas-ipp'', ''nimsas-ipp'', ''IMS_AS''),
     (''nimsas-ism'', ''nimsas-ism'', ''IMS_AS''),
     (''nimsas-mc'', ''nimsas-mc'', ''IMS_AS''),
     (''nimsas-sec'', ''nimsas-sec'', ''IMS_AS''),
     (''nipsmgw-smservice'', ''nipsmgw-smservice'', ''IP_SM_GW''),
     (''niwmsc-smservice'', ''niwmsc-smservice'', ''''),
     (''nlmf-dataexposure'', ''nlmf-dataexposure'', ''LMF''),
     (''nlmf-loc'', ''nlmf-loc'', ''LMF''),
     (''nmbsf-mbs-ud-ingest'', '''', ''MBSF''),
     (''nmbsf-mbs-us'', '''', ''MBSF''),
     (''nmbsmf-mbssession'', ''nmbsmf-mbssession'', ''MB_SMF''),
     (''nmbsmf-tmgi'', ''nmbsmf-tmgi'', ''MB_SMF''),
     (''nmbstf-distsession'', ''nmbstf-distsession'', ''MBSTF''),
     (''nmf-mrm'', ''nmf-mrm'', ''MF''),
     (''nmfaf-3cadatamanagement'', ''nmfaf-3cadatamanagement'', ''MFAF''),
     (''nmfaf-3dadatamanagement'', ''nmfaf-3dadatamanagement'', ''MFAF''),
     (''nmfaf-contextmanagement'', ''nmfaf-contextmanagement'', ''MFAF''),
     (''nmnpf-npstatus'', ''nmnpf-npstatus'', ''MNPF''),
     (''nnef-authentication'', ''nnef-authentication'', ''NEF''),
     (''nnef-dnai-mapping'', ''nnef-dnai-mapping'', ''NEF''),
     (''nnef-eas-deployment'', ''nnef-eas-deployment'', ''NEF''),
     (''nnef-ecs-addr-cfg-info'', ''nnef-ecs-addr-cfg-info'', ''NEF''),
     (''nnef-eventexposure'', ''nnef-eventexposure'', ''NEF''),
     (''nnef-inference'', ''nnef-inference'', ''NEF''),
     (''nnef-pfdmanagement'', ''nnef-pfdmanagement'', ''NEF''),
     (''nnef-smcontext'', ''nnef-smcontext'', ''NEF''),
     (''nnef-smservice'', ''nnef-smcontext'', ''NEF''),
     (''nnef-traffic-influence-data'', ''nnef-traffic-influence-data'', ''NEF''),
     (''nnef-training'', ''nnef-training'', ''NEF''),
     (''nnef-ueid'', ''nnef-ueid'', ''NEF''),
     (''nnef-vfl-inference'', ''nnef-vfl-inference'', ''NEF''),
     (''nnef-vfl-training'', ''nnef-vfl-training'', ''NEF''),
     (''nnrf-disc'', ''nnrf-disc'', ''NRF''),
     (''nnrf-nfm'', ''nnrf-nfm'', ''NRF''),
     (''nnsacf-nsac'', ''nnsacf-nsac'', ''NSACF''),
     (''nnsacf-slice-ee'', ''nnsacf-slice-ee'', ''NSACF''),
     (''nnssaaf-aiw'', ''nnssaaf-aiw'', ''NSSAAF''),
     (''nnssaaf-nssaa'', ''nnssaaf-nssaa'', ''NSSAAF''),
     (''nnssf-nssaiavailability'', ''nnssf-nssaiavailability'', ''NSSF''),
     (''nnssf-nsselection'', ''nnssf-nsselection'', ''NSSF''),
     (''nnwdaf-analyticsinfo'', ''nnwdaf-analyticsinfo'', ''NWDAF''),
     (''nnwdaf-datamanagement'', ''nnwdaf-datamanagement'', ''NWDAF''),
     (''nnwdaf-eventssubscription'', ''nnwdaf-eventssubscription'', ''NWDAF''),
     (''nnwdaf-mlmodelmonitor'', ''nnwdaf-mlmodelmonitor'', ''NWDAF''),
     (''nnwdaf-mlmodelprovision'', ''nnwdaf-mlmodelprovision'', ''NWDAF''),
     (''nnwdaf-mlmodeltraining'', ''nnwdaf-mlmodeltraining'', ''NWDAF''),
     (''nnwdaf-roaminganalytics'', ''nnwdaf-roaminganalytics'', ''NWDAF''),
     (''nnwdaf-roamingdata'', ''nnwdaf-roamingdata'', ''NWDAF''),
     (''nnwdaf-vflinference'', ''nnwdaf-vflinference'', ''NWDAF''),
     (''nnwdaf-vfltraining'', ''nnwdaf-vfltraining'', ''NWDAF''),
     (''npanf-prosekey'', ''npanf-prosekey'', ''PANF''),
     (''npanf-userid'', ''npanf-userid'', ''PANF''),
     (''npcf-am-policy-control'', ''npcf-am-policy-control'', ''PCF''),
     (''npcf-am-policyauthorization'', ''npcf-am-policyauthorization'', ''PCF''),
     (''npcf-bdtpolicycontrol'', ''npcf-bdtpolicycontrol'', ''PCF''),
     (''npcf-eventexposure'', ''npcf-eventexposure'', ''PCF''),
     (''npcf-mbspolicyauth'', ''npcf-mbspolicyauth'', ''PCF''),
     (''npcf-mbspolicycontrol'', ''npcf-mbspolicycontrol'', ''PCF''),
     (''npcf-pdtq-policy-control'', ''npcf-pdtq-policy-control'', ''PCF''),
     (''npcf-policyauthorization'', ''npcf-policyauthorization'', ''PCF''),
     (''npcf-smpolicycontrol'', ''npcf-smpolicycontrol'', ''PCF''),
     (''npcf-ue-policy-control'', ''npcf-ue-policy-control'', ''PCF''),
     (''npkmf-discovery'', ''npkmf-disc'', ''PKMF''),
     (''npkmf-keyrequest'', ''npkmf-keyrequest'', ''PKMF''),
     (''npkmf-userid'', ''npkmf-userid'', ''PKMF''),
     (''nrouter-smservice'', ''nrouter-smservice'', ''''),
     (''nsce-esc'', '''', ''''),
     (''nsce-fd'', '''', ''''),
     (''nsce-ic'', '''', ''''),
     (''nsce-ipc'', '''', ''''),
     (''nsce-msd'', '''', ''''),
     (''nsce-mso'', '''', ''''),
     (''nsce-nsa'', '''', ''''),
     (''nsce-nsd'', '''', ''''),
     (''nsce-nsid'', '''', ''''),
     (''nsce-nslcm'', '''', ''''),
     (''nsce-nso'', '''', ''''),
     (''nsce-pam'', '''', ''''),
     (''nsce-pm'', '''', ''''),
     (''nsce-sam'', '''', ''''),
     (''nsce-scs'', '''', ''''),
     (''nsce-srva'', '''', ''''),
     (''nsce_sliceinfo'', '''', ''''),
     (''nscp-ee'', ''nscp-ee'', ''SCP''),
     (''nslpkmf-keyrequest'', ''nslpkmf-keyrequest'', ''SLPKMF''),
     (''nsmf-event-exposure'', ''nsmf-event-exposure'', ''SMF''),
     (''nsmf-nidd'', ''nsmf-nidd'', ''SMF''),
     (''nsmf-pdusession'', ''nsmf-pdusession'', ''SMF''),
     (''nsmsf-sms'', ''nsmsf-sms'', ''SMSF''),
     (''nsoraf-sor'', ''nsoraf-sor'', ''SOR_AF''),
     (''nspaf-secured-packet'', ''nspaf-secured-packet'', ''SPAF''),
     (''ntsctsf-asti'', ''ntsctsf-asti'', ''TSCTSF''),
     (''ntsctsf-qos-tscai'', ''ntsctsf-qos-tscai'', ''TSCTSF''),
     (''ntsctsf-time-sync'', ''ntsctsf-time-sync'', ''TSCTSF''),
     (''nucmf-provisioning'', ''nucmf-provisioning'', ''UCMF''),
     (''nucmf-uecm'', ''nucmf-uecm'', ''UCMF''),
     (''nudm-ee'', ''nudm-ee'', ''UDM''),
     (''nudm-mt'', ''nudm-mt'', ''UDM''),
     (''nudm-niddau'', ''nudm-niddau'', ''UDM''),
     (''nudm-pp'', ''nudm-pp'', ''UDM''),
     (''nudm-rsds'', ''nudm-rsds'', ''UDM''),
     (''nudm-sdm'', ''nudm-sdm'', ''UDM''),
     (''nudm-ssau'', ''nudm-ssau'', ''UDM''),
     (''nudm-ueau'', ''nudm-ueau'', ''UDM''),
     (''nudm-uecm'', ''nudm-uecm'', ''UDM''),
     (''nudm-ueid'', ''nudm-ueid'', ''UDM''),
     (''nudr-dr'', ''nudr-dr'', ''UDR''),
     (''nudr-group-id-map'', ''nudr-group-id-map'', ''UDR''),
     (''nudsf-dr'', ''nudsf-dr'', ''UDSF''),
     (''nudsf-timer'', ''nudsf-timer'', ''UDSF''),
     (''nupf-ee'', ''nupf-ee'', ''UPF''),
     (''nupf-gueip'', ''nupf-gueip'', ''UPF''),
     (''pin-as-registration'', '''', ''''),
     (''pin-as-servicecontinuity'', '''', ''''),
     (''pin-as-serviceswitch'', '''', ''''),
     (''sdd-bdt'', '''', ''''),
     (''sdd-ddc'', '''', ''''),
     (''sdd-ds'', '''', ''''),
     (''sdd-pc'', '''', ''''),
     (''sdd-tqm'', '''', ''''),
     (''sdd-trans'', '''', ''''),
     (''sm_smds'', '''', ''''),
     (''ss-aadrf-datamanagement'', '''', ''''),
     (''ss-adae-aimlmca'', '''', ''''),
     (''ss-adae-cda'', '''', ''''),
     (''ss-adae-dnea'', '''', ''''),
     (''ss-adae-el'', '''', ''''),
     (''ss-adae-laa'', '''', ''''),
     (''ss-adae-lruga'', '''', ''''),
     (''ss-adae-pa'', '''', ''''),
     (''ss-adae-sa'', '''', ''''),
     (''ss-adae-sspa'', '''', ''''),
     (''ss-adae-sup'', '''', ''''),
     (''ss-adae-uerat'', '''', ''''),
     (''ss-adae-uupa'', '''', ''''),
     (''ss-adccf-dc'', '''', ''''),
     (''ss-ascaiinfo'', '''', ''''),
     (''ss-cl'', '''', ''''),
     (''ss-da-d'', '''', ''''),
     (''ss-da-medm'', '''', ''''),
     (''ss-da-pm'', '''', ''''),
     (''ss-events'', '''', ''''),
     (''ss-gm'', '''', ''''),
     (''ss-ipp'', '''', ''''),
     (''ss-kir'', '''', ''''),
     (''ss-kpp'', '''', ''''),
     (''ss-lair'', '''', ''''),
     (''ss-lhie'', '''', ''''),
     (''ss-lr'', '''', ''''),
     (''ss-nra'', '''', ''''),
     (''ss-nrm'', '''', ''''),
     (''ss-nsa'', '''', ''''),
     (''ss-slpm'', '''', ''''),
     (''ss-upr'', '''', ''''),
     (''ss-vsac'', '''', ''''),
     (''ss-vsd'', '''', ''''),
     (''ssan-disc'', '''', ''''),
     (''ssan-sanm'', '''', ''''),
     (''ssan-usg'', '''', ''''),
     (''ssm-disc'', '''', ''''),
     (''ssm-dsdisc'', '''', ''''),
     (''ssm-loc'', '''', ''''),
     (''ssm-smasr'', '''', ''''),
     (''ssm-smm'', '''', ''''),
     (''su_nsc'', '''', ''''),
     (''uae-c2opmode-mngt'', '''', ''''),
     (''uae-daa'', '''', ''''),
     (''uae-fpm'', '''', ''''),
     (''uae-frs'', '''', ''''),
     (''uae-ntz'', '''', ''''),
     (''uae-uav-status'', '''', ''''),
     (''uae-ucm'', '''', ''''),
     (''uae-udi'', '''', ''''),
     (''vae-app-req'', '''', ''''),
     (''vae-dynamic-group'', '''', ''''),
     (''vae-file-distribution'', '''', ''''),
     (''vae-hdmap-dynamic-info'', '''', ''''),
     (''vae-message-delivery'', '''', ''''),
     (''vae-pc5-prov-req'', '''', ''''),
     (''vae-service-continuity'', '''', ''''),
     (''vae-session-Oriented-service'', '''', ''''),
     (''vae-sqci'', '''', ''''),
     (''vae-v2P-app-req'', '''', ''''),
     (''vae-v2v-config-req'', '''', ''''),
     (''vae-vzm'', '''', '''')]"

record api_info =
  api_scope :: string
  api_nf_type :: string

definition find_api :: "string \<Rightarrow> api_info option" where
  "find_api name = map_option (\<lambda>(scope, t). \<lparr>api_scope = scope, api_nf_type = t\<rparr>) (map_of api_rows name)"

text \<open>The text after the first \<open>://\<close>.\<close>

fun after_scheme :: "string \<Rightarrow> string option" where
  "after_scheme [] = None"
| "after_scheme (c # cs) =
     (if take 3 (c # cs) = ''://'' then Some (drop 3 (c # cs)) else after_scheme cs)"

definition api_name_of :: "string \<Rightarrow> string" where
  "api_name_of path =
     (let p = (case after_scheme path of Some t \<Rightarrow> dropWhile (\<lambda>c. c \<noteq> CHR ''/'') t | None \<Rightarrow> path);
          p = takeWhile (\<lambda>c. c \<notin> set ''?#'') p
      in takeWhile (\<lambda>c. c \<noteq> CHR ''/'') (dropWhile (\<lambda>c. c = CHR ''/'') p))"

section \<open>Facts\<close>

text \<open>The name is the first segment of the path, unless the path holds a scheme or a fragment.\<close>

lemma first_segment: "takeWhile (\<lambda>c. c \<noteq> CHR ''/'') (dropWhile (\<lambda>c. c = CHR ''/'') p) =
    (case split_path p of [] \<Rightarrow> [] | s # _ \<Rightarrow> s)"
proof (induction p)
  case (Cons c p)
  have first: "case split_on (CHR ''/'') q of [] \<Rightarrow> False | s # _ \<Rightarrow> s = takeWhile (\<lambda>c. c \<noteq> CHR ''/'') q" for q
    by (induction q) (auto split: list.splits)
  show ?case
  proof (cases "c = CHR ''/''")
    case True
    with Cons show ?thesis by (simp add: split_path_def)
  next
    case False
    with first [of p] show ?thesis by (auto simp: split_path_def split: list.splits)
  qed
qed (simp add: split_path_def)

lemma api_name_first_segment:
  assumes "after_scheme path = None" "CHR ''#'' \<notin> set (path_only path)"
  shows "api_name_of path = (case split_path (path_only path) of [] \<Rightarrow> [] | s # _ \<Rightarrow> s)"
proof -
  have "takeWhile (\<lambda>c. c \<notin> set ''?#'') path = path_only path"
    using assms(2) unfolding path_only_def
    by (induction path) auto
  then show ?thesis
    by (simp only: api_name_of_def assms(1) option.case Let_def first_segment)
qed

lemma after_scheme_appended: "after_scheme p = None \<Longrightarrow> after_scheme (p @ ''?://'') = Some []"
proof (induction p)
  case (Cons c p)
  have "take 3 ((c # p) @ ''?://'') \<noteq> ''://''"
  proof (cases p)
    case (Cons b q)
    with \<open>after_scheme (c # p) = None\<close> show ?thesis by (cases q) (auto split: if_splits)
  qed simp
  then have "after_scheme ((c # p) @ ''?://'') = after_scheme (p @ ''?://'')"
    by (simp only: append_Cons after_scheme.simps if_False)
  with Cons.IH Cons.prems show ?case by (auto split: if_splits)
qed simp

lemma api_name_appended: "after_scheme p = None \<Longrightarrow> api_name_of (p @ ''?://'') = []"
  by (simp add: api_name_of_def after_scheme_appended)

end
