(* ===== verification/Sbi_Authorizer.thy ===== *)
theory Sbi_Authorizer
  imports Api_Catalog Bss_Types Json_Value
begin

text \<open>
  The authorization every network function runs before a handler
  (\<open>libs/sbi-core/src/authorizer.cpp\<close>), the reading of a token's claims
  (\<open>libs/sbi-core/src/jwt.cpp\<close>) and the routing before it
  (\<open>libs/sbi-core/src/http2_server.cpp\<close>). The library that checks the signature and decodes a
  token is an argument: it gives the claims of a genuine token that is in date, and nothing otherwise.
\<close>

section \<open>Tokens\<close>

record claims =
  cl_sub :: "string option"
  cl_aud :: "string list option"
  cl_scope :: "json option"
  cl_exp :: bool

type_synonym jwt_decoder = "string \<Rightarrow> claims option"

record verify_result =
  vr_valid :: bool
  vr_audiences :: "string list"
  vr_missing :: "string list"
  vr_scope :: string

definition invalid_token :: verify_result where
  "invalid_token = \<lparr>vr_valid = False, vr_audiences = [], vr_missing = [], vr_scope = []\<rparr>"

text \<open>A scope claim that is not a text throws, which makes the token invalid.\<close>

definition verify :: "jwt_decoder \<Rightarrow> string \<Rightarrow> verify_result" where
  "verify decode token =
     (case decode token of
        None \<Rightarrow> invalid_token
      | Some c \<Rightarrow>
          (let auds = value_or [] (cl_aud c);
               missing = (if cl_sub c = None then [''sub''] else []) @ (if auds = [] then [''aud''] else []) @
                 (if cl_scope c = None then [''scope''] else []) @ (if cl_exp c then [] else [''exp''])
           in case cl_scope c of
                None \<Rightarrow> \<lparr>vr_valid = True, vr_audiences = auds, vr_missing = missing, vr_scope = []\<rparr>
              | Some j \<Rightarrow>
                  (case get_string j of
                     None \<Rightarrow> invalid_token
                   | Some s \<Rightarrow> \<lparr>vr_valid = True, vr_audiences = auds, vr_missing = missing, vr_scope = s\<rparr>)))"

section \<open>Requests and refusals\<close>

record http_request =
  hr_method :: string
  hr_path :: string
  hr_authority :: string
  hr_headers :: "(string \<times> string) list"

definition path_segments :: "string \<Rightarrow> string list" where
  "path_segments path = split_path (path_only path)"

definition realm_of :: "http_request \<Rightarrow> string" where
  "realm_of req = ''https://'' @ hr_authority req @ concat (map (\<lambda>s. CHR ''/'' # s) (take 2 (path_segments (hr_path req))))"

record refusal =
  rf_status :: nat
  rf_authenticate :: string
  rf_cause :: "string option"
  rf_claims :: "string list"

definition challenge :: "nat \<Rightarrow> http_request \<Rightarrow> string \<Rightarrow> string \<Rightarrow> string option \<Rightarrow> string list \<Rightarrow> refusal" where
  "challenge status req error scope cause invalid_claims =
     (let realm = filter (\<lambda>c. \<not> (c = CHR 0x22 \<or> c = CHR 0x5C \<or> (of_char c :: nat) < 32)) (realm_of req);
          quoted = (\<lambda>t. CHR 0x22 # t @ [CHR 0x22])
      in \<lparr>rf_status = status,
          rf_authenticate = ''Bearer realm='' @ quoted realm @
            (if error \<noteq> [] then '', error='' @ quoted error else []) @
            (if scope \<noteq> [] then '', scope='' @ quoted scope else []),
          rf_cause = cause, rf_claims = invalid_claims\<rparr>)"

definition has_scope :: "string \<Rightarrow> string \<Rightarrow> bool" where
  "has_scope scopes wanted \<longleftrightarrow> wanted \<in> set (split_on (CHR '' '') scopes)"

definition required_scope :: "string \<Rightarrow> string" where
  "required_scope path =
     (let name = api_name_of path in
      if name = [] then [] else case find_api name of Some i \<Rightarrow> api_scope i | None \<Rightarrow> name)"

record authorizer =
  az_required :: bool
  az_nf_type :: string
  az_nf_instance_id :: string

definition is_bearer :: "string \<Rightarrow> bool" where
  "is_bearer bearer \<longleftrightarrow> 7 < length bearer \<and> map to_lower (take 7 bearer) = ''bearer ''"

definition check_request :: "authorizer \<Rightarrow> jwt_decoder \<Rightarrow> http_request \<Rightarrow> refusal option" where
  "check_request a decode req =
     (case map_of (hr_headers req) ''authorization'' of
        None \<Rightarrow> if \<not> az_required a then None else Some (challenge 401 req [] [] None [])
      | Some bearer \<Rightarrow>
          if \<not> is_bearer bearer then Some (challenge 401 req ''invalid_token'' [] None [])
          else (let result = verify decode (drop 7 bearer) in
            if \<not> vr_valid result then Some (challenge 401 req ''invalid_token'' [] None [])
            else if vr_missing result \<noteq> [] then
              Some (challenge 401 req ''invalid_token'' [] (Some ''ACCESS_TOKEN_CLAIM_MISSING'') (vr_missing result))
            else if \<not> list_ex (\<lambda>x. az_nf_type a \<noteq> [] \<and> x = az_nf_type a \<or>
                az_nf_instance_id a \<noteq> [] \<and> x = az_nf_instance_id a) (vr_audiences result)
            then Some (challenge 401 req ''invalid_token'' [] None [])
            else (let scope = required_scope (hr_path req) in
              if scope \<noteq> [] \<and> \<not> has_scope (vr_scope result) scope
              then Some (challenge 403 req ''insufficient_scope'' scope None []) else None)))"

section \<open>Routes\<close>

datatype route_auth = OAuth2 | No_auth

record route =
  rt_method :: string
  rt_segments :: "string list"
  rt_auth :: route_auth

fun match_segments :: "string list \<Rightarrow> string list \<Rightarrow> (string \<times> string) list option" where
  "match_segments [] _ = Some []"
| "match_segments (p # ps) (s # ss) =
     (if 2 \<le> length p \<and> hd p = CHR ''{'' \<and> last p = CHR ''}''
      then map_option (\<lambda>m. (butlast (tl p), s) # m) (match_segments ps ss)
      else if p \<noteq> s then None else match_segments ps ss)"
| "match_segments (_ # _) [] = None"

definition try_match :: "route \<Rightarrow> string \<Rightarrow> string list \<Rightarrow> (string \<times> string) list option" where
  "try_match r m path =
     (if rt_method r \<noteq> ''*'' \<and> rt_method r \<noteq> m then None
      else (let tail = rt_segments r \<noteq> [] \<and> last (rt_segments r) = ''**'';
                pats = (if tail then butlast (rt_segments r) else rt_segments r)
            in if (if tail then length path < length pats else length (rt_segments r) \<noteq> length path) then None
               else match_segments pats path))"

text \<open>What becomes of a request: refused before a handler, or handed to the route with its parameters.\<close>

datatype dispatch = Unrouted nat | Refusal refusal | Handled route "(string \<times> string) list"

definition unrouted_status :: "route list \<Rightarrow> http_request \<Rightarrow> string list \<Rightarrow> nat" where
  "unrouted_status routes req segments =
     (if \<not> list_ex (\<lambda>r. rt_method r = ''*'' \<or> rt_method r = hr_method req) routes then 501
      else if list_ex (\<lambda>r. try_match r (if rt_method r = ''*'' then hr_method req else rt_method r) segments \<noteq> None) routes
      then 405 else 404)"

definition dispatch_request :: "route list \<Rightarrow> authorizer \<Rightarrow> jwt_decoder \<Rightarrow> http_request \<Rightarrow> dispatch" where
  "dispatch_request routes a decode req =
     (let segments = split_path (path_only (hr_path req)) in
      case find (\<lambda>r. try_match r (hr_method req) segments \<noteq> None) routes of
        None \<Rightarrow> Unrouted (unrouted_status routes req segments)
      | Some r \<Rightarrow>
          (case (if rt_auth r = OAuth2 then check_request a decode req else None) of
             Some refused \<Rightarrow> Refusal refused
           | None \<Rightarrow> Handled r (the (try_match r (hr_method req) segments))))"

section \<open>Facts\<close>

text \<open>What an admitted request carried, where a token is required.\<close>

lemma check_request_None:
  assumes "check_request a decode req = None" "az_required a"
  obtains bearer c scopes where
    "map_of (hr_headers req) ''authorization'' = Some bearer" "is_bearer bearer" "decode (drop 7 bearer) = Some c"
    "cl_scope c = Some (JString scopes)" "cl_sub c \<noteq> None" "cl_exp c"
    "\<exists>x \<in> set (value_or [] (cl_aud c)). x \<noteq> [] \<and> (x = az_nf_type a \<or> x = az_nf_instance_id a)"
    "required_scope (hr_path req) = [] \<or> has_scope scopes (required_scope (hr_path req))"
proof -
  obtain bearer where bearer: "map_of (hr_headers req) ''authorization'' = Some bearer"
    using assms by (auto simp: check_request_def split: option.splits)
  let ?v = "verify decode (drop 7 bearer)"
  have ok: "is_bearer bearer" "vr_valid ?v" "vr_missing ?v = []"
    "list_ex (\<lambda>x. az_nf_type a \<noteq> [] \<and> x = az_nf_type a \<or> az_nf_instance_id a \<noteq> [] \<and> x = az_nf_instance_id a) (vr_audiences ?v)"
    "required_scope (hr_path req) = [] \<or> has_scope (vr_scope ?v) (required_scope (hr_path req))"
    using assms(1) by (auto simp: check_request_def bearer Let_def split: if_splits)
  from ok(2) obtain c where c: "decode (drop 7 bearer) = Some c"
    by (auto simp: verify_def invalid_token_def split: option.splits)
  from ok(2,3) obtain scopes where scopes: "cl_scope c = Some (JString scopes)"
    by (cases "cl_scope c"; cases "the (cl_scope c)") (auto simp: verify_def c invalid_token_def Let_def split: option.splits if_splits)
  show ?thesis
    using ok bearer c scopes
    by (intro that [of bearer c scopes]) (auto simp: verify_def Let_def list_ex_iff split: if_splits)
qed

text \<open>A complete token, meant for this function.\<close>

definition token_for :: "authorizer \<Rightarrow> jwt_decoder \<Rightarrow> http_request \<Rightarrow> string \<Rightarrow> bool" where
  "token_for a decode req scopes \<longleftrightarrow>
     (case map_of (hr_headers req) ''authorization'' of None \<Rightarrow> False
      | Some bearer \<Rightarrow> is_bearer bearer \<and>
          (case decode (drop 7 bearer) of None \<Rightarrow> False
           | Some c \<Rightarrow> cl_sub c \<noteq> None \<and> cl_exp c \<and> cl_scope c = Some (JString scopes) \<and>
               az_nf_type a \<noteq> [] \<and> az_nf_type a \<in> set (value_or [] (cl_aud c))))"

lemma check_request_token_for:
  assumes "token_for a decode req scopes"
  shows "check_request a decode req =
    (let scope = required_scope (hr_path req)
     in if scope \<noteq> [] \<and> \<not> has_scope scopes scope then Some (challenge 403 req ''insufficient_scope'' scope None []) else None)"
proof -
  obtain bearer c where t: "map_of (hr_headers req) ''authorization'' = Some bearer" "is_bearer bearer"
      "decode (drop 7 bearer) = Some c" "cl_sub c \<noteq> None" "cl_exp c" "cl_scope c = Some (JString scopes)"
      "az_nf_type a \<noteq> []" "az_nf_type a \<in> set (value_or [] (cl_aud c))"
    using assms by (auto simp: token_for_def split: option.splits)
  define auds where "auds = value_or [] (cl_aud c)"
  have auds: "auds \<noteq> []" "list_ex (\<lambda>x. az_nf_type a \<noteq> [] \<and> x = az_nf_type a \<or>
      az_nf_instance_id a \<noteq> [] \<and> x = az_nf_instance_id a) auds"
    using t(7,8) by (auto simp: auds_def list_ex_iff)
  have "verify decode (drop 7 bearer) = \<lparr>vr_valid = True, vr_audiences = auds, vr_missing = [], vr_scope = scopes\<rparr>"
    using t auds(1) by (simp add: verify_def Let_def auds_def [symmetric])
  with t(1,2) auds(2) show ?thesis
    by (simp add: check_request_def Let_def)
qed

lemma path_only_suffix: "CHR ''?'' \<notin> set p \<Longrightarrow> path_only (p @ ''?://'') = p"
  unfolding path_only_def by (induction p) auto

text \<open>Property C18: one suffix switches the scope check off. A request to any route that carries a genuine
  token for this function, whatever its scopes, is handled by that route once \<open>?://\<close> is appended to
  its path: the name of the interface is then looked for after the scheme separator in the query.\<close>

theorem scope_check_bypassed:
  assumes "token_for a decode req scopes" "after_scheme (hr_path req) = None" "CHR ''?'' \<notin> set (hr_path req)"
    "find (\<lambda>r. try_match r (hr_method req) (split_path (hr_path req)) \<noteq> None) routes = Some r"
    "try_match r (hr_method req) (split_path (hr_path req)) = Some params"
  shows "dispatch_request routes a decode (req \<lparr>hr_path := hr_path req @ ''?://''\<rparr>) = Handled r params"
proof -
  have path: "path_only (hr_path req @ ''?://'') = hr_path req"
    by (rule path_only_suffix [OF assms(3)])
  have "token_for a decode (req \<lparr>hr_path := hr_path req @ ''?://''\<rparr>) scopes"
    using assms(1) by (simp add: token_for_def)
  then have "check_request a decode (req \<lparr>hr_path := hr_path req @ ''?://''\<rparr>) = None"
    using assms(2) by (simp add: check_request_token_for required_scope_def api_name_appended)
  then show ?thesis
    using assms(4,5) by (simp add: dispatch_request_def path)
qed

definition demo_authorizer :: authorizer where
  "demo_authorizer = \<lparr>az_required = True, az_nf_type = ''UDM'', az_nf_instance_id = ''u1''\<rparr>"

definition demo_decoder :: jwt_decoder where
  "demo_decoder t =
     (if t = ''genuine''
      then Some \<lparr>cl_sub = Some ''n1'', cl_aud = Some [''UDM''], cl_scope = Some (JString ''nudm-niddau''), cl_exp = True\<rparr>
      else None)"

definition demo_request :: http_request where
  "demo_request =
     \<lparr>hr_method = ''GET'', hr_path = ''/nudm-sdm/v2/imsi-1/am-data'', hr_authority = ''udm'',
      hr_headers = [(''authorization'', ''Bearer genuine'')]\<rparr>"

definition demo_route :: route where
  "demo_route =
     \<lparr>rt_method = ''GET'', rt_segments = [''nudm-sdm'', ''v2'', ''{supi}'', ''am-data''], rt_auth = OAuth2\<rparr>"

theorem scope_check_bypassed_witness:
  "dispatch_request [demo_route] demo_authorizer demo_decoder
      (demo_request \<lparr>hr_path := hr_path demo_request @ ''?://''\<rparr>) = Handled demo_route [(''supi'', ''imsi-1'')]"
  by (rule scope_check_bypassed [where scopes = "''nudm-niddau''"]; code_simp)

text \<open>Without the suffix the same request is refused.\<close>

lemma demo_request_refused:
  "check_request demo_authorizer demo_decoder demo_request =
     Some (challenge 403 demo_request ''insufficient_scope'' ''nudm-sdm'' None [])"
proof -
  have "token_for demo_authorizer demo_decoder demo_request ''nudm-niddau''"
    by code_simp
  moreover have "required_scope (hr_path demo_request) = ''nudm-sdm''" "has_scope ''nudm-niddau'' ''nudm-sdm'' = False"
    by code_simp+
  ultimately show ?thesis by (simp add: check_request_token_for Let_def)
qed

end
