(* ===== verification/Access_Control.thy ===== *)
theory Access_Control
  imports Nrf_Authorization Registry_Life Sbi_Authorizer
begin

text \<open>
  Registry, token endpoint and producers together: what a request admitted by a producer says about
  the registry at the time its token was issued. The registry and the tokens issued so far evolve by
  the handlers of the NRF; the history keeps for each token the registry it was decided on.
\<close>

section \<open>The life of the NRF\<close>

record issuance =
  is_claims :: token_claims
  is_peer :: tls_peer
  is_registry :: nf_registry

record nrf_state =
  nrf_registry :: nf_registry
  nrf_issued :: "issuance list"

inductive nrf_step :: "json_lib \<Rightarrow> nrf_state \<Rightarrow> nrf_state \<Rightarrow> bool" for L where
  Event: "apply_event patch e (nrf_registry s) = Some r \<Longrightarrow> nrf_step L s (s \<lparr>nrf_registry := r\<rparr>)"
| Token: "post_token L True body peer (nrf_registry s) = Some (Token_issued c) \<Longrightarrow>
     nrf_step L s (s \<lparr>nrf_issued := \<lparr>is_claims = c, is_peer = peer, is_registry = nrf_registry s\<rparr> # nrf_issued s\<rparr>)"

inductive nrf_run :: "json_lib \<Rightarrow> nrf_state \<Rightarrow> bool" for L where
  Start: "nrf_run L \<lparr>nrf_registry = empty_registry, nrf_issued = []\<rparr>"
| Step: "nrf_run L s \<Longrightarrow> nrf_step L s t \<Longrightarrow> nrf_run L t"

text \<open>What one issued token rests on.\<close>

definition well_issued :: "json_lib \<Rightarrow> issuance \<Rightarrow> bool" where
  "well_issued L x \<longleftrightarrow>
     (\<exists>profile t. get_profile (tc_sub (is_claims x)) (is_registry x) = Some profile \<and>
        string_member profile ''nfType'' = Some t \<and>
        (lower (cert_cn (is_peer x)) = lower t \<or> (\<exists>n \<in> set (cert_dns_names (is_peer x)). lower n = lower t)) \<and>
        (tc_aud (is_claims x) \<noteq> ''NRF'' \<longrightarrow>
           (\<exists>producers. search_by_type (tc_aud (is_claims x)) (is_registry x) = Some producers \<and>
              (\<forall>s \<in> set (words_of (tc_scope (is_claims x))). CHR '':'' \<notin> set s \<longrightarrow>
                 (\<exists>p \<in> set producers. offered L p s (requester_of profile t))))))"

lemma post_token_well_issued:
  assumes "post_token L True body peer r = Some (Token_issued c)"
  shows "well_issued L \<lparr>is_claims = c, is_peer = peer, is_registry = r\<rparr>"
proof -
  obtain f where f: "authorize_token_request L f peer r = Some Authorized"
      "c = \<lparr>tc_sub = value_or [] (f ''nfInstanceId''), tc_aud = value_or ''NRF'' (f ''targetNfType''),
            tc_scope = value_or [] (f ''scope'')\<rparr>"
    using assms by (auto simp: post_token_def split: option.splits token_decision.splits)
  show ?thesis
    by (rule authorized_token_request [OF f(1)], cases "f ''targetNfType''") (auto simp: well_issued_def f(2))
qed

lemma run_well_issued: "nrf_run L s \<Longrightarrow> x \<in> set (nrf_issued s) \<Longrightarrow> well_issued L x"
proof (induction rule: nrf_run.induct)
  case (Step s t)
  from Step.hyps(2) Step.IH Step.prems show ?case
    by cases (auto dest: post_token_well_issued)
qed simp

text \<open>Signatures are not forged: what a producer's library accepts, the NRF issued, with these claims.\<close>

definition authentic :: "jwt_decoder \<Rightarrow> issuance list \<Rightarrow> bool" where
  "authentic decode xs \<longleftrightarrow>
     (\<forall>t c. decode t = Some c \<longrightarrow>
        (\<exists>x \<in> set xs. cl_sub c = Some (tc_sub (is_claims x)) \<and> cl_aud c = Some [tc_aud (is_claims x)] \<and>
           cl_scope c = Some (JString (tc_scope (is_claims x)))))"

text \<open>Property C17: an admitted request was authorized. Where tokens are required, a producer other than the NRF
  admits a request to an interface whose scope is a plain word only if the NRF issued its token to a function
  that was registered with a type its certificate names, for this producer's type or identifier, and some
  profile registered under that name offered the service to that function at the time.\<close>

theorem admitted_request_was_authorized:
  assumes "nrf_run L s" "authentic decode (nrf_issued s)"
    "check_request a decode req = None" "az_required a" "az_nf_type a \<noteq> ''NRF''" "az_nf_instance_id a \<noteq> ''NRF''"
    "required_scope (hr_path req) = scope" "scope \<noteq> []" "list_all (\<lambda>c. \<not> is_space c \<and> c \<noteq> CHR '':'') scope"
  shows "\<exists>x \<in> set (nrf_issued s). \<exists>profile t producers.
    get_profile (tc_sub (is_claims x)) (is_registry x) = Some profile \<and> string_member profile ''nfType'' = Some t \<and>
    (lower (cert_cn (is_peer x)) = lower t \<or> (\<exists>n \<in> set (cert_dns_names (is_peer x)). lower n = lower t)) \<and>
    tc_aud (is_claims x) \<in> {az_nf_type a, az_nf_instance_id a} \<and>
    search_by_type (tc_aud (is_claims x)) (is_registry x) = Some producers \<and>
    (\<exists>p \<in> set producers. offered L p scope (requester_of profile t))"
proof (rule check_request_None [OF assms(3,4)])
  fix bearer c scopes
  assume c: "decode (drop 7 bearer) = Some c" "cl_scope c = Some (JString scopes)"
    and aud: "\<exists>x \<in> set (value_or [] (cl_aud c)). x \<noteq> [] \<and> (x = az_nf_type a \<or> x = az_nf_instance_id a)"
    and has: "required_scope (hr_path req) = [] \<or> has_scope scopes (required_scope (hr_path req))"
  obtain x where x: "x \<in> set (nrf_issued s)" "cl_aud c = Some [tc_aud (is_claims x)]" "scopes = tc_scope (is_claims x)"
    using assms(2) c unfolding authentic_def by fastforce
  have target: "tc_aud (is_claims x) \<in> {az_nf_type a, az_nf_instance_id a}" "tc_aud (is_claims x) \<noteq> ''NRF''"
    using aud x(2) assms(5,6) by auto
  have plain: "list_all (\<lambda>c. \<not> is_space c) scope" "CHR '':'' \<notin> set scope"
    using assms(9) by (auto simp: list_all_iff)
  have "scope \<in> set (words_of (tc_scope (is_claims x)))"
    using has piece_is_word [OF _ assms(8) plain(1)] assms(7,8) x(3) by (auto simp: has_scope_def)
  then show ?thesis
    using run_well_issued [OF assms(1) x(1)] target plain(2) x(1) unfolding well_issued_def by blast
qed

section \<open>An example\<close>

definition access_amf :: json where
  "access_amf =
     JObject [(''nfInstanceId'', JString ''5ba9a927-1d31-4c8e-8a10-000000000002''), (''nfStatus'', JString ''REGISTERED''),
       (''nfType'', JString ''AMF'')]"

definition access_udm :: json where
  "access_udm =
     JObject [(''nfInstanceId'', JString ''5ba9a927-1d31-4c8e-8a10-000000000002''),
       (''nfServiceList'', JObject [(''s1'', demo_service)]), (''nfStatus'', JString ''REGISTERED''), (''nfType'', JString ''UDM'')]"

definition access_registry :: nf_registry where
  "access_registry = \<lparr>profiles = [(''a1'', access_amf), (''u1'', access_udm)], last_heartbeat = [(''a1'', 0), (''u1'', 0)]\<rparr>"

definition access_token :: issuance where
  "access_token =
     \<lparr>is_claims = \<lparr>tc_sub = ''a1'', tc_aud = ''UDM'', tc_scope = ''nudm-sdm''\<rparr>,
      is_peer = \<lparr>cert_cn = ''amf'', cert_dns_names = []\<rparr>, is_registry = access_registry\<rparr>"

definition access_state :: nrf_state where
  "access_state = \<lparr>nrf_registry = access_registry, nrf_issued = [access_token]\<rparr>"

definition access_decoder :: jwt_decoder where
  "access_decoder t =
     (if t = ''genuine''
      then Some \<lparr>cl_sub = Some ''a1'', cl_aud = Some [''UDM''], cl_scope = Some (JString ''nudm-sdm''), cl_exp = True\<rparr>
      else None)"

lemma access_registered:
  "register_instance 0 ''a1'' access_amf no_subscriptions empty_registry =
     Some (201, \<lparr>profiles = [(''a1'', access_amf)], last_heartbeat = [(''a1'', 0)]\<rparr>)"
  "register_instance 0 ''u1'' access_udm no_subscriptions \<lparr>profiles = [(''a1'', access_amf)], last_heartbeat = [(''a1'', 0)]\<rparr> =
     Some (201, access_registry)"
  by (simp_all add: register_instance_def validate_nf_profile_def access_amf_def access_udm_def access_registry_def
      member_violates_def string_member_def demo_uuid check_def number_member_def array_member_def known_nf_types_def
      known_status_values_def missing_ie_def contains_def put_profile_def empty_registry_def all_notification_uris_def
      no_subscriptions_def)

lemma access_issued:
  "post_token demo_lib True (token_request_body ''a1'' ''nudm-sdm'' ''UDM'') \<lparr>cert_cn = ''amf'', cert_dns_names = []\<rparr> access_registry =
     Some (Token_issued (is_claims access_token))"
proof -
  have "authorize_token_request demo_lib
      [''grant_type'' \<mapsto> ''client_credentials'', ''nfInstanceId'' \<mapsto> ''a1'', ''scope'' \<mapsto> ''nudm-sdm'', ''targetNfType'' \<mapsto> ''UDM'']
      \<lparr>cert_cn = ''amf'', cert_dns_names = []\<rparr> access_registry = Some Authorized"
    by code_simp
  then show ?thesis
    by (simp add: post_token_def parse_token_request access_token_def)
qed

lemma access_run: "nrf_run demo_lib access_state"
proof -
  let ?s1 = "\<lparr>nrf_registry = \<lparr>profiles = [(''a1'', access_amf)], last_heartbeat = [(''a1'', 0)]\<rparr>, nrf_issued = []\<rparr>"
  let ?s2 = "\<lparr>nrf_registry = access_registry, nrf_issued = []\<rparr>"
  have "nrf_step demo_lib \<lparr>nrf_registry = empty_registry, nrf_issued = []\<rparr> ?s1"
    using nrf_step.Event [of "\<lambda>_ _. None" "Ev_register 0 ''a1'' access_amf no_subscriptions"
        "\<lparr>nrf_registry = empty_registry, nrf_issued = []\<rparr>"]
    by (simp add: access_registered)
  moreover have "nrf_step demo_lib ?s1 ?s2"
    using nrf_step.Event [of "\<lambda>_ _. None" "Ev_register 0 ''u1'' access_udm no_subscriptions" ?s1] by (simp add: access_registered)
  moreover have "nrf_step demo_lib ?s2 access_state"
    using nrf_step.Token [of demo_lib "token_request_body ''a1'' ''nudm-sdm'' ''UDM''" "\<lparr>cert_cn = ''amf'', cert_dns_names = []\<rparr>" ?s2]
    by (simp add: access_issued access_state_def access_token_def)
  ultimately show ?thesis by (meson nrf_run.intros)
qed

theorem admitted_request_was_authorized_witness:
  "\<exists>x \<in> set (nrf_issued access_state). \<exists>profile t producers.
    get_profile (tc_sub (is_claims x)) (is_registry x) = Some profile \<and> string_member profile ''nfType'' = Some t \<and>
    (lower (cert_cn (is_peer x)) = lower t \<or> (\<exists>n \<in> set (cert_dns_names (is_peer x)). lower n = lower t)) \<and>
    tc_aud (is_claims x) \<in> {az_nf_type demo_authorizer, az_nf_instance_id demo_authorizer} \<and>
    search_by_type (tc_aud (is_claims x)) (is_registry x) = Some producers \<and>
    (\<exists>p \<in> set producers. offered demo_lib p ''nudm-sdm'' (requester_of profile t))"
proof (rule admitted_request_was_authorized [OF access_run])
  show "authentic access_decoder (nrf_issued access_state)"
    by (simp add: authentic_def access_decoder_def access_state_def access_token_def)
  have scope: "required_scope (hr_path demo_request) = ''nudm-sdm''" by code_simp
  then show "required_scope (hr_path demo_request) = ''nudm-sdm''" .
  have "token_for demo_authorizer access_decoder demo_request ''nudm-sdm''" by code_simp
  moreover have "has_scope ''nudm-sdm'' ''nudm-sdm''" by code_simp
  ultimately show "check_request demo_authorizer access_decoder demo_request = None"
    by (simp add: check_request_token_for scope Let_def)
  show "list_all (\<lambda>c. \<not> is_space c \<and> c \<noteq> CHR '':'') ''nudm-sdm''" by code_simp
qed (simp_all add: demo_authorizer_def)

end
