(* ===== verification/Aka_Crypto.thy ===== *)
theory Aka_Crypto
  imports Sbi_Text
begin

text \<open>
  The MILENAGE functions of \<open>libs/aka-crypto/src/milenage.cpp\<close> and the hexadecimal texts of
  \<open>hex.hpp\<close> and \<open>hex.cpp\<close>.

  The ciphers come from OpenSSL, which is not part of the repository: they are the fields of a
  record \<open>crypto\<close> that every function takes, and \<open>openssl_ok\<close> states what their documentation
  promises (the lengths of the results; encryption in counter mode is its own inverse). The key agreements can fail (\<^verbatim>\<open>None\<close>). The
  exceptions thrown when OpenSSL fails are not modelled. A \<open>std::array<uint8_t, N>\<close> is a list
  of octets whose length is \<open>N\<close>.
\<close>

section \<open>The cryptographic library\<close>

record crypto =
  aes128 :: "octets \<Rightarrow> octets \<Rightarrow> octets"
  hmac_sha256 :: "octets \<Rightarrow> octets \<Rightarrow> octets"
  sha256 :: "octets \<Rightarrow> octets"
  aes_ctr :: "octets \<Rightarrow> octets \<Rightarrow> octets \<Rightarrow> octets"
  aes_cmac :: "octets \<Rightarrow> octets \<Rightarrow> octets"
  x25519 :: "octets \<Rightarrow> octets \<Rightarrow> octets option"
  ecdh_p256 :: "octets \<Rightarrow> octets \<Rightarrow> octets option"
  x963_kdf :: "octets \<Rightarrow> octets \<Rightarrow> octets"

definition openssl_ok :: "crypto \<Rightarrow> bool" where
  "openssl_ok C \<longleftrightarrow>
     (\<forall>k x. length (aes128 C k x) = 16) \<and> (\<forall>k x. length (hmac_sha256 C k x) = 32) \<and>
     (\<forall>x. length (sha256 C x) = 32) \<and> (\<forall>k x. length (aes_cmac C k x) = 16) \<and>
     (\<forall>z i. length (x963_kdf C z i) = 64) \<and>
     (\<forall>k iv x. length (aes_ctr C k iv x) = length x) \<and>
     (\<forall>k iv x. aes_ctr C k iv (aes_ctr C k iv x) = x)"

lemma crypto_lengths:
  "openssl_ok C \<Longrightarrow> length (aes128 C k x) = 16"
  "openssl_ok C \<Longrightarrow> length (hmac_sha256 C k x) = 32"
  "openssl_ok C \<Longrightarrow> length (sha256 C x) = 32"
  "openssl_ok C \<Longrightarrow> length (aes_cmac C k x) = 16"
  "openssl_ok C \<Longrightarrow> length (x963_kdf C z i) = 64"
  "openssl_ok C \<Longrightarrow> length (aes_ctr C k iv x) = length x"
  by (simp_all add: openssl_ok_def)

lemma ctr_ctr: "openssl_ok C \<Longrightarrow> aes_ctr C k iv (aes_ctr C k iv x) = x"
  by (simp add: openssl_ok_def)

text \<open>A toy instance, on which the properties are evaluated.\<close>

definition pad_to :: "nat \<Rightarrow> octets \<Rightarrow> octets" where
  "pad_to n x = take n (x @ replicate n 0)"

definition mix :: "octets \<Rightarrow> octets \<Rightarrow> octet" where
  "mix k x = foldl (\<lambda>a b. 3 * a + b) 7 (k @ x)"

definition xor_all :: "octets \<Rightarrow> octets \<Rightarrow> octets" where
  "xor_all k p = map2 (XOR) k p"

definition toy_crypto :: crypto where
  "toy_crypto = \<lparr>aes128 = (\<lambda>k x. pad_to 16 (map (\<lambda>b. b + mix k x) x)),
     hmac_sha256 = (\<lambda>k x. pad_to 32 (mix k x # mix x k # x)), sha256 = (\<lambda>x. pad_to 32 (mix [] x # x)),
     aes_ctr = (\<lambda>k iv x. map (\<lambda>b. b XOR mix k iv) x), aes_cmac = (\<lambda>k x. pad_to 16 (mix k x # mix x k # x)),
     x25519 = (\<lambda>k p. Some (xor_all k p)), ecdh_p256 = (\<lambda>k p. Some (xor_all k p)), x963_kdf = (\<lambda>z i. pad_to 64 (mix z i # mix i z # z))\<rparr>"

lemma length_pad_to [simp]: "length (pad_to n x) = n"
  by (simp add: pad_to_def)

lemma openssl_ok_toy: "openssl_ok toy_crypto"
  by (simp add: openssl_ok_def toy_crypto_def comp_def xor.assoc)

section \<open>Blocks\<close>

definition xor_blocks :: "octets \<Rightarrow> octets \<Rightarrow> octets" where
  "xor_blocks a b = map2 (XOR) a b"

text \<open>\<open>out[i] = in[(i + n) % out.size()]\<close>\<close>

definition rotate_left_bytes :: "octets \<Rightarrow> nat \<Rightarrow> octets" where
  "rotate_left_bytes x n = map (\<lambda>i. x ! ((i + n) mod length x)) [0..<length x]"

definition make_c :: "octet \<Rightarrow> octets" where
  "make_c b = replicate 15 0 @ [b]"

definition make_in1 :: "octets \<Rightarrow> octets \<Rightarrow> octets" where
  "make_in1 sqn amf = sqn @ amf @ sqn @ amf"

lemma length_xor_blocks [simp]: "length (xor_blocks a b) = min (length a) (length b)"
  by (simp add: xor_blocks_def)

lemma length_rotate_left [simp]: "length (rotate_left_bytes x n) = length x"
  by (simp add: rotate_left_bytes_def)

lemma length_make_c [simp]: "length (make_c b) = 16"
  by (simp add: make_c_def)

lemma xor_xor_blocks: "length a \<le> length b \<Longrightarrow> xor_blocks (xor_blocks a b) b = a"
proof (induction a arbitrary: b)
  case (Cons x a)
  then show ?case by (cases b) (auto simp: xor_blocks_def xor.assoc)
qed (simp add: xor_blocks_def)

lemma xor_blocks_inj:
  "length a = length c \<Longrightarrow> length a \<le> length b \<Longrightarrow> xor_blocks a b = xor_blocks c b \<Longrightarrow> a = c"
  by (metis xor_xor_blocks)

lemma rotate_left_is_rotate: "rotate_left_bytes x n = rotate n x"
  by (rule nth_equalityI) (auto simp: rotate_left_bytes_def nth_rotate add.commute)

section \<open>The functions f1 to f5 and their resynchronisation variants\<close>

definition derive_opc :: "crypto \<Rightarrow> octets \<Rightarrow> octets \<Rightarrow> octets" where
  "derive_opc C k op' = xor_blocks (aes128 C k op') op'"

text \<open>The block that \<open>f1\<close> and \<open>f1_star\<close> both compute; the first half is MAC-A, the second MAC-S.\<close>

definition out1 :: "crypto \<Rightarrow> octets \<Rightarrow> octets \<Rightarrow> octets \<Rightarrow> octets \<Rightarrow> octets \<Rightarrow> octets" where
  "out1 C opc k rand sqn amf =
     (let temp = aes128 C k (xor_blocks rand opc);
          in1 = make_in1 sqn amf;
          rotated = rotate_left_bytes (xor_blocks in1 opc) 8;
          pre = xor_blocks (xor_blocks temp rotated) (make_c 0)
      in xor_blocks (aes128 C k pre) opc)"

definition f1 :: "crypto \<Rightarrow> octets \<Rightarrow> octets \<Rightarrow> octets \<Rightarrow> octets \<Rightarrow> octets \<Rightarrow> octets" where
  "f1 C opc k rand sqn amf = take 8 (out1 C opc k rand sqn amf)"

record f2345_output =
  fo_res :: octets
  fo_ck :: octets
  fo_ik :: octets
  fo_ak :: octets

definition f2345 :: "crypto \<Rightarrow> octets \<Rightarrow> octets \<Rightarrow> octets \<Rightarrow> f2345_output" where
  "f2345 C opc k rand =
     (let temp = aes128 C k (xor_blocks rand opc);
          temp_xor_opc = xor_blocks temp opc;
          pre2 = xor_blocks (rotate_left_bytes temp_xor_opc 0) (make_c 1);
          out2 = xor_blocks (aes128 C k pre2) opc;
          pre3 = xor_blocks (rotate_left_bytes temp_xor_opc 4) (make_c 2);
          out3 = xor_blocks (aes128 C k pre3) opc;
          pre4 = xor_blocks (rotate_left_bytes temp_xor_opc 8) (make_c 4);
          out4 = xor_blocks (aes128 C k pre4) opc
      in \<lparr>fo_res = drop 8 out2, fo_ck = out3, fo_ik = out4, fo_ak = take 6 out2\<rparr>)"

definition f1_star :: "crypto \<Rightarrow> octets \<Rightarrow> octets \<Rightarrow> octets \<Rightarrow> octets \<Rightarrow> octets" where
  "f1_star C opc k rand sqn_ms = drop 8 (out1 C opc k rand sqn_ms [0, 0])"

definition f5_star :: "crypto \<Rightarrow> octets \<Rightarrow> octets \<Rightarrow> octets \<Rightarrow> octets" where
  "f5_star C opc k rand =
     (let temp = aes128 C k (xor_blocks rand opc);
          temp_xor_opc = xor_blocks temp opc;
          pre = xor_blocks (rotate_left_bytes temp_xor_opc 12) (make_c 8);
          out5 = xor_blocks (aes128 C k pre) opc
      in take 6 out5)"

definition verify_and_decode_auts :: "crypto \<Rightarrow> octets \<Rightarrow> octets \<Rightarrow> octets \<Rightarrow> octets \<Rightarrow> octets option" where
  "verify_and_decode_auts C opc k rand auts =
     (let ak_star = f5_star C opc k rand;
          sqn_ms = xor_blocks (take 6 auts) ak_star;
          expected_mac_s = f1_star C opc k rand sqn_ms
      in if expected_mac_s \<noteq> drop 6 auts then None else Some sqn_ms)"

definition sqn_xor_ak :: "octets \<Rightarrow> octets \<Rightarrow> octets" where
  "sqn_xor_ak sqn ak = xor_blocks sqn ak"

lemma length_out1 [simp]: "openssl_ok C \<Longrightarrow> length opc = 16 \<Longrightarrow> length (out1 C opc k rand sqn amf) = 16"
  by (simp add: out1_def Let_def crypto_lengths)

lemma length_f1 [simp]:
  "openssl_ok C \<Longrightarrow> length opc = 16 \<Longrightarrow> length (f1 C opc k rand sqn amf) = 8"
  "openssl_ok C \<Longrightarrow> length opc = 16 \<Longrightarrow> length (f1_star C opc k rand sqn) = 8"
  by (simp_all add: f1_def f1_star_def)

lemma length_f5_star [simp]: "openssl_ok C \<Longrightarrow> length opc = 16 \<Longrightarrow> length (f5_star C opc k rand) = 6"
  by (simp add: f5_star_def Let_def crypto_lengths)

lemma length_f2345 [simp]:
  assumes "openssl_ok C" "length opc = 16"
  shows "length (fo_res (f2345 C opc k rand)) = 8" "length (fo_ck (f2345 C opc k rand)) = 16"
    "length (fo_ik (f2345 C opc k rand)) = 16" "length (fo_ak (f2345 C opc k rand)) = 6"
  using assms by (simp_all add: f2345_def Let_def crypto_lengths)

text \<open>A sequence number masked with an anonymity key is recovered by masking again.\<close>

lemma sqn_xor_ak_twice: "length sqn \<le> length ak \<Longrightarrow> sqn_xor_ak (sqn_xor_ak sqn ak) ak = sqn"
  by (simp add: sqn_xor_ak_def xor_xor_blocks)

text \<open>What a genuine subscriber sends, \<open>(SQN\_MS xor AK*) || MAC-S\<close>.\<close>

definition auts_of :: "crypto \<Rightarrow> octets \<Rightarrow> octets \<Rightarrow> octets \<Rightarrow> octets \<Rightarrow> octets" where
  "auts_of C opc k rand sqn_ms = sqn_xor_ak sqn_ms (f5_star C opc k rand) @ f1_star C opc k rand sqn_ms"

lemma verify_auts_iff:
  assumes "openssl_ok C" "length opc = 16" "length auts = 14"
  shows "verify_and_decode_auts C opc k rand auts = Some sqn \<longleftrightarrow>
           length sqn = 6 \<and> auts = auts_of C opc k rand sqn"
proof
  assume "verify_and_decode_auts C opc k rand auts = Some sqn"
  then have s: "sqn = xor_blocks (take 6 auts) (f5_star C opc k rand)"
    and m: "f1_star C opc k rand sqn = drop 6 auts"
    by (auto simp: verify_and_decode_auts_def Let_def split: if_splits)
  from s assms have "xor_blocks sqn (f5_star C opc k rand) = take 6 auts"
    by (simp add: xor_xor_blocks)
  with m have "auts = auts_of C opc k rand sqn"
    by (simp add: auts_of_def sqn_xor_ak_def)
  moreover from s assms(1,2,3) have "length sqn = 6"
    by (simp add: assms)
  ultimately show "length sqn = 6 \<and> auts = auts_of C opc k rand sqn" by simp
next
  assume "length sqn = 6 \<and> auts = auts_of C opc k rand sqn"
  with assms show "verify_and_decode_auts C opc k rand auts = Some sqn"
    by (simp add: verify_and_decode_auts_def Let_def auts_of_def sqn_xor_ak_def xor_xor_blocks)
qed

section \<open>Hexadecimal texts\<close>

definition hex_lower :: "octet \<Rightarrow> char" where
  "hex_lower d = ''0123456789abcdef'' ! unat d"

definition to_hex :: "octets \<Rightarrow> string" where
  "to_hex bs = concat (map (\<lambda>b. [hex_lower (drop_bit 4 b AND 0xF), hex_lower (b AND 0xF)]) bs)"

definition hex_octet :: "char \<Rightarrow> char \<Rightarrow> octet option" where
  "hex_octet c_hi c_lo =
     (case (hex_value c_hi, hex_value c_lo) of
        (Some hi, Some lo) \<Rightarrow> Some (push_bit 4 (of_nat hi) OR of_nat lo)
      | _ \<Rightarrow> None)"

text \<open>The variable-length form: an odd length and a character that is no digit are refused.\<close>

fun from_hex :: "string \<Rightarrow> octets option" where
  "from_hex [] = Some []"
| "from_hex [c] = None"
| "from_hex (a # b # cs) =
     (case (hex_octet a b, from_hex cs) of (Some x, Some xs) \<Rightarrow> Some (x # xs) | _ \<Rightarrow> None)"

definition from_hex_array :: "nat \<Rightarrow> string \<Rightarrow> octets option" where
  "from_hex_array n txt = (if length txt \<noteq> n * 2 then None else from_hex txt)"

lemma hex_value_lower: "n < 16 \<Longrightarrow> hex_value (''0123456789abcdef'' ! n) = Some n"
  by (simp add: numeral_eq_Suc less_Suc_eq) (auto simp: hex_value_def between_def)

lemma unat_nibble: "unat ((b :: octet) AND 0xF) < 16"
proof -
  have "b AND 0xF = take_bit 4 b"
    by (simp add: take_bit_eq_mask mask_eq_exp_minus_1)
  then show ?thesis by (simp add: unsigned_take_bit_eq take_bit_nat_less_exp [of 4, simplified])
qed

lemma nibbles_join: "push_bit 4 (drop_bit 4 b AND 0xF) OR (b AND 0xF) = (b :: octet)"
proof (rule bit_word_eqI)
  fix n assume n: "n < LENGTH(8)"
  have m: "(0xF :: octet) = mask 4" by (simp add: mask_eq_exp_minus_1)
  from n show "bit (push_bit 4 (drop_bit 4 b AND 0xF) OR b AND 0xF) n = bit b n"
    unfolding m by (cases "n < 4") (auto simp: bit_simps)
qed

lemma hex_octet_lower:
  "hex_octet (hex_lower (drop_bit 4 b AND 0xF)) (hex_lower (b AND 0xF)) = Some b"
  by (simp add: hex_octet_def hex_lower_def hex_value_lower unat_nibble nibbles_join [simplified])

lemma to_hex_Cons: "to_hex (b # bs) = hex_lower (drop_bit 4 b AND 0xF) # hex_lower (b AND 0xF) # to_hex bs"
  by (simp add: to_hex_def)

lemma from_to_hex [simp]: "from_hex (to_hex bs) = Some bs"
proof (induction bs)
  case (Cons b bs)
  then show ?case by (simp add: to_hex_Cons hex_octet_lower)
qed (simp add: to_hex_def)

lemma length_to_hex [simp]: "length (to_hex bs) = length bs * 2"
  by (induction bs) (simp_all add: to_hex_Cons, simp add: to_hex_def)

lemma from_to_hex_array [simp]: "length bs = n \<Longrightarrow> from_hex_array n (to_hex bs) = Some bs"
  by (simp add: from_hex_array_def)

lemma length_from_hex: "from_hex t = Some bs \<Longrightarrow> length t = length bs * 2"
  by (induction t arbitrary: bs rule: from_hex.induct) (auto split: option.splits)

lemma length_from_hex_array: "from_hex_array n t = Some bs \<Longrightarrow> length bs = n"
  by (auto simp: from_hex_array_def dest: length_from_hex split: if_splits)

end
