(* ===== verification/Key_Derivation.thy ===== *)
theory Key_Derivation
  imports Aka_Crypto
begin

text \<open>
  The key hierarchy of \<open>libs/aka-crypto/src/kdf.cpp\<close> and the NAS algorithms of
  \<open>nas_security.cpp\<close>. Every key is the HMAC-SHA-256 of a text framed by \<open>kdf_input\<close>; the framing
  is shown to be injective as long as no parameter reaches 65,536 octets.
\<close>

section \<open>The generic derivation\<close>

definition to_bytes :: "string \<Rightarrow> octets" where
  "to_bytes s = map of_char s"

text \<open>The length is truncated to sixteen bits.\<close>

definition len_prefix :: "octets \<Rightarrow> octets" where
  "len_prefix p = put_u16 (of_nat (length p))"

definition kdf_input :: "octet \<Rightarrow> octets list \<Rightarrow> octets" where
  "kdf_input fc params = fc # concat (map (\<lambda>p. p @ len_prefix p) params)"

definition generic_kdf :: "crypto \<Rightarrow> octets \<Rightarrow> octet \<Rightarrow> octets list \<Rightarrow> octets" where
  "generic_kdf C key fc params = hmac_sha256 C key (kdf_input fc params)"

lemma length_generic_kdf [simp]: "openssl_ok C \<Longrightarrow> length (generic_kdf C key fc ps) = 32"
  by (simp add: generic_kdf_def crypto_lengths)

lemma unat_of_char: "unat (of_char c :: octet) = of_char c"
proof -
  have "(of_char c :: octet) = of_nat (of_char c)" by (simp add: of_nat_of_char)
  moreover have "of_char c < (256 :: nat)" by simp
  ultimately show ?thesis by (simp add: unsigned_of_nat take_bit_eq_mod del: of_nat_of_char)
qed

lemma to_bytes_inj: "to_bytes s = to_bytes t \<longleftrightarrow> s = t"
proof
  assume "to_bytes s = to_bytes t"
  then have "map (\<lambda>b. char_of (unat b)) (to_bytes s) = map (\<lambda>b. char_of (unat b)) (to_bytes t)" by simp
  then show "s = t" by (simp add: to_bytes_def comp_def unat_of_char)
qed simp

section \<open>The framing is injective\<close>

definition frame :: "octets list \<Rightarrow> octets" where
  "frame ps = concat (map (\<lambda>p. p @ len_prefix p) ps)"

lemma frame_simps [simp]: "frame [] = []" "frame (ps @ [p]) = frame ps @ p @ len_prefix p"
  by (simp_all add: frame_def)

lemma length_len_prefix [simp]: "length (len_prefix p) = 2"
  by (simp add: len_prefix_def)

lemma put_u16_inj: "put_u16 a = put_u16 b \<longleftrightarrow> a = b"
  by (metis get_put_u16 option.inject append_Nil append_Nil2 list.size(3))

lemma unat_of_nat_u16: "n < 65536 \<Longrightarrow> unat (of_nat n :: u16) = n"
  by (simp add: unsigned_of_nat take_bit_eq_mod)

lemma len_prefix_length:
  assumes "length p < 65536" "length q < 65536" "len_prefix p = len_prefix q"
  shows "length p = length q"
proof -
  have "(of_nat (length p) :: u16) = of_nat (length q)"
    using assms(3) by (simp add: len_prefix_def put_u16_inj)
  then show ?thesis
    by (metis unat_of_nat_u16 assms(1,2))
qed

lemma frame_inj:
  assumes "\<forall>p \<in> set ps. length p < 65536" "\<forall>q \<in> set qs. length q < 65536" "frame ps = frame qs"
  shows "ps = qs"
  using assms
proof (induction ps arbitrary: qs rule: rev_induct)
  case Nil
  then show ?case
    by (cases qs rule: rev_cases) (auto dest: arg_cong [where f = length])
next
  case (snoc p ps)
  show ?case
  proof (cases qs rule: rev_cases)
    case Nil
    with snoc.prems show ?thesis by (auto dest: arg_cong [where f = length])
  next
    case (snoc qs' q)
    with snoc.prems(3) have eq: "(frame ps @ p) @ len_prefix p = (frame qs' @ q) @ len_prefix q" by simp
    then have h: "frame ps @ p = frame qs' @ q" and "len_prefix p = len_prefix q"
      by (subst (asm) append_eq_append_conv; simp)+
    then have "length p = length q"
      using snoc.prems snoc by (intro len_prefix_length) auto
    with h have "frame ps = frame qs'" "p = q" by simp_all
    with snoc.IH [of qs'] snoc.prems snoc show ?thesis by simp
  qed
qed

lemma kdf_input_inj:
  assumes "\<forall>p \<in> set ps. length p < 65536" "\<forall>q \<in> set qs. length q < 65536"
  shows "kdf_input fc ps = kdf_input fc' qs \<longleftrightarrow> fc = fc' \<and> ps = qs"
  using frame_inj [OF assms] by (auto simp: kdf_input_def frame_def)

text \<open>At 65,536 octets it is not: the length of such a parameter is written as zero.\<close>

lemma kdf_input_collision: "kdf_input fc [replicate 65536 0] = kdf_input fc (replicate 32769 [])"
proof -
  have "concat (replicate n [0, 0]) = replicate (2 * n) (0 :: octet)" for n
    by (induction n) (simp_all add: replicate_add [symmetric])
  moreover have "len_prefix [] = [0, 0]" "len_prefix (replicate 65536 0) = [0, 0]"
    by (simp_all add: len_prefix_def put_u16_def)
  moreover have "replicate 65536 (0 :: octet) @ [0, 0] = replicate 65538 0"
    using replicate_add [of 65536 2 "0 :: octet"] by (simp add: numeral_2_eq_2)
  ultimately show ?thesis
    by (simp add: kdf_input_def map_replicate_const)
qed

section \<open>The keys\<close>

definition derive_kausf :: "crypto \<Rightarrow> octets \<Rightarrow> octets \<Rightarrow> string \<Rightarrow> octets \<Rightarrow> octets" where
  "derive_kausf C ck ik serving_network_name sqn_xor_ak_value =
     generic_kdf C (ck @ ik) 0x6A [to_bytes serving_network_name, sqn_xor_ak_value]"

definition derive_ck_ik_prime :: "crypto \<Rightarrow> octets \<Rightarrow> octets \<Rightarrow> string \<Rightarrow> octets \<Rightarrow> octets \<times> octets" where
  "derive_ck_ik_prime C ck ik serving_network_name sqn_xor_ak_value =
     (let out = generic_kdf C (ck @ ik) 0x20 [to_bytes serving_network_name, sqn_xor_ak_value]
      in (take 16 out, drop 16 out))"

definition derive_res_star :: "crypto \<Rightarrow> octets \<Rightarrow> octets \<Rightarrow> string \<Rightarrow> octets \<Rightarrow> octets \<Rightarrow> octets" where
  "derive_res_star C ck ik serving_network_name rand res =
     drop 16 (generic_kdf C (ck @ ik) 0x6B [to_bytes serving_network_name, rand, res])"

definition derive_hxres_star :: "crypto \<Rightarrow> octets \<Rightarrow> octets \<Rightarrow> octets" where
  "derive_hxres_star C rand res_star = take 16 (sha256 C (rand @ res_star))"

definition derive_kseaf :: "crypto \<Rightarrow> octets \<Rightarrow> string \<Rightarrow> octets" where
  "derive_kseaf C kausf serving_network_name = generic_kdf C kausf 0x6C [to_bytes serving_network_name]"

definition derive_kamf :: "crypto \<Rightarrow> octets \<Rightarrow> string \<Rightarrow> octets \<Rightarrow> octets" where
  "derive_kamf C kseaf supi abba = generic_kdf C kseaf 0x6D [to_bytes supi, abba]"

definition derive_kakma :: "crypto \<Rightarrow> octets \<Rightarrow> string \<Rightarrow> octets" where
  "derive_kakma C kausf supi = generic_kdf C kausf 0x80 [to_bytes ''AKMA'', to_bytes supi]"

definition derive_a_tid :: "crypto \<Rightarrow> octets \<Rightarrow> string \<Rightarrow> octets" where
  "derive_a_tid C kausf supi = generic_kdf C kausf 0x81 [to_bytes ''A-TID'', to_bytes supi]"

definition derive_kaf :: "crypto \<Rightarrow> octets \<Rightarrow> octets \<Rightarrow> octets" where
  "derive_kaf C kakma af_id = generic_kdf C kakma 0x82 [af_id]"

definition derive_knas_enc :: "crypto \<Rightarrow> octets \<Rightarrow> octet \<Rightarrow> octets" where
  "derive_knas_enc C kamf algorithm_identity = drop 16 (generic_kdf C kamf 0x69 [[1], [algorithm_identity]])"

definition derive_knas_int :: "crypto \<Rightarrow> octets \<Rightarrow> octet \<Rightarrow> octets" where
  "derive_knas_int C kamf algorithm_identity = drop 16 (generic_kdf C kamf 0x69 [[2], [algorithm_identity]])"

definition derive_sor_mac_iausf :: "crypto \<Rightarrow> octets \<Rightarrow> octets \<Rightarrow> u16 \<Rightarrow> octets option \<Rightarrow> octets" where
  "derive_sor_mac_iausf C kausf sor_header counter_sor steering_info_list =
     drop 16 (generic_kdf C kausf 0x77
       ([sor_header, put_u16 counter_sor] @
        (case steering_info_list of None \<Rightarrow> [] | Some l \<Rightarrow> [l])))"

definition derive_sor_mac_iue :: "crypto \<Rightarrow> octets \<Rightarrow> u16 \<Rightarrow> octets" where
  "derive_sor_mac_iue C kausf counter_sor = drop 16 (generic_kdf C kausf 0x78 [[1], put_u16 counter_sor])"

definition derive_upu_mac_iausf :: "crypto \<Rightarrow> octets \<Rightarrow> octets \<Rightarrow> u16 \<Rightarrow> octets" where
  "derive_upu_mac_iausf C kausf ue_parameters_update_data counter_upu =
     drop 16 (generic_kdf C kausf 0x7B [ue_parameters_update_data, put_u16 counter_upu])"

definition derive_upu_mac_iue :: "crypto \<Rightarrow> octets \<Rightarrow> u16 \<Rightarrow> octets" where
  "derive_upu_mac_iue C kausf counter_upu = drop 16 (generic_kdf C kausf 0x7C [[1], put_u16 counter_upu])"

definition derive_kgnb :: "crypto \<Rightarrow> octets \<Rightarrow> u32 \<Rightarrow> octet \<Rightarrow> octets" where
  "derive_kgnb C kamf uplink_nas_count access_type_distinguisher =
     generic_kdf C kamf 0x6E [put_u32 uplink_nas_count, [access_type_distinguisher]]"

definition derive_nh :: "crypto \<Rightarrow> octets \<Rightarrow> octets \<Rightarrow> octets" where
  "derive_nh C kamf sync_input = generic_kdf C kamf 0x6F [sync_input]"

text \<open>The relay service code is a 64-bit integer, of which three octets are taken.\<close>

definition relay_service_code_bytes :: "u64 \<Rightarrow> octets" where
  "relay_service_code_bytes rsc =
     [ucast (drop_bit 16 rsc AND 0xFF), ucast (drop_bit 8 rsc AND 0xFF), ucast (rsc AND 0xFF)]"

definition derive_cp_pruk :: "crypto \<Rightarrow> octets \<Rightarrow> string \<Rightarrow> u64 \<Rightarrow> octets" where
  "derive_cp_pruk C kausf_p supi rsc = generic_kdf C kausf_p 0x85 [to_bytes supi, relay_service_code_bytes rsc]"

definition derive_cp_pruk_id_star :: "crypto \<Rightarrow> octets \<Rightarrow> string \<Rightarrow> u64 \<Rightarrow> octets" where
  "derive_cp_pruk_id_star C kausf_p supi rsc =
     generic_kdf C kausf_p 0x86 [to_bytes ''PRUK-ID'', relay_service_code_bytes rsc, to_bytes supi]"

definition derive_knr_prose :: "crypto \<Rightarrow> octets \<Rightarrow> octets \<Rightarrow> octets \<Rightarrow> octets" where
  "derive_knr_prose C cp_pruk nonce1 nonce2 = generic_kdf C cp_pruk 0x87 [nonce2, nonce1]"

named_theorems derive_defs "the derivations as calls of the generic one"

lemmas [derive_defs] = derive_kausf_def derive_res_star_def derive_kseaf_def derive_kamf_def
  derive_kakma_def derive_a_tid_def derive_kaf_def derive_knas_enc_def derive_knas_int_def
  derive_sor_mac_iausf_def derive_sor_mac_iue_def derive_upu_mac_iausf_def derive_upu_mac_iue_def
  derive_kgnb_def derive_nh_def derive_cp_pruk_def derive_cp_pruk_id_star_def derive_knr_prose_def
  derive_ck_ik_prime_def

lemma length_keys [simp]:
  assumes "openssl_ok C"
  shows "length (derive_kausf C ck ik n x) = 32" "length (derive_kseaf C k n) = 32"
    "length (derive_kamf C k s a) = 32" "length (derive_res_star C ck ik n r e) = 16"
    "length (derive_knas_enc C k i) = 16" "length (derive_knas_int C k i) = 16"
    "length (derive_hxres_star C r e) = 16"
  using assms by (simp_all add: derive_defs derive_hxres_star_def crypto_lengths)

section \<open>The algorithms 128-NEA2 and 128-NIA2\<close>

definition count_bearer_direction_prefix :: "u32 \<Rightarrow> octet \<Rightarrow> octet \<Rightarrow> octets" where
  "count_bearer_direction_prefix count bearer direction =
     put_u32 count @ [push_bit 3 (bearer AND 0x1F) OR push_bit 2 (direction AND 1)]"

definition nea2_apply :: "crypto \<Rightarrow> octets \<Rightarrow> u32 \<Rightarrow> octet \<Rightarrow> octet \<Rightarrow> octets \<Rightarrow> octets" where
  "nea2_apply C key count bearer direction data =
     aes_ctr C key (count_bearer_direction_prefix count bearer direction @ replicate 11 0) data"

definition nia2_mac :: "crypto \<Rightarrow> octets \<Rightarrow> u32 \<Rightarrow> octet \<Rightarrow> octet \<Rightarrow> octets \<Rightarrow> u32" where
  "nia2_mac C key count bearer direction message =
     (let full_mac = aes_cmac C key
            (count_bearer_direction_prefix count bearer direction @ [0, 0, 0] @ message)
      in join_u32 (full_mac ! 0) (full_mac ! 1) (full_mac ! 2) (full_mac ! 3))"

lemma nea2_involution [simp]:
  "openssl_ok C \<Longrightarrow> nea2_apply C key n b d (nea2_apply C key n b d x) = x"
  by (simp add: nea2_apply_def ctr_ctr)

lemma length_nea2 [simp]: "openssl_ok C \<Longrightarrow> length (nea2_apply C key n b d x) = length x"
  by (simp add: nea2_apply_def crypto_lengths)

text \<open>Equal prefixes mean equal counters, and equal bearers and directions of the specified widths:
  the counter block of one message is never that of another.\<close>

lemma put_u32_inj: "put_u32 a = put_u32 b \<longleftrightarrow> a = b"
  by (metis get_put_u32 option.inject append_Nil append_Nil2 list.size(3))

lemma prefix_inj:
  "count_bearer_direction_prefix n b d = count_bearer_direction_prefix n' b d' \<longleftrightarrow>
     n = n' \<and> d AND 1 = d' AND 1"
proof -
  have "push_bit 3 (b AND 0x1F) OR push_bit 2 (d AND 1) = push_bit 3 (b AND 0x1F) OR push_bit 2 (d' AND 1)
          \<longleftrightarrow> d AND 1 = d' AND 1" (is "?l = ?r \<longleftrightarrow> _")
  proof
    assume "?l = ?r"
    then have "bit ?l 2 = bit ?r 2" by simp
    then have "odd d = odd d'" by (simp add: bit_simps bit_0)
    then show "d AND 1 = d' AND 1" by (simp add: and_one_eq mod_2_eq_odd)
  qed simp
  then show ?thesis by (auto simp: count_bearer_direction_prefix_def put_u32_inj)
qed

end
