(* ===== verification/Suci.thy ===== *)
theory Suci
  imports Key_Derivation
begin

text \<open>
  Concealed subscriber identities: \<open>libs/aka-crypto/src/suci.cpp\<close> (the ECIES profiles),
  \<open>libs/tbcd-core/src/tbcd.cpp\<close> and \<open>deconceal_suci_if_needed\<close> of \<open>nfs/udm/src/main.cpp\<close>. The two
  key agreements and the key derivation are OpenSSL's.
\<close>

section \<open>Telephony digits\<close>

fun encode_tbcd :: "string \<Rightarrow> octets" where
  "encode_tbcd [] = []"
| "encode_tbcd [a] = [push_bit 4 0xF OR ((of_char a - 48) AND 0xF)]"
| "encode_tbcd (a # b # cs) = (push_bit 4 (of_char b - 48) OR ((of_char a - 48) AND 0xF)) # encode_tbcd cs"

fun decode_tbcd :: "octets \<Rightarrow> string" where
  "decode_tbcd [] = []"
| "decode_tbcd (b # bs) =
     char_of (48 + unat (b AND 0xF)) #
     (if drop_bit 4 b AND 0xF = 0xF then [] else char_of (48 + unat (drop_bit 4 b AND 0xF)) # decode_tbcd bs)"

lemma decimal_octet:
  assumes "digit c"
  shows "unat (of_char c - 48 :: octet) < 10" "char_of (48 + unat (of_char c - 48 :: octet)) = c"
proof -
  define n where "n = (of_char c :: nat) - 48"
  have n: "n < 10" "c = char_of (48 + n)"
    using assms by (auto simp: between_def n_def)
  have "(of_char c :: octet) = of_nat (of_char c)" by (simp add: of_nat_of_char)
  also have "\<dots> = 48 + of_nat n"
    using assms by (simp add: n_def between_def of_nat_diff del: of_nat_of_char)
  finally have "(of_char c - 48 :: octet) = of_nat n" by simp
  then have "unat (of_char c - 48 :: octet) = n"
    using n(1) by (simp add: unsigned_of_nat take_bit_eq_mod)
  with n show "unat (of_char c - 48 :: octet) < 10" "char_of (48 + unat (of_char c - 48 :: octet)) = c"
    by simp_all
qed

lemma nibbles_split:
  assumes "unat (a :: octet) < 16" "unat b < 16"
  shows "(push_bit 4 b OR (a AND 0xF)) AND 0xF = a" "drop_bit 4 (push_bit 4 b OR (a AND 0xF)) AND 0xF = b"
proof -
  have t: "take_bit 4 a = a" "take_bit 4 b = b"
    using assms by (simp_all add: take_bit_self)
  have m: "(0xF :: octet) = mask 4" by (simp add: mask_eq_exp_minus_1)
  have bits: "\<not> bit a k" "\<not> bit b k" if "4 \<le> k" for k
    using t that by (metis bit_take_bit_iff not_less)+
  show "(push_bit 4 b OR (a AND 0xF)) AND 0xF = a"
    unfolding m by (rule bit_word_eqI) (use bits(1) in \<open>auto simp: bit_simps not_le [symmetric]\<close>)
  show "drop_bit 4 (push_bit 4 b OR (a AND 0xF)) AND 0xF = b"
    unfolding m by (rule bit_word_eqI) (use bits in \<open>auto simp: bit_simps not_le [symmetric]\<close>)
qed

lemma tbcd_back: "\<forall>c \<in> set s. digit c \<Longrightarrow> decode_tbcd (encode_tbcd s) = s"
proof (induction s rule: encode_tbcd.induct)
  case (2 a)
  then show ?case
    using decimal_octet [of a] nibbles_split [of "of_char a - 48" "0xF"] by simp
next
  case (3 a b cs)
  then have d: "unat (of_char a - 48 :: octet) < 10" "unat (of_char b - 48 :: octet) < 10"
      "char_of (48 + unat (of_char a - 48 :: octet)) = a" "char_of (48 + unat (of_char b - 48 :: octet)) = b"
    by (simp_all add: decimal_octet)
  then have "(of_char b - 48 :: octet) \<noteq> 0xF" by auto
  with 3 d nibbles_split [of "of_char a - 48" "of_char b - 48"] show ?case
    by (simp add: drop_bit_or del: drop_bit_push_bit)
qed simp

section \<open>The ECIES profiles\<close>

definition finish_deconceal :: "crypto \<Rightarrow> octets \<Rightarrow> octets \<Rightarrow> octets \<Rightarrow> octets \<Rightarrow> octets option" where
  "finish_deconceal C z eph_pub ciphertext received_mac_tag =
     (let k = x963_kdf C z eph_pub;
          ek = take 16 k;
          icb = take 16 (drop 16 k);
          mk = drop 32 k;
          computed_mac = take 8 (hmac_sha256 C mk ciphertext)
      in if computed_mac \<noteq> received_mac_tag then None else Some (aes_ctr C ek icb ciphertext))"

definition deconceal ::
    "crypto \<Rightarrow> (octets \<Rightarrow> octets \<Rightarrow> octets option) \<Rightarrow> nat \<Rightarrow> octets \<Rightarrow> octets \<Rightarrow> octets option" where
  "deconceal C agree eph_len scheme_output private_key =
     (if length scheme_output < eph_len + 8 then None
      else let eph_pub = take eph_len scheme_output;
               ciphertext = take (length scheme_output - 8 - eph_len) (drop eph_len scheme_output);
               received_mac = drop (length scheme_output - 8) scheme_output
           in (case agree private_key eph_pub of
                 None \<Rightarrow> None
               | Some z \<Rightarrow> finish_deconceal C z eph_pub ciphertext received_mac))"

definition deconceal_profile_a :: "crypto \<Rightarrow> octets \<Rightarrow> octets \<Rightarrow> octets option" where
  "deconceal_profile_a C scheme_output private_key = deconceal C (x25519 C) 32 scheme_output private_key"

definition deconceal_profile_b :: "crypto \<Rightarrow> octets \<Rightarrow> octets \<Rightarrow> octets option" where
  "deconceal_profile_b C scheme_output private_key = deconceal C (ecdh_p256 C) 33 scheme_output private_key"

text \<open>What a subscriber's module sends: its ephemeral key, the encrypted number and its tag.\<close>

definition conceal_with :: "crypto \<Rightarrow> octets \<Rightarrow> octets \<Rightarrow> octets \<Rightarrow> octets" where
  "conceal_with C z eph_pub plain =
     (let k = x963_kdf C z eph_pub; c = aes_ctr C (take 16 k) (take 16 (drop 16 k)) plain
      in eph_pub @ c @ take 8 (hmac_sha256 C (drop 32 k) c))"

lemma deconceal_iff:
  assumes "openssl_ok C"
  shows "deconceal C agree n out key = Some plain \<longleftrightarrow>
    n + 8 \<le> length out \<and>
    (\<exists>z. agree key (take n out) = Some z \<and> out = conceal_with C z (take n out) plain)"
    (is "?l \<longleftrightarrow> ?r")
proof
  assume ?l
  then obtain z where n: "n + 8 \<le> length out" and z: "agree key (take n out) = Some z"
    and f: "finish_deconceal C z (take n out) (take (length out - 8 - n) (drop n out)) (drop (length out - 8) out) = Some plain"
    by (auto simp: deconceal_def Let_def split: if_splits option.splits)
  let ?c = "take (length out - 8 - n) (drop n out)"
  have "out = take n out @ ?c @ drop (length out - 8) out"
  proof -
    have "drop n out = ?c @ drop (length out - 8) out"
      using n append_take_drop_id [of "length out - 8 - n" "drop n out"] by (simp add: add.commute)
    then show ?thesis by (metis append_take_drop_id)
  qed
  with f have "out = conceal_with C z (take n out) plain"
    using assms by (auto simp: finish_deconceal_def conceal_with_def Let_def ctr_ctr split: if_splits)
  with n z show ?r by blast
next
  assume ?r
  then obtain z where n: "n + 8 \<le> length out" and z: "agree key (take n out) = Some z"
    and o: "out = conceal_with C z (take n out) plain" by blast
  let ?k = "x963_kdf C z (take n out)"
  define c where "c = aes_ctr C (take 16 ?k) (take 16 (drop 16 ?k)) plain"
  define t where "t = take 8 (hmac_sha256 C (drop 32 ?k) c)"
  have out: "out = take n out @ c @ t"
    using o by (simp add: conceal_with_def Let_def c_def t_def)
  have "length t = 8" using assms by (simp add: t_def crypto_lengths)
  moreover have "length out = n + length c + length t"
    using arg_cong [OF out, of length] n by simp
  moreover have d: "drop n out = c @ t"
    using arg_cong [OF out, of "drop n"] n by simp
  moreover have "drop (length c) (drop n out) = drop (n + length c) out"
    by (simp add: add.commute)
  ultimately have "take (length out - 8 - n) (drop n out) = c" "drop (length out - 8) out = t"
    by simp_all
  then show ?l
    using n z assms by (simp add: deconceal_def finish_deconceal_def Let_def c_def t_def ctr_ctr)
qed

section \<open>The text form\<close>

text \<open>\<open>std::getline\<close> on a stream: no piece after a separator at the end.\<close>

definition getline_pieces :: "char \<Rightarrow> string \<Rightarrow> string list" where
  "getline_pieces sep s =
     (let ps = split_on sep s in if last ps = [] then butlast ps else ps)"

definition home_key_a :: string where
  "home_key_a = ''c53c22208b61860b06c62e5406a7b330c2b577aa5558981510d128247d38bd1d''"

definition home_key_b :: string where
  "home_key_b = ''f1ab1074477ebcc7f554ea1c5fc368b1616730155e0041ac447d6301975fecda''"

text \<open>\<^verbatim>\<open>None\<close> is \<open>std::nullopt\<close>; a text that is no SUCI is returned as it is.\<close>

definition deconceal_suci_if_needed :: "crypto \<Rightarrow> string \<Rightarrow> string option" where
  "deconceal_suci_if_needed C supi_or_suci =
     (if take 5 supi_or_suci \<noteq> ''suci-'' then Some supi_or_suci
      else let parts = getline_pieces (CHR ''-'') supi_or_suci
        in if length parts \<noteq> 8 \<or> parts ! 0 \<noteq> ''suci'' \<or> parts ! 1 \<noteq> ''0'' then None
           else (case from_hex (parts ! 7) of
                   None \<Rightarrow> None
                 | Some scheme_output \<Rightarrow>
                     let plaintext_msin_bcd =
                       (if parts ! 5 = ''0'' then Some scheme_output
                        else if parts ! 5 = ''1'' then
                          Option.bind (from_hex_array 32 home_key_a) (deconceal_profile_a C scheme_output)
                        else if parts ! 5 = ''2'' then
                          Option.bind (from_hex_array 32 home_key_b) (deconceal_profile_b C scheme_output)
                        else None)
                     in map_option (\<lambda>m. ''imsi-'' @ parts ! 2 @ parts ! 3 @ decode_tbcd m) plaintext_msin_bcd))"

lemma join_with_Cons: "ps \<noteq> [] \<Longrightarrow> join_with sep (p # ps) = p @ sep # join_with sep ps"
  by (cases ps) simp_all

lemma split_join: "ps \<noteq> [] \<Longrightarrow> \<forall>p \<in> set ps. sep \<notin> set p \<Longrightarrow> split_on sep (join_with sep ps) = ps"
proof (induction ps)
  case (Cons p ps)
  then show ?case
    by (cases ps) (simp_all add: split_on_none split_on_app)
qed simp

lemma hex_no_dash: "CHR ''-'' \<notin> set (to_hex bs)"
proof (induction bs)
  case (Cons b bs)
  have "hex_lower (c AND 0xF) \<noteq> CHR ''-''" for c :: octet
    using hex_value_lower [OF unat_nibble [of c]]
    by (auto simp: hex_lower_def hex_value_def between_def)
  from this [of "drop_bit 4 b"] this [of b] Cons show ?case
    by (auto simp: to_hex_Cons)
qed (simp add: to_hex_def)


lemma home_key_a_ok: "from_hex_array 32 home_key_a = Some (the (from_hex home_key_a))"
proof -
  have "from_hex_array 32 home_key_a \<noteq> None" by code_simp
  then show ?thesis by (auto simp: from_hex_array_def split: if_splits)
qed


end
