(* ===== verification/Subscriber_Auth.thy ===== *)
theory Subscriber_Auth
  imports Suci Json_Value Bss_Types
begin

text \<open>
  Where the authentication data of a subscriber comes from: the UDM's
  \<open>nfs/udm/src/udr_auth_source.cpp\<close>, which reads K, OPc, AMF and SQN from the UDR and advances the
  SQN with a compare-and-swap, the two UDR handlers and the store it talks to, and the operations
  of Nudm\_UEAU in \<open>nfs/udm/src/main.cpp\<close> that turn them into vectors.

  A running handler is a \<open>thread\<close>; each step of it is one request to the UDR, which serves the two
  kinds of request atomically (a row lock). A schedule is a list of steps, each with what the link
  does to its request. Applying an RFC 6902 patch is the JSON library's work: a parameter, for
  which \<open>patch_cas\<close> states what the RFC says of the one patch the UDM sends. The notifications the
  UDR sends after a patch are not modelled.
\<close>

section \<open>Sequence numbers\<close>

definition sqn_to_u64 :: "octets \<Rightarrow> u64" where
  "sqn_to_u64 sqn = foldl (\<lambda>v b. push_bit 8 v OR ucast b) 0 sqn"

fun low_octets :: "nat \<Rightarrow> u64 \<Rightarrow> octets" where
  "low_octets 0 v = []"
| "low_octets (Suc i) v = low_octets i (drop_bit 8 v) @ [ucast (v AND 0xFF)]"

definition u64_to_sqn :: "u64 \<Rightarrow> octets" where
  "u64_to_sqn v = low_octets 6 v"

definition sqn_add :: "octets \<Rightarrow> u64 \<Rightarrow> octets" where
  "sqn_add sqn n = u64_to_sqn ((sqn_to_u64 sqn + n) AND 0xFFFFFFFFFFFF)"

definition sqn_nat :: "octets \<Rightarrow> nat" where
  "sqn_nat sqn = unat (sqn_to_u64 sqn)"

lemma length_low_octets [simp]: "length (low_octets i v) = i"
  by (induction i arbitrary: v) simp_all

lemma length_sqn_add [simp]: "length (sqn_add sqn n) = 6"
  by (simp add: sqn_add_def u64_to_sqn_def)

lemma shift_in_octet: "push_bit 8 (drop_bit 8 v) OR ucast (ucast (v AND 0xFF) :: octet) = (v :: u64)"
proof (rule bit_word_eqI)
  have m: "(0xFF :: u64) = mask 8" by (simp add: mask_eq_exp_minus_1)
  fix n assume "n < LENGTH(64)"
  then show "bit (push_bit 8 (drop_bit 8 v) OR ucast (ucast (v AND 0xFF) :: octet)) n = bit v n"
    unfolding m by (cases "n < 8") (auto simp: bit_simps)
qed

lemma sqn_to_u64_snoc [simp]: "sqn_to_u64 (xs @ [b]) = push_bit 8 (sqn_to_u64 xs) OR ucast b"
  by (simp add: sqn_to_u64_def)

lemma sqn_low_octets: "sqn_to_u64 (low_octets i v) = v AND mask (8 * i)"
proof (induction i arbitrary: v)
  case (Suc i)
  have m: "(0xFF :: u64) = mask 8" by (simp add: mask_eq_exp_minus_1)
  show ?case
    by (rule bit_word_eqI) (auto simp: Suc m bit_simps)
qed (simp add: sqn_to_u64_def)

lemma sqn_high_bits: "bit (sqn_to_u64 xs) k \<Longrightarrow> k < 8 * length xs"
proof (induction xs arbitrary: k rule: rev_induct)
  case (snoc b xs)
  from snoc.prems have "(8 \<le> k \<and> bit (sqn_to_u64 xs) (k - 8)) \<or> bit b k"
    by (auto simp: bit_simps)
  with snoc.IH [of "k - 8"] show ?case
    by (auto dest: bit_imp_le_length)
qed (simp add: sqn_to_u64_def)

lemma sqn_take_bit: "length sqn = 6 \<Longrightarrow> take_bit 48 (sqn_to_u64 sqn) = sqn_to_u64 sqn"
  by (rule bit_word_eqI) (auto simp: bit_simps dest: sqn_high_bits)

lemma sqn_nat_bound: "length sqn = 6 \<Longrightarrow> sqn_nat sqn < 2 ^ 48"
proof -
  assume "length sqn = 6"
  then have "take_bit 48 (sqn_nat sqn) = sqn_nat sqn"
    by (metis sqn_nat_def sqn_take_bit unsigned_take_bit_eq)
  then show ?thesis by (metis take_bit_nat_less_exp)
qed

lemma sqn_nat_add:
  assumes "sqn_nat sqn + unat n < 2 ^ 48"
  shows "sqn_nat (sqn_add sqn n) = sqn_nat sqn + unat n"
proof -
  have "(0xFFFFFFFFFFFF :: u64) = mask 48" by (simp add: mask_eq_exp_minus_1)
  then have "sqn_to_u64 (sqn_add sqn n) = take_bit 48 (sqn_to_u64 sqn + n)"
    by (simp add: sqn_add_def u64_to_sqn_def sqn_low_octets take_bit_eq_mask)
  moreover have "unat (sqn_to_u64 sqn + n) = sqn_nat sqn + unat n"
    using assms by (simp add: sqn_nat_def unat_word_ariths)
  ultimately show ?thesis
    using assms by (simp add: sqn_nat_def unsigned_take_bit_eq take_bit_nat_eq_self)
qed

section \<open>The subscriber's record\<close>

datatype auth_error = NotFound | Unavailable | Invalid

text \<open>A value, one of the errors, or an exception, which the server answers with status 500.\<close>

datatype 'a answer = Result 'a | Failed auth_error | Threw

record auth_subscription =
  sub_k :: octets
  sub_opc :: octets
  sub_sqn :: octets
  sub_amf :: octets
  sub_method :: string
  sub_akma_allowed :: bool
  sub_routing_id :: string

record fetched =
  fetched_sub :: auth_subscription
  sqn_text :: string

definition str_or_empty :: "json \<Rightarrow> string \<Rightarrow> string" where
  "str_or_empty doc key = (case member doc key of Some (JString s) \<Rightarrow> s | _ \<Rightarrow> [])"

text \<open>\<open>value(key, default)\<close> with a truth value as the default.\<close>

definition value_bool :: "json \<Rightarrow> string \<Rightarrow> bool \<Rightarrow> bool option" where
  "value_bool j k d =
     (if \<not> is_object j then None
      else case member j k of None \<Rightarrow> Some d | Some (JBool b) \<Rightarrow> Some b | Some _ \<Rightarrow> None)"

definition stored_sqn_text :: "json \<Rightarrow> string" where
  "stored_sqn_text doc =
     (case member doc ''sequenceNumber'' of
        Some sn \<Rightarrow> if is_object sn then str_or_empty sn ''sqn'' else []
      | None \<Rightarrow> [])"

definition parse_subscription :: "json \<Rightarrow> fetched answer" where
  "parse_subscription doc =
     (let k = from_hex_array 16 (str_or_empty doc ''encPermanentKey'');
          opc = from_hex_array 16 (str_or_empty doc ''encOpcKey'');
          amf = from_hex_array 2 (str_or_empty doc ''authenticationManagementField'');
          auth_method = str_or_empty doc ''authenticationMethod'';
          sqn = from_hex_array 6 (stored_sqn_text doc)
      in case (k, opc, amf, sqn) of
           (Some k, Some opc, Some amf, Some sqn) \<Rightarrow>
             if auth_method = [] then Failed Invalid
             else (case value_bool doc ''akmaAllowed'' False of
                     None \<Rightarrow> Threw
                   | Some akma \<Rightarrow> Result
                       \<lparr>fetched_sub = \<lparr>sub_k = k, sub_opc = opc, sub_sqn = sqn, sub_amf = amf,
                          sub_method = auth_method, sub_akma_allowed = akma,
                          sub_routing_id = str_or_empty doc ''routingId''\<rparr>,
                        sqn_text = stored_sqn_text doc\<rparr>)
         | _ \<Rightarrow> Failed Invalid)"

section \<open>The UDR\<close>

type_synonym udr = "string \<Rightarrow> json option"

type_synonym json_patch = "json \<Rightarrow> json \<Rightarrow> json option"

definition query_auth_subscription :: "udr \<Rightarrow> string \<Rightarrow> nat \<times> json" where
  "query_auth_subscription db ue_id = (case db ue_id of None \<Rightarrow> (404, JNull) | Some data \<Rightarrow> (200, data))"

text \<open>\<open>apply_patch\<close> of the store, in its handler: a patch that throws is answered with 400.\<close>

definition modify_auth_subscription :: "json_patch \<Rightarrow> udr \<Rightarrow> string \<Rightarrow> json \<Rightarrow> udr \<times> nat" where
  "modify_auth_subscription P db ue_id patch_ops =
     (case P (value_or (JObject []) (db ue_id)) patch_ops of
        None \<Rightarrow> (db, 400)
      | Some doc \<Rightarrow> (db(ue_id \<mapsto> doc), 200))"

definition swap_ops :: "string \<Rightarrow> octets \<Rightarrow> json" where
  "swap_ops expected_sqn new_sqn = JArray
     [JObject [(''op'', JString ''test''), (''path'', JString ''/sequenceNumber/sqn''), (''value'', JString expected_sqn)],
      JObject [(''op'', JString ''replace''), (''path'', JString ''/sequenceNumber/sqn''),
               (''value'', JString (to_hex new_sqn))]]"

definition member_path :: "json \<Rightarrow> string \<Rightarrow> string \<Rightarrow> json option" where
  "member_path doc a b = Option.bind (member doc a) (\<lambda>x. member x b)"

text \<open>RFC 6902 on these two operations: the patch succeeds exactly when the stored text is the
  expected one, and then changes that text and no other member.\<close>

definition patch_cas :: "json_patch \<Rightarrow> bool" where
  "patch_cas P \<longleftrightarrow> (\<forall>doc expected new.
     case P doc (swap_ops expected new) of
       None \<Rightarrow> member_path doc ''sequenceNumber'' ''sqn'' \<noteq> Some (JString expected)
     | Some doc' \<Rightarrow> member_path doc ''sequenceNumber'' ''sqn'' = Some (JString expected) \<and>
         member_path doc' ''sequenceNumber'' ''sqn'' = Some (JString (to_hex new)) \<and>
         (\<forall>k. k \<noteq> ''sequenceNumber'' \<longrightarrow> member doc' k = member doc k))"

section \<open>The UDM as a client of it\<close>

text \<open>What becomes of a request: it is served and the answer arrives; it fails before it is served
  (no token, no connection, a status that is not the handler's); it is served but the answer is lost.\<close>

datatype link = Delivered | Request_Lost | Reply_Lost

definition fetch :: "link \<Rightarrow> udr \<Rightarrow> string \<Rightarrow> fetched answer" where
  "fetch l db supi =
     (if l \<noteq> Delivered then Failed Unavailable
      else let (status, body) = query_auth_subscription db supi
        in if status = 404 then Failed NotFound
           else if status \<noteq> 200 then Failed Unavailable
           else parse_subscription body)"

definition compare_and_swap_sqn ::
    "json_patch \<Rightarrow> link \<Rightarrow> udr \<Rightarrow> string \<Rightarrow> string \<Rightarrow> octets \<Rightarrow> udr \<times> bool answer" where
  "compare_and_swap_sqn P l db supi expected_sqn new_sqn =
     (if l = Request_Lost then (db, Failed Unavailable)
      else let (db', status) = modify_auth_subscription P db supi (swap_ops expected_sqn new_sqn)
        in (db', if l = Reply_Lost then Failed Unavailable
                 else if status = 200 \<or> status = 204 then Result True
                 else if status = 400 then Result False
                 else Failed Unavailable))"

text \<open>The work of a handler: \<open>get_and_advance_sqn\<close>, or \<open>resync_sqn\<close> and then \<open>get_and_advance_sqn\<close>.\<close>

datatype job = Advance u64 | Resync octets octets u64

datatype outcome = Vectors auth_subscription u64 | Bad_Auts | Fault "auth_error option"

datatype thread =
    Fetching string job nat
  | Swapping string job nat fetched octets
  | Finished string outcome

abbreviation kMaxCasAttempts :: nat where
  "kMaxCasAttempts \<equiv> 8"

definition fetched_step :: "crypto \<Rightarrow> string \<Rightarrow> job \<Rightarrow> nat \<Rightarrow> fetched answer \<Rightarrow> thread" where
  "fetched_step C supi jb attempt a =
     (case a of
        Failed e \<Rightarrow> Finished supi (Fault (Some e))
      | Threw \<Rightarrow> Finished supi (Fault None)
      | Result f \<Rightarrow>
          (case jb of
             Advance n \<Rightarrow> Swapping supi jb attempt f (sqn_add (sub_sqn (fetched_sub f)) n)
           | Resync rand auts n \<Rightarrow>
               (case verify_and_decode_auts C (sub_opc (fetched_sub f)) (sub_k (fetched_sub f)) rand auts of
                  None \<Rightarrow> Finished supi Bad_Auts
                | Some sqn_ms \<Rightarrow> Swapping supi jb attempt f (sqn_add sqn_ms 0x10000))))"

definition swapped_step :: "string \<Rightarrow> job \<Rightarrow> nat \<Rightarrow> fetched \<Rightarrow> bool answer \<Rightarrow> thread" where
  "swapped_step supi jb attempt f a =
     (case a of
        Failed e \<Rightarrow> Finished supi (Fault (Some e))
      | Threw \<Rightarrow> Finished supi (Fault None)
      | Result True \<Rightarrow>
          (case jb of Advance n \<Rightarrow> Finished supi (Vectors (fetched_sub f) n)
                    | Resync rand auts n \<Rightarrow> Fetching supi (Advance n) 0)
      | Result False \<Rightarrow>
          if attempt + 1 < kMaxCasAttempts then Fetching supi jb (attempt + 1)
          else Finished supi (Fault (Some Unavailable)))"

definition thread_step :: "crypto \<Rightarrow> json_patch \<Rightarrow> link \<Rightarrow> udr \<Rightarrow> thread \<Rightarrow> udr \<times> thread" where
  "thread_step C P l db t =
     (case t of
        Fetching supi jb attempt \<Rightarrow> (db, fetched_step C supi jb attempt (fetch l db supi))
      | Swapping supi jb attempt f new \<Rightarrow>
          (let (db', a) = compare_and_swap_sqn P l db supi (sqn_text f) new
           in (db', swapped_step supi jb attempt f a))
      | Finished _ _ \<Rightarrow> (db, t))"

definition system_step :: "crypto \<Rightarrow> json_patch \<Rightarrow> nat \<times> link \<Rightarrow> udr \<times> thread list \<Rightarrow> udr \<times> thread list" where
  "system_step C P e s =
     (case (e, s) of ((i, l), (db, ts)) \<Rightarrow>
        if i < length ts then let (db', t) = thread_step C P l db (ts ! i) in (db', ts[i := t]) else (db, ts))"

definition run_schedule :: "crypto \<Rightarrow> json_patch \<Rightarrow> (nat \<times> link) list \<Rightarrow> udr \<times> thread list \<Rightarrow> udr \<times> thread list" where
  "run_schedule C P es s = foldl (\<lambda>s e. system_step C P e s) s es"

section \<open>Concurrent vectors\<close>

lemma stored_text:
  assumes "stored_sqn_text doc = t" "t \<noteq> []"
  shows "member_path doc ''sequenceNumber'' ''sqn'' = Some (JString t)"
  using assms
  by (auto simp: stored_sqn_text_def str_or_empty_def member_path_def
      split: option.splits if_splits json.splits)

lemma object_of_member: "member j k = Some v \<Longrightarrow> is_object j"
  by (cases j) simp_all

lemma stored_text_of_path:
  "member_path doc ''sequenceNumber'' ''sqn'' = Some (JString t) \<Longrightarrow> stored_sqn_text doc = t"
  by (auto simp: stored_sqn_text_def str_or_empty_def member_path_def bind_eq_Some_conv
      dest: object_of_member)

lemma object_of_path: "member_path doc a b = Some v \<Longrightarrow> is_object doc"
  by (auto simp: member_path_def bind_eq_Some_conv dest: object_of_member)

lemma parse_subscription_text:
  assumes "parse_subscription doc = Result f"
  shows "sqn_text f = stored_sqn_text doc" "from_hex_array 6 (sqn_text f) = Some (sub_sqn (fetched_sub f))"
  using assms by (auto simp: parse_subscription_def Let_def split: option.splits if_splits)

lemma parse_subscription_path:
  assumes "parse_subscription doc = Result f"
  shows "member_path doc ''sequenceNumber'' ''sqn'' = Some (JString (sqn_text f))"
proof (rule stored_text)
  show "stored_sqn_text doc = sqn_text f" using parse_subscription_text [OF assms] by simp
  show "sqn_text f \<noteq> []"
    using parse_subscription_text(2) [OF assms] by (auto simp: from_hex_array_def)
qed

lemma patch_casD:
  "patch_cas P \<Longrightarrow> case P doc (swap_ops expected new) of
       None \<Rightarrow> member_path doc ''sequenceNumber'' ''sqn'' \<noteq> Some (JString expected)
     | Some doc' \<Rightarrow> member_path doc ''sequenceNumber'' ''sqn'' = Some (JString expected) \<and>
         member_path doc' ''sequenceNumber'' ''sqn'' = Some (JString (to_hex new)) \<and>
         (\<forall>k. k \<noteq> ''sequenceNumber'' \<longrightarrow> member doc' k = member doc k)"
  unfolding patch_cas_def by blast

text \<open>The record after an accepted swap: the same but for its sequence number.\<close>

lemma parse_after_swap:
  assumes "patch_cas P" "parse_subscription doc = Result f"
    and P: "P doc (swap_ops expected new) = Some doc'" and "length new = 6"
  shows "expected = sqn_text f"
    "parse_subscription doc' =
       Result \<lparr>fetched_sub = (fetched_sub f) \<lparr>sub_sqn := new\<rparr>, sqn_text = to_hex new\<rparr>"
proof -
  note cas = patch_casD [OF assms(1), of doc expected new]
  show "expected = sqn_text f"
    using cas parse_subscription_path [OF assms(2)] P by simp
  have path: "member_path doc' ''sequenceNumber'' ''sqn'' = Some (JString (to_hex new))"
    and same: "\<And>k. k \<noteq> ''sequenceNumber'' \<Longrightarrow> member doc' k = member doc k"
    using cas P by simp_all
  have objects: "is_object doc" "is_object doc'"
    by (rule object_of_path, rule parse_subscription_path [OF assms(2)], rule object_of_path, rule path)
  have text': "stored_sqn_text doc' = to_hex new" by (rule stored_text_of_path [OF path])
  have str: "str_or_empty doc' k = str_or_empty doc k" if "k \<noteq> ''sequenceNumber''" for k
    by (simp add: str_or_empty_def same [OF that])
  have akma: "value_bool doc' ''akmaAllowed'' False = value_bool doc ''akmaAllowed'' False"
    by (simp add: value_bool_def objects same)
  show "parse_subscription doc' =
       Result \<lparr>fetched_sub = (fetched_sub f) \<lparr>sub_sqn := new\<rparr>, sqn_text = to_hex new\<rparr>"
    using assms(2) unfolding parse_subscription_def Let_def
    by (auto simp: str akma text' assms(4) split: option.splits if_splits)
qed

lemma length_parsed_sqn: "parse_subscription doc = Result f \<Longrightarrow> length (sub_sqn (fetched_sub f)) = 6"
  by (metis length_from_hex_array parse_subscription_text(2))

text \<open>The sequence numbers a finished request has for itself, and those a running one may still take.\<close>

fun claimed :: "string \<Rightarrow> thread \<Rightarrow> (nat \<times> nat) option" where
  "claimed supi (Finished s (Vectors v n)) =
     (if s = supi then Some (sqn_nat (sub_sqn v), sqn_nat (sub_sqn v) + unat n) else None)"
| "claimed supi _ = None"

fun budget :: "string \<Rightarrow> thread \<Rightarrow> nat" where
  "budget supi (Fetching s (Advance n) _) = (if s = supi then unat n else 0)"
| "budget supi (Swapping s (Advance n) _ _ _) = (if s = supi then unat n else 0)"
| "budget supi _ = 0"

fun advancing :: "thread \<Rightarrow> bool" where
  "advancing (Fetching _ (Advance _) _) = True"
| "advancing (Swapping _ (Advance n) _ f new) =
     (new = sqn_add (sub_sqn (fetched_sub f)) n \<and>
      from_hex_array 6 (sqn_text f) = Some (sub_sqn (fetched_sub f)))"
| "advancing (Finished _ _) = True"
| "advancing _ = False"

definition stored_sqn :: "udr \<Rightarrow> string \<Rightarrow> nat option" where
  "stored_sqn db supi =
     (case db supi of None \<Rightarrow> None
      | Some doc \<Rightarrow> (case parse_subscription doc of Result f \<Rightarrow> Some (sqn_nat (sub_sqn (fetched_sub f))) | _ \<Rightarrow> None))"

lemma swap_effect:
  assumes "patch_cas P" "compare_and_swap_sqn P l db s (sqn_text f) new = (db', a)"
    "length new = 6" "from_hex_array 6 (sqn_text f) = Some (sub_sqn (fetched_sub f))"
    "stored_sqn db supi = Some cur"
  shows "db' = db \<and> a \<noteq> Result True \<or>
         s \<noteq> supi \<and> stored_sqn db' supi = Some cur \<or>
         s = supi \<and> a \<noteq> Result False \<and> cur = sqn_nat (sub_sqn (fetched_sub f)) \<and> stored_sqn db' supi = Some (sqn_nat new)"
proof (cases "l = Request_Lost")
  case False
  show ?thesis
  proof (cases "P (value_or (JObject []) (db s)) (swap_ops (sqn_text f) new)")
    case None
    with False assms(2) show ?thesis
      by (auto simp: compare_and_swap_sqn_def modify_auth_subscription_def split: if_splits)
  next
    case (Some doc')
    then have db': "db' = db(s \<mapsto> doc')" and a: "a \<noteq> Result False"
      using False assms(2)
      by (auto simp: compare_and_swap_sqn_def modify_auth_subscription_def split: if_splits)
    show ?thesis
    proof (cases "s = supi")
      case True
      from assms(5) obtain doc g where doc: "db supi = Some doc" "parse_subscription doc = Result g"
        and cur: "cur = sqn_nat (sub_sqn (fetched_sub g))"
        by (auto simp: stored_sqn_def split: option.splits answer.splits)
      from Some True doc(1) have p: "P doc (swap_ops (sqn_text f) new) = Some doc'" by simp
      note after = parse_after_swap [OF assms(1) doc(2) p assms(3)]
      have "sub_sqn (fetched_sub f) = sub_sqn (fetched_sub g)"
        using assms(4) parse_subscription_text(2) [OF doc(2)] after(1) by simp
      with after(2) cur True db' a show ?thesis
        by (simp add: stored_sqn_def)
    qed (use db' assms(5) in \<open>simp add: stored_sqn_def\<close>)
  qed
qed (use assms(2) in \<open>auto simp: compare_and_swap_sqn_def\<close>)

lemma thread_step_effect:
  assumes "patch_cas P" "thread_step C P l db t = (db', t')" "advancing t"
    "stored_sqn db supi = Some cur" "cur + budget supi t < 2 ^ 48"
  shows "advancing t' \<and> (\<exists>cur'. stored_sqn db' supi = Some cur' \<and> cur \<le> cur' \<and>
     cur' + budget supi t' \<le> cur + budget supi t \<and>
     (claimed supi t' = claimed supi t \<or> claimed supi t' = Some (cur, cur')))"
proof (cases t)
  case (Fetching s jb attempt)
  with assms(3) obtain n where jb: "jb = Advance n" by (cases jb) auto
  have "advancing (fetched_step C s jb attempt a) \<and> budget supi (fetched_step C s jb attempt a) \<le> budget supi t \<and>
        claimed supi (fetched_step C s jb attempt a) = None"
    if "\<And>f. a = Result f \<Longrightarrow> from_hex_array 6 (sqn_text f) = Some (sub_sqn (fetched_sub f))" for a
    using that by (cases a) (auto simp: fetched_step_def Fetching jb)
  moreover have "from_hex_array 6 (sqn_text f) = Some (sub_sqn (fetched_sub f))"
    if "fetch l db s = Result f" for f
    using that parse_subscription_text(2)
    by (auto simp: fetch_def query_auth_subscription_def split: if_splits option.splits)
  ultimately show ?thesis
    using assms(2,4,5) by (auto simp: thread_step_def Fetching jb)
next
  case (Swapping s jb attempt f new)
  with assms(3) obtain n where jb: "jb = Advance n" by (cases jb) auto
  obtain a where c: "compare_and_swap_sqn P l db s (sqn_text f) new = (db', a)" and t': "t' = swapped_step s jb attempt f a"
    using assms(2) by (auto simp: thread_step_def Swapping split: prod.splits)
  have new: "new = sqn_add (sub_sqn (fetched_sub f)) n"
    and hex: "from_hex_array 6 (sqn_text f) = Some (sub_sqn (fetched_sub f))"
    using assms(3) by (simp_all add: Swapping jb)
  have adv: "advancing t'" "a \<noteq> Result True \<Longrightarrow> claimed supi t' = None"
    "a \<noteq> Result True \<Longrightarrow> budget supi t' \<le> budget supi t"
    "s \<noteq> supi \<Longrightarrow> budget supi t' = 0 \<and> claimed supi t' = None"
    "budget supi t' \<le> budget supi t"
    by (cases a; auto simp: t' swapped_step_def jb Swapping split: bool.splits)+
  from swap_effect [OF assms(1) c _ hex assms(4)] new
  consider "db' = db" "a \<noteq> Result True" | "s \<noteq> supi" "stored_sqn db' supi = Some cur"
    | "s = supi" "a \<noteq> Result False" "cur = sqn_nat (sub_sqn (fetched_sub f))" "stored_sqn db' supi = Some (sqn_nat new)"
    by auto
  then show ?thesis
  proof cases
    case 3
    then have "cur + unat n < 2 ^ 48" using assms(5) by (simp add: Swapping jb)
    then have "sqn_nat new = cur + unat n"
      using sqn_nat_add 3(3) new by simp
    moreover have "budget supi t' = 0" "claimed supi t' = None \<or> claimed supi t' = Some (cur, cur + unat n)"
      if "a = Result True \<or> (\<exists>e. a = Failed e) \<or> a = Threw"
      using that 3 by (auto simp: t' swapped_step_def jb)
    ultimately show ?thesis
      using adv 3 by (cases a) (auto simp: Swapping jb)
  qed (use adv assms(4) in \<open>auto simp: Swapping\<close>)
qed (use assms in \<open>auto simp: thread_step_def\<close>)

section \<open>The invariant of the system\<close>

text \<open>The claimed ranges are disjoint and below the stored number, which what the running requests
  may still take does not carry over its 48 bits.\<close>

definition sqn_safe :: "string \<Rightarrow> udr \<times> thread list \<Rightarrow> bool" where
  "sqn_safe supi s \<longleftrightarrow>
     (\<forall>t \<in> set (snd s). advancing t) \<and>
     (\<exists>cur. stored_sqn (fst s) supi = Some cur \<and>
        cur + sum_list (map (budget supi) (snd s)) < 2 ^ 48 \<and>
        (\<forall>i < length (snd s). \<forall>a b. claimed supi (snd s ! i) = Some (a, b) \<longrightarrow> b \<le> cur)) \<and>
     (\<forall>i < length (snd s). \<forall>j < length (snd s). \<forall>a b c d. i \<noteq> j \<longrightarrow>
        claimed supi (snd s ! i) = Some (a, b) \<longrightarrow> claimed supi (snd s ! j) = Some (c, d) \<longrightarrow>
        b \<le> c \<or> d \<le> a)"

lemma budget_le_sum: "i < length ts \<Longrightarrow> budget supi (ts ! i) \<le> sum_list (map (budget supi) ts)"
  by (rule member_le_sum_list) auto

lemma budget_update:
  assumes "i < length ts" "cur' + budget supi t \<le> cur + budget supi (ts ! i)"
  shows "cur' + sum_list (map (budget supi) (ts[i := t])) \<le> cur + sum_list (map (budget supi) ts)"
  using assms budget_le_sum [OF assms(1), of supi]
  by (simp add: map_update sum_list_update)

lemma system_step_safe:
  assumes "patch_cas P" "sqn_safe supi s"
  shows "sqn_safe supi (system_step C P e s)"
proof -
  obtain i l db ts where es: "e = (i, l)" "s = (db, ts)" by (cases e, cases s)
  show ?thesis
  proof (cases "i < length ts")
    case True
    obtain db' t where st: "thread_step C P l db (ts ! i) = (db', t)" by (cases "thread_step C P l db (ts ! i)")
    from assms(2) obtain cur where cur: "stored_sqn db supi = Some cur"
      "cur + sum_list (map (budget supi) ts) < 2 ^ 48"
      and below: "\<And>k a b. k < length ts \<Longrightarrow> claimed supi (ts ! k) = Some (a, b) \<Longrightarrow> b \<le> cur"
      and adv: "\<And>x. x \<in> set ts \<Longrightarrow> advancing x"
      and dis: "\<And>k j a b c d. k < length ts \<Longrightarrow> j < length ts \<Longrightarrow> k \<noteq> j \<Longrightarrow>
        claimed supi (ts ! k) = Some (a, b) \<Longrightarrow> claimed supi (ts ! j) = Some (c, d) \<Longrightarrow> b \<le> c \<or> d \<le> a"
      unfolding sqn_safe_def es by auto
    have "advancing (ts ! i)" using adv True by simp
    moreover have "cur + budget supi (ts ! i) < 2 ^ 48"
      using cur(2) budget_le_sum [OF True, of supi] by linarith
    ultimately obtain cur' where t: "advancing t" and cur': "stored_sqn db' supi = Some cur'" "cur \<le> cur'"
      "cur' + budget supi t \<le> cur + budget supi (ts ! i)"
      and cl: "claimed supi t = claimed supi (ts ! i) \<or> claimed supi t = Some (cur, cur')"
      using thread_step_effect [OF assms(1) st _ cur(1)] by blast
    have "\<forall>x \<in> set (ts[i := t]). advancing x"
      using t adv set_update_subset_insert [of ts i t] by auto
    moreover have "cur' + sum_list (map (budget supi) (ts[i := t])) < 2 ^ 48"
      using budget_update [OF True cur'(3)] cur(2) by linarith
    moreover have "\<forall>k < length (ts[i := t]). \<forall>a b. claimed supi (ts[i := t] ! k) = Some (a, b) \<longrightarrow> b \<le> cur'"
      using cl cur'(2) True le_trans [OF below cur'(2)] by (auto simp: nth_list_update dest: sym)
    moreover have "\<forall>k < length (ts[i := t]). \<forall>j < length (ts[i := t]). \<forall>a b c d. k \<noteq> j \<longrightarrow>
        claimed supi (ts[i := t] ! k) = Some (a, b) \<longrightarrow> claimed supi (ts[i := t] ! j) = Some (c, d) \<longrightarrow>
        b \<le> c \<or> d \<le> a"
      using cl below dis True by (auto simp: nth_list_update) metis+
    ultimately show ?thesis
      using cur'(1) True st by (simp add: sqn_safe_def es system_step_def)
  qed (use assms(2) in \<open>simp add: es system_step_def\<close>)
qed

lemma run_schedule_safe:
  "patch_cas P \<Longrightarrow> sqn_safe supi s \<Longrightarrow> sqn_safe supi (run_schedule C P es s)"
  unfolding run_schedule_def by (induction es arbitrary: s) (simp_all add: system_step_safe)

lemma initially_safe:
  assumes "\<forall>t \<in> set ts. \<exists>s n. t = Fetching s (Advance n) 0" "stored_sqn db supi = Some cur"
    "cur + sum_list (map (budget supi) ts) < 2 ^ 48"
  shows "sqn_safe supi (db, ts)"
proof -
  have "claimed supi (ts ! i) = None" if "i < length ts" for i
    using assms(1) nth_mem [OF that] by fastforce
  then show ?thesis using assms by (fastforce simp: sqn_safe_def)
qed

lemma snd_run_length [simp]: "length (snd (run_schedule C P es s)) = length (snd s)"
proof -
  have "length (snd (system_step C P e s)) = length (snd s)" for e s
    by (auto simp: system_step_def split: prod.splits)
  then show ?thesis
    unfolding run_schedule_def by (induction es arbitrary: s) simp_all
qed

text \<open>
  Property C29: whatever the order of the requests to the UDR, and whichever of them or of their
  answers are lost, no two vectors that concurrent requests for one subscriber hand out share a
  sequence number, as long as no resynchronisation runs and the numbers do not run over 48 bits.
\<close>

theorem vectors_never_share_sqn:
  assumes "patch_cas P" "stored_sqn db supi = Some cur"
    "\<forall>t \<in> set ts. \<exists>s n. t = Fetching s (Advance n) 0"
    "cur + sum_list (map (budget supi) ts) < 2 ^ 48"
    "i < length ts" "j < length ts" "i \<noteq> j"
    "snd (run_schedule C P es (db, ts)) ! i = Finished supi (Vectors v n)"
    "snd (run_schedule C P es (db, ts)) ! j = Finished supi (Vectors w m)"
    "a < n" "b < m"
  shows "sqn_add (sub_sqn v) a \<noteq> sqn_add (sub_sqn w) b"
proof -
  let ?s = "run_schedule C P es (db, ts)"
  have safe: "sqn_safe supi ?s"
    by (rule run_schedule_safe [OF assms(1) initially_safe [OF assms(3,2,4)]])
  have len: "length (snd ?s) = length ts" by simp
  define v0 w0 where "v0 = sqn_nat (sub_sqn v)" and "w0 = sqn_nat (sub_sqn w)"
  have c: "claimed supi (snd ?s ! i) = Some (v0, v0 + unat n)"
    "claimed supi (snd ?s ! j) = Some (w0, w0 + unat m)"
    using assms(8,9) by (simp_all add: v0_def w0_def)
  have "v0 + unat n \<le> w0 \<or> w0 + unat m \<le> v0"
    using safe c assms(5-7) len unfolding sqn_safe_def by metis
  moreover obtain cur' where "cur' + sum_list (map (budget supi) (snd ?s)) < 2 ^ 48"
    and below: "\<And>k a b. k < length (snd ?s) \<Longrightarrow> claimed supi (snd ?s ! k) = Some (a, b) \<Longrightarrow> b \<le> cur'"
    using safe unfolding sqn_safe_def by blast
  moreover have "v0 + unat n \<le> cur'" "w0 + unat m \<le> cur'"
    using below c assms(5,6) by simp_all
  ultimately have "v0 + unat a \<noteq> w0 + unat b" "v0 + unat a < 2 ^ 48" "w0 + unat b < 2 ^ 48"
    using assms(10,11) by (auto simp: word_less_nat_alt)
  then show ?thesis
    using sqn_nat_add [of "sub_sqn v" a] sqn_nat_add [of "sub_sqn w" b] by (auto simp: v0_def w0_def)
qed

section \<open>Every request is answered\<close>

fun requests_left :: "thread \<Rightarrow> nat" where
  "requests_left (Fetching _ (Advance _) a) = 2 * (8 - a)"
| "requests_left (Swapping _ (Advance _) a _ _) = 2 * (8 - a) - 1"
| "requests_left (Fetching _ (Resync _ _ _) a) = 16 + 2 * (8 - a)"
| "requests_left (Swapping _ (Resync _ _ _) a _ _) = 16 + 2 * (8 - a) - 1"
| "requests_left (Finished _ _) = 0"

fun attempts_ok :: "thread \<Rightarrow> bool" where
  "attempts_ok (Fetching _ _ a) = (a < 8)"
| "attempts_ok (Swapping _ _ a _ _) = (a < 8)"
| "attempts_ok (Finished _ _) = True"

lemma thread_step_progress:
  assumes "attempts_ok t" "thread_step C P l db t = (db', t')"
  shows "attempts_ok t'" "requests_left t' \<le> requests_left t - 1"
proof -
  have "attempts_ok t' \<and> requests_left t' \<le> requests_left t - 1"
  proof (cases t)
    case (Fetching s jb a)
    with assms show ?thesis
      by (cases jb; cases "fetch l db s") (auto simp: thread_step_def fetched_step_def split: option.splits)
  next
    case (Swapping s jb a f new)
    with assms show ?thesis
      by (cases jb) (auto simp: thread_step_def swapped_step_def split: prod.splits answer.splits bool.splits if_splits)
  qed (use assms in \<open>auto simp: thread_step_def\<close>)
  then show "attempts_ok t'" "requests_left t' \<le> requests_left t - 1" by simp_all
qed

lemma run_schedule_progress:
  assumes "i < length (snd s)" "attempts_ok (snd s ! i)"
  shows "attempts_ok (snd (run_schedule C P es s) ! i) \<and>
     requests_left (snd (run_schedule C P es s) ! i) \<le>
       requests_left (snd s ! i) - length (filter (\<lambda>e. fst e = i) es)"
  using assms
proof (induction es arbitrary: s)
  case (Cons e es)
  obtain k l db ts where es: "e = (k, l)" "s = (db, ts)" by (cases e, cases s)
  let ?s = "system_step C P e s"
  have "length (snd ?s) = length ts"
    by (auto simp: es system_step_def split: prod.splits)
  moreover have "attempts_ok (snd ?s ! i) \<and> requests_left (snd ?s ! i) \<le> requests_left (ts ! i) - (if k = i then 1 else 0)"
    using Cons.prems thread_step_progress [of "ts ! i" C P l db]
    by (auto simp: es system_step_def nth_list_update split: prod.splits)
  ultimately show ?case
    using Cons.IH [of ?s] Cons.prems(1) by (auto simp: run_schedule_def es)
qed (simp add: run_schedule_def)

lemma no_requests_left: "requests_left t = 0 \<Longrightarrow> attempts_ok t \<Longrightarrow> \<exists>s r. t = Finished s r"
  by (induction t rule: requests_left.induct) auto

text \<open>
  Property C34: a request for vectors ends after at most 16 requests to the UDR, and after at most 32
  with a resynchronisation, however many other requests contend for the subscriber and whatever the
  link does: there is no schedule on which it retries forever.
\<close>

theorem handler_ends:
  assumes "i < length ts" "ts ! i = Fetching supi jb 0"
    "(case jb of Advance _ \<Rightarrow> 16 | Resync _ _ _ \<Rightarrow> 32) \<le> length (filter (\<lambda>e. fst e = i) es)"
  shows "\<exists>s r. snd (run_schedule C P es (db, ts)) ! i = Finished s r"
proof (rule no_requests_left)
  have p: "attempts_ok (snd (run_schedule C P es (db, ts)) ! i) \<and>
     requests_left (snd (run_schedule C P es (db, ts)) ! i) \<le>
       requests_left (ts ! i) - length (filter (\<lambda>e. fst e = i) es)"
    using run_schedule_progress [of i "(db, ts)"] assms(1,2) by simp
  then show "attempts_ok (snd (run_schedule C P es (db, ts)) ! i)" by simp
  show "requests_left (snd (run_schedule C P es (db, ts)) ! i) = 0"
    using p assms(2,3) by (cases jb) auto
qed

section \<open>A request on its own\<close>

definition run_alone :: "crypto \<Rightarrow> json_patch \<Rightarrow> udr \<Rightarrow> thread \<Rightarrow> udr \<times> thread" where
  "run_alone C P db t = ((\<lambda>(db, t). thread_step C P Delivered db t) ^^ 32) (db, t)"

lemma swap_accepted:
  assumes "patch_cas P" "db supi = Some doc" "parse_subscription doc = Result f" "length new = 6"
  obtains doc' where "compare_and_swap_sqn P Delivered db supi (sqn_text f) new = (db(supi \<mapsto> doc'), Result True)"
    "parse_subscription doc' = Result \<lparr>fetched_sub = (fetched_sub f) \<lparr>sub_sqn := new\<rparr>, sqn_text = to_hex new\<rparr>"
proof -
  have "P doc (swap_ops (sqn_text f) new) \<noteq> None"
  proof
    assume "P doc (swap_ops (sqn_text f) new) = None"
    with patch_casD [OF assms(1), of doc "sqn_text f" new]
    have "member_path doc ''sequenceNumber'' ''sqn'' \<noteq> Some (JString (sqn_text f))" by simp
    with parse_subscription_path [OF assms(3)] show False by simp
  qed
  then obtain doc' where doc': "P doc (swap_ops (sqn_text f) new) = Some doc'" by blast
  show ?thesis
  proof (rule that)
    show "compare_and_swap_sqn P Delivered db supi (sqn_text f) new = (db(supi \<mapsto> doc'), Result True)"
      using doc' assms(2) by (simp add: compare_and_swap_sqn_def modify_auth_subscription_def)
  qed (rule parse_after_swap(2) [OF assms(1,3) doc' assms(4)])
qed

lemma fetch_stored:
  "db supi = Some doc \<Longrightarrow> fetch Delivered db supi = parse_subscription doc"
  by (simp add: fetch_def query_auth_subscription_def)

lemma finished_stays: "((\<lambda>(db, t). thread_step C P l db t) ^^ k) (db, Finished s r) = (db, Finished s r)"
  by (induction k) (simp_all add: thread_step_def)

lemma run_alone_finished:
  assumes "((\<lambda>(db, t). thread_step C P Delivered db t) ^^ k) (db, t) = (db', Finished s r)" "k \<le> 32"
  shows "run_alone C P db t = (db', Finished s r)"
proof -
  have "(32 :: nat) = (32 - k) + k" using assms(2) by simp
  then have "run_alone C P db t = ((\<lambda>(db, t). thread_step C P Delivered db t) ^^ (32 - k)) (db', Finished s r)"
    unfolding run_alone_def by (metis assms(1) comp_apply funpow_add)
  then show ?thesis by (simp add: finished_stays)
qed

lemma run_alone_advance:
  assumes "patch_cas P" "db supi = Some doc" "parse_subscription doc = Result f"
  obtains doc' where "run_alone C P db (Fetching supi (Advance n) 0) =
      (db(supi \<mapsto> doc'), Finished supi (Vectors (fetched_sub f) n))"
    "parse_subscription doc' = Result \<lparr>fetched_sub = (fetched_sub f) \<lparr>sub_sqn := sqn_add (sub_sqn (fetched_sub f)) n\<rparr>,
       sqn_text = to_hex (sqn_add (sub_sqn (fetched_sub f)) n)\<rparr>"
proof -
  let ?new = "sqn_add (sub_sqn (fetched_sub f)) n"
  obtain doc' where d: "compare_and_swap_sqn P Delivered db supi (sqn_text f) ?new = (db(supi \<mapsto> doc'), Result True)"
    "parse_subscription doc' = Result \<lparr>fetched_sub = (fetched_sub f) \<lparr>sub_sqn := ?new\<rparr>, sqn_text = to_hex ?new\<rparr>"
    by (rule swap_accepted [where db = db and supi = supi, OF assms, of ?new]) auto
  have "run_alone C P db (Fetching supi (Advance n) 0) =
      (db(supi \<mapsto> doc'), Finished supi (Vectors (fetched_sub f) n))"
    using d(1) assms(3)
    by (intro run_alone_finished [of "Suc (Suc 0)"])
      (simp_all add: thread_step_def fetched_step_def swapped_step_def fetch_stored [where db = db and supi = supi, OF assms(2)])
  then show ?thesis using d(2) by (rule that)
qed

lemma run_alone_resync:
  assumes "patch_cas P" "db supi = Some doc" "parse_subscription doc = Result f"
    "verify_and_decode_auts C (sub_opc (fetched_sub f)) (sub_k (fetched_sub f)) rand auts = Some sqn_ms"
  obtains doc' where "run_alone C P db (Fetching supi (Resync rand auts n) 0) =
      (db(supi \<mapsto> doc'), Finished supi (Vectors ((fetched_sub f) \<lparr>sub_sqn := sqn_add sqn_ms 0x10000\<rparr>) n))"
    "parse_subscription doc' =
       Result \<lparr>fetched_sub = (fetched_sub f) \<lparr>sub_sqn := sqn_add (sqn_add sqn_ms 0x10000) n\<rparr>,
               sqn_text = to_hex (sqn_add (sqn_add sqn_ms 0x10000) n)\<rparr>"
proof -
  let ?new = "sqn_add sqn_ms 0x10000"
  let ?g = "\<lparr>fetched_sub = (fetched_sub f) \<lparr>sub_sqn := ?new\<rparr>, sqn_text = to_hex ?new\<rparr>"
  obtain doc1 where d: "compare_and_swap_sqn P Delivered db supi (sqn_text f) ?new = (db(supi \<mapsto> doc1), Result True)"
    "parse_subscription doc1 = Result ?g"
    by (rule swap_accepted [where db = db and supi = supi, OF assms(1-3), of ?new]) auto
  have m: "(db(supi \<mapsto> doc1)) supi = Some doc1" by simp
  obtain doc' where e: "compare_and_swap_sqn P Delivered (db(supi \<mapsto> doc1)) supi (sqn_text ?g) (sqn_add ?new n) =
      (db(supi \<mapsto> doc1, supi \<mapsto> doc'), Result True)"
    "parse_subscription doc' = Result \<lparr>fetched_sub = (fetched_sub ?g) \<lparr>sub_sqn := sqn_add ?new n\<rparr>, sqn_text = to_hex (sqn_add ?new n)\<rparr>"
    by (rule swap_accepted [where db = "db(supi \<mapsto> doc1)" and supi = supi, OF assms(1) m d(2), of "sqn_add ?new n"]) auto
  have "run_alone C P db (Fetching supi (Resync rand auts n) 0) =
      (db(supi \<mapsto> doc'), Finished supi (Vectors ((fetched_sub f) \<lparr>sub_sqn := ?new\<rparr>) n))"
    using d e assms(3,4)
    by (intro run_alone_finished [of "Suc (Suc (Suc (Suc 0)))"])
      (simp_all add: thread_step_def fetched_step_def swapped_step_def fetch_stored [where db = db and supi = supi, OF assms(2)]
        fetch_stored [where db = "db(supi \<mapsto> doc1)" and supi = supi, OF m] del: fun_upd_apply)
  with e(2) show ?thesis by (intro that) simp_all
qed

text \<open>
  Property C35: a genuine AUTS sets the sequence number to SQN\_MS plus 65,536, whatever number is
  stored, also a greater one: serving the same resynchronisation twice hands out the same sequence
  number twice.
\<close>

theorem resync_repeats_sqn:
  assumes "patch_cas P" "openssl_ok C" "db supi = Some doc" "parse_subscription doc = Result f"
    "length sqn_ms = 6"
    "auts = auts_of C (sub_opc (fetched_sub f)) (sub_k (fetched_sub f)) rand sqn_ms"
  shows "\<exists>db1 db2 v w.
    run_alone C P db (Fetching supi (Resync rand auts n) 0) = (db1, Finished supi (Vectors v n)) \<and>
    run_alone C P db1 (Fetching supi (Resync rand auts m) 0) = (db2, Finished supi (Vectors w m)) \<and>
    sub_sqn v = sub_sqn w \<and> sub_sqn v = sqn_add sqn_ms 0x10000"
proof -
  have opc: "length (sub_opc (fetched_sub f)) = 16"
    using assms(4) length_from_hex_array [of 16]
    by (auto simp: parse_subscription_def Let_def split: option.splits if_splits)
  then have v: "verify_and_decode_auts C (sub_opc (fetched_sub f)) (sub_k (fetched_sub f)) rand auts = Some sqn_ms"
    using assms(2,5,6) by (subst verify_auts_iff) (simp_all add: auts_of_def sqn_xor_ak_def)
  obtain doc1 where d: "run_alone C P db (Fetching supi (Resync rand auts n) 0) =
      (db(supi \<mapsto> doc1), Finished supi (Vectors ((fetched_sub f) \<lparr>sub_sqn := sqn_add sqn_ms 0x10000\<rparr>) n))"
    "parse_subscription doc1 =
       Result \<lparr>fetched_sub = (fetched_sub f) \<lparr>sub_sqn := sqn_add (sqn_add sqn_ms 0x10000) n\<rparr>,
               sqn_text = to_hex (sqn_add (sqn_add sqn_ms 0x10000) n)\<rparr>"
    by (rule run_alone_resync [where db = db and supi = supi, OF assms(1,3,4) v])
  have m: "(db(supi \<mapsto> doc1)) supi = Some doc1" by simp
  obtain db2 w where e: "run_alone C P (db(supi \<mapsto> doc1)) (Fetching supi (Resync rand auts m) 0) =
      (db2, Finished supi (Vectors w m))" and w: "sub_sqn w = sqn_add sqn_ms 0x10000"
    by (rule run_alone_resync [where db = "db(supi \<mapsto> doc1)" and supi = supi and n = m and rand = rand and auts = auts,
            OF assms(1) m d(2)])
      (use v in auto)
  from d(1) e w show ?thesis by fastforce
qed

section \<open>An implementation of the patch, and a sample subscriber\<close>

text \<open>The two operations on an object, as RFC 6902 has them: the hypothesis on the library can hold.\<close>

fun set_member :: "json \<Rightarrow> string \<Rightarrow> json \<Rightarrow> json" where
  "set_member (JObject kvs) k v = JObject ((k, v) # filter (\<lambda>kv. fst kv \<noteq> k) kvs)"
| "set_member j k v = j"

fun text_swap :: json_patch where
  "text_swap doc (JArray [JObject [_, _, (_, expected)], JObject [_, _, (_, new)]]) =
     (case member doc ''sequenceNumber'' of
        None \<Rightarrow> None
      | Some sn \<Rightarrow> if member sn ''sqn'' = Some expected
                  then Some (set_member doc ''sequenceNumber'' (set_member sn ''sqn'' new)) else None)"
| "text_swap doc _ = None"

lemma member_set_member:
  assumes "is_object j"
  shows "member (set_member j k v) k' = (if k' = k then Some v else member j k')"
proof -
  obtain kvs where "j = JObject kvs" using assms by (cases j) simp_all
  moreover have "map_of (filter (\<lambda>kv. fst kv \<noteq> k) kvs) k' = map_of kvs k'" if "k' \<noteq> k"
    using that by (induction kvs) auto
  ultimately show ?thesis by simp
qed

lemma patch_cas_text_swap: "patch_cas text_swap"
  unfolding patch_cas_def
proof (intro allI)
  fix doc expected new
  show "case text_swap doc (swap_ops expected new) of
       None \<Rightarrow> member_path doc ''sequenceNumber'' ''sqn'' \<noteq> Some (JString expected)
     | Some doc' \<Rightarrow> member_path doc ''sequenceNumber'' ''sqn'' = Some (JString expected) \<and>
         member_path doc' ''sequenceNumber'' ''sqn'' = Some (JString (to_hex new)) \<and>
         (\<forall>k. k \<noteq> ''sequenceNumber'' \<longrightarrow> member doc' k = member doc k)"
  proof (cases "member doc ''sequenceNumber''")
    case (Some sn)
    then have "is_object doc" by (rule object_of_member)
    moreover have "is_object sn" if "member sn ''sqn'' = Some v" for v
      using that by (rule object_of_member)
    ultimately show ?thesis
      using Some by (auto simp: swap_ops_def member_path_def member_set_member)
  qed (simp add: swap_ops_def member_path_def)
qed

definition sample_subscriber :: json where
  "sample_subscriber = JObject
     [(''authenticationManagementField'', JString ''8000''), (''authenticationMethod'', JString ''5G_AKA''),
      (''encOpcKey'', JString (to_hex (replicate 16 2))), (''encPermanentKey'', JString (to_hex (replicate 16 1))),
      (''sequenceNumber'', JObject [(''sqn'', JString ''000000000020'')])]"

definition sample_data :: auth_subscription where
  "sample_data = \<lparr>sub_k = replicate 16 1, sub_opc = replicate 16 2, sub_sqn = [0, 0, 0, 0, 0, 32],
     sub_amf = [128, 0], sub_method = ''5G_AKA'', sub_akma_allowed = False, sub_routing_id = []\<rparr>"

definition sample_udr :: udr where
  "sample_udr = [''imsi-001'' \<mapsto> sample_subscriber]"

lemma parse_sample: "parse_subscription sample_subscriber =
    Result \<lparr>fetched_sub = sample_data, sqn_text = ''000000000020''\<rparr>"
  by code_simp

lemma stored_sample: "stored_sqn sample_udr ''imsi-001'' = Some 32"
  by (simp add: stored_sqn_def sample_udr_def parse_sample sample_data_def sqn_nat_def sqn_to_u64_def)

text \<open>Two requests whose reads both come before either swap: the second loses and reads again.\<close>

lemma contention:
  "snd (run_schedule toy_crypto text_swap
      [(0, Delivered), (1, Delivered), (0, Delivered), (1, Delivered), (1, Delivered), (1, Delivered)]
      (sample_udr, [Fetching ''imsi-001'' (Advance 1) 0, Fetching ''imsi-001'' (Advance 1) 0])) =
   [Finished ''imsi-001'' (Vectors sample_data 1),
    Finished ''imsi-001'' (Vectors (sample_data \<lparr>sub_sqn := [0, 0, 0, 0, 0, 33]\<rparr>) 1)]"
  by code_simp

theorem vectors_never_share_sqn_witness:
  "sqn_add [0, 0, 0, 0, 0, 32] 0 \<noteq> sqn_add [0, 0, 0, 0, 0, 33] 0"
proof -
  let ?es = "[(0, Delivered), (1, Delivered), (0, Delivered), (1, Delivered), (1, Delivered), (1, Delivered)]"
  let ?ts = "[Fetching ''imsi-001'' (Advance 1) 0, Fetching ''imsi-001'' (Advance 1) 0]"
  let ?v = "sample_data" and ?w = "sample_data \<lparr>sub_sqn := [0, 0, 0, 0, 0, 33]\<rparr>"
  have "sqn_add (sub_sqn ?v) 0 \<noteq> sqn_add (sub_sqn ?w) 0"
    by (rule vectors_never_share_sqn [OF patch_cas_text_swap stored_sample, where C = toy_crypto and ts = ?ts
          and es = ?es and i = 0 and j = 1 and n = 1 and m = 1])
      (simp_all add: contention [unfolded One_nat_def])
  then show ?thesis by (simp add: sample_data_def)
qed

theorem handler_ends_witness:
  "\<exists>s r. snd (run_schedule toy_crypto text_swap (replicate 16 (0, Request_Lost))
      (sample_udr, [Fetching ''imsi-001'' (Advance 1) 0])) ! 0 = Finished s r"
  by (rule handler_ends) (auto simp: filter_replicate)

theorem resync_repeats_sqn_witness:
  "\<exists>db1 db2 v w.
    run_alone toy_crypto text_swap sample_udr (Fetching ''imsi-001''
      (Resync (replicate 16 9) (auts_of toy_crypto (replicate 16 2) (replicate 16 1) (replicate 16 9) (replicate 6 0)) 1) 0) =
        (db1, Finished ''imsi-001'' (Vectors v 1)) \<and>
    run_alone toy_crypto text_swap db1 (Fetching ''imsi-001''
      (Resync (replicate 16 9) (auts_of toy_crypto (replicate 16 2) (replicate 16 1) (replicate 16 9) (replicate 6 0)) 1) 0) =
        (db2, Finished ''imsi-001'' (Vectors w 1)) \<and>
    sub_sqn v = sub_sqn w \<and> sub_sqn v = sqn_add (replicate 6 0) 0x10000"
  by (rule resync_repeats_sqn [where db = sample_udr and supi = "''imsi-001''", OF patch_cas_text_swap openssl_ok_toy _ parse_sample])
    (simp_all add: sample_udr_def sample_data_def)

end
