(* ===== verification/Vector_Service.thy ===== *)
theory Vector_Service
  imports Subscriber_Auth Decimal_Text
begin

text \<open>
  The operations of Nudm\_UEAU in \<open>nfs/udm/src/main.cpp\<close>: the vectors of 5G-AKA, EAP-AKA', of a
  ProSe relay and of the HSS interface, and the events by which the AUSF confirms an
  authentication (\<open>AuthEventStore\<close> of \<open>nfs/udm/src/stores.cpp\<close>). A handler runs on its own here,
  with \<open>run_alone\<close>; its requests among those of others are the subject of the theory before. The
  random challenges, drawn from OpenSSL, are arguments. Counters and the lawful-interception
  report are not modelled.
\<close>

section \<open>Answers\<close>

text \<open>A status and a body, or the status and the cause of a problem.\<close>

datatype 'a reply = Reply nat 'a | Problem_Details nat "string option"

text \<open>The last line is the exception that the server itself turns into a problem.\<close>

fun auth_data_problem :: "auth_error option \<Rightarrow> 'a reply" where
  "auth_data_problem (Some NotFound) = Problem_Details 404 None"
| "auth_data_problem (Some Invalid) = Problem_Details 500 (Some ''SYSTEM_FAILURE'')"
| "auth_data_problem (Some Unavailable) = Problem_Details 503 None"
| "auth_data_problem None = Problem_Details 500 (Some ''SYSTEM_FAILURE'')"

definition answer_vectors :: "thread \<Rightarrow> (auth_subscription \<Rightarrow> 'a) \<Rightarrow> 'a reply" where
  "answer_vectors t f =
     (case t of
        Finished _ (Vectors sub n) \<Rightarrow> Reply 200 (f sub)
      | Finished _ Bad_Auts \<Rightarrow> Problem_Details 400 (Some ''UNSPECIFIED_MSG_FAILURE'')
      | Finished _ (Fault e) \<Rightarrow> auth_data_problem e
      | _ \<Rightarrow> auth_data_problem None)"

section \<open>Vectors\<close>

definition make_autn :: "crypto \<Rightarrow> auth_subscription \<Rightarrow> octets \<Rightarrow> octets \<Rightarrow> octets" where
  "make_autn C sub sqn rand =
     sqn_xor_ak sqn (fo_ak (f2345 C (sub_opc sub) (sub_k sub) rand)) @ sub_amf sub @
     f1 C (sub_opc sub) (sub_k sub) rand sqn (sub_amf sub)"

record av_eap_aka_prime =
  eap_rand :: string
  eap_xres :: string
  eap_autn :: string
  eap_ck_prime :: string
  eap_ik_prime :: string

record av_5g_he_aka =
  he_rand :: string
  he_xres_star :: string
  he_autn :: string
  he_kausf :: string

datatype auth_vector = Av_Eap av_eap_aka_prime | Av_5G av_5g_he_aka

datatype auth_type = EAP_AKA_PRIME | V5G_AKA | Other_Auth_Type string

record auth_info_result =
  air_supi :: "string option"
  air_auth_type :: auth_type
  air_vector :: "auth_vector option"
  air_akma_ind :: "bool option"
  air_routing_id :: "string option"

definition eap_vector :: "crypto \<Rightarrow> auth_subscription \<Rightarrow> octets \<Rightarrow> octets \<Rightarrow> string \<Rightarrow> av_eap_aka_prime" where
  "eap_vector C sub sqn rand serving_network_name =
     (let out = f2345 C (sub_opc sub) (sub_k sub) rand;
          ck_ik_prime = derive_ck_ik_prime C (fo_ck out) (fo_ik out) serving_network_name (sqn_xor_ak sqn (fo_ak out))
      in \<lparr>eap_rand = to_hex rand, eap_xres = to_hex (fo_res out), eap_autn = to_hex (make_autn C sub sqn rand),
          eap_ck_prime = to_hex (fst ck_ik_prime), eap_ik_prime = to_hex (snd ck_ik_prime)\<rparr>)"

definition he_vector :: "crypto \<Rightarrow> auth_subscription \<Rightarrow> octets \<Rightarrow> string \<Rightarrow> av_5g_he_aka" where
  "he_vector C sub rand serving_network_name =
     (let out = f2345 C (sub_opc sub) (sub_k sub) rand;
          xres_star = derive_res_star C (fo_ck out) (fo_ik out) serving_network_name rand (fo_res out);
          kausf = derive_kausf C (fo_ck out) (fo_ik out) serving_network_name (sqn_xor_ak (sub_sqn sub) (fo_ak out))
      in \<lparr>he_rand = to_hex rand, he_xres_star = to_hex xres_star, he_autn = to_hex (make_autn C sub (sub_sqn sub) rand),
          he_kausf = to_hex kausf\<rparr>)"

section \<open>\<open>POST .../security-information/generate-auth-data\<close>\<close>

record auth_info_request =
  req_serving_network_name :: string
  req_resync :: "(string \<times> string) option"

text \<open>The work to do; \<^verbatim>\<open>None\<close> when the RAND or the AUTS is not hexadecimal of its length.\<close>

definition requested_job :: "auth_info_request \<Rightarrow> job option" where
  "requested_job body =
     (case req_resync body of
        None \<Rightarrow> Some (Advance 1)
      | Some (rand, auts) \<Rightarrow>
          (case (from_hex_array 16 rand, from_hex_array 14 auts) of
             (Some r, Some a) \<Rightarrow> Some (Resync r a 1)
           | _ \<Rightarrow> None))"

definition auth_info :: "crypto \<Rightarrow> octets \<Rightarrow> string \<Rightarrow> string \<Rightarrow> auth_subscription \<Rightarrow> auth_info_result" where
  "auth_info C rand supi serving_network_name sub =
     (let (ty, v) = (if sub_method sub = ''EAP_AKA_PRIME''
             then (EAP_AKA_PRIME, Av_Eap (eap_vector C sub (sub_sqn sub) rand serving_network_name))
             else (V5G_AKA, Av_5G (he_vector C sub rand serving_network_name)))
      in \<lparr>air_supi = Some supi, air_auth_type = ty, air_vector = Some v,
          air_akma_ind = (if sub_akma_allowed sub then Some True else None),
          air_routing_id = (if sub_akma_allowed sub
             then Some (if sub_routing_id sub = [] then ''0'' else sub_routing_id sub) else None)\<rparr>)"

definition generate_auth_data ::
    "crypto \<Rightarrow> json_patch \<Rightarrow> octets \<Rightarrow> udr \<Rightarrow> string \<Rightarrow> auth_info_request \<Rightarrow> udr \<times> auth_info_result reply" where
  "generate_auth_data C P rand db supi_or_suci body =
     (case deconceal_suci_if_needed C supi_or_suci of
        None \<Rightarrow> (db, Problem_Details 400 (Some ''MANDATORY_IE_INCORRECT''))
      | Some supi \<Rightarrow>
          (case requested_job body of
             None \<Rightarrow> (db, Problem_Details 400 (Some ''UNSPECIFIED_MSG_FAILURE''))
           | Some jb \<Rightarrow>
               (let (db', t) = run_alone C P db (Fetching supi jb 0)
                in (db', answer_vectors t (auth_info C rand supi (req_serving_network_name body))))))"

section \<open>The other vectors\<close>

record prose_info_result =
  prose_auth_type :: auth_type
  prose_supi :: "string option"
  prose_vectors :: "av_eap_aka_prime list option"

definition generate_prose_av ::
    "crypto \<Rightarrow> json_patch \<Rightarrow> octets \<Rightarrow> udr \<Rightarrow> string \<Rightarrow> string \<Rightarrow> udr \<times> prose_info_result reply" where
  "generate_prose_av C P rand db supi_or_suci serving_network_name =
     (case deconceal_suci_if_needed C supi_or_suci of
        None \<Rightarrow> (db, Problem_Details 400 (Some ''MANDATORY_IE_INCORRECT''))
      | Some supi \<Rightarrow>
          (let (db', t) = run_alone C P db (Fetching supi (Advance 1) 0)
           in (db', answer_vectors t (\<lambda>sub. \<lparr>prose_auth_type = EAP_AKA_PRIME, prose_supi = Some supi,
                prose_vectors = Some [eap_vector C sub (sub_sqn sub) rand serving_network_name]\<rparr>))))"

record av_3g_aka =
  g_rand :: string
  g_xres :: string
  g_autn :: string
  g_ck :: string
  g_ik :: string

definition g_vector :: "crypto \<Rightarrow> auth_subscription \<Rightarrow> octets \<Rightarrow> octets \<Rightarrow> av_3g_aka" where
  "g_vector C sub sqn rand =
     (let out = f2345 C (sub_opc sub) (sub_k sub) rand
      in \<lparr>g_rand = to_hex rand, g_xres = to_hex (fo_res out), g_autn = to_hex (make_autn C sub sqn rand),
          g_ck = to_hex (fo_ck out), g_ik = to_hex (fo_ik out)\<rparr>)"

definition generate_gba_av :: "crypto \<Rightarrow> json_patch \<Rightarrow> octets \<Rightarrow> udr \<Rightarrow> string \<Rightarrow> udr \<times> av_3g_aka reply" where
  "generate_gba_av C P rand db supi =
     (let (db', t) = run_alone C P db (Fetching supi (Advance 1) 0)
      in (db', answer_vectors t (\<lambda>sub. g_vector C sub (sub_sqn sub) rand)))"

datatype hss_av_type = EAP_AKA | IMS_AKA | GBA_AKA

datatype hss_vector = Hss_Eap_Prime av_eap_aka_prime | Hss_Aka hss_av_type av_3g_aka

record hss_request =
  hss_serving_network_id :: "(string \<times> string) option"
  hss_num_vectors :: "64 word"

text \<open>The name of the network: a two-digit network code is padded. The pair is country and network code.\<close>

definition hss_network_name :: "string \<times> string \<Rightarrow> string" where
  "hss_network_name plmn =
     (let (mcc, mnc) = plmn;
          padded_mnc = (if length mnc < 3 then replicate (3 - length mnc) (CHR ''0'') @ mnc else mnc)
      in ''5G:mnc'' @ padded_mnc @ ''.mcc'' @ mcc @ ''.3gppnetwork.org'')"

definition hss_vector_of :: "crypto \<Rightarrow> string \<Rightarrow> string \<Rightarrow> auth_subscription \<Rightarrow> octets \<Rightarrow> octets \<Rightarrow> hss_vector" where
  "hss_vector_of C hss_auth_type serving_network_name sub sqn rand =
     (if hss_auth_type = ''eap-aka-prime'' then Hss_Eap_Prime (eap_vector C sub sqn rand serving_network_name)
      else Hss_Aka (if hss_auth_type = ''eap-aka'' then EAP_AKA
                    else if hss_auth_type = ''ims-aka'' then IMS_AKA else GBA_AKA) (g_vector C sub sqn rand))"

text \<open>The vector of index \<open>i\<close> has the \<open>i\<close>-th random challenge and the \<open>i\<close>-th sequence number.\<close>

definition hss_vectors ::
    "crypto \<Rightarrow> (nat \<Rightarrow> octets) \<Rightarrow> string \<Rightarrow> string \<Rightarrow> 64 word \<Rightarrow> auth_subscription \<Rightarrow> hss_vector list" where
  "hss_vectors C rands hss_auth_type serving_network_name num_vectors sub =
     map (\<lambda>i. hss_vector_of C hss_auth_type serving_network_name sub (sqn_add (sub_sqn sub) (of_nat i)) (rands i))
       [0..<nat (sint num_vectors)]"

definition generate_av ::
    "crypto \<Rightarrow> json_patch \<Rightarrow> (nat \<Rightarrow> octets) \<Rightarrow> udr \<Rightarrow> string \<Rightarrow> string \<Rightarrow> hss_request \<Rightarrow> udr \<times> hss_vector list reply" where
  "generate_av C P rands db supi hss_auth_type body =
     (if hss_auth_type = ''eps-aka'' then (db, Problem_Details 501 None)
      else if hss_auth_type = ''eap-aka-prime'' \<and> hss_serving_network_id body = None
        then (db, Problem_Details 400 (Some ''MANDATORY_IE_MISSING''))
      else if hss_auth_type \<notin> {''eap-aka-prime'', ''eap-aka'', ''ims-aka'', ''gba-aka''}
        then (db, Problem_Details 400 (Some ''UNSPECIFIED_MSG_FAILURE''))
      else
        let name = (case hss_serving_network_id body of Some plmn \<Rightarrow> hss_network_name plmn | None \<Rightarrow> []);
            num_vectors = hss_num_vectors body
        in if 0 <s num_vectors
           then let (db', t) = run_alone C P db (Fetching supi (Advance num_vectors) 0)
                in (db', answer_vectors t (hss_vectors C rands hss_auth_type name num_vectors))
           else (db, Reply 200 []))"

section \<open>Confirmed authentications\<close>

record auth_events =
  ev_next_id :: nat
  ev_entries :: "(string \<times> string \<times> bool) list"

text \<open>An entry is an identifier, a subscriber and whether the authentication succeeded.\<close>

definition auth_event_create :: "string \<Rightarrow> bool \<Rightarrow> auth_events \<Rightarrow> auth_events \<times> string" where
  "auth_event_create supi success st =
     (let i = ''authevent-'' @ to_string_nat (ev_next_id st)
      in (\<lparr>ev_next_id = ev_next_id st + 1, ev_entries = (i, supi, success) # ev_entries st\<rparr>, i))"

definition auth_event_remove :: "string \<Rightarrow> string \<Rightarrow> auth_events \<Rightarrow> auth_events \<times> bool" where
  "auth_event_remove supi auth_event_id st =
     (case map_of (ev_entries st) auth_event_id of
        None \<Rightarrow> (st, False)
      | Some (s, _) \<Rightarrow>
          if s \<noteq> supi then (st, False)
          else (st\<lparr>ev_entries := filter (\<lambda>e. fst e \<noteq> auth_event_id) (ev_entries st)\<rparr>, True))"

definition has_successful_event :: "string \<Rightarrow> auth_events \<Rightarrow> bool" where
  "has_successful_event supi st = list_ex (\<lambda>(_, s, ok). s = supi \<and> ok) (ev_entries st)"

definition get_rg_auth_data :: "crypto \<Rightarrow> bool \<Rightarrow> string \<Rightarrow> auth_events \<Rightarrow> (bool \<times> string) reply" where
  "get_rg_auth_data C authenticated_ind_given supi_or_suci st =
     (if \<not> authenticated_ind_given then Problem_Details 400 (Some ''MANDATORY_QUERY_PARAM_MISSING'')
      else case deconceal_suci_if_needed C supi_or_suci of
        None \<Rightarrow> Problem_Details 400 (Some ''MANDATORY_IE_INCORRECT'')
      | Some supi \<Rightarrow> Reply 200 (has_successful_event supi st, supi))"

end
