(* ===== verification/Eap_Aka.thy ===== *)
theory Eap_Aka
  imports Key_Derivation
begin

text \<open>
  EAP-AKA': \<open>libs/aka-crypto/src/eap_aka_prime.cpp\<close>, and the AKMA identifier of \<open>akma.cpp\<close>. The
  packets are a header of eight octets and attributes whose lengths count words of four octets.
  The base-64 coding is OpenSSL's and a parameter where it is used.
\<close>

section \<open>Attributes\<close>

function pad_value :: "octets \<Rightarrow> octets" where
  "pad_value v = (if (length v + 2) mod 4 \<noteq> 0 then pad_value (v @ [0]) else v)"
  by auto
termination
  by (relation "measure (\<lambda>v. 3 - (length v + 1) mod 4)") (simp_all, presburger)

declare pad_value.simps [simp del]

text \<open>The length in words is truncated to eight bits.\<close>

definition make_attr :: "octet \<Rightarrow> octets \<Rightarrow> octets" where
  "make_attr ty v = [ty, of_nat ((length v + 2) div 4)] @ v"

definition encode_rand_attr :: "octets \<Rightarrow> octets" where
  "encode_rand_attr rand = make_attr 1 ([0, 0] @ rand)"

definition encode_autn_attr :: "octets \<Rightarrow> octets" where
  "encode_autn_attr autn = make_attr 2 ([0, 0] @ autn)"

definition encode_mac_attr :: "octets \<Rightarrow> octets" where
  "encode_mac_attr mac = make_attr 11 ([0, 0] @ mac)"

definition encode_kdf_input_attr :: "string \<Rightarrow> octets" where
  "encode_kdf_input_attr network_name =
     make_attr 23 (pad_value (put_u16 (of_nat (length network_name)) @ to_bytes network_name))"

definition encode_kdf_attr :: octets where
  "encode_kdf_attr = make_attr 24 (put_u16 1)"

definition encode_res_attr :: "octets \<Rightarrow> octets" where
  "encode_res_attr res = make_attr 3 (pad_value (put_u16 (of_nat (length res * 8)) @ res))"

definition encode_client_error_attr :: "u16 \<Rightarrow> octets" where
  "encode_client_error_attr code = make_attr 22 (put_u16 code)"

definition build_header :: "octet \<Rightarrow> octet \<Rightarrow> nat \<Rightarrow> octet \<Rightarrow> octets" where
  "build_header code identifier total_len subtype =
     [code, identifier, of_nat (total_len div 256), of_nat total_len, 50, subtype, 0, 0]"

function find_attribute_from :: "octets \<Rightarrow> octet \<Rightarrow> nat \<Rightarrow> (nat \<times> nat) option checked" where
  "find_attribute_from packet ty pos =
     (if pos + 2 \<le> length packet then do {
        attr_type \<leftarrow> octet_at packet pos;
        length_words \<leftarrow> octet_at packet (pos + 1);
        if length_words = 0 then nullopt
        else let attr_total = unat length_words * 4
          in if pos + attr_total > length packet then nullopt
             else if attr_type = ty then ret (pos + 2, attr_total - 2)
             else find_attribute_from packet ty (pos + attr_total) }
      else nullopt)"
  by auto
termination
proof (relation "measure (\<lambda>(packet, ty, pos). length packet - pos)", goal_cases)
  case (2 packet ty pos t w n)
  then have "0 < unat w" by (simp add: unat_gt_0)
  with 2 show ?case by simp
qed simp

declare find_attribute_from.simps [simp del]

definition find_attribute :: "octets \<Rightarrow> octet \<Rightarrow> (nat \<times> nat) option checked" where
  "find_attribute packet ty = find_attribute_from packet ty 8"

section \<open>Keys and codes\<close>

text \<open>The rounds of the pseudo-random function; the first argument bounds them, and the length asked
  for is bound enough since a round adds octets.\<close>

fun prf_rounds :: "nat \<Rightarrow> crypto \<Rightarrow> octets \<Rightarrow> octets \<Rightarrow> nat \<Rightarrow> octet \<Rightarrow> octets \<Rightarrow> octets \<Rightarrow> octets" where
  "prf_rounds 0 C key seed output_len counter t_prev acc = acc"
| "prf_rounds (Suc fuel) C key seed output_len counter t_prev acc =
     (if length acc < output_len
      then let t = hmac_sha256 C key (t_prev @ seed @ [counter])
           in prf_rounds fuel C key seed output_len (counter + 1) t (acc @ t)
      else acc)"

definition prf_prime :: "crypto \<Rightarrow> octets \<Rightarrow> octets \<Rightarrow> nat \<Rightarrow> octets" where
  "prf_prime C key seed output_len = take output_len (prf_rounds output_len C key seed output_len 1 [] [])"

record derived_keys =
  k_encr :: octets
  k_aut :: octets
  k_re :: octets
  msk :: octets
  emsk :: octets

definition derive_keys :: "crypto \<Rightarrow> octets \<Rightarrow> octets \<Rightarrow> string \<Rightarrow> derived_keys" where
  "derive_keys C ck_prime ik_prime identity =
     (let mk = prf_prime C (ik_prime @ ck_prime)
                 (to_bytes (''EAP-AKA'' @ [char_of (39 :: nat)]) @ to_bytes identity) (16 + 32 + 32 + 64 + 64)
      in \<lparr>k_encr = take 16 mk, k_aut = take 32 (drop 16 mk), k_re = take 32 (drop 48 mk),
          msk = take 64 (drop 80 mk), emsk = take 64 (drop 144 mk)\<rparr>)"

definition compute_mac :: "crypto \<Rightarrow> octets \<Rightarrow> octets \<Rightarrow> octets" where
  "compute_mac C packet_with_mac_zeroed key = take 16 (hmac_sha256 C key packet_with_mac_zeroed)"

definition overwrite :: "octets \<Rightarrow> nat \<Rightarrow> octets \<Rightarrow> octets" where
  "overwrite bs off v = take off bs @ v @ drop (off + length v) bs"

definition finalize_with_mac :: "crypto \<Rightarrow> octet \<Rightarrow> octet \<Rightarrow> octet \<Rightarrow> octets \<Rightarrow> nat \<Rightarrow> octets \<Rightarrow> octets" where
  "finalize_with_mac C code identifier subtype attrs_with_zero_mac mac_offset key =
     (let packet = build_header code identifier (8 + length attrs_with_zero_mac) subtype @ attrs_with_zero_mac
      in overwrite packet (8 + mac_offset) (compute_mac C packet key))"

section \<open>Packets\<close>

definition build_challenge_request :: "crypto \<Rightarrow> octet \<Rightarrow> octets \<Rightarrow> octets \<Rightarrow> string \<Rightarrow> octets \<Rightarrow> octets" where
  "build_challenge_request C identifier rand autn network_name key =
     (let attrs = encode_rand_attr rand @ encode_autn_attr autn @ encode_kdf_input_attr network_name @ encode_kdf_attr
      in finalize_with_mac C 1 identifier 1 (attrs @ encode_mac_attr (replicate 16 0)) (length attrs + 4) key)"

definition build_challenge_response :: "crypto \<Rightarrow> octet \<Rightarrow> octets \<Rightarrow> octets \<Rightarrow> octets" where
  "build_challenge_response C identifier res key =
     (let attrs = encode_res_attr res
      in finalize_with_mac C 2 identifier 1 (attrs @ encode_mac_attr (replicate 16 0)) (length attrs + 4) key)"

definition build_client_error_response :: "octet \<Rightarrow> u16 \<Rightarrow> octets" where
  "build_client_error_response identifier error_code =
     (let attrs = encode_client_error_attr error_code
      in build_header 2 identifier (8 + length attrs) 14 @ attrs)"

definition build_success :: "octet \<Rightarrow> octets" where
  "build_success identifier = [3, identifier, 0, 4]"

definition build_failure :: "octet \<Rightarrow> octets" where
  "build_failure identifier = [4, identifier, 0, 4]"

record challenge_request =
  cr_rand :: octets
  cr_autn :: octets
  cr_kdf_input :: string
  cr_mac :: octets

definition is_challenge :: "octet \<Rightarrow> octets \<Rightarrow> bool checked" where
  "is_challenge code packet =
     (if length packet < 8 then Some False
      else do {
        c \<leftarrow> octet_at packet 0; ty \<leftarrow> octet_at packet 4; st \<leftarrow> octet_at packet 5;
        Some (c = code \<and> ty = 50 \<and> st = 1) })"

definition parse_challenge_request :: "octets \<Rightarrow> challenge_request option checked" where
  "parse_challenge_request packet = do {
     ok \<leftarrow> is_challenge 1 packet;
     if \<not> ok then nullopt
     else and_then (find_attribute packet 1) (\<lambda>rand_span.
          and_then (find_attribute packet 2) (\<lambda>autn_span.
          and_then (find_attribute packet 23) (\<lambda>kdf_span.
          and_then (find_attribute packet 11) (\<lambda>mac_span.
          if snd rand_span < 18 \<or> snd autn_span < 18 \<or> snd mac_span < 18 \<or> snd kdf_span < 2 then nullopt
          else do {
            rand \<leftarrow> sub_octets packet (fst rand_span + 2) (fst rand_span + 18);
            autn \<leftarrow> sub_octets packet (fst autn_span + 2) (fst autn_span + 18);
            mac \<leftarrow> sub_octets packet (fst mac_span + 2) (fst mac_span + 18);
            name_len \<leftarrow> get_u16 packet (fst kdf_span);
            if 2 + unat name_len > snd kdf_span then nullopt
            else do {
              name \<leftarrow> sub_octets packet (fst kdf_span + 2) (fst kdf_span + 2 + unat name_len);
              ret \<lparr>cr_rand = rand, cr_autn = autn, cr_kdf_input = map (\<lambda>b. char_of (unat b)) name, cr_mac = mac\<rparr> } })))) }"

record challenge_response =
  cs_res :: octets
  cs_mac :: octets

definition parse_challenge_response :: "octets \<Rightarrow> challenge_response option checked" where
  "parse_challenge_response packet = do {
     ok \<leftarrow> is_challenge 2 packet;
     if \<not> ok then nullopt
     else and_then (find_attribute packet 3) (\<lambda>res_span.
          and_then (find_attribute packet 11) (\<lambda>mac_span.
          if snd res_span < 2 \<or> snd mac_span < 18 then nullopt
          else do {
            res_bits \<leftarrow> get_u16 packet (fst res_span);
            let res_bytes = (unat res_bits + 7) div 8
            in if 2 + res_bytes > snd res_span then nullopt
               else do {
                 res \<leftarrow> sub_octets packet (fst res_span + 2) (fst res_span + 2 + res_bytes);
                 mac \<leftarrow> sub_octets packet (fst mac_span + 2) (fst mac_span + 18);
                 ret \<lparr>cs_res = res, cs_mac = mac\<rparr> } })) }"

definition verify_mac :: "crypto \<Rightarrow> octets \<Rightarrow> octets \<Rightarrow> bool checked" where
  "verify_mac C packet key = do {
     span \<leftarrow> find_attribute packet 11;
     case span of
       None \<Rightarrow> Some False
     | Some (off, len) \<Rightarrow>
         if len < 18 then Some False
         else do {
           carried \<leftarrow> sub_octets packet (off + 2) (off + 18);
           Some (compute_mac C (overwrite packet (off + 2) (replicate 16 0)) key = carried) } }"

section \<open>The AKMA identifier\<close>

definition make_a_kid :: "string \<Rightarrow> octets \<Rightarrow> string \<Rightarrow> string \<Rightarrow> string" where
  "make_a_kid routing_indicator a_tid mcc mnc =
     ''rid'' @ routing_indicator @ ''.tid'' @ to_hex a_tid @ ''@5gc.mnc'' @
     (if length mnc = 2 then ''0'' @ mnc else mnc) @ ''.mcc'' @ mcc @ ''.3gppnetwork.org''"

section \<open>The two ends understand each other\<close>

lemma pad_step: "(n :: nat) mod 4 \<noteq> 0 \<Longrightarrow> (4 - n mod 4) mod 4 = Suc ((4 - Suc n mod 4) mod 4)"
proof -
  define r where "r = n mod 4"
  assume "n mod 4 \<noteq> 0"
  then have "r = 1 \<or> r = 2 \<or> r = 3"
    using mod_less_divisor [of 4 n] unfolding r_def by linarith
  then show ?thesis
    unfolding mod_Suc r_def [symmetric] by (elim disjE) simp_all
qed

lemma pad_value_more: "(length v + 2) mod 4 \<noteq> 0 \<Longrightarrow> pad_value v = pad_value (v @ [0])"
  by (subst pad_value.simps) simp

lemma pad_value_done: "(length v + 2) mod 4 = 0 \<Longrightarrow> pad_value v = v"
  by (subst pad_value.simps) simp

lemma pad_value_words: "(length (pad_value v) + 2) mod 4 = 0"
proof (induction v rule: pad_value.induct)
  case (1 v)
  show ?case
  proof (cases "(length v + 2) mod 4 = 0")
    case False
    with 1 [OF False] show ?thesis by (subst pad_value_more)
  qed (simp add: pad_value_done)
qed

lemma pad_value_is: "pad_value v = v @ replicate ((4 - (length v + 2) mod 4) mod 4) 0"
proof (induction v rule: pad_value.induct)
  case (1 v)
  show ?case
  proof (cases "(length v + 2) mod 4 = 0")
    case False
    with 1 [OF False] pad_step [OF False] pad_value_more [OF False] show ?thesis by simp
  qed (simp add: pad_value_done)
qed

lemma length_pad_value: "length (pad_value v) < length v + 4"
  by (subst pad_value_is) simp

lemma pad_value_prefix: "\<exists>k. pad_value v = v @ replicate k 0"
  using pad_value_is by blast

lemma find_attribute_step:
  assumes "(length v + 2) mod 4 = 0" "length v < 1020" "length pre = pos"
  shows "find_attribute_from (pre @ make_attr t v @ rest) ty pos =
    (if t = ty then ret (pos + 2, length v)
     else find_attribute_from (pre @ make_attr t v @ rest) ty (pos + 2 + length v))"
proof -
  define w :: octet where "w = of_nat ((length v + 2) div 4)"
  have "(length v + 2) div 4 < 256" using assms(2) by simp
  then have w: "unat w = (length v + 2) div 4"
    by (simp add: w_def unsigned_of_nat take_bit_eq_mod)
  moreover have four: "(length v + 2) div 4 * 4 = length v + 2"
    using assms(1) by presburger
  ultimately have "w \<noteq> 0" by (auto simp: unat_eq_zero)
  moreover have "make_attr t v = [t, w] @ v"
    by (simp add: make_attr_def w_def)
  ultimately show ?thesis
    using w four assms(3)
    by (subst find_attribute_from.simps) (auto simp: Let_def octet_at_def nth_append)
qed

lemma length_overwrite [simp]: "off + length v \<le> length bs \<Longrightarrow> length (overwrite bs off v) = length bs"
  by (simp add: overwrite_def)

lemma overwrite_end: "length v = n \<Longrightarrow> overwrite (x @ replicate n b) (length x) v = x @ v"
  by (simp add: overwrite_def)

lemma overwrite_end': "length x = k \<Longrightarrow> length u = length v \<Longrightarrow> overwrite (x @ u) k v = x @ v"
  by (auto simp: overwrite_def)

lemma length_compute_mac [simp]: "openssl_ok C \<Longrightarrow> length (compute_mac C p key) = 16"
  by (simp add: compute_mac_def crypto_lengths)

lemma length_build_header [simp]: "length (build_header c i n s) = 8"
  by (simp add: build_header_def)

text \<open>A finished packet is the header, the attributes and the code over the packet with a code of zeros.\<close>

definition sealed_packet :: "crypto \<Rightarrow> octet \<Rightarrow> octet \<Rightarrow> octet \<Rightarrow> octets \<Rightarrow> octets \<Rightarrow> octets" where
  "sealed_packet C code identifier subtype attrs key =
     (let hdr = build_header code identifier (8 + length attrs + 20) subtype
      in hdr @ attrs @ encode_mac_attr (compute_mac C (hdr @ attrs @ encode_mac_attr (replicate 16 0)) key))"

lemma mac_attr: "length m = 16 \<Longrightarrow> encode_mac_attr m = [11, 5, 0, 0] @ m"
  by (simp add: encode_mac_attr_def make_attr_def)

lemma finalize_is_sealed:
  assumes "openssl_ok C"
  shows "finalize_with_mac C code identifier subtype (attrs @ encode_mac_attr (replicate 16 0)) (length attrs + 4) key =
    sealed_packet C code identifier subtype attrs key"
proof -
  let ?h = "build_header code identifier (8 + length attrs + 20) subtype"
  have "overwrite ((?h @ attrs @ [11, 5, 0, 0]) @ replicate 16 0) (length (?h @ attrs @ [11, 5, 0, 0])) m =
      (?h @ attrs @ [11, 5, 0, 0]) @ m" if "length m = 16" for m
    using that by (rule overwrite_end)
  then show ?thesis
    using assms by (simp add: finalize_with_mac_def sealed_packet_def mac_attr Let_def add.commute add.left_commute)
qed

lemma find_at_mac:
  assumes "find_attribute_from packet 11 8 = find_attribute_from packet 11 (8 + length attrs)"
    "packet = hdr @ attrs @ encode_mac_attr m" "length hdr = 8" "length m = 16"
  shows "find_attribute packet 11 = ret (10 + length attrs, 18)"
proof -
  have "find_attribute_from ((hdr @ attrs) @ make_attr 11 ([0, 0] @ m) @ []) 11 (length (hdr @ attrs)) =
      ret (length (hdr @ attrs) + 2, 18)"
    using assms(4) by (subst find_attribute_step) simp_all
  then show ?thesis
    using assms(1-3) by (simp add: find_attribute_def encode_mac_attr_def add.commute)
qed

text \<open>The code of a sealed packet verifies under its own key.\<close>

lemma sealed_verifies:
  assumes "openssl_ok C" "packet = sealed_packet C code i st attrs key"
    "find_attribute_from packet 11 8 = find_attribute_from packet 11 (8 + length attrs)"
  shows "verify_mac C packet key = Some True"
proof -
  let ?h = "build_header code i (8 + length attrs + 20) st"
  define m where "m = compute_mac C (?h @ attrs @ encode_mac_attr (replicate 16 0)) key"
  have m: "length m = 16" using assms(1) by (simp add: m_def)
  have p: "packet = ?h @ attrs @ encode_mac_attr m"
    by (simp add: assms(2) sealed_packet_def m_def Let_def)
  have f: "find_attribute packet 11 = ret (10 + length attrs, 18)"
    by (rule find_at_mac [OF assms(3) p _ m]) simp
  have q: "packet = (?h @ attrs @ [11, 5, 0, 0]) @ m"
    using p m by (simp add: mac_attr)
  have "overwrite packet (12 + length attrs) (replicate 16 0) = (?h @ attrs @ [11, 5, 0, 0]) @ replicate 16 0"
    unfolding q using m by (intro overwrite_end') simp_all
  moreover have "sub_octets packet (12 + length attrs) (28 + length attrs) = Some m"
    unfolding q using m by (simp add: sub_octets_def)
  ultimately show ?thesis
    using f by (simp add: verify_mac_def m_def mac_attr)
qed

lemma header_is_challenge: "is_challenge code (build_header code i n 1 @ rest) = Some True"
  by (simp add: is_challenge_def build_header_def)

text \<open>An attribute whose value starts with a length, read back.\<close>

lemma counted_field:
  assumes "packet = pre @ make_attr ty (pad_value (put_u16 n @ body)) @ rest" "length pre = pos"
  shows "get_u16 packet (pos + 2) = Some n"
    "sub_octets packet (pos + 4) (pos + 4 + length body) = Some body"
proof -
  obtain k where "pad_value (put_u16 n @ body) = (put_u16 n @ body) @ replicate k 0"
    using pad_value_prefix by blast
  then obtain w where p: "packet = (pre @ [ty, w]) @ put_u16 n @ (body @ replicate k 0 @ rest)"
    using assms(1) by (simp add: make_attr_def)
  show "get_u16 packet (pos + 2) = Some n"
    using get_put_u16 [of "pre @ [ty, w]" n "body @ replicate k 0 @ rest"] p assms(2) by simp
  have "packet = (pre @ [ty, w] @ put_u16 n) @ body @ (replicate k 0 @ rest)" using p by simp
  then show "sub_octets packet (pos + 4) (pos + 4 + length body) = Some body"
    using sub_octets_exact [of "pre @ [ty, w] @ put_u16 n" body "replicate k 0 @ rest"] assms(2)
    by (simp add: numeral_eq_Suc)
qed

lemma other_types: "(1 :: octet) \<noteq> 2" "(1 :: octet) \<noteq> 23" "(2 :: octet) \<noteq> 23" "(3 :: octet) \<noteq> 11"
  "(1 :: octet) \<noteq> 11" "(2 :: octet) \<noteq> 11" "(23 :: octet) \<noteq> 11" "(24 :: octet) \<noteq> 11"
  by simp_all

lemma response_attributes:
  assumes "length res \<le> 1000" "packet = sealed_packet C 2 i 1 (encode_res_attr res) key"
  shows "find_attribute packet 3 = ret (10, length (encode_res_attr res) - 2)"
    "find_attribute_from packet 11 8 = find_attribute_from packet 11 (8 + length (encode_res_attr res))"
proof -
  let ?v = "pad_value (put_u16 (of_nat (length res * 8)) @ res)"
  let ?h = "build_header 2 i (8 + length (encode_res_attr res) + 20) 1"
  obtain rest where p: "packet = ?h @ make_attr 3 ?v @ rest"
    using assms(2) by (simp add: sealed_packet_def encode_res_attr_def Let_def)
  have v: "(length ?v + 2) mod 4 = 0" "length ?v < 1020"
    using pad_value_words length_pad_value [of "put_u16 (of_nat (length res * 8)) @ res"] assms(1) by auto
  have l: "length (encode_res_attr res) = length ?v + 2"
    by (simp add: encode_res_attr_def make_attr_def)
  show "find_attribute packet 3 = ret (10, length (encode_res_attr res) - 2)"
    unfolding p find_attribute_def using find_attribute_step [OF v, of ?h 8 3 rest 3] l by simp
  show "find_attribute_from packet 11 8 = find_attribute_from packet 11 (8 + length (encode_res_attr res))"
    unfolding p l using find_attribute_step [OF v, of ?h 8 3 rest 11] l other_types
    by (simp only: length_build_header if_False simp_thms) (simp add: add.commute)
qed

lemma response_understood:
  assumes "openssl_ok C" "length res \<le> 1000" "packet = build_challenge_response C i res key"
  shows "verify_mac C packet key = Some True"
    "\<exists>m. parse_challenge_response packet = ret \<lparr>cs_res = res, cs_mac = m\<rparr>"
    "packet ! 1 = i" "8 \<le> length packet"
proof -
  let ?attrs = "encode_res_attr res"
  have p: "packet = sealed_packet C 2 i 1 ?attrs key"
    using assms(1,3) by (simp add: build_challenge_response_def finalize_is_sealed Let_def)
  note f = response_attributes [OF assms(2) p]
  show "verify_mac C packet key = Some True"
    by (rule sealed_verifies [OF assms(1) p f(2)])
  let ?h = "build_header 2 i (8 + length ?attrs + 20) 1"
  obtain m where m: "packet = ?h @ ?attrs @ encode_mac_attr m" "length m = 16"
    using p assms(1) by (simp add: sealed_packet_def Let_def)
  have mac: "find_attribute packet 11 = ret (10 + length ?attrs, 18)"
    by (rule find_at_mac [OF f(2) m(1) _ m(2)]) simp
  let ?n = "of_nat (length res * 8) :: u16"
  have q: "packet = ?h @ make_attr 3 (pad_value (put_u16 ?n @ res)) @ encode_mac_attr m"
    using m by (simp add: encode_res_attr_def)
  have fields: "get_u16 packet 10 = Some ?n" "sub_octets packet 12 (12 + length res) = Some res"
    using counted_field [OF q, of 8] by (simp_all add: add.commute)
  have n: "unat ?n = length res * 8"
    using assms(2) by (intro unat_of_nat_u16) simp
  have attrs: "2 + (length res + 2) \<le> length ?attrs"
    using pad_value_is [of "put_u16 ?n @ res"] by (simp add: encode_res_attr_def make_attr_def)
  have "sub_octets packet (12 + length ?attrs) (28 + length ?attrs) = Some m"
    using m sub_octets_exact [of "?h @ ?attrs @ [11, 5, 0, 0]" m "[]"] by (simp add: mac_attr add.commute)
  then show "\<exists>m. parse_challenge_response packet = ret \<lparr>cs_res = res, cs_mac = m\<rparr>"
    using header_is_challenge [of 2 i] m(1) f(1) mac fields n attrs
    by (simp add: parse_challenge_response_def Let_def)
  show "packet ! 1 = i" "8 \<le> length packet"
    by (simp_all add: m(1)) (simp add: build_header_def)
qed

lemma find_attribute_here:
  "packet = pre @ make_attr t v @ rest \<Longrightarrow> (length v + 2) mod 4 = 0 \<Longrightarrow> length v < 1020 \<Longrightarrow> length pre = pos \<Longrightarrow>
   find_attribute_from packet t pos = ret (pos + 2, length v)"
  using find_attribute_step [of v pre pos t rest t] by simp

lemma find_attribute_next:
  "packet = pre @ make_attr t v @ rest \<Longrightarrow> (length v + 2) mod 4 = 0 \<Longrightarrow> length v < 1020 \<Longrightarrow> length pre = pos \<Longrightarrow>
   t \<noteq> ty \<Longrightarrow> find_attribute_from packet ty pos = find_attribute_from packet ty (pos + 2 + length v)"
  using find_attribute_step [of v pre pos t rest ty] by simp

lemma fixed_field:
  assumes "packet = pre @ make_attr ty ([0, 0] @ body) @ rest" "length pre = pos" "length body = 16"
  shows "sub_octets packet (pos + 4) (pos + 20) = Some body"
proof -
  obtain w where "packet = (pre @ [ty, w, 0, 0]) @ body @ rest"
    using assms(1) by (simp add: make_attr_def)
  then show ?thesis
    using sub_octets_exact [of "pre @ [ty, w, 0, 0]" body rest] assms(2,3) by (simp add: numeral_eq_Suc)
qed

lemma request_understood:
  assumes "openssl_ok C" "length rand = 16" "length autn = 16" "length name \<le> 1000"
    "packet = build_challenge_request C i rand autn name key"
  shows "verify_mac C packet key = Some True"
    "\<exists>m. parse_challenge_request packet = ret \<lparr>cr_rand = rand, cr_autn = autn, cr_kdf_input = name, cr_mac = m\<rparr>"
    "packet ! 1 = i"
proof -
  let ?n = "of_nat (length name) :: u16"
  define v where "v = pad_value (put_u16 ?n @ to_bytes name)"
  let ?a1 = "make_attr 1 ([0, 0] @ rand)" and ?a2 = "make_attr 2 ([0, 0] @ autn)"
    and ?a3 = "make_attr 23 v" and ?a4 = "make_attr 24 (put_u16 1)"
  let ?attrs = "?a1 @ ?a2 @ ?a3 @ ?a4"
  let ?h = "build_header 1 i (8 + length ?attrs + 20) 1"
  have p: "packet = sealed_packet C 1 i 1 ?attrs key"
    using assms(1,5)
    by (simp only: build_challenge_request_def finalize_is_sealed Let_def v_def encode_rand_attr_def
        encode_autn_attr_def encode_kdf_input_attr_def encode_kdf_attr_def)
  obtain m where m: "packet = ?h @ ?attrs @ encode_mac_attr m" "length m = 16"
    using p assms(1) by (simp only: sealed_packet_def Let_def length_compute_mac)
  have v: "(length v + 2) mod 4 = 0" "length v < 1020"
    using pad_value_words length_pad_value [of "put_u16 ?n @ to_bytes name"] assms(4)
    by (auto simp: v_def to_bytes_def)
  have q1: "packet = ?h @ ?a1 @ (?a2 @ ?a3 @ ?a4 @ encode_mac_attr m)"
    and q2: "packet = (?h @ ?a1) @ ?a2 @ (?a3 @ ?a4 @ encode_mac_attr m)"
    and q3: "packet = (?h @ ?a1 @ ?a2) @ ?a3 @ (?a4 @ encode_mac_attr m)"
    and q4: "packet = (?h @ ?a1 @ ?a2 @ ?a3) @ ?a4 @ encode_mac_attr m"
    using m(1) by simp_all
  have la: "length ?a1 = 20" "length ?a2 = 20" "length ?a3 = 2 + length v" "length ?a4 = 4"
    using assms(2,3) by (simp_all add: make_attr_def)
  have fixed: "(length ([0, 0] @ rand) + 2) mod 4 = 0" "length ([0, 0] @ rand) < 1020"
    "(length ([0, 0] @ autn) + 2) mod 4 = 0" "length ([0, 0] @ autn) < 1020"
    "(length (put_u16 1) + 2) mod 4 = 0" "length (put_u16 1) < 1020"
    using assms(2,3) by simp_all
  have s1: "find_attribute_from packet ty 8 = find_attribute_from packet ty 28" if "1 \<noteq> ty" for ty
    using find_attribute_next [OF q1 fixed(1,2) _ that] assms(2) by simp
  have s2: "find_attribute_from packet ty 28 = find_attribute_from packet ty 48" if "2 \<noteq> ty" for ty
    using find_attribute_next [OF q2 fixed(3,4) _ that] assms(3) la by simp
  have s3: "find_attribute_from packet ty 48 = find_attribute_from packet ty (50 + length v)" if "23 \<noteq> ty" for ty
    using find_attribute_next [OF q3 v _ that] la by simp
  have s4: "find_attribute_from packet ty (50 + length v) = find_attribute_from packet ty (54 + length v)" if "24 \<noteq> ty" for ty
    using find_attribute_next [OF q4 fixed(5,6) _ that] la by simp
  have f1: "find_attribute packet 1 = ret (10, 18)"
    using find_attribute_here [OF q1 fixed(1,2)] assms(2) by (simp add: find_attribute_def)
  have f2: "find_attribute packet 2 = ret (30, 18)"
    using find_attribute_here [OF q2 fixed(3,4)] assms(3) la s1 [OF other_types(1)] by (simp add: find_attribute_def)
  have f3: "find_attribute packet 23 = ret (50, length v)"
    using find_attribute_here [OF q3 v] la s1 [OF other_types(2)] s2 [OF other_types(3)]
    by (simp add: find_attribute_def)
  have skip: "find_attribute_from packet 11 8 = find_attribute_from packet 11 (8 + length ?attrs)"
    using s1 [OF other_types(5)] s2 [OF other_types(6)] s3 [OF other_types(7)] s4 [OF other_types(8)] la
    by (simp add: add.commute)
  have f4: "find_attribute packet 11 = ret (10 + length ?attrs, 18)"
    by (rule find_at_mac [OF skip m(1) _ m(2)]) simp
  show "verify_mac C packet key = Some True"
    by (rule sealed_verifies [OF assms(1) p skip])
  have r: "sub_octets packet 12 28 = Some rand" "sub_octets packet 32 48 = Some autn"
    using fixed_field [OF q1, of 8] fixed_field [OF q2, of 28] assms(2,3) la by simp_all
  have nm: "get_u16 packet 50 = Some ?n" "sub_octets packet 52 (52 + length name) = Some (to_bytes name)"
    using counted_field [OF q3 [unfolded v_def], of 48] la by (simp_all add: to_bytes_def add.commute)
  have n: "unat ?n = length name" using assms(4) by (intro unat_of_nat_u16) simp
  have vl: "2 + length name \<le> length v"
    using pad_value_is [of "put_u16 ?n @ to_bytes name"] by (simp add: v_def to_bytes_def)
  have mf: "sub_octets packet (12 + length ?attrs) (28 + length ?attrs) = Some m"
    using m sub_octets_exact [of "?h @ ?attrs @ [11, 5, 0, 0]" m "[]"] by (simp add: mac_attr add.commute)
  have ch: "is_challenge 1 packet = Some True"
    unfolding m(1) by (rule header_is_challenge)
  have nb: "map (\<lambda>b. char_of (unat b)) (to_bytes name) = name"
    by (simp add: to_bytes_def comp_def unat_of_char)
  show "\<exists>m. parse_challenge_request packet = ret \<lparr>cr_rand = rand, cr_autn = autn, cr_kdf_input = name, cr_mac = m\<rparr>"
    using ch f1 f2 f3 f4 r nm n vl mf nb by (simp add: parse_challenge_request_def)
  show "packet ! 1 = i"
    by (simp add: m(1)) (simp add: build_header_def)
qed

section \<open>Decoding is safe\<close>

lemma find_attribute_from_sound:
  "sound (find_attribute_from packet ty pos) (\<lambda>(off, len). pos + 2 \<le> off \<and> off + len \<le> length packet)"
proof (induction packet ty pos rule: find_attribute_from.induct)
  case (1 packet ty pos)
  show ?case
  proof (cases "pos + 2 \<le> length packet")
    case inside: True
    let ?n = "unat (packet ! (pos + 1)) * 4"
    show ?thesis
    proof (cases "packet ! (pos + 1) = 0 \<or> pos + ?n > length packet \<or> packet ! pos = ty")
      case True
      moreover have "0 < unat (packet ! (pos + 1))" if "packet ! (pos + 1) \<noteq> 0"
        using that by (simp add: unat_gt_0)
      ultimately show ?thesis
        using inside by (subst find_attribute_from.simps) (auto simp: octet_at_def Let_def)
    next
      case False
      with 1 inside have "sound (find_attribute_from packet ty (pos + ?n))
          (\<lambda>(off, len). pos + ?n + 2 \<le> off \<and> off + len \<le> length packet)"
        by (auto simp: octet_at_def)
      then have "sound (find_attribute_from packet ty (pos + ?n)) (\<lambda>(off, len). pos + 2 \<le> off \<and> off + len \<le> length packet)"
        by (rule sound_mono) auto
      with False inside show ?thesis
        by (subst find_attribute_from.simps) (simp add: octet_at_def Let_def)
    qed
  qed (simp add: find_attribute_from.simps)
qed

lemma find_attribute_sound: "sound (find_attribute packet ty) (\<lambda>span. fst span + snd span \<le> length packet)"
  unfolding find_attribute_def by (rule sound_mono [OF find_attribute_from_sound]) auto

lemma sound_is_challenge: "(\<And>ok. sound (f ok) P) \<Longrightarrow> sound (is_challenge code packet \<bind> f) P"
  by (simp add: is_challenge_def octet_at_def)

lemma sound_get_u16: "off + 2 \<le> length bs \<Longrightarrow> (\<And>v. sound (f v) P) \<Longrightarrow> sound (get_u16 bs off \<bind> f) P"
  by (simp add: get_u16_def octet_at_def)

lemmas eap_sound = sound_is_challenge sound_get_u16 sound_sub_octets sound_if sound_and_then [OF find_attribute_sound]

lemma eap_packets_safe:
  "parse_challenge_request packet \<noteq> None \<and> parse_challenge_response packet \<noteq> None \<and> verify_mac C packet key \<noteq> None"
proof (intro conjI)
  show "parse_challenge_request packet \<noteq> None"
    unfolding parse_challenge_request_def
    by (rule sound_safe [where P = "\<lambda>_. True"]) (intro eap_sound, auto)
  show "parse_challenge_response packet \<noteq> None"
    unfolding parse_challenge_response_def Let_def
    by (rule sound_safe [where P = "\<lambda>_. True"]) (intro eap_sound, auto)
  show "verify_mac C packet key \<noteq> None"
    using find_attribute_sound [of packet 11]
    by (cases "(find_attribute packet 11, \<lambda>_ :: nat \<times> nat. True)" rule: sound.cases)
      (auto simp: verify_mac_def sub_octets_def)
qed

text \<open>Neither decoder of EAP-AKA' packets, nor the check of their code, reads outside the
  packet, whatever its octets are.
\<close>

theorem eap_decoders_safe:
  "parse_challenge_request packet \<noteq> None \<and> parse_challenge_response packet \<noteq> None \<and> verify_mac C packet key \<noteq> None"
  by (rule eap_packets_safe)

text \<open>
  Property C33: what one end of EAP-AKA' builds the other end reads back: the challenge with its
  random value, token and network name, and the response with its result, each under a code that
  verifies with the key it was built with; names and results up to 1,000 octets.
\<close>

theorem eap_roundtrip:
  assumes "openssl_ok C" "length rand = 16" "length autn = 16" "length name \<le> 1000" "length res \<le> 1000"
  shows "(let packet = build_challenge_request C i rand autn name key
      in verify_mac C packet key = Some True \<and>
         (\<exists>m. parse_challenge_request packet = ret \<lparr>cr_rand = rand, cr_autn = autn, cr_kdf_input = name, cr_mac = m\<rparr>)) \<and>
    (let packet = build_challenge_response C i res key
      in verify_mac C packet key = Some True \<and>
         (\<exists>m. parse_challenge_response packet = ret \<lparr>cs_res = res, cs_mac = m\<rparr>))"
  using request_understood [OF assms(1-4) refl] response_understood [OF assms(1,5) refl] by (simp add: Let_def)

theorem eap_roundtrip_witness:
  "verify_mac toy_crypto (build_challenge_response toy_crypto 7 [1, 2, 3] [9]) [9] = Some True"
  using eap_roundtrip [OF openssl_ok_toy, of "replicate 16 1" "replicate 16 2" "''n''" "[1, 2, 3]" 7 "[9]"]
  by (simp add: Let_def)

lemma length_prf_prime [simp]:
  assumes "openssl_ok C"
  shows "length (prf_prime C key seed n) = n"
proof -
  have "n - length acc \<le> fuel \<Longrightarrow> n \<le> length (prf_rounds fuel C key seed n counter t acc)" for fuel counter t acc
    by (induction fuel arbitrary: counter t acc) (simp_all add: Let_def crypto_lengths [OF assms])
  from this [of "[]" n 1 "[]"] show ?thesis by (simp add: prf_prime_def min_def)
qed

lemma length_derived_keys [simp]:
  assumes "openssl_ok C"
  shows "length (k_aut (derive_keys C ck ik identity)) = 32" "length (msk (derive_keys C ck ik identity)) = 64"
  using assms by (simp_all add: derive_keys_def Let_def)

end
