(* ===== verification/Auth_Server.thy ===== *)
theory Auth_Server
  imports Vector_Service Eap_Aka
begin

text \<open>
  The AUSF (\<open>nfs/ausf/src/main.cpp\<close>, \<open>stores.cpp\<close> and \<open>kausf_store.cpp\<close>): the contexts of
  authentications in progress, the confirmations of 5G-AKA and EAP-AKA', the key KAUSF each
  subscriber is left with, and its two counters. The hash a subscriber has in Redis is a record;
  its key is kept in hexadecimal. What the UDM answers and the random values are arguments, the
  base-64 coding is a parameter. The registration of an AKMA key is an output. Handlers run on a
  pool of threads: the counters are also modelled step by step.
\<close>

section \<open>Stores\<close>

record auth_context =
  ac_supi :: string
  ac_serving_network_name :: string
  ac_auth_type :: string
  ac_xres_star :: octets
  ac_kausf_5g_aka :: octets
  ac_k_aut :: octets
  ac_xres :: octets
  ac_kausf_eap :: octets
  ac_msk :: octets
  ac_akma_ind :: bool
  ac_routing_id :: string

record prose_context =
  pc_supi :: string
  pc_serving_network_name :: string
  pc_relay_service_code :: u64
  pc_nonce1 :: octets
  pc_k_aut :: octets
  pc_xres :: octets
  pc_kausf_p :: octets

record 'c context_store =
  cs_entries :: "(string \<times> 'c) list"
  cs_next_id :: nat

definition context_create :: "string \<Rightarrow> 'c \<Rightarrow> 'c context_store \<Rightarrow> 'c context_store \<times> string" where
  "context_create prefix ctx st =
     (let i = prefix @ to_string_nat (cs_next_id st)
      in (\<lparr>cs_entries = (if map_of (cs_entries st) i = None then (i, ctx) # cs_entries st else cs_entries st),
           cs_next_id = cs_next_id st + 1\<rparr>, i))"

definition context_get :: "string \<Rightarrow> 'c context_store \<Rightarrow> 'c option" where
  "context_get auth_ctx_id st = map_of (cs_entries st) auth_ctx_id"

definition context_remove :: "string \<Rightarrow> 'c context_store \<Rightarrow> 'c context_store \<times> bool" where
  "context_remove auth_ctx_id st =
     (st\<lparr>cs_entries := filter (\<lambda>e. fst e \<noteq> auth_ctx_id) (cs_entries st)\<rparr>,
      map_of (cs_entries st) auth_ctx_id \<noteq> None)"

definition remove_by_supi :: "string \<Rightarrow> auth_context context_store \<Rightarrow> auth_context context_store \<times> bool" where
  "remove_by_supi supi st =
     (st\<lparr>cs_entries := filter (\<lambda>e. ac_supi (snd e) \<noteq> supi) (cs_entries st)\<rparr>,
      list_ex (\<lambda>e. ac_supi (snd e) = supi) (cs_entries st))"

section \<open>The keys of subscribers and their counters\<close>

record sor_hash =
  sh_kausf :: string
  sh_counter_sor :: nat
  sh_suspended :: bool
  sh_counter_upu :: nat
  sh_suspended_upu :: bool

type_synonym kausf_store = "string \<Rightarrow> sor_hash option"

definition store_fresh_kausf :: "string \<Rightarrow> octets \<Rightarrow> kausf_store \<Rightarrow> kausf_store" where
  "store_fresh_kausf supi kausf db =
     db(supi \<mapsto> \<lparr>sh_kausf = to_hex kausf, sh_counter_sor = 1, sh_suspended = False,
        sh_counter_upu = 1, sh_suspended_upu = False\<rparr>)"

record sor_context =
  sor_kausf :: octets
  sor_counter :: u16
  sor_suspended :: bool
  upu_counter :: u16
  upu_suspended :: bool

definition kausf_get :: "string \<Rightarrow> kausf_store \<Rightarrow> sor_context option" where
  "kausf_get supi db =
     Option.bind (db supi) (\<lambda>h.
       map_option (\<lambda>k. \<lparr>sor_kausf = k, sor_counter = of_nat (sh_counter_sor h), sor_suspended = sh_suspended h,
          upu_counter = of_nat (sh_counter_upu h), upu_suspended = sh_suspended_upu h\<rparr>)
         (from_hex_array 32 (sh_kausf h)))"

definition update_hash :: "string \<Rightarrow> (sor_hash \<Rightarrow> sor_hash) \<Rightarrow> kausf_store \<Rightarrow> kausf_store" where
  "update_hash supi f db = (case db supi of None \<Rightarrow> db | Some h \<Rightarrow> db(supi \<mapsto> f h))"

text \<open>The three requests to Redis that \<open>use_counter\<close> makes: a read, an increment, and a write of the
  mark once the new value passes 65,535. What is handed out is the value before, as 16 bits.\<close>

datatype counter_call =
    Checking string
  | Incrementing string
  | Suspending string u16
  | Counted "u16 option"

definition counter_step :: "kausf_store \<Rightarrow> counter_call \<Rightarrow> kausf_store \<times> counter_call" where
  "counter_step db c =
     (case c of
        Checking supi \<Rightarrow>
          (db, case kausf_get supi db of
                 None \<Rightarrow> Counted None
               | Some ctx \<Rightarrow> if sor_suspended ctx then Counted None else Incrementing supi)
      | Incrementing supi \<Rightarrow>
          (case db supi of
             None \<Rightarrow> (db, Counted None)
           | Some h \<Rightarrow>
               let new_value = sh_counter_sor h + 1; used = of_nat (new_value - 1)
               in (db(supi \<mapsto> h\<lparr>sh_counter_sor := new_value\<rparr>),
                   if new_value > 0xFFFF then Suspending supi used else Counted (Some used)))
      | Suspending supi used \<Rightarrow> (update_hash supi (\<lambda>h. h\<lparr>sh_suspended := True\<rparr>) db, Counted (Some used))
      | Counted r \<Rightarrow> (db, c))"

definition counters_step :: "nat \<Rightarrow> kausf_store \<times> counter_call list \<Rightarrow> kausf_store \<times> counter_call list" where
  "counters_step i s =
     (case s of (db, cs) \<Rightarrow>
        if i < length cs then let (db', c) = counter_step db (cs ! i) in (db', cs[i := c]) else s)"

definition run_counters :: "nat list \<Rightarrow> kausf_store \<times> counter_call list \<Rightarrow> kausf_store \<times> counter_call list" where
  "run_counters is s = foldl (\<lambda>s i. counters_step i s) s is"

text \<open>A call that nothing interrupts. The second counter is advanced in the same way.\<close>

definition use_counter :: "string \<Rightarrow> kausf_store \<Rightarrow> kausf_store \<times> u16 option" where
  "use_counter supi db =
     (case kausf_get supi db of
        None \<Rightarrow> (db, None)
      | Some ctx \<Rightarrow>
          if sor_suspended ctx then (db, None)
          else case db supi of
            None \<Rightarrow> (db, None)
          | Some h \<Rightarrow>
              let new_value = sh_counter_sor h + 1; h' = h\<lparr>sh_counter_sor := new_value\<rparr>
              in (db(supi \<mapsto> if new_value > 0xFFFF then h'\<lparr>sh_suspended := True\<rparr> else h'),
                  Some (of_nat (new_value - 1))))"

definition use_upu_counter :: "string \<Rightarrow> kausf_store \<Rightarrow> kausf_store \<times> u16 option" where
  "use_upu_counter supi db =
     (case kausf_get supi db of
        None \<Rightarrow> (db, None)
      | Some ctx \<Rightarrow>
          if upu_suspended ctx then (db, None)
          else case db supi of
            None \<Rightarrow> (db, None)
          | Some h \<Rightarrow>
              let new_value = sh_counter_upu h + 1; h' = h\<lparr>sh_counter_upu := new_value\<rparr>
              in (db(supi \<mapsto> if new_value > 0xFFFF then h'\<lparr>sh_suspended_upu := True\<rparr> else h'),
                  Some (of_nat (new_value - 1))))"

lemma use_counter_is_three_steps:
  "((\<lambda>(db, c). counter_step db c) ^^ 3) (db, Checking supi) = (db', Counted r) \<longleftrightarrow> use_counter supi db = (db', r)"
  by (auto simp: numeral_3_eq_3 counter_step_def use_counter_def Let_def kausf_get_def update_hash_def
      bind_eq_Some_conv split: option.splits if_splits)

section \<open>AKMA\<close>

text \<open>The home network, when AKMA is configured: its country and network codes.\<close>

type_synonym akma_config = "(string \<times> string) option"

record akma_key_info =
  ak_supi :: string
  ak_a_kid :: string
  ak_kakma :: string

definition strip_prefix :: "string \<Rightarrow> string \<Rightarrow> string" where
  "strip_prefix p s = (if take (length p) s = p then drop (length p) s else s)"

definition register_akma :: "crypto \<Rightarrow> akma_config \<Rightarrow> auth_context \<Rightarrow> octets \<Rightarrow> akma_key_info option" where
  "register_akma C cfg ctx kausf =
     (case cfg of
        None \<Rightarrow> None
      | Some (mcc, mnc) \<Rightarrow>
          if \<not> ac_akma_ind ctx then None
          else let bare = strip_prefix ''nai-'' (strip_prefix ''imsi-'' (ac_supi ctx))
            in Some \<lparr>ak_supi = ac_supi ctx,
                 ak_a_kid = make_a_kid (ac_routing_id ctx) (derive_a_tid C kausf bare) mcc mnc,
                 ak_kakma = to_hex (derive_kakma C kausf bare)\<rparr>)"

section \<open>\<open>POST /ue-authentications\<close>\<close>

record base64 =
  b64_encode :: "octets \<Rightarrow> string"
  b64_decode :: "string \<Rightarrow> octets option"

definition base64_ok :: "base64 \<Rightarrow> bool" where
  "base64_ok B \<longleftrightarrow> (\<forall>x. b64_decode B (b64_encode B x) = Some x)"

text \<open>What the request to the UDM comes to: no token or no answer, a status, or a body, which may not
  be of the expected shape.\<close>

datatype 'a udm_answer = No_Answer | Udm_Status nat | Udm_Body "'a option"

definition udm_body :: "'a udm_answer \<Rightarrow> 'a + nat \<times> string option" where
  "udm_body a =
     (case a of
        No_Answer \<Rightarrow> Inr (500, Some ''SYSTEM_FAILURE'')
      | Udm_Status s \<Rightarrow> if s = 404 then Inr (404, None) else Inr (500, Some ''SYSTEM_FAILURE'')
      | Udm_Body None \<Rightarrow> Inr (500, Some ''SYSTEM_FAILURE'')
      | Udm_Body (Some b) \<Rightarrow> Inl b)"

datatype n5g_auth_data = N5g_Av string string string | N5g_Eap string

record ue_auth_ctx =
  uc_auth_type :: auth_type
  uc_auth_data :: n5g_auth_data
  uc_auth_ctx_id :: string
  uc_serving_network_name :: string

definition empty_context :: auth_context where
  "empty_context = \<lparr>ac_supi = [], ac_serving_network_name = [], ac_auth_type = [],
     ac_xres_star = replicate 16 0, ac_kausf_5g_aka = replicate 32 0, ac_k_aut = replicate 32 0,
     ac_xres = replicate 8 0, ac_kausf_eap = replicate 32 0, ac_msk = replicate 64 0,
     ac_akma_ind = False, ac_routing_id = []\<rparr>"

definition eap_context :: "crypto \<Rightarrow> base64 \<Rightarrow> string \<Rightarrow> string \<Rightarrow> bool \<Rightarrow> string \<Rightarrow> av_eap_aka_prime \<Rightarrow>
    (auth_context \<times> n5g_auth_data) option" where
  "eap_context C B supi serving_network_name akma routing_id av =
     (case (from_hex_array 16 (eap_rand av), from_hex_array 16 (eap_autn av), from_hex_array 8 (eap_xres av),
            from_hex_array 16 (eap_ck_prime av), from_hex_array 16 (eap_ik_prime av)) of
        (Some rand, Some autn, Some xres, Some ck_prime, Some ik_prime) \<Rightarrow>
          let keys = derive_keys C ck_prime ik_prime supi;
              kausf_eap = derive_kausf C ck_prime ik_prime serving_network_name (take 6 autn);
              packet = build_challenge_request C (rand ! 0) rand autn serving_network_name (k_aut keys)
          in Some (empty_context\<lparr>ac_supi := supi, ac_serving_network_name := serving_network_name,
                     ac_akma_ind := akma, ac_routing_id := routing_id, ac_auth_type := ''EAP_AKA_PRIME'',
                     ac_k_aut := k_aut keys, ac_xres := xres, ac_kausf_eap := kausf_eap, ac_msk := msk keys\<rparr>,
                   N5g_Eap (b64_encode B packet))
      | _ \<Rightarrow> None)"

definition aka_context :: "crypto \<Rightarrow> string \<Rightarrow> string \<Rightarrow> bool \<Rightarrow> string \<Rightarrow> av_5g_he_aka \<Rightarrow>
    (auth_context \<times> n5g_auth_data) option" where
  "aka_context C supi serving_network_name akma routing_id av =
     (case (from_hex_array 16 (he_rand av), from_hex_array 16 (he_autn av), from_hex_array 16 (he_xres_star av),
            from_hex_array 32 (he_kausf av)) of
        (Some rand, Some autn, Some xres_star, Some kausf) \<Rightarrow>
          Some (empty_context\<lparr>ac_supi := supi, ac_serving_network_name := serving_network_name,
                  ac_akma_ind := akma, ac_routing_id := routing_id, ac_auth_type := ''5G_AKA'',
                  ac_xres_star := xres_star, ac_kausf_5g_aka := kausf\<rparr>,
                N5g_Av (he_rand av) (to_hex (derive_hxres_star C rand xres_star)) (he_autn av))
      | _ \<Rightarrow> None)"

definition ue_authentication :: "crypto \<Rightarrow> base64 \<Rightarrow> string \<Rightarrow> string \<Rightarrow> auth_info_result udm_answer \<Rightarrow>
    auth_context context_store \<Rightarrow> auth_context context_store \<times> ue_auth_ctx reply" where
  "ue_authentication C B supi_or_suci serving_network_name answer st =
     (case udm_body answer of
        Inr (status, cause) \<Rightarrow> (st, Problem_Details status cause)
      | Inl res \<Rightarrow>
          let supi = value_or supi_or_suci (air_supi res);
              akma = value_or False (air_akma_ind res);
              routing_id = value_or ''0'' (air_routing_id res);
              eap = (air_auth_type res = EAP_AKA_PRIME);
              made = (case air_vector res of
                  None \<Rightarrow> None
                | Some (Av_Eap av) \<Rightarrow> if eap then eap_context C B supi serving_network_name akma routing_id av else None
                | Some (Av_5G av) \<Rightarrow> if eap then None else aka_context C supi serving_network_name akma routing_id av)
          in case made of
               None \<Rightarrow> (st, Problem_Details 500 (Some ''SYSTEM_FAILURE''))
             | Some (ctx, auth_data) \<Rightarrow>
                 let (st', auth_ctx_id) = context_create ''authctx-'' ctx st
                 in (st', Reply 201 \<lparr>uc_auth_type = (if eap then EAP_AKA_PRIME else V5G_AKA), uc_auth_data = auth_data,
                        uc_auth_ctx_id = auth_ctx_id, uc_serving_network_name = serving_network_name\<rparr>))"

section \<open>Confirmation\<close>

record ausf =
  auth_contexts :: "auth_context context_store"
  prose_contexts :: "prose_context context_store"
  kausfs :: kausf_store

record confirmation =
  cf_success :: bool
  cf_supi :: "string option"
  cf_kseaf :: "string option"

text \<open>The third part of the outcome is the AKMA key registered at the AAnF.\<close>

definition confirm_5g_aka :: "crypto \<Rightarrow> akma_config \<Rightarrow> string \<Rightarrow> string \<Rightarrow> ausf \<Rightarrow>
    ausf \<times> confirmation reply \<times> akma_key_info option" where
  "confirm_5g_aka C cfg auth_ctx_id res_star_text s =
     (case context_get auth_ctx_id (auth_contexts s) of
        None \<Rightarrow> (s, Problem_Details 404 None, None)
      | Some ctx \<Rightarrow>
          if ac_auth_type ctx \<noteq> ''5G_AKA'' then (s, Problem_Details 404 None, None)
          else case from_hex_array 16 res_star_text of
            None \<Rightarrow> (s, Problem_Details 400 (Some ''UNSPECIFIED_MSG_FAILURE''), None)
          | Some res_star \<Rightarrow>
              if res_star = ac_xres_star ctx
              then (s\<lparr>kausfs := store_fresh_kausf (ac_supi ctx) (ac_kausf_5g_aka ctx) (kausfs s)\<rparr>,
                    Reply 200 \<lparr>cf_success = True, cf_supi = Some (ac_supi ctx),
                      cf_kseaf = Some (to_hex (derive_kseaf C (ac_kausf_5g_aka ctx) (ac_serving_network_name ctx)))\<rparr>,
                    register_akma C cfg ctx (ac_kausf_5g_aka ctx))
              else (s, Reply 200 \<lparr>cf_success = False, cf_supi = None, cf_kseaf = None\<rparr>, None))"

text \<open>\<open>DELETE\<close> of a context, of the type its path names.\<close>

definition delete_context :: "string \<Rightarrow> string \<Rightarrow> ausf \<Rightarrow> ausf \<times> nat" where
  "delete_context auth_type auth_ctx_id s =
     (case context_get auth_ctx_id (auth_contexts s) of
        None \<Rightarrow> (s, 404)
      | Some ctx \<Rightarrow>
          if ac_auth_type ctx \<noteq> auth_type then (s, 404)
          else let (cs, removed) = context_remove auth_ctx_id (auth_contexts s)
            in (s\<lparr>auth_contexts := cs\<rparr>, if removed then 204 else 404))"

definition deregister :: "string \<Rightarrow> ausf \<Rightarrow> ausf \<times> nat" where
  "deregister supi s =
     (let (cs, removed) = remove_by_supi supi (auth_contexts s)
      in (s\<lparr>auth_contexts := cs\<rparr>, if removed then 204 else 404))"

record eap_result =
  er_payload :: string
  er_success :: bool
  er_supi :: "string option"
  er_kseaf :: "string option"
  er_msk :: "string option"

text \<open>The check that \<open>eap-session\<close> and \<open>prose-auth\<close> share.\<close>

definition eap_response_ok :: "crypto \<Rightarrow> octets \<Rightarrow> octets \<Rightarrow> octets \<Rightarrow> bool checked" where
  "eap_response_ok C packet key xres = do {
     mac_ok \<leftarrow> verify_mac C packet key;
     parsed \<leftarrow> parse_challenge_response packet;
     Some (mac_ok \<and> (case parsed of None \<Rightarrow> False | Some p \<Rightarrow> cs_res p = xres)) }"

definition eap_session :: "crypto \<Rightarrow> base64 \<Rightarrow> akma_config \<Rightarrow> string \<Rightarrow> string \<Rightarrow> ausf \<Rightarrow>
    (ausf \<times> eap_result reply \<times> akma_key_info option) checked" where
  "eap_session C B cfg auth_ctx_id payload s =
     (case context_get auth_ctx_id (auth_contexts s) of
        None \<Rightarrow> Some (s, Problem_Details 404 None, None)
      | Some ctx \<Rightarrow>
          if ac_auth_type ctx \<noteq> ''EAP_AKA_PRIME'' then Some (s, Problem_Details 404 None, None)
          else case b64_decode B payload of
            None \<Rightarrow> Some (s, Problem_Details 400 (Some ''UNSPECIFIED_MSG_FAILURE''), None)
          | Some packet \<Rightarrow>
              if length packet < 2 then Some (s, Problem_Details 400 (Some ''UNSPECIFIED_MSG_FAILURE''), None)
              else do {
                identifier \<leftarrow> octet_at packet 1;
                res_ok \<leftarrow> eap_response_ok C packet (ac_k_aut ctx) (ac_xres ctx);
                Some (if res_ok
                  then (s\<lparr>kausfs := store_fresh_kausf (ac_supi ctx) (ac_kausf_eap ctx) (kausfs s)\<rparr>,
                        Reply 200 \<lparr>er_payload = b64_encode B (build_success identifier), er_success = True,
                          er_supi = Some (ac_supi ctx),
                          er_kseaf = Some (to_hex (derive_kseaf C (ac_kausf_eap ctx) (ac_serving_network_name ctx))),
                          er_msk = Some (to_hex (ac_msk ctx))\<rparr>,
                        register_akma C cfg ctx (ac_kausf_eap ctx))
                  else (s, Reply 200 \<lparr>er_payload = b64_encode B (build_failure identifier), er_success = False,
                          er_supi = None, er_kseaf = None, er_msk = None\<rparr>, None)) })"

section \<open>ProSe\<close>

record prose_request =
  pr_supi_or_suci :: "string option"
  pr_serving_network_name :: string
  pr_relay_service_code :: u64
  pr_nonce1 :: string

definition prose_authentication :: "crypto \<Rightarrow> base64 \<Rightarrow> prose_request \<Rightarrow> prose_info_result udm_answer \<Rightarrow> ausf \<Rightarrow>
    ausf \<times> (string \<times> string) reply" where
  "prose_authentication C B body answer s =
     (case pr_supi_or_suci body of
        None \<Rightarrow> (s, Problem_Details 501 None)
      | Some supi_or_suci \<Rightarrow>
     (case b64_decode B (pr_nonce1 body) of
        None \<Rightarrow> (s, Problem_Details 400 (Some ''UNSPECIFIED_MSG_FAILURE''))
      | Some nonce1 \<Rightarrow>
     (case udm_body answer of
        Inr (status, cause) \<Rightarrow> (s, Problem_Details status cause)
      | Inl res \<Rightarrow>
          let supi = value_or supi_or_suci (prose_supi res);
              name = pr_serving_network_name body
          in (case prose_vectors res of
                Some (av # _) \<Rightarrow>
                  (case (from_hex_array 16 (eap_rand av), from_hex_array 16 (eap_autn av), from_hex_array 8 (eap_xres av),
                         from_hex_array 16 (eap_ck_prime av), from_hex_array 16 (eap_ik_prime av)) of
                     (Some rand, Some autn, Some xres, Some ck_prime, Some ik_prime) \<Rightarrow>
                       let keys = derive_keys C ck_prime ik_prime supi;
                           kausf_p = derive_kausf C ck_prime ik_prime name (take 6 autn);
                           packet = build_challenge_request C (rand ! 0) rand autn name (k_aut keys);
                           (st, i) = context_create ''prosectx-''
                             \<lparr>pc_supi = supi, pc_serving_network_name = name,
                              pc_relay_service_code = pr_relay_service_code body, pc_nonce1 = nonce1,
                              pc_k_aut = k_aut keys, pc_xres = xres, pc_kausf_p = kausf_p\<rparr> (prose_contexts s)
                       in (s\<lparr>prose_contexts := st\<rparr>, Reply 201 (i, b64_encode B packet))
                   | _ \<Rightarrow> (s, Problem_Details 500 (Some ''SYSTEM_FAILURE'')))
              | _ \<Rightarrow> (s, Problem_Details 500 (Some ''SYSTEM_FAILURE''))))))"

record prose_result =
  ps_payload :: string
  ps_success :: bool
  ps_knr_prose :: "string option"
  ps_nonce2 :: "string option"

definition prose_auth :: "crypto \<Rightarrow> base64 \<Rightarrow> octets \<Rightarrow> string \<Rightarrow> string \<Rightarrow> ausf \<Rightarrow> prose_result reply checked" where
  "prose_auth C B nonce2 auth_ctx_id payload s =
     (case context_get auth_ctx_id (prose_contexts s) of
        None \<Rightarrow> Some (Problem_Details 404 None)
      | Some ctx \<Rightarrow>
          (case b64_decode B payload of
             None \<Rightarrow> Some (Problem_Details 400 (Some ''UNSPECIFIED_MSG_FAILURE''))
           | Some packet \<Rightarrow>
               if length packet < 2 then Some (Problem_Details 400 (Some ''UNSPECIFIED_MSG_FAILURE''))
               else do {
                 identifier \<leftarrow> octet_at packet 1;
                 res_ok \<leftarrow> eap_response_ok C packet (pc_k_aut ctx) (pc_xres ctx);
                 Some (Reply 200 (if res_ok
                   then let cp_pruk = derive_cp_pruk C (pc_kausf_p ctx) (pc_supi ctx) (pc_relay_service_code ctx);
                            knr_prose = derive_knr_prose C cp_pruk (pc_nonce1 ctx) nonce2
                        in \<lparr>ps_payload = b64_encode B (build_success identifier), ps_success = True,
                            ps_knr_prose = Some (to_hex knr_prose), ps_nonce2 = Some (b64_encode B nonce2)\<rparr>
                   else \<lparr>ps_payload = b64_encode B (build_failure identifier), ps_success = False,
                         ps_knr_prose = None, ps_nonce2 = None\<rparr>)) }))"

definition delete_prose :: "string \<Rightarrow> ausf \<Rightarrow> ausf \<times> nat" where
  "delete_prose auth_ctx_id s =
     (let (st, removed) = context_remove auth_ctx_id (prose_contexts s)
      in (s\<lparr>prose_contexts := st\<rparr>, if removed then 204 else 404))"

section \<open>Protection of steering of roaming and of parameter updates\<close>

text \<open>The steering container is absent, a packet in base 64, or a list that is not coded.\<close>

datatype steering = No_Steering | Secured_Packet string | Structured

record sor_request =
  so_header :: "string option"
  so_steering :: steering
  so_ack_ind :: bool

record sor_security_info =
  si_mac_iausf :: string
  si_counter :: string
  si_xmac_iue :: "string option"

definition ue_sor :: "crypto \<Rightarrow> base64 \<Rightarrow> string \<Rightarrow> sor_request \<Rightarrow> ausf \<Rightarrow> ausf \<times> sor_security_info reply" where
  "ue_sor C B supi body s =
     (case kausf_get supi (kausfs s) of
        None \<Rightarrow> (s, Problem_Details 404 None)
      | Some ctx \<Rightarrow>
     (case so_header body of
        None \<Rightarrow> (s, Problem_Details 400 (Some ''MANDATORY_IE_MISSING''))
      | Some header_text \<Rightarrow>
     (case b64_decode B header_text of
        None \<Rightarrow> (s, Problem_Details 400 (Some ''UNSPECIFIED_MSG_FAILURE''))
      | Some sor_header \<Rightarrow>
     (let steering_list = (case so_steering body of
            Secured_Packet t \<Rightarrow> map_option Some (b64_decode B t) | _ \<Rightarrow> Some None)
      in case steering_list of
        None \<Rightarrow> (s, Problem_Details 400 (Some ''UNSPECIFIED_MSG_FAILURE''))
      | Some steering_info_list \<Rightarrow>
     (case use_counter supi (kausfs s) of
        (db, None) \<Rightarrow> (s\<lparr>kausfs := db\<rparr>, Problem_Details 503 None)
      | (db, Some counter) \<Rightarrow>
          (s\<lparr>kausfs := db\<rparr>,
           Reply 200 \<lparr>si_mac_iausf = to_hex (derive_sor_mac_iausf C (sor_kausf ctx) sor_header counter steering_info_list),
             si_counter = to_hex (put_u16 counter),
             si_xmac_iue = (if so_ack_ind body then Some (to_hex (derive_sor_mac_iue C (sor_kausf ctx) counter)) else None)\<rparr>))))))"

text \<open>The body is only tested for entries: the code over them is not implemented.\<close>

definition ue_upu :: "string \<Rightarrow> bool \<Rightarrow> ausf \<Rightarrow> unit reply" where
  "ue_upu supi has_entries s =
     (if \<not> has_entries then Problem_Details 400 (Some ''UNSPECIFIED_MSG_FAILURE'')
      else case kausf_get supi (kausfs s) of
        None \<Rightarrow> Problem_Details 404 None
      | Some _ \<Rightarrow> Problem_Details 501 None)"

section \<open>What is shown of the counters\<close>

fun nth_use :: "nat \<Rightarrow> string \<Rightarrow> kausf_store \<Rightarrow> u16 option" where
  "nth_use 0 supi db = snd (use_counter supi db)"
| "nth_use (Suc k) supi db = nth_use k supi (fst (use_counter supi db))"

lemma use_counter_running:
  assumes "db supi = Some h" "from_hex_array 32 (sh_kausf h) = Some k" "\<not> sh_suspended h"
  shows "use_counter supi db =
    (db(supi \<mapsto> h\<lparr>sh_counter_sor := sh_counter_sor h + 1, sh_suspended := 0xFFFF \<le> sh_counter_sor h\<rparr>),
     Some (of_nat (sh_counter_sor h)))"
  using assms by (auto simp: use_counter_def kausf_get_def Let_def)

lemma use_counter_suspended: "db supi = Some h \<Longrightarrow> sh_suspended h \<Longrightarrow> use_counter supi db = (db, None)"
  by (cases "from_hex_array 32 (sh_kausf h)") (auto simp: use_counter_def kausf_get_def)

lemma nth_use_suspended: "db supi = Some h \<Longrightarrow> sh_suspended h \<Longrightarrow> nth_use n supi db = None"
  by (induction n) (simp_all add: use_counter_suspended)

lemma nth_use_running:
  assumes "db supi = Some h" "from_hex_array 32 (sh_kausf h) = Some k" "\<not> sh_suspended h" "sh_counter_sor h \<le> 0xFFFF"
  shows "nth_use n supi db =
    (if sh_counter_sor h + n \<le> 0xFFFF then Some (of_nat (sh_counter_sor h + n)) else None)"
  using assms
proof (induction n arbitrary: db h)
  case (Suc n)
  let ?h = "h\<lparr>sh_counter_sor := sh_counter_sor h + 1, sh_suspended := 0xFFFF \<le> sh_counter_sor h\<rparr>"
  have u: "fst (use_counter supi db) = db(supi \<mapsto> ?h)"
    using use_counter_running [where db = db and supi = supi, OF Suc.prems(1-3)] by simp
  show ?case
  proof (cases "sh_counter_sor h = 0xFFFF")
    case True
    with u show ?thesis by (simp add: nth_use_suspended [of _ _ ?h])
  next
    case False
    then have "nth_use n supi (db(supi \<mapsto> ?h)) =
        (if sh_counter_sor ?h + n \<le> 0xFFFF then Some (of_nat (sh_counter_sor ?h + n)) else None)"
      using Suc.prems by (intro Suc.IH) simp_all
    with u show ?thesis by simp
  qed
qed (simp add: use_counter_running)

lemma nth_use_fresh:
  assumes "length kausf = 32"
  shows "nth_use n supi (store_fresh_kausf supi kausf db) = (if n < 0xFFFF then Some (of_nat (n + 1)) else None)"
proof -
  let ?h = "\<lparr>sh_kausf = to_hex kausf, sh_counter_sor = 1, sh_suspended = False, sh_counter_upu = 1, sh_suspended_upu = False\<rparr>"
  have "nth_use n supi (db(supi \<mapsto> ?h)) =
      (if sh_counter_sor ?h + n \<le> 0xFFFF then Some (of_nat (sh_counter_sor ?h + n)) else None)"
    by (rule nth_use_running [where k = kausf]) (use assms in simp_all)
  then show ?thesis by (auto simp: store_fresh_kausf_def add.commute)
qed

text \<open>Calls for the counter of steering messages that do not overlap hand out 1, 2, 3 and
  so on up to 65,535 under one key, each once and never 0, and then nothing more until the key is
  replaced.
\<close>

theorem sor_counters:
  assumes "length kausf = 32"
  shows "nth_use n supi (store_fresh_kausf supi kausf db) = (if n < 0xFFFF then Some (of_nat (n + 1)) else None)"
  using assms by (rule nth_use_fresh)

theorem sor_counters_witness: "nth_use 2 ''imsi-001'' (store_fresh_kausf ''imsi-001'' (replicate 32 7) (\<lambda>_. None)) = Some 3"
  using sor_counters [of "replicate 32 7" 2 "''imsi-001''" "\<lambda>_. None"] by simp

text \<open>Calls that overlap at the end of the range break that: two that read the hash before
  either increments it, with one number left, hand out 65,535 and then 0, the value the standard
  forbids and the header of the store says is never returned.
\<close>

theorem counter_race:
  assumes "db supi = Some h" "from_hex_array 32 (sh_kausf h) = Some k" "\<not> sh_suspended h" "sh_counter_sor h = 0xFFFF"
  shows "snd (run_counters [0, 1, 0, 1, 0, 1] (db, [Checking supi, Checking supi])) =
    [Counted (Some 0xFFFF), Counted (Some 0)]"
  using assms
  by (simp add: run_counters_def counters_step_def counter_step_def kausf_get_def update_hash_def)

theorem counter_race_witness:
  "snd (run_counters [0, 1, 0, 1, 0, 1]
     ([''imsi-001'' \<mapsto> \<lparr>sh_kausf = to_hex (replicate 32 7), sh_counter_sor = 0xFFFF, sh_suspended = False,
         sh_counter_upu = 1, sh_suspended_upu = False\<rparr>], [Checking ''imsi-001'', Checking ''imsi-001''])) =
    [Counted (Some 0xFFFF), Counted (Some 0)]"
  by (rule counter_race [where k = "replicate 32 7" and h = "\<lparr>sh_kausf = to_hex (replicate 32 7),
        sh_counter_sor = 0xFFFF, sh_suspended = False, sh_counter_upu = 1, sh_suspended_upu = False\<rparr>"]) simp_all

section \<open>Confirmations\<close>

lemma context_get_create:
  "context_create p ctx st = (st', i) \<Longrightarrow> context_get i st = None \<Longrightarrow> context_get i st' = Some ctx"
  by (auto simp: context_create_def context_get_def Let_def)

lemma fresh_key: "length kausf = 32 \<Longrightarrow> map_option sor_kausf (kausf_get supi (store_fresh_kausf supi kausf db)) = Some kausf"
  by (simp add: kausf_get_def store_fresh_kausf_def)

text \<open>
  Property C30: a 5G-AKA confirmation succeeds exactly for a context of that type and the expected
  RES*; only then is a key returned, it is the KSEAF of the serving network, and the subscriber's
  KAUSF and its counters are set. Every other request leaves the AUSF as it was.
\<close>

theorem confirmation_exact:
  "(case confirm_5g_aka C cfg auth_ctx_id res_star_text s of (s', r, akma) \<Rightarrow>
     (\<exists>c. r = Reply 200 c \<and> cf_success c) \<longleftrightarrow>
       (\<exists>ctx. context_get auth_ctx_id (auth_contexts s) = Some ctx \<and> ac_auth_type ctx = ''5G_AKA'' \<and>
          from_hex_array 16 res_star_text = Some (ac_xres_star ctx))) \<and>
   (case confirm_5g_aka C cfg auth_ctx_id res_star_text s of (s', r, akma) \<Rightarrow>
     (\<exists>c ctx. r = Reply 200 c \<and> cf_success c \<and> context_get auth_ctx_id (auth_contexts s) = Some ctx \<and>
        cf_kseaf c = Some (to_hex (derive_kseaf C (ac_kausf_5g_aka ctx) (ac_serving_network_name ctx))) \<and>
        cf_supi c = Some (ac_supi ctx) \<and>
        s' = s\<lparr>kausfs := store_fresh_kausf (ac_supi ctx) (ac_kausf_5g_aka ctx) (kausfs s)\<rparr>) \<or>
     s' = s \<and> akma = None \<and>
       (case r of Reply _ c \<Rightarrow> cf_success c = False \<and> cf_kseaf c = None | Problem_Details _ _ \<Rightarrow> True))"
  by (auto simp: confirm_5g_aka_def split: option.splits)

text \<open>
  Property C36: a confirmation does not use up its context: sent again after the first counter of
  the new key is spent, it succeeds again and the counter starts over, so two different steering
  messages are protected with the same key and the same counter.
\<close>

theorem confirmation_replay:
  assumes "context_get auth_ctx_id (auth_contexts s) = Some ctx" "ac_auth_type ctx = ''5G_AKA''"
    "from_hex_array 16 res_star_text = Some (ac_xres_star ctx)" "length (ac_kausf_5g_aka ctx) = 32"
    "confirm_5g_aka C cfg auth_ctx_id res_star_text s = (s1, r1, akma1)"
    "use_counter (ac_supi ctx) (kausfs s1) = (db, c1)"
    "confirm_5g_aka C cfg auth_ctx_id res_star_text (s1\<lparr>kausfs := db\<rparr>) = (s2, r2, akma2)"
    "use_counter (ac_supi ctx) (kausfs s2) = (db', c2)"
  shows "r2 = r1 \<and> c1 = Some 1 \<and> c2 = Some 1 \<and>
    map_option sor_kausf (kausf_get (ac_supi ctx) (kausfs s1)) = map_option sor_kausf (kausf_get (ac_supi ctx) (kausfs s2))"
proof -
  let ?fresh = "store_fresh_kausf (ac_supi ctx) (ac_kausf_5g_aka ctx)"
  have u: "snd (use_counter (ac_supi ctx) (?fresh d)) = Some 1" for d
    using nth_use_fresh [OF assms(4), of 0 "ac_supi ctx" d] by simp
  have first: "kausfs s1 = ?fresh (kausfs s)" "auth_contexts s1 = auth_contexts s"
    and r1: "r1 = Reply 200 \<lparr>cf_success = True, cf_supi = Some (ac_supi ctx),
      cf_kseaf = Some (to_hex (derive_kseaf C (ac_kausf_5g_aka ctx) (ac_serving_network_name ctx)))\<rparr>"
    using assms(1-3,5) by (auto simp: confirm_5g_aka_def)
  then have second: "kausfs s2 = ?fresh db" "r2 = r1"
    using assms(1-3,7) by (auto simp: confirm_5g_aka_def)
  have "c1 = Some 1" "c2 = Some 1"
    using u assms(6,8) first(1) second(1) by (metis snd_conv)+
  with second(2) show ?thesis
    by (simp only: first(1) second(1) fresh_key [OF assms(4)] simp_thms)
qed

definition sample_context :: auth_context where
  "sample_context = empty_context\<lparr>ac_supi := ''imsi-001'', ac_auth_type := ''5G_AKA'', ac_xres_star := replicate 16 5\<rparr>"

definition sample_ausf :: ausf where
  "sample_ausf = \<lparr>auth_contexts = \<lparr>cs_entries = [(''authctx-1'', sample_context)], cs_next_id = 2\<rparr>,
     prose_contexts = \<lparr>cs_entries = [], cs_next_id = 1\<rparr>, kausfs = (\<lambda>_. None)\<rparr>"

theorem confirmation_replay_witness:
  "\<exists>s1 r1 db c1 s2 r2.
     confirm_5g_aka toy_crypto None ''authctx-1'' (to_hex (replicate 16 5)) sample_ausf = (s1, r1, None) \<and>
     use_counter ''imsi-001'' (kausfs s1) = (db, c1) \<and>
     confirm_5g_aka toy_crypto None ''authctx-1'' (to_hex (replicate 16 5)) (s1\<lparr>kausfs := db\<rparr>) = (s2, r2, None) \<and>
     r2 = r1 \<and> c1 = Some 1"
proof -
  obtain s1 r1 akma1 where 1: "confirm_5g_aka toy_crypto None ''authctx-1'' (to_hex (replicate 16 5)) sample_ausf = (s1, r1, akma1)"
    by (cases "confirm_5g_aka toy_crypto None ''authctx-1'' (to_hex (replicate 16 5)) sample_ausf")
  obtain db c1 where 2: "use_counter ''imsi-001'' (kausfs s1) = (db, c1)" by (cases "use_counter ''imsi-001'' (kausfs s1)")
  obtain s2 r2 akma2 where 3: "confirm_5g_aka toy_crypto None ''authctx-1'' (to_hex (replicate 16 5)) (s1\<lparr>kausfs := db\<rparr>) = (s2, r2, akma2)"
    by (cases "confirm_5g_aka toy_crypto None ''authctx-1'' (to_hex (replicate 16 5)) (s1\<lparr>kausfs := db\<rparr>)")
  obtain db' c2 where 4: "use_counter ''imsi-001'' (kausfs s2) = (db', c2)" by (cases "use_counter ''imsi-001'' (kausfs s2)")
  have ctx: "context_get ''authctx-1'' (auth_contexts sample_ausf) = Some sample_context"
    by (simp add: context_get_def sample_ausf_def)
  have n: "akma1 = None" "akma2 = None"
    using 1 3 by (auto simp: confirm_5g_aka_def register_akma_def split: option.splits if_splits)
  have "r2 = r1 \<and> c1 = Some 1 \<and> c2 = Some 1 \<and>
      map_option sor_kausf (kausf_get (ac_supi sample_context) (kausfs s1)) =
      map_option sor_kausf (kausf_get (ac_supi sample_context) (kausfs s2))"
    by (rule confirmation_replay [OF ctx _ _ _ 1 _ 3])
      (use 2 4 in \<open>simp_all add: sample_context_def empty_context_def\<close>)
  then show ?thesis
    using 1 2 3 n by blast
qed

text \<open>An EAP-AKA' session ends with success when the terminal answers the challenge with
  the expected result under the code's key; the two answers of the AUSF never read outside the
  packet they are given, whatever it holds.
\<close>

theorem eap_session_answers:
  assumes "openssl_ok C" "base64_ok B" "context_get i (auth_contexts s) = Some ctx" "ac_auth_type ctx = ''EAP_AKA_PRIME''"
    "length (ac_xres ctx) \<le> 1000"
  shows "(\<exists>c akma. eap_session C B cfg i (b64_encode B (build_challenge_response C n (ac_xres ctx) (ac_k_aut ctx))) s =
      Some (s\<lparr>kausfs := store_fresh_kausf (ac_supi ctx) (ac_kausf_eap ctx) (kausfs s)\<rparr>, Reply 200 c, akma) \<and>
      er_success c \<and> er_payload c = b64_encode B (build_success n) \<and>
      er_kseaf c = Some (to_hex (derive_kseaf C (ac_kausf_eap ctx) (ac_serving_network_name ctx)))) \<and>
    (\<forall>payload. eap_session C B cfg i payload s \<noteq> None)"
proof
  let ?p = "build_challenge_response C n (ac_xres ctx) (ac_k_aut ctx)"
  note u = response_understood [OF assms(1,5) refl, of n "ac_k_aut ctx"]
  obtain m where m: "parse_challenge_response ?p = ret \<lparr>cs_res = ac_xres ctx, cs_mac = m\<rparr>" using u(2) by blast
  have "octet_at ?p 1 = Some n" using u(3,4) by (simp add: octet_at_def)
  moreover have "\<not> length ?p < 2" using u(4) by simp
  ultimately show "\<exists>c akma. eap_session C B cfg i (b64_encode B ?p) s =
      Some (s\<lparr>kausfs := store_fresh_kausf (ac_supi ctx) (ac_kausf_eap ctx) (kausfs s)\<rparr>, Reply 200 c, akma) \<and>
      er_success c \<and> er_payload c = b64_encode B (build_success n) \<and>
      er_kseaf c = Some (to_hex (derive_kseaf C (ac_kausf_eap ctx) (ac_serving_network_name ctx)))"
    using assms(2-4) u(1) m by (simp add: eap_session_def base64_ok_def eap_response_ok_def)
next
  have "eap_response_ok C packet key xres \<noteq> None" for packet key xres
    using eap_packets_safe [of packet C key] by (auto simp: eap_response_ok_def)
  then show "\<forall>payload. eap_session C B cfg i payload s \<noteq> None"
    using assms(3,4)
    by (auto simp: eap_session_def octet_at_def bind_eq_None_conv simp del: not_None_eq split: option.splits)
qed

definition toy_base64 :: base64 where
  "toy_base64 = \<lparr>b64_encode = to_hex, b64_decode = from_hex\<rparr>"

theorem eap_session_answers_witness:
  "\<forall>payload. eap_session toy_crypto toy_base64 None ''authctx-1'' payload
     (sample_ausf\<lparr>auth_contexts := \<lparr>cs_entries = [(''authctx-1'', sample_context\<lparr>ac_auth_type := ''EAP_AKA_PRIME''\<rparr>)], cs_next_id = 2\<rparr>\<rparr>)
     \<noteq> None"
  by (rule eap_session_answers [where ctx = "sample_context\<lparr>ac_auth_type := ''EAP_AKA_PRIME''\<rparr>",
        THEN conjunct2, OF openssl_ok_toy])
    (simp_all add: base64_ok_def toy_base64_def context_get_def sample_context_def empty_context_def)

section \<open>Counters handed out to overlapping calls\<close>

fun handed :: "counter_call \<Rightarrow> nat option" where
  "handed (Counted (Some u)) = Some (unat u)"
| "handed (Suspending _ u) = Some (unat u)"
| "handed _ = None"

fun to_come :: "string \<Rightarrow> counter_call \<Rightarrow> nat" where
  "to_come supi (Checking s) = 1"
| "to_come supi (Incrementing s) = 1"
| "to_come supi _ = 0"

fun call_of :: "string \<Rightarrow> counter_call \<Rightarrow> bool" where
  "call_of supi (Checking s) = (s = supi)"
| "call_of supi (Incrementing s) = (s = supi)"
| "call_of supi (Suspending s _) = (s = supi)"
| "call_of supi (Counted _) = True"

definition counters_safe :: "string \<Rightarrow> kausf_store \<times> counter_call list \<Rightarrow> bool" where
  "counters_safe supi s \<longleftrightarrow>
     (\<forall>c \<in> set (snd s). call_of supi c) \<and>
     (\<exists>h. fst s supi = Some h \<and> 1 \<le> sh_counter_sor h \<and>
        sh_counter_sor h + sum_list (map (to_come supi) (snd s)) \<le> 0x10000 \<and>
        (\<forall>i < length (snd s). \<forall>a. handed (snd s ! i) = Some a \<longrightarrow> 1 \<le> a \<and> a < sh_counter_sor h)) \<and>
     (\<forall>i < length (snd s). \<forall>j < length (snd s). \<forall>a. i \<noteq> j \<longrightarrow>
        handed (snd s ! i) = Some a \<longrightarrow> handed (snd s ! j) \<noteq> Some a)"

lemma counter_step_effect:
  assumes "counter_step db c = (db', c')" "call_of supi c" "db supi = Some h" "1 \<le> sh_counter_sor h"
    "sh_counter_sor h + to_come supi c \<le> 0x10000"
  shows "call_of supi c' \<and> (\<exists>h'. db' supi = Some h' \<and> sh_counter_sor h \<le> sh_counter_sor h' \<and>
     sh_counter_sor h' + to_come supi c' \<le> sh_counter_sor h + to_come supi c \<and>
     (handed c' = handed c \<or> handed c' = Some (sh_counter_sor h) \<and> sh_counter_sor h < sh_counter_sor h'))"
proof (cases c)
  case (Incrementing s)
  have "unat (of_nat (sh_counter_sor h) :: u16) = sh_counter_sor h"
    using assms(5) Incrementing by (intro unat_of_nat_u16) simp
  with assms Incrementing show ?thesis
    by (auto simp: counter_step_def Let_def split: if_splits)
qed (use assms in \<open>auto simp: counter_step_def update_hash_def kausf_get_def split: option.splits if_splits\<close>)

lemma to_come_update:
  assumes "i < length cs" "n' + to_come supi c \<le> n + to_come supi (cs ! i)"
  shows "n' + sum_list (map (to_come supi) (cs[i := c])) \<le> n + sum_list (map (to_come supi) cs)"
proof -
  have "to_come supi (cs ! i) \<le> sum_list (map (to_come supi) cs)"
    using assms(1) by (intro member_le_sum_list) auto
  then show ?thesis
    using assms by (simp add: map_update sum_list_update)
qed

lemma counters_step_safe:
  assumes "counters_safe supi s"
  shows "counters_safe supi (counters_step i s)"
proof -
  obtain db cs where s: "s = (db, cs)" by (cases s)
  show ?thesis
  proof (cases "i < length cs")
    case True
    obtain db' c where st: "counter_step db (cs ! i) = (db', c)" by (cases "counter_step db (cs ! i)")
    from assms obtain h where h: "db supi = Some h" "1 \<le> sh_counter_sor h"
      "sh_counter_sor h + sum_list (map (to_come supi) cs) \<le> 0x10000"
      and below: "\<And>k a. k < length cs \<Longrightarrow> handed (cs ! k) = Some a \<Longrightarrow> 1 \<le> a \<and> a < sh_counter_sor h"
      and calls: "\<And>x. x \<in> set cs \<Longrightarrow> call_of supi x"
      and dis: "\<And>k j a. k < length cs \<Longrightarrow> j < length cs \<Longrightarrow> k \<noteq> j \<Longrightarrow> handed (cs ! k) = Some a \<Longrightarrow> handed (cs ! j) \<noteq> Some a"
      unfolding counters_safe_def s by auto
    have "to_come supi (cs ! i) \<le> sum_list (map (to_come supi) cs)"
      using True by (intro member_le_sum_list) auto
    then have "sh_counter_sor h + to_come supi (cs ! i) \<le> 0x10000" using h(3) by linarith
    with counter_step_effect [OF st _ h(1,2)] calls True
    obtain h' where c: "call_of supi c" and h': "db' supi = Some h'" "sh_counter_sor h \<le> sh_counter_sor h'"
      "sh_counter_sor h' + to_come supi c \<le> sh_counter_sor h + to_come supi (cs ! i)"
      and hd: "handed c = handed (cs ! i) \<or> handed c = Some (sh_counter_sor h) \<and> sh_counter_sor h < sh_counter_sor h'"
      by (meson nth_mem)
    have "\<forall>x \<in> set (cs[i := c]). call_of supi x"
      using c calls set_update_subset_insert [of cs i c] by auto
    moreover have "sh_counter_sor h' + sum_list (map (to_come supi) (cs[i := c])) \<le> 0x10000"
      using to_come_update [OF True h'(3)] h(3) by linarith
    moreover have "\<forall>k < length (cs[i := c]). \<forall>a. handed (cs[i := c] ! k) = Some a \<longrightarrow> 1 \<le> a \<and> a < sh_counter_sor h'"
    proof (intro allI impI)
      fix k a assume k: "k < length (cs[i := c])" "handed (cs[i := c] ! k) = Some a"
      then have "handed (cs ! k) = Some a \<or> a = sh_counter_sor h \<and> a < sh_counter_sor h'"
        using hd True by (cases "k = i") auto
      with below [of k a] k(1) h(2) h'(2) show "1 \<le> a \<and> a < sh_counter_sor h'" by auto
    qed
    moreover have "\<forall>k < length (cs[i := c]). \<forall>j < length (cs[i := c]). \<forall>a. k \<noteq> j \<longrightarrow>
        handed (cs[i := c] ! k) = Some a \<longrightarrow> handed (cs[i := c] ! j) \<noteq> Some a"
    proof (intro allI impI notI)
      fix k j a
      assume k: "k < length (cs[i := c])" and j: "j < length (cs[i := c])" and "k \<noteq> j"
        and "handed (cs[i := c] ! k) = Some a" "handed (cs[i := c] ! j) = Some a"
      then consider "k \<noteq> i" "j \<noteq> i" "handed (cs ! k) = Some a" "handed (cs ! j) = Some a"
        | m where "m < length cs" "m \<noteq> i" "handed (cs ! m) = Some a" "handed c = Some a"
        by (cases "k = i"; cases "j = i") auto
      then show False
      proof cases
        case 1
        with dis [of k j a] k j \<open>k \<noteq> j\<close> show False by simp
      next
        case 2
        from hd show False
        proof
          assume "handed c = handed (cs ! i)"
          with 2 dis [of m i a] True show False by simp
        next
          assume "handed c = Some (sh_counter_sor h) \<and> sh_counter_sor h < sh_counter_sor h'"
          with 2 below [of m a] show False by simp
        qed
      qed
    qed
    ultimately show ?thesis
      using h'(1,2) h(2) True st by (auto simp: counters_safe_def s counters_step_def)
  qed (use assms in \<open>simp add: s counters_step_def\<close>)
qed

lemma run_counters_safe: "counters_safe supi s \<Longrightarrow> counters_safe supi (run_counters is s)"
  unfolding run_counters_def by (induction "is" arbitrary: s) (simp_all add: counters_step_safe)

lemma length_run_counters [simp]: "length (snd (run_counters is s)) = length (snd s)"
proof -
  have "length (snd (counters_step i s)) = length (snd s)" for i s
    by (auto simp: counters_step_def split: prod.splits)
  then show ?thesis
    unfolding run_counters_def by (induction "is" arbitrary: s) simp_all
qed

text \<open>
  Property C32: as long as the calls in progress fit below 65,536, overlapping calls never hand out
  the same counter twice and never hand out 0, whatever the order of their requests to Redis.
\<close>

theorem concurrent_counters_differ:
  assumes "db supi = Some h" "1 \<le> sh_counter_sor h" "sh_counter_sor h + n \<le> 0x10000" "i < n"
    "snd (run_counters is (db, replicate n (Checking supi))) ! i = Counted (Some a)"
  shows "a \<noteq> 0 \<and>
    (\<forall>j < n. snd (run_counters is (db, replicate n (Checking supi))) ! j = Counted (Some a) \<longrightarrow> j = i)"
proof -
  let ?s = "run_counters is (db, replicate n (Checking supi))"
  have "counters_safe supi ?s"
    by (rule run_counters_safe) (use assms(1-3) in \<open>auto simp: counters_safe_def sum_list_replicate map_replicate\<close>)
  moreover have "handed (snd ?s ! i) = Some (unat a)" using assms(5) by simp
  moreover have "handed (snd ?s ! j) = Some (unat a)" if "snd ?s ! j = Counted (Some a)" for j
    using that by simp
  ultimately show ?thesis
    using assms(4) unfolding counters_safe_def by (fastforce simp: unat_gt_0)
qed

theorem concurrent_counters_differ_witness:
  "(7 :: u16) \<noteq> 0 \<and> snd (run_counters [0, 1, 0, 1]
     ([''imsi-001'' \<mapsto> \<lparr>sh_kausf = to_hex (replicate 32 7), sh_counter_sor = 7, sh_suspended = False,
         sh_counter_upu = 1, sh_suspended_upu = False\<rparr>], replicate 2 (Checking ''imsi-001''))) ! 1 \<noteq> Counted (Some 7)"
    (is "_ \<and> ?calls ! 1 \<noteq> _")
proof -
  have d: "(7 :: u16) \<noteq> 0 \<and> (\<forall>j < 2. ?calls ! j = Counted (Some 7) \<longrightarrow> j = 0)"
    by (rule concurrent_counters_differ)
      (auto simp: run_counters_def counters_step_def counter_step_def kausf_get_def numeral_2_eq_2)
  have "?calls ! 1 \<noteq> Counted (Some 7)"
  proof
    assume "?calls ! 1 = Counted (Some 7)"
    then have "(1 :: nat) = 0" by (intro conjunct2 [OF d, rule_format]) simp_all
    then show False by simp
  qed
  then show ?thesis by simp
qed

end
