(* ===== verification/Nas_Codec.thy ===== *)
theory Nas_Codec
  imports Key_Derivation
begin

text \<open>
  The mobility-management messages of \<open>nfs/amf/src/nas_codec.cpp\<close>: the envelope of protected
  messages (\<open>encode_secured_downlink\<close>, \<open>decode_secured_uplink\<close>) and every encoder and decoder of the
  file. Decoders return \<open>None\<close> for an access outside the message, \<open>nullopt\<close> for
  \<open>std::nullopt\<close>. The structures with a single flag \<open>mac_valid\<close> are truth values.
\<close>

section \<open>The envelope of protected messages\<close>

text \<open>Security header types. The bearer is 1; the direction is 0 up and 1 down.\<close>

abbreviation sht_integrity :: octet where "sht_integrity \<equiv> 1"
abbreviation sht_ciphered :: octet where "sht_ciphered \<equiv> 2"
abbreviation sht_integrity_new :: octet where "sht_integrity_new \<equiv> 3"
abbreviation sht_ciphered_new :: octet where "sht_ciphered_new \<equiv> 4"

definition count_octet :: "u32 \<Rightarrow> octet" where
  "count_octet n = ucast (n AND 0xFF)"

definition encode_secured_downlink ::
    "crypto \<Rightarrow> octets \<Rightarrow> octets \<Rightarrow> octet \<Rightarrow> bool \<Rightarrow> u32 \<Rightarrow> octets \<Rightarrow> octets" where
  "encode_secured_downlink C knas_int knas_enc sht ciphered downlink_count inner_plain =
     (let wire_inner = (if ciphered then nea2_apply C knas_enc downlink_count 1 1 inner_plain
                        else inner_plain);
          mac = nia2_mac C knas_int downlink_count 1 1 (count_octet downlink_count # wire_inner)
      in [0x7E, sht] @ put_u32 mac @ [count_octet downlink_count] @ wire_inner)"

record secured_uplink_result =
  mac_valid :: bool
  plain_inner :: octets

definition decode_secured_uplink ::
    "crypto \<Rightarrow> octets \<Rightarrow> octets \<Rightarrow> octet \<Rightarrow> bool \<Rightarrow> u32 \<Rightarrow> octets \<Rightarrow> secured_uplink_result option checked" where
  "decode_secured_uplink C knas_int knas_enc expected_sht ciphered uplink_count p =
     (if length p < 7 then nullopt
      else do {
        epd \<leftarrow> octet_at p 0;
        sht \<leftarrow> octet_at p 1;
        if epd \<noteq> 0x7E \<or> sht \<noteq> expected_sht then nullopt
        else do {
          wire_inner \<leftarrow> sub_octets p 7 (length p);
          received_mac \<leftarrow> get_u32 p 2;
          let expected_mac = nia2_mac C knas_int uplink_count 1 0 (count_octet uplink_count # wire_inner)
          in if expected_mac \<noteq> received_mac then ret \<lparr>mac_valid = False, plain_inner = []\<rparr>
             else ret \<lparr>mac_valid = True,
               plain_inner = (if ciphered then nea2_apply C knas_enc uplink_count 1 0 wire_inner
                              else wire_inner)\<rparr>
        }
      })"

section \<open>Registration request\<close>

record registration_info =
  ri_supi :: string
  ri_capability :: octets
  ri_sms_requested :: bool

definition bcd_digit :: "octet \<Rightarrow> char" where
  "bcd_digit nibble = (if nibble \<le> 9 then char_of (48 + unat nibble) else CHR ''?'')"

abbreviation lo_nibble :: "octet \<Rightarrow> octet" where "lo_nibble b \<equiv> b AND 0xF"
abbreviation hi_nibble :: "octet \<Rightarrow> octet" where "hi_nibble b \<equiv> drop_bit 4 b AND 0xF"

text \<open>The digits of the subscriber number, up to the odd-length terminator.\<close>

fun msin_digits :: "octets \<Rightarrow> string" where
  "msin_digits [] = []"
| "msin_digits (b # bs) =
     bcd_digit (lo_nibble b) # (if hi_nibble b = 0xF then [] else bcd_digit (hi_nibble b) # msin_digits bs)"

definition decode_suci :: "octets \<Rightarrow> string option checked" where
  "decode_suci i = do {
     b0 \<leftarrow> octet_at i 0;
     if b0 AND 7 \<noteq> 1 \<or> drop_bit 4 b0 AND 7 \<noteq> 0 then nullopt
     else do {
       b1 \<leftarrow> octet_at i 1; b2 \<leftarrow> octet_at i 2; b3 \<leftarrow> octet_at i 3;
       let mcc = [bcd_digit (lo_nibble b1), bcd_digit (hi_nibble b1), bcd_digit (lo_nibble b2)];
           mnc = [bcd_digit (lo_nibble b3), bcd_digit (hi_nibble b3)] @
                 (if hi_nibble b2 \<noteq> 0xF then [bcd_digit (hi_nibble b2)] else [])
       in do {
         b5 \<leftarrow> octet_at i 5;
         if hi_nibble b5 = 0xF \<or> lo_nibble b5 = 0xF then nullopt
         else do {
           b6 \<leftarrow> octet_at i 6;
           if lo_nibble b6 \<noteq> 0 then nullopt
           else ret (''imsi-'' @ mcc @ mnc @ msin_digits (drop 8 i)) } } } }"

text \<open>The walk over the optional elements after the identity. Elements with the top bit set take one
  octet, the last visited area seven, those of the \<open>0x7_\<close> group have a two-octet length.\<close>

definition element_size :: "octets \<Rightarrow> nat \<Rightarrow> octet \<Rightarrow> (nat \<times> nat) option checked" where
  "element_size p scan iei =
     (if iei AND 0xF0 = 0x70 then
        if scan + 3 > length p then nullopt
        else do { l \<leftarrow> get_u16 p (scan + 1); ret (unat l, 3) }
      else if scan + 2 > length p then nullopt
      else do { l \<leftarrow> octet_at p (scan + 1); ret (unat l, 2) })"

lemma element_size_header: "element_size p scan iei = ret (len, h) \<Longrightarrow> 2 \<le> h"
  by (auto simp: element_size_def bind_eq_Some_conv split: if_splits)

definition registration_ie :: "octet \<Rightarrow> octets \<Rightarrow> registration_info \<Rightarrow> registration_info" where
  "registration_ie iei v info =
     (if iei = 0x2E then info\<lparr>ri_capability := v\<rparr>
      else if iei = 0x53 \<and> length v \<ge> 1 then info\<lparr>ri_sms_requested := (hd v AND 1 \<noteq> 0)\<rparr>
      else info)"

function scan_registration :: "octets \<Rightarrow> nat \<Rightarrow> registration_info \<Rightarrow> registration_info checked" where
  "scan_registration p scan info =
     (if scan < length p then do {
        iei \<leftarrow> octet_at p scan;
        if iei \<ge> 0x80 then scan_registration p (scan + 1) info
        else if iei = 0x52 then scan_registration p (scan + 7) info
        else do {
          size \<leftarrow> element_size p scan iei;
          (case size of
             None \<Rightarrow> Some info
           | Some (len, header) \<Rightarrow>
               if scan + header + len > length p then Some info
               else do {
                 v \<leftarrow> sub_octets p (scan + header) (scan + header + len);
                 scan_registration p (scan + header + len) (registration_ie iei v info)
               }) } }
      else Some info)"
  by auto
termination
  by (relation "measure (\<lambda>(p, scan, info). length p - scan)")
    (auto dest: element_size_header)

declare scan_registration.simps [simp del]

definition decode_registration_request :: "octets \<Rightarrow> registration_info option checked" where
  "decode_registration_request p =
     (if length p < 4 then nullopt
      else do {
        b0 \<leftarrow> octet_at p 0; b1 \<leftarrow> octet_at p 1; b2 \<leftarrow> octet_at p 2;
        if b0 \<noteq> 0x7E \<or> b1 \<noteq> 0 \<or> b2 \<noteq> 0x41 then nullopt
        else if 4 + 2 > length p then nullopt
        else do {
          l \<leftarrow> get_u16 p 4;
          let id_len = unat l
          in if id_len < 8 \<or> 6 + id_len > length p then nullopt
             else do {
               i \<leftarrow> sub_octets p 6 (6 + id_len);
               and_then (decode_suci i) (\<lambda>supi. do {
                 info \<leftarrow> scan_registration p (6 + id_len)
                   \<lparr>ri_supi = supi, ri_capability = [], ri_sms_requested = False\<rparr>;
                 ret info }) } } })"

section \<open>Authentication\<close>

definition encode_authentication_request :: "octets \<Rightarrow> octets \<Rightarrow> octet \<Rightarrow> octets" where
  "encode_authentication_request rand autn ngksi =
     [0x7E, 0, 0x56, ngksi AND 0xF] @ [2, 0, 0] @ [0x21] @ rand @ [0x20, of_nat (length autn)] @ autn"

record authentication_outcome =
  ao_success :: bool
  ao_res_star :: octets
  ao_mm_cause :: octet
  ao_auts :: "octets option"

text \<open>The walk over the elements of an authentication response, for the element RES*.\<close>

function find_res_star :: "octets \<Rightarrow> nat \<Rightarrow> octets option checked" where
  "find_res_star p off =
     (if off < length p then
        if off + 2 > length p then nullopt
        else do {
          iei \<leftarrow> octet_at p off;
          len \<leftarrow> octet_at p (off + 1);
          if off + 2 + unat len > length p then nullopt
          else if iei = 0x2D then
            if len \<noteq> 16 then nullopt
            else do { v \<leftarrow> sub_octets p (off + 2) (off + 2 + unat len); ret v }
          else find_res_star p (off + 2 + unat len) }
      else nullopt)"
  by auto
termination
  by (relation "measure (\<lambda>(p, off). length p - off)") auto

declare find_res_star.simps [simp del]

definition decode_authentication_outcome :: "octets \<Rightarrow> authentication_outcome option checked" where
  "decode_authentication_outcome p =
     (if length p < 3 then nullopt
      else do {
        b0 \<leftarrow> octet_at p 0; b1 \<leftarrow> octet_at p 1; b2 \<leftarrow> octet_at p 2;
        if b0 \<noteq> 0x7E \<or> b1 \<noteq> 0 then nullopt
        else if b2 = 0x57 then
          and_then (find_res_star p 3) (\<lambda>v.
            ret \<lparr>ao_success = True, ao_res_star = v, ao_mm_cause = 0, ao_auts = None\<rparr>)
        else if b2 = 0x59 then
          if length p < 4 then nullopt
          else do {
            cause \<leftarrow> octet_at p 3;
            let out = \<lparr>ao_success = False, ao_res_star = replicate 16 0, ao_mm_cause = cause, ao_auts = None\<rparr>
            in if 4 < length p then
                 if 4 + 2 > length p then nullopt
                 else do {
                   iei \<leftarrow> octet_at p 4;
                   len \<leftarrow> octet_at p 5;
                   if 4 + 2 + unat len > length p then nullopt
                   else if iei = 0x30 then
                     if len \<noteq> 14 then nullopt
                     else do { v \<leftarrow> sub_octets p 6 (6 + unat len); ret (out\<lparr>ao_auts := Some v\<rparr>) }
                   else ret out }
               else ret out }
        else nullopt })"

section \<open>Security mode and registration\<close>

definition encode_security_mode_command :: "crypto \<Rightarrow> octets \<Rightarrow> octets \<Rightarrow> u32 \<Rightarrow> octets" where
  "encode_security_mode_command C knas_int ue_security_capability downlink_count =
     (let inner = [0x7E, 0, 0x5D] @ [push_bit 4 2 OR 2, 0, of_nat (length ue_security_capability)] @
                  ue_security_capability
      in encode_secured_downlink C knas_int (replicate 16 0) sht_integrity_new False downlink_count inner)"

text \<open>A protected message without elements: the MAC counts only if the header is the expected one.\<close>

definition decode_bare_message ::
    "crypto \<Rightarrow> octets \<Rightarrow> octets \<Rightarrow> octet \<Rightarrow> octet \<Rightarrow> u32 \<Rightarrow> octets \<Rightarrow> bool option checked" where
  "decode_bare_message C knas_int knas_enc sht mtype uplink_count p =
     and_then (decode_secured_uplink C knas_int knas_enc sht True uplink_count p) (\<lambda>result.
       if \<not> mac_valid result then ret False
       else if length (plain_inner result) < 3 then ret False
       else do {
         b0 \<leftarrow> octet_at (plain_inner result) 0;
         b2 \<leftarrow> octet_at (plain_inner result) 2;
         ret (b0 = 0x7E \<and> b2 = mtype) })"

definition decode_security_mode_complete ::
    "crypto \<Rightarrow> octets \<Rightarrow> octets \<Rightarrow> u32 \<Rightarrow> octets \<Rightarrow> bool option checked" where
  "decode_security_mode_complete C knas_int knas_enc uplink_count p =
     decode_bare_message C knas_int knas_enc sht_ciphered_new 0x5E uplink_count p"

definition decode_registration_complete ::
    "crypto \<Rightarrow> octets \<Rightarrow> octets \<Rightarrow> u32 \<Rightarrow> octets \<Rightarrow> bool option checked" where
  "decode_registration_complete C knas_int knas_enc uplink_count p =
     decode_bare_message C knas_int knas_enc sht_ciphered 0x43 uplink_count p"

definition dec_digit :: "char \<Rightarrow> octet" where
  "dec_digit c = of_char c - 48"

text \<open>Two digits per octet; a network code of two digits is filled up with \<open>0xF\<close>.\<close>

definition append_plmn :: "string \<Rightarrow> string \<Rightarrow> octets" where
  "append_plmn mcc mnc =
     (let mnc3 = (if length mnc = 3 then dec_digit (mnc ! 2) else 0xF)
      in [push_bit 4 (dec_digit (mcc ! 1)) OR dec_digit (mcc ! 0), push_bit 4 mnc3 OR dec_digit (mcc ! 2),
          push_bit 4 (dec_digit (mnc ! 1)) OR dec_digit (mnc ! 0)])"

definition guti_value :: "u32 \<Rightarrow> octet \<Rightarrow> u16 \<Rightarrow> octet \<Rightarrow> octets" where
  "guti_value tmsi amf_region_id amf_set_id amf_pointer =
     [0xF2] @ append_plmn ''999'' ''70'' @ [amf_region_id, ucast (drop_bit 2 amf_set_id AND 0xFF),
       ucast (push_bit 6 (amf_set_id AND 3) OR ucast (amf_pointer AND 0x3F) :: u16)] @ put_u32 tmsi"

definition encode_registration_accept ::
    "crypto \<Rightarrow> octets \<Rightarrow> octets \<Rightarrow> u32 \<Rightarrow> u32 \<Rightarrow> octet \<Rightarrow> u16 \<Rightarrow> octet \<Rightarrow> bool \<Rightarrow> octets" where
  "encode_registration_accept C knas_int knas_enc downlink_count tmsi amf_region_id amf_set_id
       amf_pointer sms_allowed =
     (let guti = guti_value tmsi amf_region_id amf_set_id amf_pointer;
          inner = [0x7E, 0, 0x42, 1, push_bit 3 (if sms_allowed then 1 else 0) OR 1] @
                  [0x77] @ put_u16 (of_nat (length guti)) @ guti
      in encode_secured_downlink C knas_int knas_enc sht_ciphered True downlink_count inner)"

definition encode_registration_reject :: "crypto \<Rightarrow> octets \<Rightarrow> octets \<Rightarrow> u32 \<Rightarrow> octet \<Rightarrow> octets" where
  "encode_registration_reject C knas_int knas_enc downlink_count mm_cause =
     encode_secured_downlink C knas_int knas_enc sht_ciphered True downlink_count [0x7E, 0, 0x44, mm_cause]"

section \<open>Transport of payloads\<close>

record ul_nas_info =
  ul_mac_valid :: bool
  ul_session_id :: octet
  ul_dnn :: "string option"
  ul_sst :: "octet option"
  ul_sd :: "octets option"
  ul_container :: octets
  ul_container_type :: octet

text \<open>The labels of a data network name, joined with dots; a label that does not fit ends the loop.\<close>

function dnn_labels :: "octets \<Rightarrow> nat \<Rightarrow> nat \<Rightarrow> string \<Rightarrow> string checked" where
  "dnn_labels inner label_off label_end dnn =
     (if label_off < label_end then do {
        l \<leftarrow> octet_at inner label_off;
        if label_off + 1 + unat l > label_end then Some dnn
        else do {
          v \<leftarrow> sub_octets inner (label_off + 1) (label_off + 1 + unat l);
          dnn_labels inner (label_off + 1 + unat l) label_end
            ((if dnn \<noteq> [] then dnn @ ''.'' else dnn) @ map (\<lambda>b. char_of (unat b)) v) } }
      else Some dnn)"
  by auto
termination
  by (relation "measure (\<lambda>(inner, off, end, dnn). end - off)") auto

declare dnn_labels.simps [simp del]

text \<open>The length of an element with a one-octet length, if the element fits.\<close>

definition element_len :: "octets \<Rightarrow> nat \<Rightarrow> nat option checked" where
  "element_len inner off =
     (if off + 2 > length inner then nullopt
      else do {
        len \<leftarrow> octet_at inner (off + 1);
        if off + 2 + unat len > length inner then nullopt else ret (unat len) })"

function scan_ul_nas :: "octets \<Rightarrow> nat \<Rightarrow> ul_nas_info \<Rightarrow> ul_nas_info checked" where
  "scan_ul_nas inner off out =
     (if off < length inner then do {
        tag \<leftarrow> octet_at inner off;
        if tag = 0x12 then
          if off + 2 > length inner then Some out
          else do {
            s \<leftarrow> octet_at inner (off + 1);
            scan_ul_nas inner (off + 2) (out\<lparr>ul_session_id := s\<rparr>) }
        else if tag = 0x59 then
          if off + 2 > length inner then Some out else scan_ul_nas inner (off + 2) out
        else if tag = 0x22 then do {
          r \<leftarrow> element_len inner off;
          (case r of None \<Rightarrow> Some out
           | Some len \<Rightarrow> do {
               v \<leftarrow> sub_octets inner (off + 2) (off + 2 + len);
               scan_ul_nas inner (off + 2 + len)
                 (out\<lparr>ul_sst := (if len \<ge> 1 then Some (v ! 0) else ul_sst out),
                      ul_sd := (if len \<ge> 4 then Some [v ! 1, v ! 2, v ! 3] else ul_sd out)\<rparr>) }) }
        else if tag = 0x25 then do {
          r \<leftarrow> element_len inner off;
          (case r of None \<Rightarrow> Some out
           | Some len \<Rightarrow> do {
               dnn \<leftarrow> dnn_labels inner (off + 2) (off + 2 + len) [];
               scan_ul_nas inner (off + 2 + len) (out\<lparr>ul_dnn := Some dnn\<rparr>) }) }
        else if tag = 0x24 then do {
          r \<leftarrow> element_len inner off;
          (case r of None \<Rightarrow> Some out | Some len \<Rightarrow> scan_ul_nas inner (off + 2 + len) out) }
        else if drop_bit 4 tag = 8 then scan_ul_nas inner (off + 1) out
        else Some out }
      else Some out)"
  by auto
termination
  by (relation "measure (\<lambda>(inner, off, out). length inner - off)") auto

declare scan_ul_nas.simps [simp del]

abbreviation no_ul_info :: ul_nas_info where
  "no_ul_info \<equiv> \<lparr>ul_mac_valid = False, ul_session_id = 0, ul_dnn = None, ul_sst = None, ul_sd = None,
     ul_container = [], ul_container_type = 0\<rparr>"

definition decode_ul_nas_inner :: "octets \<Rightarrow> ul_nas_info checked" where
  "decode_ul_nas_inner inner =
     (if length inner < 6 then Some no_ul_info
      else do {
        b0 \<leftarrow> octet_at inner 0; b2 \<leftarrow> octet_at inner 2; b3 \<leftarrow> octet_at inner 3;
        if b0 \<noteq> 0x7E \<or> b2 \<noteq> 0x67 then Some no_ul_info
        else let out = no_ul_info\<lparr>ul_container_type := lo_nibble b3\<rparr>
          in if ul_container_type out \<noteq> 1 \<and> ul_container_type out \<noteq> 2 then Some out
             else do {
               l \<leftarrow> get_u16 inner 4;
               let container_len = unat l
               in if 6 + container_len > length inner then Some out
                  else do {
                    c \<leftarrow> sub_octets inner 6 (6 + container_len);
                    scan_ul_nas inner (6 + container_len)
                      (out\<lparr>ul_mac_valid := True, ul_container := c\<rparr>) } } })"

definition decode_ul_nas_transport ::
    "crypto \<Rightarrow> octets \<Rightarrow> octets \<Rightarrow> u32 \<Rightarrow> octets \<Rightarrow> ul_nas_info option checked" where
  "decode_ul_nas_transport C knas_int knas_enc uplink_count p =
     and_then (decode_secured_uplink C knas_int knas_enc sht_ciphered True uplink_count p) (\<lambda>result.
       if \<not> mac_valid result then ret no_ul_info
       else do { out \<leftarrow> decode_ul_nas_inner (plain_inner result); ret out })"

definition encode_dl_nas_transport :: "crypto \<Rightarrow> octets \<Rightarrow> octets \<Rightarrow> u32 \<Rightarrow> octet \<Rightarrow> octets \<Rightarrow> octets" where
  "encode_dl_nas_transport C knas_int knas_enc downlink_count pdu_session_id n1_sm_container =
     encode_secured_downlink C knas_int knas_enc sht_ciphered True downlink_count
       ([0x7E, 0, 0x68, 1] @ put_u16 (of_nat (length n1_sm_container)) @ n1_sm_container @
        [0x12, pdu_session_id])"

definition encode_dl_nas_transport_sms :: "crypto \<Rightarrow> octets \<Rightarrow> octets \<Rightarrow> u32 \<Rightarrow> octets \<Rightarrow> octets" where
  "encode_dl_nas_transport_sms C knas_int knas_enc downlink_count sms =
     encode_secured_downlink C knas_int knas_enc sht_ciphered True downlink_count
       ([0x7E, 0, 0x68, 2] @ put_u16 (of_nat (length sms)) @ sms)"

section \<open>Service request\<close>

record service_request_inner =
  si_ngksi :: octet
  si_service_type :: octet
  si_tmsi :: u32

text \<open>The mandatory part ends after thirteen octets.\<close>

definition parse_service_request_inner :: "octets \<Rightarrow> service_request_inner option checked" where
  "parse_service_request_inner inner =
     (if length inner < 4 then nullopt
      else do {
        b0 \<leftarrow> octet_at inner 0; b1 \<leftarrow> octet_at inner 1; b2 \<leftarrow> octet_at inner 2; b3 \<leftarrow> octet_at inner 3;
        if b0 \<noteq> 0x7E \<or> b1 \<noteq> 0 \<or> b2 \<noteq> 0x4C then nullopt
        else if 4 + 2 > length inner then nullopt
        else do {
          l \<leftarrow> get_u16 inner 4;
          if unat l \<noteq> 7 \<or> 6 + unat l > length inner then nullopt
          else do {
            t \<leftarrow> octet_at inner 6;
            if t \<noteq> 0xF4 then nullopt
            else do {
              tmsi \<leftarrow> get_u32 inner 9;
              ret \<lparr>si_ngksi = lo_nibble b3, si_service_type = hi_nibble b3, si_tmsi = tmsi\<rparr> } } } })"

definition peek_service_request_tmsi :: "octets \<Rightarrow> u32 option checked" where
  "peek_service_request_tmsi p =
     (if length p < 7 then nullopt
      else do {
        b0 \<leftarrow> octet_at p 0; b1 \<leftarrow> octet_at p 1;
        if b0 \<noteq> 0x7E \<or> b1 \<noteq> sht_integrity then nullopt
        else do {
          inner \<leftarrow> sub_octets p 7 (length p);
          and_then (parse_service_request_inner inner) (\<lambda>i. ret (si_tmsi i)) } })"

record service_request_info =
  sr_mac_valid :: bool
  sr_ngksi :: octet
  sr_service_type :: octet
  sr_uplink_data_status :: "u16 option"
  sr_pdu_session_status :: "u16 option"

text \<open>The elements after the identity. An element of another kind is skipped by its own length,
  which may lead past the end.\<close>

function scan_service_request :: "octets \<Rightarrow> nat \<Rightarrow> service_request_info \<Rightarrow> service_request_info checked" where
  "scan_service_request inner off out =
     (if off < length inner then do {
        iei \<leftarrow> octet_at inner off;
        if iei = 0x40 \<or> iei = 0x50 then
          if off + 2 > length inner then Some out
          else do {
            len \<leftarrow> octet_at inner (off + 1);
            if len \<noteq> 2 \<or> off + 2 + unat len > length inner then Some out
            else do {
              lo \<leftarrow> octet_at inner (off + 2); hi \<leftarrow> octet_at inner (off + 3);
              scan_service_request inner (off + 4)
                (if iei = 0x40 then out\<lparr>sr_uplink_data_status := Some (join_u16 hi lo)\<rparr>
                 else out\<lparr>sr_pdu_session_status := Some (join_u16 hi lo)\<rparr>) } }
        else if off + 2 \<le> length inner then do {
          len \<leftarrow> octet_at inner (off + 1);
          scan_service_request inner (off + 2 + unat len) out }
        else Some out }
      else Some out)"
  by auto
termination
  by (relation "measure (\<lambda>(inner, off, out). length inner - off)") auto

declare scan_service_request.simps [simp del]

abbreviation no_service_info :: service_request_info where
  "no_service_info \<equiv> \<lparr>sr_mac_valid = False, sr_ngksi = 0, sr_service_type = 0,
     sr_uplink_data_status = None, sr_pdu_session_status = None\<rparr>"

definition decode_service_request :: "crypto \<Rightarrow> octets \<Rightarrow> u32 \<Rightarrow> octets \<Rightarrow> service_request_info option checked" where
  "decode_service_request C knas_int uplink_count p =
     and_then (decode_secured_uplink C knas_int (replicate 16 0) sht_integrity False uplink_count p) (\<lambda>result.
       if \<not> mac_valid result then ret no_service_info
       else do {
         parsed \<leftarrow> parse_service_request_inner (plain_inner result);
         (case parsed of
            None \<Rightarrow> ret no_service_info
          | Some i \<Rightarrow> do {
              out \<leftarrow> scan_service_request (plain_inner result) 13
                (no_service_info\<lparr>sr_mac_valid := True, sr_ngksi := si_ngksi i, sr_service_type := si_service_type i\<rparr>);
              ret out }) })"

definition encode_service_accept :: "crypto \<Rightarrow> octets \<Rightarrow> octets \<Rightarrow> u32 \<Rightarrow> u16 \<Rightarrow> octets" where
  "encode_service_accept C knas_int knas_enc downlink_count pdu_session_status =
     encode_secured_downlink C knas_int knas_enc sht_ciphered True downlink_count
       [0x7E, 0, 0x4E, 0x50, 2, ucast (pdu_session_status AND 0xFF),
        ucast (drop_bit 8 pdu_session_status AND 0xFF)]"

definition encode_service_reject_plain :: "octet \<Rightarrow> octets" where
  "encode_service_reject_plain mm_cause = [0x7E, 0, 0x4D, mm_cause]"

section \<open>Deregistration\<close>

record deregistration_outcome =
  dr_mac_valid :: bool
  dr_switch_off :: bool

definition decode_deregistration_request ::
    "crypto \<Rightarrow> octets \<Rightarrow> octets \<Rightarrow> u32 \<Rightarrow> octets \<Rightarrow> deregistration_outcome option checked" where
  "decode_deregistration_request C knas_int knas_enc uplink_count p =
     and_then (decode_secured_uplink C knas_int knas_enc sht_ciphered True uplink_count p) (\<lambda>result.
       if \<not> mac_valid result then ret \<lparr>dr_mac_valid = False, dr_switch_off = False\<rparr>
       else let inner = plain_inner result
         in if length inner < 6 then ret \<lparr>dr_mac_valid = False, dr_switch_off = False\<rparr>
            else do {
              b0 \<leftarrow> octet_at inner 0; b2 \<leftarrow> octet_at inner 2; b3 \<leftarrow> octet_at inner 3;
              if b0 \<noteq> 0x7E \<or> b2 \<noteq> 0x45 then ret \<lparr>dr_mac_valid = False, dr_switch_off = False\<rparr>
              else do {
                l \<leftarrow> get_u16 inner 4;
                ret \<lparr>dr_mac_valid = (6 + unat l \<le> length inner), dr_switch_off = (b3 AND 8 \<noteq> 0)\<rparr> } })"

definition encode_deregistration_accept :: "crypto \<Rightarrow> octets \<Rightarrow> octets \<Rightarrow> u32 \<Rightarrow> octets" where
  "encode_deregistration_accept C knas_int knas_enc downlink_count =
     encode_secured_downlink C knas_int knas_enc sht_ciphered True downlink_count [0x7E, 0, 0x46]"

section \<open>No decoder reads outside the message\<close>

lemma decode_secured_uplink_safe:
  "decode_secured_uplink C ki ke sht ciph n p \<noteq> None"
  by (auto simp: decode_secured_uplink_def octet_at_def sub_octets_def get_u32_def Let_def)

lemma element_size_safe: "element_size p scan iei \<noteq> None"
  by (auto simp: element_size_def get_u16_def octet_at_def)

lemma scan_registration_safe: "scan_registration p off info \<noteq> None"
proof (induction p off info rule: scan_registration.induct)
  case (1 p scan info)
  show ?case
  proof (cases "scan < length p")
    case inside: True
    obtain size where size: "element_size p scan (p ! scan) = Some size"
      using element_size_safe [of p scan "p ! scan"] by blast
    show ?thesis
    proof (cases size)
      case None
      with 1 size inside show ?thesis
        by (subst scan_registration.simps) (simp add: octet_at_def)
    next
      case (Some lh)
      then obtain len h where "size = Some (len, h)" by (cases lh) auto
      with 1 size inside show ?thesis
        by (subst scan_registration.simps) (simp add: octet_at_def sub_octets_def)
    qed
  qed (simp add: scan_registration.simps)
qed

lemma find_res_star_safe: "find_res_star p off \<noteq> None"
proof (induction p off rule: find_res_star.induct)
  case (1 p off)
  then show ?case
    by (subst find_res_star.simps) (auto simp: octet_at_def sub_octets_def)
qed

lemma dnn_labels_safe: "le \<le> length inner \<Longrightarrow> dnn_labels inner off le dnn \<noteq> None"
proof (induction inner off le dnn rule: dnn_labels.induct)
  case (1 inner off le dnn)
  then show ?case
    by (subst dnn_labels.simps) (auto simp: octet_at_def sub_octets_def)
qed

lemma scan_service_request_safe: "scan_service_request inner off out \<noteq> None"
proof (induction inner off out rule: scan_service_request.induct)
  case (1 inner off out)
  then show ?case
    by (subst scan_service_request.simps) (auto simp: octet_at_def)
qed

lemma element_len_safe: "element_len inner off \<noteq> None"
  by (simp add: element_len_def octet_at_def)

lemmas safe_simps = and_then_None bind_eq_None_conv octet_at_def sub_octets_def get_u16_def get_u32_def
  Let_def decode_secured_uplink_safe

lemma scan_ul_nas_safe: "scan_ul_nas inner off out \<noteq> None"
proof (induction inner off out rule: scan_ul_nas.induct)
  case (1 inner off out)
  show ?case
  proof (cases "off < length inner")
    case inside: True
    obtain r where r: "element_len inner off = Some r"
      using element_len_safe [of inner off] by blast
    show ?thesis
    proof (cases r)
      case None
      with 1 r inside show ?thesis
        by (subst scan_ul_nas.simps) (simp add: octet_at_def)
    next
      case (Some len)
      then have "off + 2 + len \<le> length inner"
        using r by (auto simp: element_len_def bind_eq_Some_conv split: if_splits)
      moreover from this have "dnn_labels inner (off + 2) (off + 2 + len) [] \<noteq> None"
        by (rule dnn_labels_safe)
      ultimately show ?thesis
        using 1 r inside Some
        by (subst scan_ul_nas.simps) (auto simp: octet_at_def sub_octets_def)
    qed
  qed (simp add: scan_ul_nas.simps)
qed

lemma decode_suci_safe: "8 \<le> length i \<Longrightarrow> decode_suci i \<noteq> None"
  by (auto simp: decode_suci_def octet_at_def Let_def simp del: not_None_eq)

lemma decode_registration_request_safe: "decode_registration_request p \<noteq> None"
  by (auto simp: decode_registration_request_def safe_simps scan_registration_safe
      decode_suci_safe [simplified] simp del: not_None_eq intro!: decode_suci_safe [simplified])

lemma decode_authentication_outcome_safe: "decode_authentication_outcome p \<noteq> None"
  by (auto simp: decode_authentication_outcome_def safe_simps find_res_star_safe simp del: not_None_eq)

lemma decode_bare_message_safe: "decode_bare_message C ki ke sht mt n p \<noteq> None"
  by (auto simp: decode_bare_message_def safe_simps simp del: not_None_eq)

lemma decode_ul_nas_inner_safe: "decode_ul_nas_inner inner \<noteq> None"
  by (auto simp: decode_ul_nas_inner_def safe_simps scan_ul_nas_safe simp del: not_None_eq)

lemma decode_ul_nas_transport_safe: "decode_ul_nas_transport C ki ke n p \<noteq> None"
  by (auto simp: decode_ul_nas_transport_def safe_simps decode_ul_nas_inner_safe simp del: not_None_eq)

lemma parse_service_request_inner_safe: "parse_service_request_inner p \<noteq> None"
  by (auto simp: parse_service_request_inner_def safe_simps simp del: not_None_eq)

lemma decode_service_request_safe: "decode_service_request C ki n p \<noteq> None"
  by (auto simp: decode_service_request_def safe_simps scan_service_request_safe
      parse_service_request_inner_safe simp del: not_None_eq split: option.splits)

lemma peek_service_request_tmsi_safe: "peek_service_request_tmsi p \<noteq> None"
  by (auto simp: peek_service_request_tmsi_def safe_simps parse_service_request_inner_safe
      simp del: not_None_eq)

lemma decode_deregistration_request_safe: "decode_deregistration_request C ki ke n p \<noteq> None"
  by (auto simp: decode_deregistration_request_def safe_simps simp del: not_None_eq)

text \<open>No decoder of the mobility-management messages reads outside the message it is
  given, whatever its octets, the keys and the counter are.
\<close>

theorem nas_decoders_safe:
  "decode_registration_request p \<noteq> None \<and> decode_authentication_outcome p \<noteq> None \<and>
   decode_security_mode_complete C ki ke n p \<noteq> None \<and> decode_registration_complete C ki ke n p \<noteq> None \<and>
   decode_ul_nas_transport C ki ke n p \<noteq> None \<and> peek_service_request_tmsi p \<noteq> None \<and>
   decode_service_request C ki n p \<noteq> None \<and> decode_deregistration_request C ki ke n p \<noteq> None"
  by (simp only: decode_registration_request_safe decode_authentication_outcome_safe
      decode_security_mode_complete_def decode_registration_complete_def decode_bare_message_safe
      decode_ul_nas_transport_safe peek_service_request_tmsi_safe decode_service_request_safe
      decode_deregistration_request_safe not_False_eq_True simp_thms)

end
