(* ===== verification/Amf_State.thy ===== *)
theory Amf_State
  imports Auth_Server Nas_Codec
begin

text \<open>
  The state of the access and mobility function: the security contexts of
  \<open>nfs/amf/src/ue_security_context_store.cpp\<close>, the index of \<open>amf_ue_id_index_store.cpp\<close>, the registry
  of live terminals and the per-association state of \<open>ngap_task.cpp\<close>, and what the handlers exchange
  with base stations and with other functions. NGAP itself is generated from its specification: a
  message arrives here as its decoded fields and leaves as the fields that are encoded.
\<close>

section \<open>Stored security contexts\<close>

text \<open>
  A Redis hash per temporary identity. The key is written and read as hexadecimal text, which is the
  identity on octets (\<^verbatim>\<open>from_to_hex\<close>); the counts are the numbers of the hash, read as 32 bits.
\<close>

record ue_security_context =
  sx_supi :: string
  sx_kamf :: octets
  sx_ngksi :: octet
  sx_uplink_count :: nat
  sx_downlink_count :: nat
  sx_capability :: octets

type_synonym security_contexts = "u32 \<Rightarrow> ue_security_context option"

definition context_put :: "u32 \<Rightarrow> ue_security_context \<Rightarrow> security_contexts \<Rightarrow> security_contexts" where
  "context_put tmsi ctx st = st(tmsi \<mapsto> ctx)"

definition security_get :: "u32 \<Rightarrow> security_contexts \<Rightarrow> ue_security_context option" where
  "security_get tmsi st =
     (case st tmsi of
        None \<Rightarrow> None
      | Some ctx \<Rightarrow> if length (sx_kamf ctx) \<noteq> 32 then None else Some ctx)"

text \<open>The callers have found the context before; the branch without one is not reached.\<close>

definition next_uplink_count :: "u32 \<Rightarrow> security_contexts \<Rightarrow> security_contexts \<times> u32" where
  "next_uplink_count tmsi st =
     (case st tmsi of
        None \<Rightarrow> (st, 0)
      | Some ctx \<Rightarrow> (st(tmsi \<mapsto> ctx\<lparr>sx_uplink_count := sx_uplink_count ctx + 1\<rparr>), of_nat (sx_uplink_count ctx)))"

definition next_downlink_count :: "u32 \<Rightarrow> security_contexts \<Rightarrow> security_contexts \<times> u32" where
  "next_downlink_count tmsi st =
     (case st tmsi of
        None \<Rightarrow> (st, 0)
      | Some ctx \<Rightarrow> (st(tmsi \<mapsto> ctx\<lparr>sx_downlink_count := sx_downlink_count ctx + 1\<rparr>), of_nat (sx_downlink_count ctx)))"

definition context_erase :: "u32 \<Rightarrow> security_contexts \<Rightarrow> security_contexts" where
  "context_erase tmsi st = st(tmsi := None)"

text \<open>The counter \<open>amf:next_tmsi\<close>: its new value is the identity.\<close>

definition allocate_tmsi :: "nat \<Rightarrow> nat \<times> u32" where
  "allocate_tmsi n = (n + 1, of_nat (n + 1))"

section \<open>The state of an association\<close>

datatype phase = Awaiting_Authentication_Response | Awaiting_Security_Mode_Complete
  | Awaiting_Registration_Complete | Awaiting_Session_Request | Done_Phase

text \<open>
  One terminal per association of a base station. \<^verbatim>\<open>us_confirmation\<close> is the context named by the
  confirmation link, \<^verbatim>\<open>None\<close> while the path is empty. The GUTI, which only interception reads, is
  left out.
\<close>

record ue_auth_state =
  us_supi :: string
  us_confirmation :: "string option"
  us_capability :: octets
  us_sms_requested :: bool
  us_sms_allowed :: bool
  us_amf_ue_id :: u64
  us_ran_ue_id :: u64
  us_knas_int :: "octets option"
  us_knas_enc :: "octets option"
  us_kamf :: "octets option"
  us_last_rand :: "octets option"
  us_resync_attempted :: bool
  us_tmsi :: "u32 option"
  us_pol_asso_id :: "string option"
  us_next_uplink_count :: u32
  us_deregistered :: bool
  us_phase :: phase

definition fresh_state :: ue_auth_state where
  "fresh_state = \<lparr>us_supi = [], us_confirmation = None, us_capability = [], us_sms_requested = False,
     us_sms_allowed = False, us_amf_ue_id = 0, us_ran_ue_id = 0, us_knas_int = None, us_knas_enc = None,
     us_kamf = None, us_last_rand = None, us_resync_attempted = False, us_tmsi = None, us_pol_asso_id = None,
     us_next_uplink_count = 0, us_deregistered = False, us_phase = Awaiting_Authentication_Response\<rparr>"

definition strip_imsi_prefix :: "string \<Rightarrow> string" where
  "strip_imsi_prefix supi = (if take 5 supi = ''imsi-'' then drop 5 supi else supi)"

section \<open>The registry of live terminals\<close>

record registry_entry =
  re_assoc :: nat
  re_amf_ue_id :: u32
  re_ran_ue_id :: u32
  re_knas_int :: octets
  re_knas_enc :: octets
  re_next_downlink_count :: u32

type_synonym ue_registry = "string \<Rightarrow> registry_entry option"

definition register_ue :: "string \<Rightarrow> registry_entry \<Rightarrow> ue_registry \<Rightarrow> ue_registry" where
  "register_ue supi entry reg = reg(supi \<mapsto> entry)"

definition unregister_ue :: "string \<Rightarrow> ue_registry \<Rightarrow> ue_registry" where
  "unregister_ue supi reg = reg(supi := None)"

section \<open>Exchanges\<close>

datatype release_cause = Normal_Release | Deregister_Cause

text \<open>
  What a handler sends: the first four go to the association of their first argument, the others to
  another function. \<^verbatim>\<open>Release_Sessions\<close> stands for one request per session, in the order of the
  texts of their numbers.
\<close>

datatype action =
    Downlink_Nas nat u64 u64 octets
  | Release_Command nat u64 release_cause
  | Error_Indication nat u64
  | Path_Switch_Ack nat u64 u64 octets "octet list"
  | Ask_Authentication string "(string \<times> string) option"
  | Ask_Confirmation string string
  | Ask_Admission string
  | Ask_Sms string
  | Ask_Policy string
  | Ask_Session string octet string octet "octets option" octets
  | Relay_Sms string octets
  | Release_Sessions "(octet \<times> string) list"
  | Delete_Policy string

definition send_registered :: "(registry_entry \<Rightarrow> octets) \<Rightarrow> string \<Rightarrow> ue_registry \<Rightarrow> ue_registry \<times> action list \<times> bool" where
  "send_registered encode supi reg =
     (case reg supi of
        None \<Rightarrow> (reg, [], False)
      | Some entry \<Rightarrow>
          (reg(supi \<mapsto> entry\<lparr>re_next_downlink_count := re_next_downlink_count entry + 1\<rparr>),
           [Downlink_Nas (re_assoc entry) (ucast (re_amf_ue_id entry)) (ucast (re_ran_ue_id entry)) (encode entry)], True))"

definition send_dl_nas_transport :: "crypto \<Rightarrow> string \<Rightarrow> octet \<Rightarrow> octets \<Rightarrow> ue_registry \<Rightarrow> ue_registry \<times> action list \<times> bool" where
  "send_dl_nas_transport C supi pdu_session_id n1_sm_container reg =
     send_registered (\<lambda>e. encode_dl_nas_transport C (re_knas_int e) (re_knas_enc e) (re_next_downlink_count e)
       pdu_session_id n1_sm_container) supi reg"

definition send_dl_nas_sms :: "crypto \<Rightarrow> string \<Rightarrow> octets \<Rightarrow> ue_registry \<Rightarrow> ue_registry \<times> action list \<times> bool" where
  "send_dl_nas_sms C supi sms reg =
     send_registered (\<lambda>e. encode_dl_nas_transport_sms C (re_knas_int e) (re_knas_enc e) (re_next_downlink_count e) sms)
       supi reg"

definition send_deregistration_accept :: "crypto \<Rightarrow> string \<Rightarrow> ue_registry \<Rightarrow> ue_registry \<times> action list \<times> bool" where
  "send_deregistration_accept C supi reg =
     send_registered (\<lambda>e. encode_deregistration_accept C (re_knas_int e) (re_knas_enc e) (re_next_downlink_count e)) supi reg"

text \<open>
  What the other functions answer, as functions of the request. \<^verbatim>\<open>None\<close> is an answer that is no use: no
  token, no connection, a body that does not parse. The policy function's answer is its status and the last
  part of its \<open>Location\<close>; the session function creates a session, with the reference of its \<open>Location\<close>
  if there is one, or refuses it, with a message for the terminal if there is one.
\<close>

datatype session_answer = Unusable_Answer | Session_Created "string option" | Session_Refused "octets option"

record peers =
  ausf_authenticate :: "string \<Rightarrow> (string \<times> string) option \<Rightarrow> ue_auth_ctx reply option"
  ausf_confirm :: "string \<Rightarrow> string \<Rightarrow> confirmation reply option"
  nsacf_answer :: "string \<Rightarrow> (nat \<times> json option) option"
  smsf_status :: "string \<Rightarrow> nat option"
  pcf_answer :: "string \<Rightarrow> (nat \<times> string option) option"
  pcf_token :: bool
  smf_answer :: "string \<Rightarrow> octet \<Rightarrow> session_answer"
  smf_token :: bool


text \<open>The numbers and names of the deployment; a flag is whether the address of the function is configured.\<close>

record amf_config =
  cg_region_id :: octet
  cg_set_id :: u16
  cg_pointer :: octet
  cg_nsacf :: bool
  cg_smsf :: bool

definition kServingNetworkName :: string where
  "kServingNetworkName = ''5G:mnc070.mcc999.3gppnetwork.org''"

text \<open>
  Of the stored contexts of terminals (\<open>ue_context_store.cpp\<close>) only the references of sessions are kept
  here: no handler reads the rest.
\<close>

record amf =
  am_next_ue_id :: u64
  am_next_tmsi :: nat
  am_security :: security_contexts
  am_index :: "u64 \<Rightarrow> u32 option"
  am_registry :: ue_registry
  am_sessions :: "string \<Rightarrow> (octet \<times> string) list"
  am_states :: "nat \<Rightarrow> ue_auth_state"

definition set_state :: "nat \<Rightarrow> ue_auth_state \<Rightarrow> amf \<Rightarrow> amf" where
  "set_state a us s = s\<lparr>am_states := (am_states s)(a := us)\<rparr>"

definition initial_amf :: amf where
  "initial_amf = \<lparr>am_next_ue_id = 1, am_next_tmsi = 0, am_security = (\<lambda>_. None), am_index = (\<lambda>_. None),
     am_registry = (\<lambda>_. None), am_sessions = (\<lambda>_. []), am_states = (\<lambda>_. fresh_state)\<rparr>"

text \<open>What arrives: decoded messages of an association, and the two requests of other functions.\<close>

datatype amf_event =
    Initial_Ue_Message octets u64
  | Uplink_Nas octets
  | Release_Request
  | Release_Complete
  | Path_Switch u64 u64 "octet list"
  | Association_Lost
  | Other_Message
  | Transfer_N1 string octet octets
  | Transfer_Sms string octets

end
