(* ===== verification/Ue_Driver.thy ===== *)
theory Ue_Driver
  imports Nas_Codec
begin

text \<open>
  The other end of the NAS messages: the UE that the repository's integration tests drive the
  network with (\<open>tests/integration/ue_nas_driver.cpp\<close>, and the service request of
  \<open>tests/conformance/test_nas_codec.cpp\<close>). The subscriber's key and operator code, constants
  there, are parameters. The lemmas show that the two ends understand each other.
\<close>

section \<open>Protected messages\<close>

record nas_keys =
  nk_int :: octets
  nk_enc :: octets

definition seal_uplink :: "crypto \<Rightarrow> nas_keys \<Rightarrow> u32 \<Rightarrow> octet \<Rightarrow> octets \<Rightarrow> octets" where
  "seal_uplink C keys uplink_count security_header_type inner_plain =
     (let ciphered = nea2_apply C (nk_enc keys) uplink_count 1 0 inner_plain;
          mac = nia2_mac C (nk_int keys) uplink_count 1 0 (count_octet uplink_count # ciphered)
      in [0x7E, security_header_type] @ put_u32 mac @ [count_octet uplink_count] @ ciphered)"

definition open_secured_downlink :: "crypto \<Rightarrow> nas_keys \<Rightarrow> u32 \<Rightarrow> octets \<Rightarrow> octets option checked" where
  "open_secured_downlink C keys downlink_count nas_pdu =
     (if length nas_pdu < 8 then nullopt
      else do {
        b0 \<leftarrow> octet_at nas_pdu 0; b1 \<leftarrow> octet_at nas_pdu 1;
        if b0 \<noteq> 0x7E \<or> b1 \<noteq> sht_ciphered then nullopt
        else do {
          ciphered \<leftarrow> sub_octets nas_pdu 7 (length nas_pdu);
          seqno \<leftarrow> octet_at nas_pdu 6;
          carried \<leftarrow> get_u32 nas_pdu 2;
          let expected = nia2_mac C (nk_int keys) downlink_count 1 1 (seqno # ciphered)
          in if expected \<noteq> carried then nullopt
             else ret (nea2_apply C (nk_enc keys) downlink_count 1 1 ciphered) } })"

text \<open>The envelope as both ends read it.\<close>

lemma envelope_reads:
  "octet_at (e # s # put_u32 m @ q # w) 6 = Some q"
  "n = 7 + length w \<Longrightarrow> sub_octets (e # s # put_u32 m @ q # w) 7 n = Some w"
  "get_u32 (e # s # put_u32 m @ q # w) 2 = Some m"
  using get_put_u32 [of "[e, s]" m "q # w"]
  by (simp_all add: sub_octets_def numeral_2_eq_2)

lemma length_envelope: "length (e # s # put_u32 m @ q # w) = 7 + length w"
  by simp

lemma decode_sealed:
  assumes "openssl_ok C"
  shows "decode_secured_uplink C (nk_int keys) (nk_enc keys) sht True n' (seal_uplink C keys n sht x) =
    (let w = nea2_apply C (nk_enc keys) n 1 0 x
     in if nia2_mac C (nk_int keys) n' 1 0 (count_octet n' # w) \<noteq> nia2_mac C (nk_int keys) n 1 0 (count_octet n # w)
        then ret \<lparr>mac_valid = False, plain_inner = []\<rparr>
        else ret \<lparr>mac_valid = True, plain_inner = nea2_apply C (nk_enc keys) n' 1 0 w\<rparr>)"
  by (simp add: decode_secured_uplink_def seal_uplink_def Let_def envelope_reads length_envelope del: list.size)

lemma decode_sealed_same:
  "openssl_ok C \<Longrightarrow>
   decode_secured_uplink C (nk_int keys) (nk_enc keys) sht True n (seal_uplink C keys n sht x) =
     ret \<lparr>mac_valid = True, plain_inner = x\<rparr>"
  by (simp add: decode_sealed Let_def)

lemma open_encoded:
  assumes "openssl_ok C" "x \<noteq> []"
  shows "open_secured_downlink C keys n (encode_secured_downlink C (nk_int keys) (nk_enc keys) sht_ciphered True n x) =
    ret x"
  using assms by (simp add: open_secured_downlink_def encode_secured_downlink_def Let_def envelope_reads length_envelope del: list.size)

text \<open>A field with a two-octet length after a header of four octets.\<close>

lemma field_reads:
  "get_u16 (a # b # c # d # put_u16 n @ r) 4 = Some n"
  "m = 6 + length v \<Longrightarrow> sub_octets (a # b # c # d # put_u16 n @ v @ r) 6 m = Some v"
  using get_put_u16 [of "[a, b, c, d]" n r]
  by (simp_all add: sub_octets_def eval_nat_numeral)

section \<open>Registration\<close>

text \<open>Two digits of the subscriber number per octet, an odd one filled up with \<open>0xF\<close>.\<close>

fun msin_octets :: "string \<Rightarrow> octets" where
  "msin_octets [] = []"
| "msin_octets [a] = [push_bit 4 0xF OR dec_digit a]"
| "msin_octets (a # b # cs) = (push_bit 4 (dec_digit b) OR dec_digit a) # msin_octets cs"

definition suci_of :: "string \<Rightarrow> octets" where
  "suci_of digits =
     [0x01] @ append_plmn (take 3 digits) (take 2 (drop 3 digits)) @ [0, 0, 0, 0] @ msin_octets (drop 5 digits)"

definition build_registration_request :: "string \<Rightarrow> bool \<Rightarrow> octets" where
  "build_registration_request supi sms_requested =
     (let i = suci_of (drop 5 supi)
      in [0x7E, 0, 0x41, 0x71] @ put_u16 (of_nat (length i)) @ i @ [0x2E, 2, 0xE0, 0xE0] @
         (if sms_requested then [0x53, 1, 1] else []))"

lemma digit_nibble:
  assumes "digit c"
  shows "dec_digit c \<le> 9" "bcd_digit (dec_digit c) = c"
proof -
  define n where "n = (of_char c :: nat) - 48"
  have n: "n < 10" "c = char_of (48 + n)"
    using assms by (auto simp: between_def n_def)
  have "(of_char c :: octet) = of_nat (of_char c)" by (simp add: of_nat_of_char)
  also have "\<dots> = 48 + of_nat n"
    using assms by (simp add: n_def between_def of_nat_diff del: of_nat_of_char)
  finally have d: "dec_digit c = of_nat n" by (simp add: dec_digit_def)
  have "unat (dec_digit c) = n"
    using n(1) by (simp add: d unsigned_of_nat take_bit_eq_mod)
  then show "dec_digit c \<le> 9" "bcd_digit (dec_digit c) = c"
    using n by (simp_all add: word_le_nat_alt bcd_digit_def)
qed

lemma nibble_pair:
  assumes "a \<le> 9" "b \<le> 0xF"
  shows "lo_nibble (push_bit 4 b OR a) = a" "hi_nibble (push_bit 4 b OR a) = b"
proof -
  have "unat a < 2 ^ 4" "unat b < 2 ^ 4"
    using assms by (simp_all add: word_le_nat_alt)
  then have t: "take_bit 4 a = a" "take_bit 4 b = b"
    by (simp_all add: take_bit_self)
  have m: "(0xF :: octet) = mask 4" by (simp add: mask_eq_exp_minus_1)
  have bits: "\<not> bit a k" "\<not> bit b k" if "4 \<le> k" for k
    using t that by (metis bit_take_bit_iff not_less)+
  show "lo_nibble (push_bit 4 b OR a) = a"
    unfolding m by (rule bit_word_eqI) (use bits(1) in \<open>auto simp: bit_simps not_le [symmetric]\<close>)
  show "hi_nibble (push_bit 4 b OR a) = b"
    unfolding m by (rule bit_word_eqI) (use bits in \<open>auto simp: bit_simps not_le [symmetric]\<close>)
qed

lemmas nibble_pair_filled = nibble_pair [of _ "0xF", simplified]
lemmas nibble_pair_simps = nibble_pair nibble_pair(2) [unfolded drop_bit_or]

lemma msin_roundtrip:
  "\<forall>c \<in> set s. digit c \<Longrightarrow> msin_digits (msin_octets s) = s"
proof (induction s rule: msin_octets.induct)
  case (2 a)
  then show ?case by (simp add: nibble_pair_filled digit_nibble)
next
  case (3 a b cs)
  then have d: "dec_digit a \<le> 9" "dec_digit b \<le> 9" by (simp_all add: digit_nibble)
  then have "dec_digit b \<le> 0xF" "dec_digit b \<noteq> 0xF"
    by (auto simp: word_le_nat_alt)
  with 3 d show ?case by (simp add: nibble_pair_simps digit_nibble)
qed simp

lemma decode_suci_of:
  assumes "length ds \<ge> 5" "\<forall>c \<in> set ds. digit c"
  shows "decode_suci (suci_of ds) = ret (''imsi-'' @ ds)"
proof -
  obtain a b c d e ms where ds: "ds = a # b # c # d # e # ms"
    using assms(1) by (auto simp: numeral_eq_Suc Suc_le_length_iff)
  have n: "dec_digit x \<le> 9" "dec_digit x \<le> 0xF" "bcd_digit (dec_digit x) = x" if "x \<in> {a, b, c, d, e}" for x
    using that assms(2) digit_nibble [of x] ds by (auto intro: order.trans)
  show ?thesis
    using assms(2) n by (simp add: ds decode_suci_def suci_of_def append_plmn_def Let_def nibble_pair_simps nibble_pair_filled msin_roundtrip)
qed

lemma length_msin_octets: "length (msin_octets s) = (length s + 1) div 2"
  by (induction s rule: msin_octets.induct) auto

lemma length_suci_of: "length (suci_of ds) = 8 + (length ds - 5 + 1) div 2"
  by (simp add: suci_of_def append_plmn_def Let_def length_msin_octets)

text \<open>One element of the walk, at the end of what has been read.\<close>

lemma scan_registration_tlv:
  assumes "iei < 0x80" "iei \<noteq> 0x52" "iei AND 0xF0 \<noteq> 0x70" "length v < 256" "off = length pre"
  shows "scan_registration (pre @ [iei, of_nat (length v)] @ v @ post) off info =
    scan_registration (pre @ [iei, of_nat (length v)] @ v @ post) (off + 2 + length v) (registration_ie iei v info)"
proof -
  have "unat (of_nat (length v) :: octet) = length v"
    using assms(4) by (simp add: unsigned_of_nat take_bit_eq_mod)
  with assms show ?thesis
    by (subst scan_registration.simps)
      (auto simp: element_size_def sub_octets_def nth_append dest: leD)
qed

lemma scan_registration_end: "off \<ge> length p \<Longrightarrow> scan_registration p off info = Some info"
  by (simp add: scan_registration.simps)

lemma registration_request_decodes:
  assumes "supi = ''imsi-'' @ ds" "5 \<le> length ds" "length ds < 65536" "\<forall>c \<in> set ds. digit c"
  shows "decode_registration_request (build_registration_request supi sms) =
    ret \<lparr>ri_supi = supi, ri_capability = [0xE0, 0xE0], ri_sms_requested = sms\<rparr>"
proof -
  let ?i = "suci_of ds"
  let ?pre = "[0x7E, 0, 0x41, 0x71] @ put_u16 (of_nat (length ?i)) @ ?i"
  let ?tail = "if sms then [0x53, 1, 1] else []"
  have built: "build_registration_request supi sms = ?pre @ [0x2E, of_nat (length [0xE0, 0xE0 :: octet])] @ [0xE0, 0xE0] @ ?tail"
    using assms(1) by (simp add: build_registration_request_def Let_def)
  have len: "8 \<le> length ?i" "length ?i < 65536"
    using assms(3) by (simp_all add: length_suci_of)
  then have u: "unat (of_nat (length ?i) :: u16) = length ?i"
    by (simp add: unat_of_nat_u16)
  have "scan_registration (build_registration_request supi sms) (6 + length ?i) info =
      Some (info\<lparr>ri_capability := [0xE0, 0xE0], ri_sms_requested := sms \<or> ri_sms_requested info\<rparr>)" for info
  proof -
    have "scan_registration (build_registration_request supi sms) (6 + length ?i) info =
        scan_registration (build_registration_request supi sms) (6 + length ?i + 4) (info\<lparr>ri_capability := [0xE0, 0xE0]\<rparr>)"
      unfolding built by (subst scan_registration_tlv) (simp_all add: registration_ie_def)
    also have "\<dots> = Some (info\<lparr>ri_capability := [0xE0, 0xE0], ri_sms_requested := sms \<or> ri_sms_requested info\<rparr>)"
    proof (cases sms)
      case True
      have b: "build_registration_request supi sms =
          (?pre @ [0x2E, 2, 0xE0, 0xE0]) @ [0x53, of_nat (length [1 :: octet])] @ [1] @ []"
        unfolding built using True by simp
      show ?thesis
        unfolding b by (subst scan_registration_tlv)
          (simp_all add: registration_ie_def scan_registration_end True)
    next
      case False
      then show ?thesis unfolding built by (simp add: scan_registration_end)
    qed
    finally show ?thesis .
  qed
  moreover have "sub_octets (build_registration_request supi sms) 6 (6 + length ?i) = Some ?i"
    by (simp add: built sub_octets_def put_u16_def)
  moreover have "get_u16 (build_registration_request supi sms) 4 = Some (of_nat (length ?i))"
    by (simp add: built field_reads)
  moreover have "octet_at (build_registration_request supi sms) 0 = Some 0x7E"
      "octet_at (build_registration_request supi sms) (Suc 0) = Some 0"
      "octet_at (build_registration_request supi sms) 2 = Some 0x41"
      "6 + length ?i \<le> length (build_registration_request supi sms)"
    by (simp_all add: built)
  moreover have "decode_suci ?i = ret supi"
    using decode_suci_of [of ds] assms by simp
  ultimately show ?thesis
    using len(1) by (simp add: decode_registration_request_def Let_def u not_less [symmetric])
qed

section \<open>Authentication\<close>

record auth_challenge =
  ch_rand :: octets
  ch_autn :: octets

function authentication_ies :: "octets \<Rightarrow> nat \<Rightarrow> octets option \<Rightarrow> octets option \<Rightarrow> auth_challenge option checked" where
  "authentication_ies p off rand autn =
     (let finish = (case (rand, autn) of (Some r, Some a) \<Rightarrow> ret \<lparr>ch_rand = r, ch_autn = a\<rparr> | _ \<Rightarrow> nullopt)
      in if off < length p then do {
           iei \<leftarrow> octet_at p off;
           if iei = 0x21 then
             if off + 1 + 16 > length p then nullopt
             else do { r \<leftarrow> sub_octets p (off + 1) (off + 17); authentication_ies p (off + 17) (Some r) autn }
           else if iei = 0x20 then
             if off + 2 > length p then nullopt
             else do {
               len \<leftarrow> octet_at p (off + 1);
               if len \<noteq> 16 \<or> off + 2 + unat len > length p then nullopt
               else do { a \<leftarrow> sub_octets p (off + 2) (off + 18); authentication_ies p (off + 18) rand (Some a) } }
           else finish }
         else finish)"
  by auto
termination
  by (relation "measure (\<lambda>(p, off, r, a). length p - off)") auto

declare authentication_ies.simps [simp del]

definition parse_authentication_request :: "octets \<Rightarrow> auth_challenge option checked" where
  "parse_authentication_request p =
     (if length p < 4 then nullopt
      else do {
        b0 \<leftarrow> octet_at p 0; b1 \<leftarrow> octet_at p 1; b2 \<leftarrow> octet_at p 2;
        if b0 \<noteq> 0x7E \<or> b1 \<noteq> 0 \<or> b2 \<noteq> 0x56 then nullopt
        else if 4 \<ge> length p then nullopt
        else do {
          abba \<leftarrow> octet_at p 4;
          authentication_ies p (5 + unat abba) None None } })"

text \<open>The check of the network: the sequence number is unmasked and the network's code recomputed.\<close>

definition compute_res_star :: "crypto \<Rightarrow> octets \<Rightarrow> octets \<Rightarrow> auth_challenge \<Rightarrow> string \<Rightarrow> octets option" where
  "compute_res_star C k opc challenge serving_network_name =
     (let out = f2345 C opc k (ch_rand challenge);
          sqn = xor_blocks (take 6 (ch_autn challenge)) (fo_ak out);
          amf = take 2 (drop 6 (ch_autn challenge));
          expected_mac = f1 C opc k (ch_rand challenge) sqn amf
      in if expected_mac \<noteq> drop 8 (ch_autn challenge) then None
         else Some (derive_res_star C (fo_ck out) (fo_ik out) serving_network_name (ch_rand challenge) (fo_res out)))"

definition build_authentication_response :: "octets \<Rightarrow> octets" where
  "build_authentication_response res_star = [0x7E, 0, 0x57, 0x2D, of_nat (length res_star)] @ res_star"

text \<open>The identity enters the key without its prefix.\<close>

definition derive_nas_keys :: "crypto \<Rightarrow> octets \<Rightarrow> octets \<Rightarrow> auth_challenge \<Rightarrow> string \<Rightarrow> string \<Rightarrow> nas_keys" where
  "derive_nas_keys C k opc challenge supi serving_network_name =
     (let out = f2345 C opc k (ch_rand challenge);
          kausf = derive_kausf C (fo_ck out) (fo_ik out) serving_network_name (take 6 (ch_autn challenge));
          kseaf = derive_kseaf C kausf serving_network_name;
          kamf = derive_kamf C kseaf (drop 5 supi) [0, 0]
      in \<lparr>nk_int = derive_knas_int C kamf 2, nk_enc = derive_knas_enc C kamf 2\<rparr>)"

lemma authentication_request_parses:
  assumes "length rand = 16" "length autn = 16"
  shows "parse_authentication_request (encode_authentication_request rand autn ngksi) =
    ret \<lparr>ch_rand = rand, ch_autn = autn\<rparr>"
  using assms
  by (simp add: parse_authentication_request_def encode_authentication_request_def)
    (subst authentication_ies.simps, simp add: sub_octets_def,
     subst authentication_ies.simps, simp add: sub_octets_def nth_append nth_Cons',
     subst authentication_ies.simps, simp)

lemma authentication_response_decodes:
  assumes "length res_star = 16"
  shows "decode_authentication_outcome (build_authentication_response res_star) =
    ret \<lparr>ao_success = True, ao_res_star = res_star, ao_mm_cause = 0, ao_auts = None\<rparr>"
  using assms
  by (simp add: decode_authentication_outcome_def build_authentication_response_def)
    (subst find_res_star.simps, simp add: sub_octets_def)

section \<open>Security mode, registration and deregistration\<close>

definition build_security_mode_complete :: "crypto \<Rightarrow> nas_keys \<Rightarrow> u32 \<Rightarrow> octets" where
  "build_security_mode_complete C keys uplink_count = seal_uplink C keys uplink_count sht_ciphered_new [0x7E, 0, 0x5E]"

definition build_registration_complete :: "crypto \<Rightarrow> nas_keys \<Rightarrow> u32 \<Rightarrow> octets" where
  "build_registration_complete C keys uplink_count = seal_uplink C keys uplink_count sht_ciphered [0x7E, 0, 0x43]"

definition build_deregistration_request :: "crypto \<Rightarrow> nas_keys \<Rightarrow> u32 \<Rightarrow> octets \<Rightarrow> bool \<Rightarrow> octets" where
  "build_deregistration_request C keys uplink_count guti switch_off =
     seal_uplink C keys uplink_count sht_ciphered
       ([0x7E, 0, 0x45, (if switch_off then 8 else 0) OR 1] @ put_u16 (of_nat (length guti)) @ guti)"

lemma bare_message_decodes:
  assumes "openssl_ok C"
  shows "decode_bare_message C (nk_int keys) (nk_enc keys) sht mt n (seal_uplink C keys n sht [0x7E, 0, mt']) = ret (mt = mt')"
  by (auto simp: decode_bare_message_def decode_sealed_same [OF assms])

lemma security_mode_complete_decodes:
  "openssl_ok C \<Longrightarrow>
   decode_security_mode_complete C (nk_int keys) (nk_enc keys) n (build_security_mode_complete C keys n) = ret True"
  by (simp add: decode_security_mode_complete_def build_security_mode_complete_def bare_message_decodes)

lemma registration_complete_decodes:
  "openssl_ok C \<Longrightarrow>
   decode_registration_complete C (nk_int keys) (nk_enc keys) n (build_registration_complete C keys n) = ret True"
  by (simp add: decode_registration_complete_def build_registration_complete_def bare_message_decodes)

lemma deregistration_request_decodes:
  assumes "openssl_ok C" "length guti < 65536"
  shows "decode_deregistration_request C (nk_int keys) (nk_enc keys) n (build_deregistration_request C keys n guti off) =
    ret \<lparr>dr_mac_valid = True, dr_switch_off = off\<rparr>"
  using assms field_reads(1) [where r = guti]
  by (simp add: decode_deregistration_request_def build_deregistration_request_def decode_sealed_same
      unat_of_nat_u16)

section \<open>Payloads\<close>

definition session_request :: "octet \<Rightarrow> octet \<Rightarrow> octets" where
  "session_request pdu_session_id pti =
     [0x2E, pdu_session_id, pti, 0xC1, 0xFF, 0xFF, push_bit 4 9 OR 1, push_bit 4 0xA OR 1]"

definition apn_octets :: "string \<Rightarrow> octets" where
  "apn_octets dnn = concat (map (\<lambda>label. of_nat (length label) # to_bytes label) (split_on (CHR ''.'') dnn))"

definition session_request_inner :: "octet \<Rightarrow> octet \<Rightarrow> string \<Rightarrow> octet \<Rightarrow> u32 \<Rightarrow> octets" where
  "session_request_inner pdu_session_id pti dnn sst sd =
     (let sm = session_request pdu_session_id pti; apn = apn_octets dnn
      in [0x7E, 0, 0x67, 1] @ put_u16 (of_nat (length sm)) @ sm @ [0x12, pdu_session_id, 0x81] @
         [0x22, 4, sst] @ put_u24 sd @ [0x25, of_nat (length apn)] @ apn)"

definition build_pdu_session_establishment_request ::
    "crypto \<Rightarrow> nas_keys \<Rightarrow> u32 \<Rightarrow> octet \<Rightarrow> octet \<Rightarrow> string \<Rightarrow> octet \<Rightarrow> u32 \<Rightarrow> octets" where
  "build_pdu_session_establishment_request C keys uplink_count pdu_session_id pti dnn sst sd =
     seal_uplink C keys uplink_count sht_ciphered (session_request_inner pdu_session_id pti dnn sst sd)"

definition build_ul_nas_transport_sms :: "crypto \<Rightarrow> nas_keys \<Rightarrow> u32 \<Rightarrow> octets \<Rightarrow> octets" where
  "build_ul_nas_transport_sms C keys uplink_count sms =
     seal_uplink C keys uplink_count sht_ciphered ([0x7E, 0, 0x67, 2] @ put_u16 (of_nat (length sms)) @ sms)"

text \<open>The decoder joins the labels with dots, but puts none while the name is empty.\<close>

fun join_labels :: "string \<Rightarrow> string list \<Rightarrow> string" where
  "join_labels acc [] = acc"
| "join_labels acc (l # ls) = join_labels ((if acc \<noteq> [] then acc @ ''.'' else acc) @ l) ls"

lemma join_labels_nonempty: "acc \<noteq> [] \<Longrightarrow> join_labels acc ls = join_with (CHR ''.'') (acc # ls)"
proof (induction ls arbitrary: acc)
  case (Cons l ls)
  then have "join_labels (acc @ CHR ''.'' # l) ls = join_with (CHR ''.'') ((acc @ CHR ''.'' # l) # ls)"
    by simp
  with Cons.prems show ?case by (cases ls) simp_all
qed simp

lemma join_labels_split:
  assumes "dnn = [] \<or> hd dnn \<noteq> CHR ''.''"
  shows "join_labels [] (split_on (CHR ''.'') dnn) = dnn"
proof (cases dnn)
  case (Cons c cs)
  obtain p ps where s: "split_on (CHR ''.'') dnn = p # ps"
    using split_on_nonempty by (metis neq_Nil_conv)
  with assms Cons have "p \<noteq> []"
    by (auto split: if_splits list.splits)
  then have "join_labels p ps = join_with (CHR ''.'') (p # ps)"
    by (rule join_labels_nonempty)
  then show ?thesis
    using join_split [of "CHR ''.''" dnn] by (simp add: s)
qed simp

lemma to_bytes_back: "map (\<lambda>b. char_of (unat b)) (to_bytes l) = l"
  by (simp add: to_bytes_def comp_def unat_of_char)

lemma length_to_bytes [simp]: "length (to_bytes l) = length l"
  by (simp add: to_bytes_def)

lemma dnn_labels_apn:
  assumes "\<forall>l \<in> set ls. length l < 256" "off = length pre"
    "le = off + length (concat (map (\<lambda>l. of_nat (length l) # to_bytes l) ls))"
  shows "dnn_labels (pre @ concat (map (\<lambda>l. of_nat (length l) # to_bytes l) ls) @ post) off le acc =
    Some (join_labels acc ls)"
  using assms
proof (induction ls arbitrary: pre off acc)
  case Nil
  then show ?case by (simp add: dnn_labels.simps)
next
  case (Cons l ls)
  let ?rest = "concat (map (\<lambda>l. of_nat (length l) # to_bytes l) ls)"
  have u: "unat (of_nat (length l) :: octet) = length l"
    using Cons.prems(1) by (simp add: unsigned_of_nat take_bit_eq_mod)
  have "dnn_labels ((pre @ of_nat (length l) # to_bytes l) @ ?rest @ post) (off + 1 + length l) le
      ((if acc \<noteq> [] then acc @ ''.'' else acc) @ l) = Some (join_labels ((if acc \<noteq> [] then acc @ ''.'' else acc) @ l) ls)"
    using Cons.prems by (intro Cons.IH) auto
  then show ?case
    using Cons.prems(2,3)
    by (subst dnn_labels.simps) (simp add: u sub_octets_def to_bytes_back nth_append)
qed

lemma scan_ul_nas_session:
  assumes "off = length pre" "length apn < 256"
    "dnn_labels (pre @ [0x12, sid, 0x81, 0x22, 4, sst] @ put_u24 sd @ [0x25, of_nat (length apn)] @ apn)
       (off + 11) (off + 11 + length apn) [] = Some dnn"
  shows "scan_ul_nas (pre @ [0x12, sid, 0x81, 0x22, 4, sst] @ put_u24 sd @ [0x25, of_nat (length apn)] @ apn) off out =
    Some (out\<lparr>ul_session_id := sid, ul_sst := Some sst, ul_sd := Some (put_u24 sd), ul_dnn := Some dnn\<rparr>)"
proof -
  let ?p = "pre @ [0x12, sid, 0x81, 0x22, 4, sst] @ put_u24 sd @ [0x25, of_nat (length apn)] @ apn"
  have u: "unat (of_nat (length apn) :: octet) = length apn"
    using assms(2) by (simp add: unsigned_of_nat take_bit_eq_mod)
  have p: "?p = pre @ 0x12 # sid # 0x81 # 0x22 # 4 # sst # ucast (drop_bit 16 sd AND 0xFF) #
      ucast (drop_bit 8 sd AND 0xFF) # ucast (sd AND 0xFF) # 0x25 # of_nat (length apn) # apn"
    by (simp add: put_u24_def)
  have at: "octet_at ?p (off + k) = octet_at ([0x12, sid, 0x81, 0x22, 4, sst] @ put_u24 sd @ [0x25, of_nat (length apn)] @ apn) k" for k
    using assms(1) by simp
  have len: "length ?p = off + 11 + length apn"
    using assms(1) by simp
  have 1: "scan_ul_nas ?p off out = scan_ul_nas ?p (off + 2) (out\<lparr>ul_session_id := sid\<rparr>)" for out
    using at [of 0] at [of 1] len by (subst scan_ul_nas.simps) simp
  have 2: "scan_ul_nas ?p (off + 2) out = scan_ul_nas ?p (off + 3) out" for out
    using at [of 2] len by (subst scan_ul_nas.simps) (simp add: numeral_3_eq_3)
  have e3: "element_len ?p (off + 3) = ret 4"
    using at [of 4] len by (simp add: element_len_def)
  have s3: "sub_octets ?p (off + 5) (off + 9) = Some (sst # put_u24 sd)"
    using assms(1) by (simp add: sub_octets_def put_u24_def)
  have 3: "scan_ul_nas ?p (off + 3) out = scan_ul_nas ?p (off + 9) (out\<lparr>ul_sst := Some sst, ul_sd := Some (put_u24 sd)\<rparr>)" for out
    using at [of 3] len e3 s3 by (subst scan_ul_nas.simps) (simp add: put_u24_def add.commute [of off])
  have e4: "element_len ?p (off + 9) = ret (length apn)"
    using at [of 10] len u by (simp add: element_len_def put_u24_def)
  have 4: "scan_ul_nas ?p (off + 9) out = scan_ul_nas ?p (off + 11 + length apn) (out\<lparr>ul_dnn := Some dnn\<rparr>)" for out
    using at [of 9] len e4 assms(3) by (subst scan_ul_nas.simps) (simp add: put_u24_def add.commute [of off])
  have "scan_ul_nas ?p (off + 11 + length apn) out = Some out" for out
    using len by (subst scan_ul_nas.simps) simp
  then show ?thesis
    by (simp only: 1 2 3 4)
qed

lemma session_request_decodes:
  assumes "openssl_ok C" "dnn = [] \<or> hd dnn \<noteq> CHR ''.''" "length (apn_octets dnn) < 256"
  shows "decode_ul_nas_transport C (nk_int keys) (nk_enc keys) n
      (build_pdu_session_establishment_request C keys n sid pti dnn sst sd) =
    ret \<lparr>ul_mac_valid = True, ul_session_id = sid, ul_dnn = Some dnn, ul_sst = Some sst,
      ul_sd = Some (put_u24 sd), ul_container = session_request sid pti, ul_container_type = 1\<rparr>"
proof -
  let ?pre = "[0x7E, 0, 0x67, 1] @ put_u16 (of_nat (length (session_request sid pti))) @ session_request sid pti"
  let ?apn = "apn_octets dnn"
  let ?mid = "[0x12, sid, 0x81, 0x22, 4, sst] @ put_u24 sd @ [0x25, of_nat (length ?apn)]"
  have lsm: "length (session_request sid pti) = 8" and lpre: "length ?pre = 14"
    by (simp_all add: session_request_def)
  have "length l < 256" if "l \<in> set (split_on (CHR ''.'') dnn)" for l
  proof -
    have "length (of_nat (length l) # to_bytes l) \<le> length ?apn"
      using that unfolding apn_octets_def length_concat by (intro member_le_sum_list) auto
    then show ?thesis using assms(3) by simp
  qed
  then have "dnn_labels ((?pre @ ?mid) @ ?apn @ []) 25 (25 + length ?apn) [] = Some dnn"
    using lpre join_labels_split [OF assms(2)] unfolding apn_octets_def
    by (subst dnn_labels_apn) simp_all
  then have "scan_ul_nas (?pre @ ?mid @ ?apn) 14 out =
      Some (out\<lparr>ul_session_id := sid, ul_sst := Some sst, ul_sd := Some (put_u24 sd), ul_dnn := Some dnn\<rparr>)" for out
    using scan_ul_nas_session [of 14 ?pre ?apn sid sst sd dnn] lpre assms(3) by simp
  then show ?thesis
    using assms(1)
    by (simp add: decode_ul_nas_transport_def build_pdu_session_establishment_request_def decode_sealed_same
        decode_ul_nas_inner_def session_request_inner_def Let_def field_reads lsm)
qed

lemma ul_sms_decodes:
  assumes "openssl_ok C" "length sms < 65536"
  shows "decode_ul_nas_transport C (nk_int keys) (nk_enc keys) n (build_ul_nas_transport_sms C keys n sms) =
    ret (no_ul_info\<lparr>ul_mac_valid := True, ul_container := sms, ul_container_type := 2\<rparr>)"
  using assms field_reads(1) [where r = sms] field_reads(2) [where v = sms and r = "[]"]
  by (simp add: decode_ul_nas_transport_def build_ul_nas_transport_sms_def decode_sealed_same
      decode_ul_nas_inner_def Let_def unat_of_nat_u16 scan_ul_nas.simps)

text \<open>What the network sends back.\<close>

definition dl_payload :: "octet \<Rightarrow> octets \<Rightarrow> octets option checked" where
  "dl_payload ctype inner =
     (if length inner < 6 then nullopt
      else do {
        b0 \<leftarrow> octet_at inner 0; b2 \<leftarrow> octet_at inner 2; b3 \<leftarrow> octet_at inner 3;
        if b0 \<noteq> 0x7E \<or> b2 \<noteq> 0x68 \<or> lo_nibble b3 \<noteq> ctype then nullopt
        else do {
          l \<leftarrow> get_u16 inner 4;
          if 6 + unat l > length inner then nullopt
          else do { v \<leftarrow> sub_octets inner 6 (6 + unat l); ret v } } })"

definition extract_dl_nas_payload_container :: "octets \<Rightarrow> octets option checked" where
  "extract_dl_nas_payload_container inner = dl_payload 1 inner"

definition extract_dl_nas_sms :: "octets \<Rightarrow> octets option checked" where
  "extract_dl_nas_sms inner = dl_payload 2 inner"

function guti_ie :: "octets \<Rightarrow> nat \<Rightarrow> octets option checked" where
  "guti_ie inner off =
     (if off < length inner then do {
        iei \<leftarrow> octet_at inner off;
        if off + 3 > length inner then nullopt
        else do {
          l \<leftarrow> get_u16 inner (off + 1);
          if off + 3 + unat l > length inner then nullopt
          else if iei = 0x77 then do { v \<leftarrow> sub_octets inner (off + 3) (off + 3 + unat l); ret v }
          else guti_ie inner (off + 3 + unat l) } }
      else nullopt)"
  by auto
termination
  by (relation "measure (\<lambda>(inner, off). length inner - off)") auto

declare guti_ie.simps [simp del]

definition extract_guti_from_registration_accept :: "octets \<Rightarrow> octets option checked" where
  "extract_guti_from_registration_accept inner =
     (if length inner < 5 then nullopt
      else do {
        b0 \<leftarrow> octet_at inner 0; b2 \<leftarrow> octet_at inner 2;
        if b0 \<noteq> 0x7E \<or> b2 \<noteq> 0x42 then nullopt else guti_ie inner 5 })"

lemma dl_transport_opens:
  assumes "openssl_ok C" "length v < 65536"
  shows "and_then (open_secured_downlink C keys n (encode_dl_nas_transport C (nk_int keys) (nk_enc keys) n sid v))
      extract_dl_nas_payload_container = ret v"
    and "and_then (open_secured_downlink C keys n (encode_dl_nas_transport_sms C (nk_int keys) (nk_enc keys) n v))
      extract_dl_nas_sms = ret v"
  using assms field_reads(1) [where r = v] field_reads(2) [where v = v and r = "[]"]
  by (simp_all add: encode_dl_nas_transport_def encode_dl_nas_transport_sms_def open_encoded
      extract_dl_nas_payload_container_def extract_dl_nas_sms_def dl_payload_def field_reads unat_of_nat_u16)

lemma length_guti [simp]: "length (guti_value t r s p) = 11"
  by (simp add: guti_value_def append_plmn_def Let_def)

lemma guti_reaches_ue:
  assumes "openssl_ok C"
  shows "and_then (open_secured_downlink C keys n
        (encode_registration_accept C (nk_int keys) (nk_enc keys) n tmsi region set' ptr sms))
      extract_guti_from_registration_accept = ret (guti_value tmsi region set' ptr)"
proof -
  have g: "get_u16 (a # b # c # d # e # f # put_u16 m @ w) 6 = Some m" for a b c d e f m w
    using get_put_u16 [of "[a, b, c, d, e, f]" m w] by (simp add: eval_nat_numeral)
  have s: "sub_octets (a # b # c # d # e # f # put_u16 m @ w) 8 (8 + length w) = Some w" for a b c d e f m w
    by (simp add: sub_octets_def put_u16_def)
  show ?thesis
    using assms s [where w = "guti_value tmsi region set' ptr"]
    by (simp add: encode_registration_accept_def Let_def open_encoded extract_guti_from_registration_accept_def
        guti_ie.simps g)
qed

section \<open>Service request\<close>

definition service_request_plain :: "octet \<Rightarrow> octet \<Rightarrow> u32 \<Rightarrow> u16 option \<Rightarrow> octets" where
  "service_request_plain service_type ngksi tmsi uplink_data_status =
     [0x7E, 0, 0x4C, push_bit 4 service_type OR (ngksi AND 0xF), 0, 7, 0xF4, 0, 0] @ put_u32 tmsi @
     (case uplink_data_status of None \<Rightarrow> []
      | Some u \<Rightarrow> [0x40, 2, ucast (u AND 0xFF), ucast (drop_bit 8 u AND 0xFF)])"

definition build_genuine_service_request ::
    "crypto \<Rightarrow> octets \<Rightarrow> u32 \<Rightarrow> octet \<Rightarrow> octet \<Rightarrow> u32 \<Rightarrow> u16 option \<Rightarrow> octets" where
  "build_genuine_service_request C knas_int uplink_count service_type ngksi tmsi uplink_data_status =
     (let inner = service_request_plain service_type ngksi tmsi uplink_data_status;
          mac = nia2_mac C knas_int uplink_count 1 0 (count_octet uplink_count # inner)
      in [0x7E, 1] @ put_u32 mac @ [count_octet uplink_count] @ inner)"

lemma service_request_inner_parses:
  assumes "service_type \<le> 0xF" "ngksi \<le> 9"
  shows "parse_service_request_inner (service_request_plain service_type ngksi tmsi st) =
    ret \<lparr>si_ngksi = ngksi, si_service_type = service_type, si_tmsi = tmsi\<rparr>"
proof -
  have "get_u32 (a # b # c # d # e # f # g # h # i # put_u32 m @ w) 9 = Some m" for a b c d e f g h i m w
    using get_put_u32 [of "[a, b, c, d, e, f, g, h, i]" m w] by (simp add: eval_nat_numeral)
  moreover have "unat ngksi < 2 ^ 4" using assms(2) by (simp add: word_le_nat_alt)
  then have "ngksi AND 0xF = ngksi"
    using take_bit_self [of ngksi 4] by (simp add: take_bit_eq_mask mask_eq_exp_minus_1)
  ultimately show ?thesis
    using nibble_pair_simps [OF assms(2,1)]
    by (simp add: parse_service_request_inner_def service_request_plain_def get_u16_def join_u16_def)
qed

lemma service_request_peeks:
  assumes "service_type \<le> 0xF" "ngksi \<le> 9"
  shows "peek_service_request_tmsi (build_genuine_service_request C ki n service_type ngksi tmsi st) = ret tmsi"
  by (simp add: peek_service_request_tmsi_def build_genuine_service_request_def Let_def envelope_reads
      service_request_inner_parses [OF assms])

lemma service_request_decodes:
  assumes "service_type \<le> 0xF" "ngksi \<le> 9"
    "w = (\<lambda>n. nia2_mac C ki n 1 0 (count_octet n # service_request_plain service_type ngksi tmsi st))"
  shows "decode_service_request C ki n' (build_genuine_service_request C ki n service_type ngksi tmsi st) =
    ret (if w n' = w n then \<lparr>sr_mac_valid = True, sr_ngksi = ngksi, sr_service_type = service_type,
           sr_uplink_data_status = st, sr_pdu_session_status = None\<rparr> else no_service_info)"
proof -
  let ?i = "service_request_plain service_type ngksi tmsi st"
  have "scan_service_request ?i 13 out =
      Some (out\<lparr>sr_uplink_data_status := (case st of None \<Rightarrow> sr_uplink_data_status out | Some u \<Rightarrow> Some u)\<rparr>)" for out
    by (cases st) (simp_all add: scan_service_request.simps service_request_plain_def put_u32_def join_put_u16)
  then show ?thesis
    by (auto simp: assms(3) decode_service_request_def decode_secured_uplink_def build_genuine_service_request_def
        Let_def envelope_reads service_request_inner_parses [OF assms(1,2)] split: option.splits)
qed

end
