(* ===== verification/Amf_Registration.thy ===== *)
theory Amf_Registration
  imports Amf_State Ue_Driver "HOL-Library.AList"
begin

text \<open>
  The handlers of \<open>nfs/amf/src/ngap_task.cpp\<close> from a terminal's first message to its
  deregistration. Each takes the association, its message and the state and returns the new state
  and what it sends; \<^verbatim>\<open>None\<close> would be a read outside the message. Handover
  (\<open>ngap_handover.cpp\<close>), interception and the set-up of base stations are not modelled.
\<close>

section \<open>Authentication\<close>

definition initiate_5g_aka_authentication ::
    "peers \<Rightarrow> nat \<Rightarrow> (string \<times> string) option \<Rightarrow> ue_auth_state \<Rightarrow> ue_auth_state \<times> action list" where
  "initiate_5g_aka_authentication P a resync_info us =
     (let request = Ask_Authentication (us_supi us) resync_info
      in (case ausf_authenticate P (us_supi us) resync_info of
            Some (Reply status ctx) \<Rightarrow>
              if status \<noteq> 201 \<or> uc_auth_type ctx \<noteq> V5G_AKA then (us, [request])
              else let us' = us\<lparr>us_confirmation := Some (uc_auth_ctx_id ctx)\<rparr>
                in (case uc_auth_data ctx of
                      N5g_Eap _ \<Rightarrow> (us', [request])
                    | N5g_Av rand_text hxres_star autn_text \<Rightarrow>
                        (case (from_hex_array 16 rand_text, from_hex_array 16 autn_text) of
                           (Some rand, Some autn) \<Rightarrow>
                             (us'\<lparr>us_last_rand := Some rand\<rparr>,
                              [request, Downlink_Nas a (us_amf_ue_id us) (us_ran_ue_id us)
                                 (encode_authentication_request rand autn 0)])
                         | _ \<Rightarrow> (us', [request])))
          | _ \<Rightarrow> (us, [request])))"

definition service_entry :: "nat \<Rightarrow> u64 \<Rightarrow> u64 \<Rightarrow> octets \<Rightarrow> octets \<Rightarrow> u32 \<Rightarrow> registry_entry" where
  "service_entry a amf_ue_id ran_ue_id knas_int knas_enc count =
     \<lparr>re_assoc = a, re_amf_ue_id = ucast amf_ue_id, re_ran_ue_id = ucast ran_ue_id,
      re_knas_int = knas_int, re_knas_enc = knas_enc, re_next_downlink_count = count\<rparr>"

definition handle_service_request ::
    "crypto \<Rightarrow> nat \<Rightarrow> u64 \<Rightarrow> octets \<Rightarrow> amf \<Rightarrow> (amf \<times> action list) checked" where
  "handle_service_request C a ran_ue_id nas s = do {
     peeked \<leftarrow> peek_service_request_tmsi nas;
     (case peeked of
        None \<Rightarrow> Some (s, [])
      | Some tmsi \<Rightarrow>
          let fresh_amf_ue_id = am_next_ue_id s;
              s1 = s\<lparr>am_next_ue_id := fresh_amf_ue_id + 1\<rparr>
          in (case security_get tmsi (am_security s) of
                None \<Rightarrow> Some (s1, [Downlink_Nas a fresh_amf_ue_id ran_ue_id (encode_service_reject_plain 9)])
              | Some ctx \<Rightarrow>
                  let knas_int = derive_knas_int C (sx_kamf ctx) 2;
                      knas_enc = derive_knas_enc C (sx_kamf ctx) 2;
                      (contexts, uplink_count) = next_uplink_count tmsi (am_security s);
                      s2 = s1\<lparr>am_security := contexts\<rparr>
                  in do {
                       decoded \<leftarrow> decode_service_request C knas_int uplink_count nas;
                       (case decoded of
                          None \<Rightarrow> Some (s2, [])
                        | Some info \<Rightarrow>
                            if \<not> sr_mac_valid info \<or> sr_ngksi info \<noteq> sx_ngksi ctx then Some (s2, [])
                            else
                              let (contexts', downlink_count) = next_downlink_count tmsi contexts;
                                  us = (am_states s a)\<lparr>us_amf_ue_id := fresh_amf_ue_id, us_ran_ue_id := ran_ue_id,
                                    us_supi := sx_supi ctx, us_knas_int := Some knas_int, us_knas_enc := Some knas_enc,
                                    us_kamf := Some (sx_kamf ctx), us_capability := sx_capability ctx,
                                    us_phase := Done_Phase, us_tmsi := Some tmsi, us_next_uplink_count := uplink_count + 1\<rparr>;
                                  accept = encode_service_accept C knas_int knas_enc downlink_count
                                    (value_or 0 (sr_pdu_session_status info))
                              in Some (set_state a us (s2\<lparr>am_security := contexts',
                                         am_registry := register_ue (sx_supi ctx)
                                           (service_entry a fresh_amf_ue_id ran_ue_id knas_int knas_enc (downlink_count + 1))
                                           (am_registry s)\<rparr>),
                                       [Downlink_Nas a fresh_amf_ue_id ran_ue_id accept])) })) }"

definition handle_initial_ue_message ::
    "crypto \<Rightarrow> peers \<Rightarrow> nat \<Rightarrow> octets \<Rightarrow> u64 \<Rightarrow> amf \<Rightarrow> (amf \<times> action list) checked" where
  "handle_initial_ue_message C P a nas ran_ue_id s = do {
     decoded \<leftarrow> decode_registration_request nas;
     (case decoded of
        None \<Rightarrow> handle_service_request C a ran_ue_id nas s
      | Some info \<Rightarrow>
          let us = (am_states s a)\<lparr>us_amf_ue_id := am_next_ue_id s, us_ran_ue_id := ran_ue_id,
                us_capability := ri_capability info, us_sms_requested := ri_sms_requested info, us_supi := ri_supi info\<rparr>;
              (us', acts) = initiate_5g_aka_authentication P a None us
          in Some (set_state a us' (s\<lparr>am_next_ue_id := am_next_ue_id s + 1\<rparr>), acts)) }"

text \<open>\<open>handle_uplink_nas_transport\<close>: the terminal's answer to the challenge.\<close>

definition keys_of_kseaf :: "crypto \<Rightarrow> octets \<Rightarrow> ue_auth_state \<Rightarrow> ue_auth_state" where
  "keys_of_kseaf C kseaf us =
     (let kamf = derive_kamf C kseaf (strip_imsi_prefix (us_supi us)) [0, 0]
      in us\<lparr>us_kamf := Some kamf, us_knas_int := Some (derive_knas_int C kamf 2),
            us_knas_enc := Some (derive_knas_enc C kamf 2), us_phase := Awaiting_Security_Mode_Complete\<rparr>)"

definition confirmed_kseaf :: "confirmation reply option \<Rightarrow> octets option" where
  "confirmed_kseaf answer =
     (case answer of
        Some (Reply status c) \<Rightarrow>
          if status = 200 \<and> cf_success c
          then (case cf_kseaf c of None \<Rightarrow> None | Some kseaf \<Rightarrow> from_hex_array 32 kseaf) else None
      | _ \<Rightarrow> None)"

definition handle_uplink_nas_transport ::
    "crypto \<Rightarrow> peers \<Rightarrow> nat \<Rightarrow> octets \<Rightarrow> amf \<Rightarrow> (amf \<times> action list) checked" where
  "handle_uplink_nas_transport C P a nas s =
     (let us = am_states s a
      in do {
        decoded \<leftarrow> decode_authentication_outcome nas;
        (case decoded of
           None \<Rightarrow> Some (s, [])
         | Some outcome \<Rightarrow>
             if \<not> ao_success outcome then
               if us_resync_attempted us then Some (s, [])
               else (case (ao_auts outcome, us_last_rand us) of
                       (Some auts, Some rand) \<Rightarrow>
                         let (us', acts) = initiate_5g_aka_authentication P a (Some (to_hex rand, to_hex auts))
                               (us\<lparr>us_resync_attempted := True\<rparr>)
                         in Some (set_state a us' s, acts)
                     | _ \<Rightarrow> Some (s, []))
             else (case us_confirmation us of
                     None \<Rightarrow> Some (s, [])
                   | Some auth_ctx_id \<Rightarrow>
                       let res_star = to_hex (ao_res_star outcome);
                           request = Ask_Confirmation auth_ctx_id res_star
                       in (case confirmed_kseaf (ausf_confirm P auth_ctx_id res_star) of
                             None \<Rightarrow> Some (s, [request])
                           | Some kseaf \<Rightarrow>
                               let us' = keys_of_kseaf C kseaf us
                               in Some (set_state a us' s,
                                    [request, Downlink_Nas a (us_amf_ue_id us) (us_ran_ue_id us)
                                       (encode_security_mode_command C (the (us_knas_int us')) (us_capability us) 0)])))) })"

section \<open>Admission and acceptance\<close>

text \<open>An item of the list that is no object or has no reason is passed over; a reason that is no text
  throws, which is caught.\<close>

fun some_refusal :: "json list \<Rightarrow> bool" where
  "some_refusal [] = False"
| "some_refusal (item # items) =
     (case member item ''reason'' of
        None \<Rightarrow> some_refusal items
      | Some v \<Rightarrow> (case get_string v of
                     None \<Rightarrow> False
                   | Some reason \<Rightarrow> take 10 reason = ''EXCEED_MAX'' \<or> some_refusal items))"

definition acu_failure_is_a_real_refusal :: "json option \<Rightarrow> bool" where
  "acu_failure_is_a_real_refusal body =
     (case body of
        None \<Rightarrow> False
      | Some parsed \<Rightarrow>
          (case member parsed ''acuFailureList'' of
             None \<Rightarrow> False
           | Some failures \<Rightarrow> is_array failures \<and> some_refusal (elements failures)))"

definition report_ue_to_nsacf :: "amf_config \<Rightarrow> peers \<Rightarrow> string \<Rightarrow> bool \<times> action list" where
  "report_ue_to_nsacf cfg P supi =
     (if \<not> cg_nsacf cfg then (True, [])
      else (case nsacf_answer P supi of
              Some (status, body) \<Rightarrow> status \<noteq> 200 \<or> \<not> acu_failure_is_a_real_refusal body
            | None \<Rightarrow> True, [Ask_Admission supi]))"

definition activate_sms_at_smsf :: "amf_config \<Rightarrow> peers \<Rightarrow> string \<Rightarrow> bool \<times> action list" where
  "activate_sms_at_smsf cfg P supi =
     (if \<not> cg_smsf cfg then (False, [])
      else (smsf_status P supi = Some 201 \<or> smsf_status P supi = Some 204, [Ask_Sms supi]))"

definition accept_registration :: "crypto \<Rightarrow> amf_config \<Rightarrow> peers \<Rightarrow> nat \<Rightarrow> octets \<Rightarrow> octets \<Rightarrow> octets \<Rightarrow> amf \<Rightarrow> amf \<times> action list" where
  "accept_registration C cfg P a kamf knas_int knas_enc s =
     (let us = am_states s a;
          (sms, asked) = (if us_sms_requested us then activate_sms_at_smsf cfg P (us_supi us) else (us_sms_allowed us, []));
          (n, tmsi) = allocate_tmsi (am_next_tmsi s);
          accept = encode_registration_accept C knas_int knas_enc 1 tmsi (cg_region_id cfg) (cg_set_id cfg) (cg_pointer cfg) sms;
          ctx = \<lparr>sx_supi = us_supi us, sx_kamf = kamf, sx_ngksi = 0, sx_uplink_count = 1, sx_downlink_count = 2,
                 sx_capability = us_capability us\<rparr>
      in (set_state a (us\<lparr>us_sms_allowed := sms, us_tmsi := Some tmsi, us_phase := Awaiting_Registration_Complete\<rparr>)
            (s\<lparr>am_next_tmsi := n, am_security := context_put tmsi ctx (am_security s),
               am_index := (am_index s)(us_amf_ue_id us \<mapsto> tmsi)\<rparr>),
          asked @ [Downlink_Nas a (us_amf_ue_id us) (us_ran_ue_id us) accept]))"

text \<open>The keys are set together with \<^verbatim>\<open>us_kamf\<close>, whose absence would be undefined behaviour here.\<close>

definition handle_smc_complete ::
    "crypto \<Rightarrow> amf_config \<Rightarrow> peers \<Rightarrow> nat \<Rightarrow> octets \<Rightarrow> amf \<Rightarrow> (amf \<times> action list) checked" where
  "handle_smc_complete C cfg P a nas s =
     (let us = am_states s a
      in (case (us_knas_int us, us_knas_enc us) of
            (Some knas_int, Some knas_enc) \<Rightarrow> do {
              outcome \<leftarrow> decode_security_mode_complete C knas_int knas_enc 0 nas;
              if outcome \<noteq> Some True then Some (s, [])
              else let (admitted, asked) = report_ue_to_nsacf cfg P (us_supi us)
                in if \<not> admitted
                   then Some (s, asked @ [Downlink_Nas a (us_amf_ue_id us) (us_ran_ue_id us)
                                            (encode_registration_reject C knas_int knas_enc 1 0x45)])
                   else do {
                     kamf \<leftarrow> us_kamf us;
                     let (s', acts) = accept_registration C cfg P a kamf knas_int knas_enc s
                     in Some (s', asked @ acts) } }
          | _ \<Rightarrow> Some (s, [])))"

definition handle_registration_complete ::
    "crypto \<Rightarrow> peers \<Rightarrow> nat \<Rightarrow> octets \<Rightarrow> amf \<Rightarrow> (amf \<times> action list) checked" where
  "handle_registration_complete C P a nas s =
     (let us = am_states s a
      in (case (us_knas_int us, us_knas_enc us) of
            (Some knas_int, Some knas_enc) \<Rightarrow> do {
              outcome \<leftarrow> decode_registration_complete C knas_int knas_enc 1 nas;
              if outcome \<noteq> Some True then Some (s, [])
              else
                let us' = us\<lparr>us_phase := Awaiting_Session_Request, us_next_uplink_count := 2\<rparr>;
                    s' = s\<lparr>am_registry := register_ue (us_supi us)
                            (service_entry a (us_amf_ue_id us) (us_ran_ue_id us) knas_int knas_enc 2) (am_registry s)\<rparr>
                in if \<not> pcf_token P then Some (set_state a us' s', [])
                   else (case pcf_answer P (us_supi us) of
                           Some (status, location) \<Rightarrow>
                             if status \<noteq> 201 then Some (set_state a us' s', [Ask_Policy (us_supi us)])
                             else Some (set_state a
                                    (us'\<lparr>us_pol_asso_id := (case location of None \<Rightarrow> us_pol_asso_id us | _ \<Rightarrow> location)\<rparr>)
                                    (s'\<lparr>am_sessions := (am_sessions s)(us_supi us := [])\<rparr>), [Ask_Policy (us_supi us)])
                         | None \<Rightarrow> Some (set_state a us' s', [Ask_Policy (us_supi us)])) }
          | _ \<Rightarrow> Some (s, [])))"

section \<open>Payloads of a registered terminal\<close>

text \<open>\<open>try_relay_uplink_sms\<close>: \<^verbatim>\<open>None\<close> inside when the message is no short message for it.\<close>

definition try_relay_uplink_sms ::
    "crypto \<Rightarrow> amf_config \<Rightarrow> peers \<Rightarrow> nat \<Rightarrow> octets \<Rightarrow> amf \<Rightarrow> (amf \<times> action list) option checked" where
  "try_relay_uplink_sms C cfg P a nas s =
     (let us = am_states s a
      in (case (us_knas_int us, us_knas_enc us) of
            (Some knas_int, Some knas_enc) \<Rightarrow> do {
              decoded \<leftarrow> decode_ul_nas_transport C knas_int knas_enc (us_next_uplink_count us) nas;
              (case decoded of
                 None \<Rightarrow> nullopt
               | Some ul \<Rightarrow>
                   if \<not> ul_mac_valid ul \<or> ul_container_type ul \<noteq> 2 then nullopt
                   else ret (set_state a (us\<lparr>us_next_uplink_count := us_next_uplink_count us + 1\<rparr>) s,
                     if us_sms_allowed us \<and> cg_smsf cfg then [Relay_Sms (us_supi us) (ul_container ul)] else [])) }
          | _ \<Rightarrow> nullopt))"

definition handle_pdu_session_establishment ::
    "crypto \<Rightarrow> peers \<Rightarrow> nat \<Rightarrow> octets \<Rightarrow> amf \<Rightarrow> (amf \<times> action list) checked" where
  "handle_pdu_session_establishment C P a nas s =
     (let us = am_states s a
      in (case (us_knas_int us, us_knas_enc us) of
            (Some knas_int, Some knas_enc) \<Rightarrow> do {
              decoded \<leftarrow> decode_ul_nas_transport C knas_int knas_enc (us_next_uplink_count us) nas;
              (case decoded of
                 None \<Rightarrow> Some (s, [])
               | Some ul \<Rightarrow>
                   if \<not> ul_mac_valid ul \<or> ul_container_type ul \<noteq> 1 then Some (s, [])
                   else
                     let s' = set_state a (us\<lparr>us_phase := Done_Phase, us_next_uplink_count := us_next_uplink_count us + 1\<rparr>) s
                     in (case (ul_dnn ul, ul_sst ul) of
                           (Some dnn, Some sst) \<Rightarrow>
                             if \<not> smf_token P then Some (s', [])
                             else
                               let supi = us_supi us; sid = ul_session_id ul;
                                   request = Ask_Session supi sid dnn sst (ul_sd ul) (ul_container ul)
                               in (case smf_answer P supi sid of
                                     Session_Created (Some ref) \<Rightarrow>
                                       Some (if ref = [] then s'
                                             else s'\<lparr>am_sessions := (am_sessions s)
                                               (supi := AList.update sid ref (am_sessions s supi))\<rparr>, [request])
                                   | Session_Refused (Some n1_sm) \<Rightarrow>
                                       let (reg, acts, sent) = send_dl_nas_transport C supi sid n1_sm (am_registry s)
                                       in Some (s'\<lparr>am_registry := reg\<rparr>, request # acts)
                                   | _ \<Rightarrow> Some (s', [request]))
                         | _ \<Rightarrow> Some (s', []))) }
          | _ \<Rightarrow> Some (s, [])))"

section \<open>Deregistration and release\<close>

definition handle_deregistration ::
    "crypto \<Rightarrow> peers \<Rightarrow> nat \<Rightarrow> octets \<Rightarrow> amf \<Rightarrow> (amf \<times> action list) checked" where
  "handle_deregistration C P a nas s =
     (let us = am_states s a
      in (case (us_knas_int us, us_knas_enc us) of
            (Some knas_int, Some knas_enc) \<Rightarrow> do {
              decoded \<leftarrow> decode_deregistration_request C knas_int knas_enc (us_next_uplink_count us) nas;
              (case decoded of
                 None \<Rightarrow> Some (s, [])
               | Some outcome \<Rightarrow>
                   if \<not> dr_mac_valid outcome then Some (s, [])
                   else
                     let supi = us_supi us;
                         (reg, accept, sent) = (if dr_switch_off outcome then (am_registry s, [], True)
                           else send_deregistration_accept C supi (am_registry s));
                         releases = (if smf_token P \<and> am_sessions s supi \<noteq> [] then [Release_Sessions (am_sessions s supi)] else []);
                         policy = (case us_pol_asso_id us of
                             Some i \<Rightarrow> if pcf_token P then [Delete_Policy i] else []
                           | None \<Rightarrow> [])
                     in Some (set_state a (us\<lparr>us_deregistered := True\<rparr>)
                                (s\<lparr>am_registry := reg, am_sessions := (am_sessions s)(supi := [])\<rparr>),
                              accept @ releases @ policy @ [Release_Command a (us_amf_ue_id us) Deregister_Cause])) }
          | _ \<Rightarrow> Some (s, [])))"

definition handle_release_request :: "nat \<Rightarrow> amf \<Rightarrow> amf \<times> action list" where
  "handle_release_request a s = (s, [Release_Command a (us_amf_ue_id (am_states s a)) Normal_Release])"

definition unregister_named :: "string \<Rightarrow> ue_registry \<Rightarrow> ue_registry" where
  "unregister_named supi reg = (if supi = [] then reg else unregister_ue supi reg)"

definition handle_release_complete :: "nat \<Rightarrow> amf \<Rightarrow> amf \<times> action list" where
  "handle_release_complete a s =
     (let us = am_states s a;
          s1 = s\<lparr>am_registry := unregister_named (us_supi us) (am_registry s)\<rparr>;
          s2 = (case us_tmsi us of
              Some tmsi \<Rightarrow> if us_deregistered us
                then s1\<lparr>am_security := context_erase tmsi (am_security s), am_index := (am_index s)(us_amf_ue_id us := None)\<rparr>
                else s1
            | None \<Rightarrow> s1)
      in (set_state a fresh_state s2, []))"

section \<open>Change of the base station\<close>

definition handle_path_switch_request :: "crypto \<Rightarrow> nat \<Rightarrow> u64 \<Rightarrow> u64 \<Rightarrow> octet list \<Rightarrow> amf \<Rightarrow> amf \<times> action list" where
  "handle_path_switch_request C a new_ran_ue_id source_amf_ue_id sessions s =
     (case (case am_index s source_amf_ue_id of None \<Rightarrow> None | Some tmsi \<Rightarrow> security_get tmsi (am_security s)) of
        None \<Rightarrow> (s, [Error_Indication a new_ran_ue_id])
      | Some ctx \<Rightarrow>
          let kgnb = derive_kgnb C (sx_kamf ctx) (of_nat (sx_uplink_count ctx)) 1;
              nh = derive_nh C (sx_kamf ctx) kgnb;
              entry = service_entry a source_amf_ue_id new_ran_ue_id (derive_knas_int C (sx_kamf ctx) 2)
                (derive_knas_enc C (sx_kamf ctx) 2) (of_nat (sx_downlink_count ctx))
          in (if sx_supi ctx = [] then s else s\<lparr>am_registry := register_ue (sx_supi ctx) entry (am_registry s)\<rparr>,
              [Path_Switch_Ack a source_amf_ue_id new_ran_ue_id nh sessions]))"

section \<open>Dispatch\<close>

definition handle_uplink :: "crypto \<Rightarrow> amf_config \<Rightarrow> peers \<Rightarrow> nat \<Rightarrow> octets \<Rightarrow> amf \<Rightarrow> (amf \<times> action list) checked" where
  "handle_uplink C cfg P a nas s =
     (case us_phase (am_states s a) of
        Awaiting_Authentication_Response \<Rightarrow> handle_uplink_nas_transport C P a nas s
      | Awaiting_Security_Mode_Complete \<Rightarrow> handle_smc_complete C cfg P a nas s
      | Awaiting_Registration_Complete \<Rightarrow> handle_registration_complete C P a nas s
      | Awaiting_Session_Request \<Rightarrow> do {
          relayed \<leftarrow> try_relay_uplink_sms C cfg P a nas s;
          (case relayed of Some r \<Rightarrow> Some r | None \<Rightarrow> handle_pdu_session_establishment C P a nas s) }
      | Done_Phase \<Rightarrow> do {
          relayed \<leftarrow> try_relay_uplink_sms C cfg P a nas s;
          (case relayed of Some r \<Rightarrow> Some r | None \<Rightarrow> handle_deregistration C P a nas s) })"

fun handle_event :: "crypto \<Rightarrow> amf_config \<Rightarrow> peers \<Rightarrow> nat \<Rightarrow> amf_event \<Rightarrow> amf \<Rightarrow> (amf \<times> action list) checked" where
  "handle_event C cfg P a (Initial_Ue_Message nas ran_ue_id) s = handle_initial_ue_message C P a nas ran_ue_id s"
| "handle_event C cfg P a (Uplink_Nas nas) s = handle_uplink C cfg P a nas s"
| "handle_event C cfg P a Release_Request s = Some (handle_release_request a s)"
| "handle_event C cfg P a Release_Complete s = Some (handle_release_complete a s)"
| "handle_event C cfg P a (Path_Switch ran_ue_id amf_ue_id sessions) s =
     Some (handle_path_switch_request C a ran_ue_id amf_ue_id sessions s)"
| "handle_event C cfg P a Association_Lost s =
     Some (set_state a fresh_state
       (s\<lparr>am_registry := unregister_named (us_supi (am_states s a)) (am_registry s)\<rparr>), [])"
| "handle_event C cfg P a Other_Message s = Some (s, [])"
| "handle_event C cfg P a (Transfer_N1 supi sid n1) s =
     (let (reg, acts, sent) = send_dl_nas_transport C supi sid n1 (am_registry s) in Some (s\<lparr>am_registry := reg\<rparr>, acts))"
| "handle_event C cfg P a (Transfer_Sms supi sms) s =
     (let (reg, acts, sent) = send_dl_nas_sms C supi sms (am_registry s) in Some (s\<lparr>am_registry := reg\<rparr>, acts))"

text \<open>A history: what the other functions answer at each event, and what is sent.\<close>

fun run_amf :: "crypto \<Rightarrow> amf_config \<Rightarrow> (peers \<times> nat \<times> amf_event) list \<Rightarrow> amf \<Rightarrow> (amf \<times> (peers \<times> action list) list) checked" where
  "run_amf C cfg [] s = Some (s, [])"
| "run_amf C cfg ((P, a, e) # es) s = do {
     (s', acts) \<leftarrow> handle_event C cfg P a e s;
     (s'', log) \<leftarrow> run_amf C cfg es s';
     Some (s'', (P, acts) # log) }"

end
