(* ===== verification/Amf_Life.thy ===== *)
theory Amf_Life
  imports Amf_Registration
begin

text \<open>
  The access function under any sequence of events: no handler reads outside a message or lacks a
  key, and every key it serves a terminal with was confirmed by the home network. Then what its
  handlers do where that is not what the comments expect.
\<close>

section \<open>Keys\<close>

text \<open>A KAMF is known when the authentication server confirmed, in an exchange of the log, the KSEAF it is derived from.\<close>

definition confirmed :: "crypto \<Rightarrow> (peers \<times> action list) list \<Rightarrow> octets \<Rightarrow> bool" where
  "confirmed C history kamf \<longleftrightarrow>
     (\<exists>P acts i res_star kseaf name. (P, acts) \<in> set history \<and> Ask_Confirmation i res_star \<in> set acts \<and>
        confirmed_kseaf (ausf_confirm P i res_star) = Some kseaf \<and> kamf = derive_kamf C kseaf name [0, 0])"

definition keys_from :: "crypto \<Rightarrow> octets \<Rightarrow> octets \<Rightarrow> octets \<Rightarrow> bool" where
  "keys_from C kamf knas_int knas_enc \<longleftrightarrow>
     knas_int = derive_knas_int C kamf 2 \<and> knas_enc = derive_knas_enc C kamf 2"

definition state_keys_ok :: "crypto \<Rightarrow> (octets \<Rightarrow> bool) \<Rightarrow> ue_auth_state \<Rightarrow> bool" where
  "state_keys_ok C K us \<longleftrightarrow>
     us_knas_int us = None \<and> us_knas_enc us = None \<and> us_kamf us = None \<or>
     (\<exists>kamf ki ke. us_kamf us = Some kamf \<and> us_knas_int us = Some ki \<and> us_knas_enc us = Some ke \<and>
        K kamf \<and> keys_from C kamf ki ke)"

definition entry_keys_ok :: "crypto \<Rightarrow> (octets \<Rightarrow> bool) \<Rightarrow> registry_entry \<Rightarrow> bool" where
  "entry_keys_ok C K e \<longleftrightarrow> (\<exists>kamf. K kamf \<and> keys_from C kamf (re_knas_int e) (re_knas_enc e))"

definition amf_keys_ok :: "crypto \<Rightarrow> (octets \<Rightarrow> bool) \<Rightarrow> amf \<Rightarrow> bool" where
  "amf_keys_ok C K s \<longleftrightarrow>
     (\<forall>a. state_keys_ok C K (am_states s a)) \<and>
     (\<forall>t ctx. am_security s t = Some ctx \<longrightarrow> K (sx_kamf ctx)) \<and>
     (\<forall>supi e. am_registry s supi = Some e \<longrightarrow> entry_keys_ok C K e)"

section \<open>The handlers keep the keys and answer\<close>

named_theorems amf_keys "what an update of the state does to its keys"

lemma amf_keys_state: "amf_keys_ok C K s \<Longrightarrow> state_keys_ok C K (am_states s a)"
  and amf_keys_security: "amf_keys_ok C K s \<Longrightarrow> am_security s t = Some ctx \<Longrightarrow> K (sx_kamf ctx)"
  and amf_keys_registry: "amf_keys_ok C K s \<Longrightarrow> am_registry s supi = Some e \<Longrightarrow> entry_keys_ok C K e"
  by (auto simp: amf_keys_ok_def)

lemma keys_set_state [amf_keys]:
  "amf_keys_ok C K s \<Longrightarrow> state_keys_ok C K us \<Longrightarrow> amf_keys_ok C K (set_state a us s)"
  by (auto simp: amf_keys_ok_def set_state_def)

lemma keys_security [amf_keys]:
  "amf_keys_ok C K s \<Longrightarrow> (\<And>t ctx. sec t = Some ctx \<Longrightarrow> K (sx_kamf ctx)) \<Longrightarrow> amf_keys_ok C K (s\<lparr>am_security := sec\<rparr>)"
  by (auto simp: amf_keys_ok_def)

lemma keys_registry [amf_keys]:
  "amf_keys_ok C K s \<Longrightarrow> (\<And>supi e. reg supi = Some e \<Longrightarrow> entry_keys_ok C K e) \<Longrightarrow> amf_keys_ok C K (s\<lparr>am_registry := reg\<rparr>)"
  by (auto simp: amf_keys_ok_def)

lemma keys_other [amf_keys]:
  "amf_keys_ok C K (s\<lparr>am_next_ue_id := n\<rparr>) = amf_keys_ok C K s"
  "amf_keys_ok C K (s\<lparr>am_next_tmsi := m\<rparr>) = amf_keys_ok C K s"
  "amf_keys_ok C K (s\<lparr>am_index := i\<rparr>) = amf_keys_ok C K s"
  "amf_keys_ok C K (s\<lparr>am_sessions := x\<rparr>) = amf_keys_ok C K s"
  by (simp_all add: amf_keys_ok_def)

lemma fresh_keys [simp]: "state_keys_ok C K fresh_state"
  by (simp add: state_keys_ok_def fresh_state_def)

lemma initiate_keys:
  assumes "initiate_5g_aka_authentication P a r us = (us', acts)"
  shows "state_keys_ok C K us' = state_keys_ok C K us" "Ask_Confirmation i x \<notin> set acts"
  using assms
  by (auto simp: initiate_5g_aka_authentication_def state_keys_ok_def Let_def
      split: option.splits reply.splits n5g_auth_data.splits if_splits)

lemma next_count_keys:
  assumes "next_uplink_count t st = (st', n) \<or> next_downlink_count t st = (st', n)"
    "\<And>t ctx. st t = Some ctx \<Longrightarrow> K (sx_kamf ctx)" "st' t' = Some ctx"
  shows "K (sx_kamf ctx)"
  using assms by (auto simp: next_uplink_count_def next_downlink_count_def split: option.splits if_splits)

lemma derived_keys_ok:
  "K k \<Longrightarrow> us_kamf us = Some k \<Longrightarrow> us_knas_int us = Some (derive_knas_int C k 2) \<Longrightarrow>
   us_knas_enc us = Some (derive_knas_enc C k 2) \<Longrightarrow> state_keys_ok C K us"
  by (auto simp: state_keys_ok_def keys_from_def)

lemma service_entry_keys:
  "K k \<Longrightarrow> keys_from C k ki ke \<Longrightarrow> entry_keys_ok C K (service_entry a i r ki ke n)"
  by (auto simp: entry_keys_ok_def service_entry_def)

lemma register_keys:
  "amf_keys_ok C K s \<Longrightarrow> entry_keys_ok C K e \<Longrightarrow> register_ue supi e (am_registry s) supi' = Some e' \<Longrightarrow> entry_keys_ok C K e'"
  by (auto simp: register_ue_def amf_keys_ok_def split: if_splits)

lemma service_request_keys:
  assumes "amf_keys_ok C K s" "handle_service_request C a rid nas s = Some (s', acts)"
  shows "amf_keys_ok C K s'"
proof -
  obtain peeked where p: "peek_service_request_tmsi nas = Some peeked"
    using peek_service_request_tmsi_safe by blast
  show ?thesis
  proof (cases "\<exists>t ctx. peeked = Some t \<and> security_get t (am_security s) = Some ctx")
    case False
    then show ?thesis
      using assms p by (auto simp: handle_service_request_def Let_def keys_other split: option.splits)
  next
    case True
    then obtain t ctx where t: "peeked = Some t" "security_get t (am_security s) = Some ctx" by blast
    obtain st n where up: "next_uplink_count t (am_security s) = (st, n)" by (cases "next_uplink_count t (am_security s)")
    obtain st' m where dn: "next_downlink_count t st = (st', m)" by (cases "next_downlink_count t st")
    have K: "K (sx_kamf ctx)"
      using t(2) amf_keys_security [OF assms(1)] by (auto simp: security_get_def split: option.splits if_splits)
    have st: "K (sx_kamf c)" if "st t' = Some c" for t' c
      using that next_count_keys [OF disjI1 [OF up]] amf_keys_security [OF assms(1)] by blast
    then have st': "K (sx_kamf c)" if "st' t' = Some c" for t' c
      using that next_count_keys [OF disjI2 [OF dn]] by blast
    have e: "entry_keys_ok C K (service_entry a i r (derive_knas_int C (sx_kamf ctx) 2) (derive_knas_enc C (sx_kamf ctx) 2) c)" for i r c
      using K by (auto intro!: service_entry_keys simp: keys_from_def)
    show ?thesis
      using assms(2) p t up dn
      by (auto simp: handle_service_request_def Let_def split: option.splits if_splits
          intro!: amf_keys assms(1) derived_keys_ok [where k = "sx_kamf ctx"] K dest: st st' register_keys [OF assms(1) e]
          simp: keys_other bind_eq_Some_conv)
  qed
qed

lemma initial_message_keys:
  assumes "amf_keys_ok C K s" "handle_initial_ue_message C P a nas rid s = Some (s', acts)"
  shows "amf_keys_ok C K s'"
proof -
  obtain d where d: "decode_registration_request nas = Some d" using decode_registration_request_safe by blast
  show ?thesis
  proof (cases d)
    case None
    then show ?thesis using assms d service_request_keys by (auto simp: handle_initial_ue_message_def)
  next
    case (Some info)
    let ?us = "(am_states s a)\<lparr>us_amf_ue_id := am_next_ue_id s, us_ran_ue_id := rid,
      us_capability := ri_capability info, us_sms_requested := ri_sms_requested info, us_supi := ri_supi info\<rparr>"
    obtain us' acts' where i: "initiate_5g_aka_authentication P a None ?us = (us', acts')"
      by (cases "initiate_5g_aka_authentication P a None ?us")
    have "state_keys_ok C K ?us"
      using amf_keys_state [OF assms(1), of a] by (simp add: state_keys_ok_def)
    then have "state_keys_ok C K us'" using initiate_keys(1) [OF i] by blast
    moreover have "s' = set_state a us' (s\<lparr>am_next_ue_id := am_next_ue_id s + 1\<rparr>)"
      using assms(2) by (simp add: handle_initial_ue_message_def d Some i Let_def)
    ultimately show ?thesis
      using assms(1) by (simp add: keys_set_state keys_other)
  qed
qed

lemma send_registered_keys:
  assumes "amf_keys_ok C K s" "send_registered f supi (am_registry s) = (reg, acts, b)" "reg supi' = Some e"
  shows "entry_keys_ok C K e"
  using assms amf_keys_registry [OF assms(1)]
  by (fastforce simp: send_registered_def entry_keys_ok_def split: option.splits if_splits)

lemmas send_dl_keys = send_registered_keys [where f = "\<lambda>e. encode_dl_nas_transport C (re_knas_int e) (re_knas_enc e) (re_next_downlink_count e) i x" for C i x,
  folded send_dl_nas_transport_def]
lemmas send_sms_keys = send_registered_keys [where f = "\<lambda>e. encode_dl_nas_transport_sms C (re_knas_int e) (re_knas_enc e) (re_next_downlink_count e) x" for C x,
  folded send_dl_nas_sms_def]
lemmas send_accept_keys = send_registered_keys [where f = "\<lambda>e. encode_deregistration_accept C (re_knas_int e) (re_knas_enc e) (re_next_downlink_count e)" for C,
  folded send_deregistration_accept_def]

lemma state_keys_kept:
  "state_keys_ok C K us \<Longrightarrow> us_kamf us' = us_kamf us \<Longrightarrow> us_knas_int us' = us_knas_int us \<Longrightarrow>
   us_knas_enc us' = us_knas_enc us \<Longrightarrow> state_keys_ok C K us'"
  by (simp add: state_keys_ok_def)

lemma authentication_keys:
  assumes "amf_keys_ok C K s" "handle_uplink_nas_transport C P a nas s = Some (s', acts)"
    "\<And>i x kseaf name. Ask_Confirmation i x \<in> set acts \<Longrightarrow> confirmed_kseaf (ausf_confirm P i x) = Some kseaf \<Longrightarrow>
       K (derive_kamf C kseaf name [0, 0])"
  shows "amf_keys_ok C K s'"
proof -
  let ?us = "am_states s a"
  have us: "state_keys_ok C K ?us" by (rule amf_keys_state [OF assms(1)])
  obtain d where d: "decode_authentication_outcome nas = Some d" using decode_authentication_outcome_safe by blast
  have resync: "amf_keys_ok C K s'"
    if "initiate_5g_aka_authentication P a r (?us\<lparr>us_resync_attempted := True\<rparr>) = (us', acts')" "s' = set_state a us' s"
    for r us' acts'
  proof -
    from us have "state_keys_ok C K (?us\<lparr>us_resync_attempted := True\<rparr>)" by (rule state_keys_kept) simp_all
    then show ?thesis using initiate_keys(1) [OF that(1)] that(2) keys_set_state [OF assms(1)] by blast
  qed
  have success: "amf_keys_ok C K s'"
    if "Ask_Confirmation i x \<in> set acts" "confirmed_kseaf (ausf_confirm P i x) = Some kseaf"
      "s' = set_state a (keys_of_kseaf C kseaf ?us) s" for i x kseaf
  proof -
    have "K (derive_kamf C kseaf (strip_imsi_prefix (us_supi ?us)) [0, 0])" by (rule assms(3) [OF that(1,2)])
    then have "state_keys_ok C K (keys_of_kseaf C kseaf ?us)"
      by (auto simp: keys_of_kseaf_def Let_def intro!: derived_keys_ok)
    then show ?thesis using that(3) keys_set_state [OF assms(1)] by blast
  qed
  show ?thesis
  proof (cases d)
    case None
    then show ?thesis using assms(1,2) d by (simp add: handle_uplink_nas_transport_def Let_def)
  next
    case (Some outcome)
    show ?thesis
    proof (cases "ao_success outcome")
      case False
      show ?thesis
      proof (cases "us_resync_attempted ?us \<or> ao_auts outcome = None \<or> us_last_rand ?us = None")
        case True
        then have "s' = s"
          using assms(2) d Some False by (auto simp: handle_uplink_nas_transport_def Let_def split: option.splits)
        then show ?thesis using assms(1) by simp
      next
        case False
        then obtain auts rand where ar: "ao_auts outcome = Some auts" "us_last_rand ?us = Some rand" by auto
        obtain us' acts' where i: "initiate_5g_aka_authentication P a (Some (to_hex rand, to_hex auts))
            (?us\<lparr>us_resync_attempted := True\<rparr>) = (us', acts')" by fastforce
        have "s' = set_state a us' s"
          using assms(2) d Some False \<open>\<not> ao_success outcome\<close> ar i by (simp add: handle_uplink_nas_transport_def Let_def)
        then show ?thesis by (rule resync [OF i])
      qed
    next
      case True
      show ?thesis
      proof (cases "us_confirmation ?us")
        case None
        then show ?thesis using assms(1,2) d Some True by (simp add: handle_uplink_nas_transport_def Let_def)
      next
        case (Some i)
        let ?answer = "confirmed_kseaf (ausf_confirm P i (to_hex (ao_res_star outcome)))"
        show ?thesis
        proof (cases ?answer)
          case None
          then show ?thesis
            using assms(1,2) d \<open>d = Some outcome\<close> True Some by (simp add: handle_uplink_nas_transport_def Let_def)
        next
          case (Some kseaf)
          then show ?thesis
            using assms(2) d \<open>d = Some outcome\<close> True \<open>us_confirmation ?us = Some i\<close>
            by (intro success [OF _ Some]) (auto simp: handle_uplink_nas_transport_def Let_def)
        qed
      qed
    qed
  qed
qed

lemma accept_registration_keys:
  assumes "amf_keys_ok C K s" "K kamf" "accept_registration C cfg P a kamf ki ke s = (s', acts)"
  shows "amf_keys_ok C K s'"
proof -
  obtain us' n tmsi ctx i where s': "s' = set_state a us' (s\<lparr>am_next_tmsi := n, am_security := context_put tmsi ctx (am_security s), am_index := i\<rparr>)"
    and us': "us_kamf us' = us_kamf (am_states s a)" "us_knas_int us' = us_knas_int (am_states s a)" "us_knas_enc us' = us_knas_enc (am_states s a)"
    and ctx: "sx_kamf ctx = kamf"
    using assms(3) by (auto simp: accept_registration_def Let_def split: prod.splits)
  have "state_keys_ok C K us'" by (rule state_keys_kept [OF amf_keys_state [OF assms(1)] us'])
  then show ?thesis
    unfolding s'
    using assms(1,2) ctx by (intro keys_set_state) (auto simp: keys_other amf_keys_ok_def context_put_def)
qed

lemma state_keys_cases:
  assumes "state_keys_ok C K us"
  obtains "us_knas_int us = None" "us_knas_enc us = None"
    | kamf where "us_kamf us = Some kamf" "K kamf" "us_knas_int us = Some (derive_knas_int C kamf 2)"
        "us_knas_enc us = Some (derive_knas_enc C kamf 2)"
  using assms by (auto simp: state_keys_ok_def keys_from_def)

lemma smc_complete_keys:
  assumes "amf_keys_ok C K s"
  obtains s' acts where "handle_smc_complete C cfg P a nas s = Some (s', acts)" "amf_keys_ok C K s'"
proof -
  have "\<exists>s' acts. handle_smc_complete C cfg P a nas s = Some (s', acts) \<and> amf_keys_ok C K s'"
  proof (cases rule: state_keys_cases [OF amf_keys_state [OF assms, of a]])
    case 1
    then show ?thesis using assms by (simp add: handle_smc_complete_def)
  next
    case (2 kamf)
    let ?ki = "derive_knas_int C kamf 2" and ?ke = "derive_knas_enc C kamf 2"
    obtain o1 where o1: "decode_security_mode_complete C ?ki ?ke 0 nas = Some o1"
      using decode_bare_message_safe [of C ?ki ?ke sht_ciphered_new "0x5E" 0 nas]
      by (auto simp: decode_security_mode_complete_def)
    obtain b asked where r: "report_ue_to_nsacf cfg P (us_supi (am_states s a)) = (b, asked)" by fastforce
    obtain s' acts where acc: "accept_registration C cfg P a kamf ?ki ?ke s = (s', acts)" by fastforce
    show ?thesis
      using 2 o1 r acc assms accept_registration_keys [OF assms 2(2) acc]
      by (simp add: handle_smc_complete_def Let_def)
  qed
  then show ?thesis using that by blast
qed

lemma registration_complete_keys:
  assumes "amf_keys_ok C K s"
  obtains s' acts where "handle_registration_complete C P a nas s = Some (s', acts)" "amf_keys_ok C K s'"
proof -
  let ?us = "am_states s a"
  have us: "state_keys_ok C K ?us" by (rule amf_keys_state [OF assms])
  have "\<exists>s' acts. handle_registration_complete C P a nas s = Some (s', acts) \<and> amf_keys_ok C K s'"
  proof (cases rule: state_keys_cases [OF us])
    case 1
    then show ?thesis using assms by (simp add: handle_registration_complete_def)
  next
    case (2 kamf)
    let ?ki = "derive_knas_int C kamf 2" and ?ke = "derive_knas_enc C kamf 2"
    obtain o1 where o1: "decode_registration_complete C ?ki ?ke 1 nas = Some o1"
      using decode_bare_message_safe [of C ?ki ?ke sht_ciphered "0x43" 1 nas]
      by (auto simp: decode_registration_complete_def)
    let ?reg = "register_ue (us_supi ?us) (service_entry a (us_amf_ue_id ?us) (us_ran_ue_id ?us) ?ki ?ke 2) (am_registry s)"
    have reg: "amf_keys_ok C K (s\<lparr>am_registry := ?reg\<rparr>)"
    proof (rule keys_registry [OF assms])
      fix supi e
      assume "?reg supi = Some e"
      moreover have "entry_keys_ok C K (service_entry a (us_amf_ue_id ?us) (us_ran_ue_id ?us) ?ki ?ke 2)"
        using 2(2) by (auto intro!: service_entry_keys simp: keys_from_def)
      ultimately show "entry_keys_ok C K e" using register_keys [OF assms] by blast
    qed
    have st: "amf_keys_ok C K (set_state a us' (s\<lparr>am_registry := ?reg\<rparr>))"
      "amf_keys_ok C K (set_state a us' (s\<lparr>am_registry := ?reg, am_sessions := x\<rparr>))"
      if "us_kamf us' = us_kamf ?us" "us_knas_int us' = us_knas_int ?us" "us_knas_enc us' = us_knas_enc ?us" for us' x
      using state_keys_kept [OF us that] reg by (auto intro!: keys_set_state simp: keys_other)
    show ?thesis
    proof (cases "o1 = Some True")
      case False
      then show ?thesis using 2 o1 assms by (simp add: handle_registration_complete_def Let_def)
    next
      case True
      then show ?thesis
        using 2 o1 by (auto simp: handle_registration_complete_def Let_def split: option.split intro!: st)
    qed
  qed
  then show ?thesis using that by blast
qed

lemma relay_sms_keys:
  assumes "amf_keys_ok C K s"
  obtains "try_relay_uplink_sms C cfg P a nas s = nullopt"
    | s' acts where "try_relay_uplink_sms C cfg P a nas s = ret (s', acts)" "amf_keys_ok C K s'"
proof -
  let ?us = "am_states s a"
  have us: "state_keys_ok C K ?us" by (rule amf_keys_state [OF assms])
  have kept: "amf_keys_ok C K (set_state a (?us\<lparr>us_next_uplink_count := n\<rparr>) s)" for n
    by (rule keys_set_state [OF assms state_keys_kept [OF us]]) simp_all
  have "try_relay_uplink_sms C cfg P a nas s = nullopt \<or>
      (\<exists>s' acts. try_relay_uplink_sms C cfg P a nas s = ret (s', acts) \<and> amf_keys_ok C K s')"
  proof (cases rule: state_keys_cases [OF us])
    case (2 kamf)
    let ?ki = "derive_knas_int C kamf 2" and ?ke = "derive_knas_enc C kamf 2"
    obtain u where u: "decode_ul_nas_transport C ?ki ?ke (us_next_uplink_count ?us) nas = Some u"
      using decode_ul_nas_transport_safe [of C ?ki ?ke] by auto
    show ?thesis
      using 2 u kept by (auto simp: try_relay_uplink_sms_def Let_def split: option.split)
  qed (simp add: try_relay_uplink_sms_def)
  then show ?thesis using that by blast
qed

lemma session_keys:
  assumes "amf_keys_ok C K s"
  obtains s' acts where "handle_pdu_session_establishment C P a nas s = Some (s', acts)" "amf_keys_ok C K s'"
proof -
  let ?us = "am_states s a"
  have us: "state_keys_ok C K ?us" by (rule amf_keys_state [OF assms])
  have kept: "amf_keys_ok C K (set_state a (?us\<lparr>us_phase := p, us_next_uplink_count := n\<rparr>) s)" for p n
    by (rule keys_set_state [OF assms state_keys_kept [OF us]]) simp_all
  have sent: "amf_keys_ok C K (set_state a (?us\<lparr>us_phase := p, us_next_uplink_count := n\<rparr>) s\<lparr>am_registry := reg\<rparr>)"
    if "send_dl_nas_transport C supi i x (am_registry s) = (reg, acts, b)" for p n reg supi i x acts b
    by (rule keys_registry [OF kept]) (rule send_dl_keys [OF assms that])
  have "\<exists>s' acts. handle_pdu_session_establishment C P a nas s = Some (s', acts) \<and> amf_keys_ok C K s'"
  proof (cases rule: state_keys_cases [OF us])
    case (2 kamf)
    let ?ki = "derive_knas_int C kamf 2" and ?ke = "derive_knas_enc C kamf 2"
    obtain u where u: "decode_ul_nas_transport C ?ki ?ke (us_next_uplink_count ?us) nas = Some u"
      using decode_ul_nas_transport_safe [of C ?ki ?ke] by auto
    show ?thesis
      using 2 u kept sent assms
      by (auto simp: handle_pdu_session_establishment_def Let_def keys_other
          split: option.split session_answer.split prod.split)
  qed (use assms in \<open>simp add: handle_pdu_session_establishment_def\<close>)
  then show ?thesis using that by blast
qed

lemma deregistration_keys:
  assumes "amf_keys_ok C K s"
  obtains s' acts where "handle_deregistration C P a nas s = Some (s', acts)" "amf_keys_ok C K s'"
proof -
  let ?us = "am_states s a"
  have us: "state_keys_ok C K ?us" by (rule amf_keys_state [OF assms])
  have kept: "amf_keys_ok C K (set_state a (?us\<lparr>us_deregistered := True\<rparr>) (s\<lparr>am_registry := reg, am_sessions := x\<rparr>))"
    if "\<And>supi e. reg supi = Some e \<Longrightarrow> entry_keys_ok C K e" for reg x
    by (rule keys_set_state [OF _ state_keys_kept [OF us]]) (use keys_registry [OF assms that] in \<open>simp_all add: keys_other\<close>)
  have "\<exists>s' acts. handle_deregistration C P a nas s = Some (s', acts) \<and> amf_keys_ok C K s'"
  proof (cases rule: state_keys_cases [OF us])
    case (2 kamf)
    let ?ki = "derive_knas_int C kamf 2" and ?ke = "derive_knas_enc C kamf 2"
    obtain d where d: "decode_deregistration_request C ?ki ?ke (us_next_uplink_count ?us) nas = Some d"
      using decode_deregistration_request_safe [of C ?ki ?ke] by auto
    have "\<exists>s' acts. handle_deregistration C P a nas s = Some (s', acts) \<and> amf_keys_ok C K s'"
      if "d = Some o1" "dr_mac_valid o1" for o1
    proof -
      obtain reg accept b where r: "(if dr_switch_off o1 then (am_registry s, [], True)
          else send_deregistration_accept C (us_supi ?us) (am_registry s)) = (reg, accept, b)"
        by (metis prod_cases3)
      have "entry_keys_ok C K e" if "reg supi = Some e" for supi e
        using r that send_accept_keys [OF assms] amf_keys_registry [OF assms] by (auto split: if_splits)
      from kept [OF this] show ?thesis
        using 2 d that r by (simp add: handle_deregistration_def Let_def)
    qed
    then show ?thesis
      using 2 d assms by (cases "\<exists>o1. d = Some o1 \<and> dr_mac_valid o1") (auto simp: handle_deregistration_def Let_def split: option.splits)
  qed (use assms in \<open>simp add: handle_deregistration_def\<close>)
  then show ?thesis using that by blast
qed

lemma unregister_keys:
  "amf_keys_ok C K s \<Longrightarrow> amf_keys_ok C K (s\<lparr>am_registry := unregister_named supi (am_registry s)\<rparr>)"
  by (auto simp: amf_keys_ok_def unregister_named_def unregister_ue_def split: if_splits)

lemma release_complete_keys:
  assumes "amf_keys_ok C K s"
  shows "amf_keys_ok C K (fst (handle_release_complete a s))"
proof -
  have "amf_keys_ok C K (s\<lparr>am_registry := reg, am_security := context_erase t (am_security s), am_index := i\<rparr>)"
    if "amf_keys_ok C K (s\<lparr>am_registry := reg\<rparr>)" for reg t i
    using that by (auto simp: amf_keys_ok_def context_erase_def)
  then show ?thesis
    using unregister_keys [OF assms]
    by (auto simp: handle_release_complete_def Let_def intro!: keys_set_state split: option.split)
qed

lemma path_switch_keys:
  assumes "amf_keys_ok C K s"
  shows "amf_keys_ok C K (fst (handle_path_switch_request C a r i sessions s))"
proof (cases "case am_index s i of None \<Rightarrow> None | Some tmsi \<Rightarrow> security_get tmsi (am_security s)")
  case (Some ctx)
  then have "K (sx_kamf ctx)"
    using amf_keys_security [OF assms] by (auto simp: security_get_def split: option.splits if_splits)
  then have e: "entry_keys_ok C K (service_entry a i r (derive_knas_int C (sx_kamf ctx) 2) (derive_knas_enc C (sx_kamf ctx) 2) n)" for n
    by (auto intro!: service_entry_keys simp: keys_from_def)
  show ?thesis
    using Some assms register_keys [OF assms e] keys_registry [OF assms]
    by (auto simp: handle_path_switch_request_def Let_def)
qed (use assms in \<open>simp add: handle_path_switch_request_def\<close>)

lemma uplink_keys:
  assumes "amf_keys_ok C K s" "us_phase (am_states s a) \<noteq> Awaiting_Authentication_Response"
  obtains s' acts where "handle_uplink C cfg P a nas s = Some (s', acts)" "amf_keys_ok C K s'"
proof (cases "us_phase (am_states s a)")
  case Awaiting_Security_Mode_Complete
  obtain s1 acts1 where "handle_smc_complete C cfg P a nas s = Some (s1, acts1)" "amf_keys_ok C K s1"
    by (rule smc_complete_keys [OF assms(1)])
  then show ?thesis using that [of s1 acts1] Awaiting_Security_Mode_Complete by (simp add: handle_uplink_def)
next
  case Awaiting_Registration_Complete
  obtain s1 acts1 where "handle_registration_complete C P a nas s = Some (s1, acts1)" "amf_keys_ok C K s1"
    by (rule registration_complete_keys [OF assms(1)])
  then show ?thesis using that [of s1 acts1] Awaiting_Registration_Complete by (simp add: handle_uplink_def)
next
  case Awaiting_Session_Request
  show ?thesis
  proof (rule relay_sms_keys [OF assms(1), of cfg P a nas])
    assume r: "try_relay_uplink_sms C cfg P a nas s = nullopt"
    obtain s1 acts1 where "handle_pdu_session_establishment C P a nas s = Some (s1, acts1)" "amf_keys_ok C K s1"
      by (rule session_keys [OF assms(1)])
    then show ?thesis using that [of s1 acts1] Awaiting_Session_Request r by (simp add: handle_uplink_def)
  next
    fix s1 acts1
    assume "try_relay_uplink_sms C cfg P a nas s = ret (s1, acts1)" "amf_keys_ok C K s1"
    then show ?thesis using that [of s1 acts1] Awaiting_Session_Request by (simp add: handle_uplink_def)
  qed
next
  case Done_Phase
  show ?thesis
  proof (rule relay_sms_keys [OF assms(1), of cfg P a nas])
    assume r: "try_relay_uplink_sms C cfg P a nas s = nullopt"
    obtain s1 acts1 where "handle_deregistration C P a nas s = Some (s1, acts1)" "amf_keys_ok C K s1"
      by (rule deregistration_keys [OF assms(1)])
    then show ?thesis using that [of s1 acts1] Done_Phase r by (simp add: handle_uplink_def)
  next
    fix s1 acts1
    assume "try_relay_uplink_sms C cfg P a nas s = ret (s1, acts1)" "amf_keys_ok C K s1"
    then show ?thesis using that [of s1 acts1] Done_Phase by (simp add: handle_uplink_def)
  qed
qed (use assms(2) in simp)

lemma handle_event_keys:
  assumes "amf_keys_ok C K s"
    "\<And>i x kseaf name. Ask_Confirmation i x \<in> set acts \<Longrightarrow>
       confirmed_kseaf (ausf_confirm P i x) = Some kseaf \<Longrightarrow> K (derive_kamf C kseaf name [0, 0])"
    "handle_event C cfg P a e s = Some (s', acts)"
  shows "amf_keys_ok C K s'"
proof (cases e)
  case (Initial_Ue_Message nas rid)
  then show ?thesis using initial_message_keys [OF assms(1)] assms(3) by simp
next
  case (Uplink_Nas nas)
  show ?thesis
  proof (cases "us_phase (am_states s a) = Awaiting_Authentication_Response")
    case True
    then have h: "handle_uplink_nas_transport C P a nas s = Some (s', acts)"
      using assms(3) Uplink_Nas by (simp add: handle_uplink_def)
    show ?thesis by (rule authentication_keys [OF assms(1) h]) (rule assms(2))
  next
    case False
    obtain s1 acts1 where "handle_uplink C cfg P a nas s = Some (s1, acts1)" "amf_keys_ok C K s1"
      by (rule uplink_keys [OF assms(1) False])
    then show ?thesis using assms(3) Uplink_Nas by simp
  qed
next
  case Release_Complete
  then show ?thesis using assms(3) release_complete_keys [OF assms(1), of a] by simp
next
  case (Path_Switch r i ss)
  then show ?thesis using assms(3) path_switch_keys [OF assms(1), of a r i ss] by simp
next
  case Association_Lost
  then show ?thesis using assms(3) unregister_keys [OF assms(1)] by (auto intro!: keys_set_state)
next
  case (Transfer_N1 supi i x)
  obtain reg acts' b where t: "send_dl_nas_transport C supi i x (am_registry s) = (reg, acts', b)" by (metis prod_cases3)
  have "amf_keys_ok C K (s\<lparr>am_registry := reg\<rparr>)"
    by (rule keys_registry [OF assms(1)]) (rule send_dl_keys [OF assms(1) t])
  then show ?thesis using assms(3) Transfer_N1 t by simp
next
  case (Transfer_Sms supi x)
  obtain reg acts' b where t: "send_dl_nas_sms C supi x (am_registry s) = (reg, acts', b)" by (metis prod_cases3)
  have "amf_keys_ok C K (s\<lparr>am_registry := reg\<rparr>)"
    by (rule keys_registry [OF assms(1)]) (rule send_sms_keys [OF assms(1) t])
  then show ?thesis using assms(3) Transfer_Sms t by simp
qed (use assms in \<open>auto simp: handle_release_request_def\<close>)

lemma service_request_answers: "\<exists>s' acts. handle_service_request C a rid nas s = Some (s', acts)"
proof -
  obtain peeked where p: "peek_service_request_tmsi nas = Some peeked"
    using peek_service_request_tmsi_safe by blast
  show ?thesis
  proof (cases peeked)
    case None
    then show ?thesis using p by (simp add: handle_service_request_def)
  next
    case (Some t)
    show ?thesis
    proof (cases "security_get t (am_security s)")
      case None
      then show ?thesis using p Some by (simp add: handle_service_request_def Let_def)
    next
      fix ctx
      assume g: "security_get t (am_security s) = Some ctx"
      obtain st n where up: "next_uplink_count t (am_security s) = (st, n)" by fastforce
      obtain st' m where dn: "next_downlink_count t st = (st', m)" by fastforce
      obtain d where "decode_service_request C (derive_knas_int C (sx_kamf ctx) 2) n nas = Some d"
        using decode_service_request_safe [of C "derive_knas_int C (sx_kamf ctx) 2" n nas] by blast
      then show ?thesis
        using p Some g up dn by (auto simp: handle_service_request_def Let_def split: option.split)
    qed
  qed
qed

lemma initial_message_answers: "\<exists>s' acts. handle_initial_ue_message C P a nas rid s = Some (s', acts)"
proof -
  obtain d where d: "decode_registration_request nas = Some d" using decode_registration_request_safe by blast
  show ?thesis
    using d service_request_answers
    by (cases d) (auto simp: handle_initial_ue_message_def Let_def split: prod.split)
qed

lemma authentication_answers: "\<exists>s' acts. handle_uplink_nas_transport C P a nas s = Some (s', acts)"
proof -
  obtain d where d: "decode_authentication_outcome nas = Some d" using decode_authentication_outcome_safe by blast
  then show ?thesis
    by (auto simp: handle_uplink_nas_transport_def Let_def split: option.split prod.split)
qed

lemma handle_event_answers:
  assumes "amf_keys_ok C K s"
  shows "\<exists>s' acts. handle_event C cfg P a e s = Some (s', acts)"
proof (cases e)
  case (Initial_Ue_Message nas rid)
  then show ?thesis using initial_message_answers by simp
next
  case (Uplink_Nas nas)
  show ?thesis
  proof (cases "us_phase (am_states s a) = Awaiting_Authentication_Response")
    case True
    then show ?thesis using Uplink_Nas authentication_answers by (simp add: handle_uplink_def)
  next
    case False
    obtain s1 acts1 where "handle_uplink C cfg P a nas s = Some (s1, acts1)"
      by (rule uplink_keys [OF assms False])
    then show ?thesis using Uplink_Nas by simp
  qed
qed (auto split: prod.split)

section \<open>Runs\<close>

lemma keys_mono:
  assumes "amf_keys_ok C K s" "\<And>k. K k \<Longrightarrow> K' k"
  shows "amf_keys_ok C K' s"
  using assms(1) by (fastforce simp: amf_keys_ok_def state_keys_ok_def entry_keys_ok_def dest!: assms(2))

lemma confirmedI:
  "(P, acts) \<in> set history \<Longrightarrow> Ask_Confirmation i x \<in> set acts \<Longrightarrow>
   confirmed_kseaf (ausf_confirm P i x) = Some kseaf \<Longrightarrow> confirmed C history (derive_kamf C kseaf name [0, 0])"
  unfolding confirmed_def by blast

lemma initial_keys [simp]: "amf_keys_ok C K initial_amf"
  by (simp add: amf_keys_ok_def initial_amf_def)

lemma run_amf_answers:
  "amf_keys_ok C (\<lambda>_. True) s \<Longrightarrow> \<exists>s' history. run_amf C cfg es s = Some (s', history)"
proof (induction es arbitrary: s)
  case (Cons x es)
  obtain P a e where x: "x = (P, a, e)" by (cases x)
  obtain s1 acts where s1: "handle_event C cfg P a e s = Some (s1, acts)" using handle_event_answers [OF Cons.prems] by blast
  have "amf_keys_ok C (\<lambda>_. True) s1" by (rule handle_event_keys [OF Cons.prems _ s1]) simp
  then obtain s2 history where "run_amf C cfg es s1 = Some (s2, history)" using Cons.IH by blast
  then show ?case using x s1 by simp
qed simp

lemma run_amf_keys:
  assumes "run_amf C cfg es s = Some (s', history)" "amf_keys_ok C K s" "\<And>k. confirmed C history k \<Longrightarrow> K k"
  shows "amf_keys_ok C K s'"
  using assms
proof (induction es arbitrary: s history)
  case (Cons x es)
  obtain P a e where x: "x = (P, a, e)" by (cases x)
  obtain s1 acts rest where s1: "handle_event C cfg P a e s = Some (s1, acts)"
    and rest: "run_amf C cfg es s1 = Some (s', rest)" and h: "history = (P, acts) # rest"
    using Cons.prems(1) x by (auto simp: bind_eq_Some_conv)
  have K: "K k" if "confirmed C rest k" for k
    using that Cons.prems(3) by (fastforce simp: h confirmed_def)
  have "amf_keys_ok C K s1"
  proof (rule handle_event_keys [OF Cons.prems(2) _ s1])
    fix i r kseaf name
    assume "Ask_Confirmation i r \<in> set acts" "confirmed_kseaf (ausf_confirm P i r) = Some kseaf"
    then show "K (derive_kamf C kseaf name [0, 0])" by (intro Cons.prems(3) confirmedI [of P acts]) (simp_all add: h)
  qed
  then show ?case by (rule Cons.IH [OF rest]) (rule K)
qed simp


text \<open>Property C24: no terminal is served with a key of unknown origin. After any sequence of events, every
  stored security context, every association that has keys and every entry of the registry has the keys of a
  KAMF whose KSEAF the authentication server confirmed, for a response the access function had sent it.\<close>

theorem keys_come_from_home:
  assumes "run_amf C cfg es initial_amf = Some (s, history)"
  shows "amf_keys_ok C (confirmed C history) s"
  by (rule run_amf_keys [OF assms]) simp_all

section \<open>The steps of a registration\<close>

text \<open>What the registration leaves in the association, whatever was there.\<close>

definition challenged :: "amf \<Rightarrow> nat \<Rightarrow> string \<Rightarrow> bool \<Rightarrow> u64 \<Rightarrow> ue_auth_state" where
  "challenged s a supi sms rid = (am_states s a)\<lparr>us_amf_ue_id := am_next_ue_id s, us_ran_ue_id := rid,
     us_capability := [0xE0, 0xE0], us_sms_requested := sms, us_supi := supi\<rparr>"

definition supi_ok :: "string \<Rightarrow> bool" where
  "supi_ok supi \<longleftrightarrow> (take 5 supi = ''imsi-'' \<and> 10 \<le> length supi \<and> length supi < 65536 \<and> list_all digit (drop 5 supi))"

lemma supi_ok_decodes:
  assumes "supi_ok supi"
  shows "decode_registration_request (build_registration_request supi sms) =
    ret \<lparr>ri_supi = supi, ri_capability = [0xE0, 0xE0], ri_sms_requested = sms\<rparr>"
proof (rule registration_request_decodes)
  show "supi = ''imsi-'' @ drop 5 supi"
    using assms append_take_drop_id [of 5 supi] by (simp add: supi_ok_def del: append_take_drop_id)
qed (use assms in \<open>auto simp: supi_ok_def list_all_iff\<close>)

lemma supi_ok_strip: "supi_ok supi \<Longrightarrow> strip_imsi_prefix supi = drop 5 supi"
  by (simp add: supi_ok_def strip_imsi_prefix_def)

lemma registration_step:
  assumes "supi_ok supi" "initiate_5g_aka_authentication P a None (challenged s a supi sms rid) = (us', acts)"
  shows "handle_event C cfg P a (Initial_Ue_Message (build_registration_request supi sms) rid) s =
    Some (set_state a us' (s\<lparr>am_next_ue_id := am_next_ue_id s + 1\<rparr>), acts)"
  using assms by (simp add: handle_initial_ue_message_def supi_ok_decodes challenged_def Let_def)

lemma challenge_keeps:
  assumes "initiate_5g_aka_authentication P a r us = (us', acts)"
  shows "us_phase us' = us_phase us" "us_supi us' = us_supi us" "us_kamf us' = us_kamf us"
    "us_knas_int us' = us_knas_int us" "us_knas_enc us' = us_knas_enc us" "us_amf_ue_id us' = us_amf_ue_id us"
    "us_ran_ue_id us' = us_ran_ue_id us" "us_sms_requested us' = us_sms_requested us" "us_sms_allowed us' = us_sms_allowed us"
    "us_capability us' = us_capability us" "us_deregistered us' = us_deregistered us"
    "Ask_Confirmation i x \<notin> set acts"
  using assms
  by (auto simp: initiate_5g_aka_authentication_def Let_def
      split: option.splits reply.splits n5g_auth_data.splits if_splits)

lemma challenge_sent:
  assumes "ausf_authenticate P (us_supi us) r = Some (Reply 201 ctx)" "uc_auth_type ctx = V5G_AKA"
    "uc_auth_data ctx = N5g_Av rand_text h autn_text" "from_hex_array 16 rand_text = Some rand"
    "from_hex_array 16 autn_text = Some autn"
  shows "initiate_5g_aka_authentication P a r us =
    (us\<lparr>us_confirmation := Some (uc_auth_ctx_id ctx), us_last_rand := Some rand\<rparr>,
     [Ask_Authentication (us_supi us) r, Downlink_Nas a (us_amf_ue_id us) (us_ran_ue_id us) (encode_authentication_request rand autn 0)])"
  using assms by (simp add: initiate_5g_aka_authentication_def Let_def)

definition keys_of :: "crypto \<Rightarrow> octets \<Rightarrow> nas_keys" where
  "keys_of C kamf = \<lparr>nk_int = derive_knas_int C kamf 2, nk_enc = derive_knas_enc C kamf 2\<rparr>"

lemma response_step:
  assumes "us_phase (am_states s a) = Awaiting_Authentication_Response" "us_confirmation (am_states s a) = Some i"
    "length res_star = 16" "confirmed_kseaf (ausf_confirm P i (to_hex res_star)) = Some kseaf"
    "us = keys_of_kseaf C kseaf (am_states s a)"
  shows "handle_event C cfg P a (Uplink_Nas (build_authentication_response res_star)) s =
    Some (set_state a us s, [Ask_Confirmation i (to_hex res_star),
      Downlink_Nas a (us_amf_ue_id us) (us_ran_ue_id us) (encode_security_mode_command C (the (us_knas_int us)) (us_capability us) 0)])"
  using assms
  by (simp add: handle_uplink_def handle_uplink_nas_transport_def authentication_response_decodes Let_def)
    (simp add: keys_of_kseaf_def Let_def)

lemma mode_complete_step:
  assumes "openssl_ok C" "us_phase (am_states s a) = Awaiting_Security_Mode_Complete"
    "us_kamf (am_states s a) = Some kamf" "us_knas_int (am_states s a) = Some (nk_int (keys_of C kamf))"
    "us_knas_enc (am_states s a) = Some (nk_enc (keys_of C kamf))"
    "report_ue_to_nsacf cfg P (us_supi (am_states s a)) = (True, asked)"
  shows "handle_event C cfg P a (Uplink_Nas (build_security_mode_complete C (keys_of C kamf) 0)) s =
    (let (s', acts) = accept_registration C cfg P a kamf (nk_int (keys_of C kamf)) (nk_enc (keys_of C kamf)) s
     in Some (s', asked @ acts))"
  using assms by (simp add: handle_uplink_def handle_smc_complete_def security_mode_complete_decodes Let_def)

lemma registration_complete_step:
  assumes "openssl_ok C" "us_phase (am_states s a) = Awaiting_Registration_Complete"
    "us_knas_int (am_states s a) = Some (nk_int keys)" "us_knas_enc (am_states s a) = Some (nk_enc keys)"
    "us = am_states s a"
  shows "\<exists>s' acts. handle_event C cfg P a (Uplink_Nas (build_registration_complete C keys 1)) s = Some (s', acts) \<and>
    am_registry s' = register_ue (us_supi us) (service_entry a (us_amf_ue_id us) (us_ran_ue_id us) (nk_int keys) (nk_enc keys) 2) (am_registry s) \<and>
    am_security s' = am_security s \<and> set acts \<subseteq> {Ask_Policy (us_supi us)} \<and>
    am_states s' a = us\<lparr>us_phase := Awaiting_Session_Request, us_next_uplink_count := 2,
      us_pol_asso_id := us_pol_asso_id (am_states s' a)\<rparr> \<and> am_index s' = am_index s"
  using assms
  by (auto simp: handle_uplink_def handle_registration_complete_def registration_complete_decodes Let_def set_state_def
      split: option.split)

section \<open>A terminal that changes its name\<close>

definition asked_confirmations :: "action list \<Rightarrow> (string \<times> string) list" where
  "asked_confirmations acts = concat (map (\<lambda>q. case q of Ask_Confirmation i x \<Rightarrow> [(i, x)] | _ \<Rightarrow> []) acts)"

lemma asked_confirmations_simps [simp]:
  "asked_confirmations [] = []"
  "asked_confirmations (q # acts) = (case q of Ask_Confirmation i x \<Rightarrow> [(i, x)] | _ \<Rightarrow> []) @ asked_confirmations acts"
  "asked_confirmations (acts @ acts') = asked_confirmations acts @ asked_confirmations acts'"
  by (simp_all add: asked_confirmations_def)

lemma no_confirmations: "(\<And>i x. Ask_Confirmation i x \<notin> set acts) \<Longrightarrow> asked_confirmations acts = []"
  by (auto simp: asked_confirmations_def split: action.splits)

lemma report_asks: "report_ue_to_nsacf cfg P supi = (b, asked) \<Longrightarrow> asked_confirmations asked = []"
  by (auto simp: report_ue_to_nsacf_def split: if_splits)

text \<open>The five messages of the terminal: its own registration and response, then a registration
  for another identity and the rest of the procedure under its own keys.\<close>

definition renaming_run :: "crypto \<Rightarrow> peers \<Rightarrow> nat \<Rightarrow> string \<Rightarrow> string \<Rightarrow> octets \<Rightarrow> nas_keys \<Rightarrow> (peers \<times> nat \<times> amf_event) list" where
  "renaming_run C P a self victim res_star keys = map (\<lambda>e. (P, a, e))
     [Initial_Ue_Message (build_registration_request self False) 1,
      Uplink_Nas (build_authentication_response res_star),
      Initial_Ue_Message (build_registration_request victim False) 2,
      Uplink_Nas (build_security_mode_complete C keys 0),
      Uplink_Nas (build_registration_complete C keys 1)]"

lemma run_step:
  assumes "handle_event C cfg P a e s = Some (s1, acts)" "run_amf C cfg es s1 = Some (s2, history)"
  shows "run_amf C cfg ((P, a, e) # es) s = Some (s2, (P, acts) # history)"
  using assms by simp

text \<open>Property C25: a terminal can register under an identity that is not its own. It authenticates as itself,
  and while the access function waits for its SecurityModeComplete it sends a second RegistrationRequest that
  names somebody else: \<open>handle_initial_ue_message\<close> replaces the identity of the association and keeps the phase
  and the keys. Whatever the authentication server answers about the victim, the terminal's own
  SecurityModeComplete is then accepted, a security context of the victim is stored with the terminal's key,
  and after RegistrationComplete the registry delivers the victim's messages to the terminal under its keys.
  The only confirmation ever asked for is the terminal's own.\<close>

theorem registers_as_another:
  assumes "openssl_ok C" "supi_ok self" "supi_ok victim"
    "ausf_authenticate P self None = Some (Reply 201 ctx)" "uc_auth_type ctx = V5G_AKA"
    "uc_auth_data ctx = N5g_Av rand_text h autn_text" "from_hex_array 16 rand_text = Some rand"
    "from_hex_array 16 autn_text = Some autn"
    "length res_star = 16" "confirmed_kseaf (ausf_confirm P (uc_auth_ctx_id ctx) (to_hex res_star)) = Some kseaf"
    "report_ue_to_nsacf cfg P victim = (True, asked)"
    "kamf = derive_kamf C kseaf (drop 5 self) [0, 0]"
  shows "\<exists>s history e stored.
    run_amf C cfg (renaming_run C P a self victim res_star (keys_of C kamf)) initial_amf = Some (s, history) \<and>
    am_security s 1 = Some stored \<and> sx_supi stored = victim \<and> sx_kamf stored = kamf \<and>
    am_registry s victim = Some e \<and> re_assoc e = a \<and>
    re_knas_int e = nk_int (keys_of C kamf) \<and> re_knas_enc e = nk_enc (keys_of C kamf) \<and>
    asked_confirmations (concat (map snd history)) = [(uc_auth_ctx_id ctx, to_hex res_star)]"
proof -
  let ?k = "keys_of C kamf"
  define us1 where "us1 = (challenged initial_amf a self False 1)\<lparr>us_confirmation := Some (uc_auth_ctx_id ctx), us_last_rand := Some rand\<rparr>"
  define s1 where "s1 = set_state a us1 (initial_amf\<lparr>am_next_ue_id := am_next_ue_id initial_amf + 1\<rparr>)"
  have "us_supi (challenged initial_amf a self False 1) = self" by (simp add: challenged_def)
  note i1 = challenge_sent [where us = "challenged initial_amf a self False 1" and r = None and a = a, unfolded this,
      OF assms(4-8), folded us1_def]
  note e1 = registration_step [OF assms(2) i1, folded s1_def]
  have us1: "us_phase us1 = Awaiting_Authentication_Response" "us_supi us1 = self" "us_confirmation us1 = Some (uc_auth_ctx_id ctx)"
    "us_sms_allowed us1 = False"
    by (simp_all add: us1_def challenged_def initial_amf_def fresh_state_def)
  define us2 where "us2 = keys_of_kseaf C kseaf us1"
  define s2 where "s2 = set_state a us2 s1"
  have st1: "am_states s1 a = us1" by (simp add: s1_def set_state_def)
  note e2 = response_step [where s = s1 and a = a, unfolded st1, OF us1(1,3) assms(9,10) us2_def, folded s2_def]
  have us2: "us_phase us2 = Awaiting_Security_Mode_Complete" "us_kamf us2 = Some kamf"
    "us_knas_int us2 = Some (nk_int ?k)" "us_knas_enc us2 = Some (nk_enc ?k)" "us_sms_allowed us2 = False"
    using assms(2,12) us1 by (simp_all add: us2_def keys_of_kseaf_def keys_of_def Let_def supi_ok_strip)
  obtain us3 acts3 where i3: "initiate_5g_aka_authentication P a None (challenged s2 a victim False 2) = (us3, acts3)" by fastforce
  define s3 where "s3 = set_state a us3 (s2\<lparr>am_next_ue_id := am_next_ue_id s2 + 1\<rparr>)"
  note e3 = registration_step [OF assms(3) i3, folded s3_def]
  have st2: "am_states s2 a = us2" by (simp add: s2_def set_state_def)
  have us3: "us_phase us3 = Awaiting_Security_Mode_Complete" "us_kamf us3 = Some kamf"
    "us_knas_int us3 = Some (nk_int ?k)" "us_knas_enc us3 = Some (nk_enc ?k)" "us_supi us3 = victim"
    "us_sms_requested us3 = False" "us_sms_allowed us3 = False"
    using us2 challenge_keeps [OF i3] by (simp_all add: challenged_def st2)
  have st3: "am_states s3 a = us3" by (simp add: s3_def set_state_def)
  obtain s4 acts4 where acc: "accept_registration C cfg P a kamf (nk_int ?k) (nk_enc ?k) s3 = (s4, acts4)" by fastforce
  have e4: "handle_event C cfg P a (Uplink_Nas (build_security_mode_complete C ?k 0)) s3 = Some (s4, asked @ acts4)"
    using mode_complete_step [where s = s3 and a = a and kamf = kamf and cfg = cfg and P = P and asked = asked, unfolded st3] assms us3 acc
    by simp
  have n3: "am_next_tmsi s3 = 0" by (simp add: s3_def s2_def s1_def set_state_def initial_amf_def)
  obtain stored where s4: "am_security s4 1 = Some stored" "sx_supi stored = victim" "sx_kamf stored = kamf"
    and us4: "us_phase (am_states s4 a) = Awaiting_Registration_Complete" "us_supi (am_states s4 a) = victim"
      "us_knas_int (am_states s4 a) = Some (nk_int ?k)" "us_knas_enc (am_states s4 a) = Some (nk_enc ?k)"
    and acts4: "asked_confirmations acts4 = []"
    using acc us3 by (auto simp: accept_registration_def st3 n3 Let_def allocate_tmsi_def context_put_def set_state_def)
  obtain s5 acts5 where e5: "handle_event C cfg P a (Uplink_Nas (build_registration_complete C ?k 1)) s4 = Some (s5, acts5)"
    and s5: "am_registry s5 = register_ue victim (service_entry a (us_amf_ue_id (am_states s4 a)) (us_ran_ue_id (am_states s4 a))
        (nk_int ?k) (nk_enc ?k) 2) (am_registry s4)" "am_security s5 = am_security s4" "set acts5 \<subseteq> {Ask_Policy victim}"
    using registration_complete_step [OF assms(1) us4(1,3,4) refl, of cfg P] us4(2) by auto
  have n5: "asked_confirmations acts5 = []" by (rule no_confirmations) (use s5(3) in auto)
  have n3': "asked_confirmations acts3 = []" by (rule no_confirmations) (rule challenge_keeps(12) [OF i3])
  obtain e where e: "am_registry s5 victim = Some e" "re_assoc e = a" "re_knas_int e = nk_int ?k" "re_knas_enc e = nk_enc ?k"
    by (simp add: s5(1) register_ue_def service_entry_def)
  note run = run_step [OF e1 run_step [OF e2 run_step [OF e3 run_step [OF e4 run_step [OF e5 run_amf.simps(1)]]]]]
  show ?thesis
    unfolding renaming_run_def list.map
    by (intro exI conjI, rule run)
      (use s4 e n5 n3' acts4 report_asks [OF assms(11)] in \<open>simp_all add: s5(2)\<close>)
qed

section \<open>A terminal that registers\<close>

definition attach_events :: "crypto \<Rightarrow> peers \<Rightarrow> nat \<Rightarrow> string \<Rightarrow> octets \<Rightarrow> nas_keys \<Rightarrow> (peers \<times> nat \<times> amf_event) list" where
  "attach_events C P a supi res_star keys = map (\<lambda>e. (P, a, e))
     [Initial_Ue_Message (build_registration_request supi False) 1,
      Uplink_Nas (build_authentication_response res_star),
      Uplink_Nas (build_security_mode_complete C keys 0),
      Uplink_Nas (build_registration_complete C keys 1)]"

text \<open>What the network has sent to the terminal of an association.\<close>

definition downlinks :: "nat \<Rightarrow> (peers \<times> action list) list \<Rightarrow> octets list" where
  "downlinks a history =
     concat (map (\<lambda>q. case q of Downlink_Nas b i r x \<Rightarrow> if b = a then [x] else [] | _ \<Rightarrow> []) (concat (map snd history)))"

lemma report_sends_nothing:
  "report_ue_to_nsacf cfg P supi = (b, asked) \<Longrightarrow> downlinks a ((P', asked) # history) = downlinks a history"
  by (auto simp: report_ue_to_nsacf_def downlinks_def split: if_splits)

lemma downlinks_simps [simp]:
  "downlinks a [] = []"
  "downlinks a ((P, []) # history) = downlinks a history"
  "downlinks a ((P, q # acts) # history) = (case q of Downlink_Nas b i r x \<Rightarrow> if b = a then [x] else [] | _ \<Rightarrow> []) @
     downlinks a ((P, acts) # history)"
  "downlinks a ((P, acts @ acts') # history) = downlinks a ((P, acts) # (P, acts') # history)"
  by (simp_all add: downlinks_def)

definition attached :: "crypto \<Rightarrow> nat \<Rightarrow> string \<Rightarrow> octets \<Rightarrow> amf \<Rightarrow> bool" where
  "attached C a supi kamf s \<longleftrightarrow>
     am_security s 1 = Some \<lparr>sx_supi = supi, sx_kamf = kamf, sx_ngksi = 0, sx_uplink_count = 1, sx_downlink_count = 2,
       sx_capability = [0xE0, 0xE0]\<rparr> \<and>
     am_registry s supi = Some (service_entry a 1 1 (nk_int (keys_of C kamf)) (nk_enc (keys_of C kamf)) 2) \<and>
     am_index s 1 = Some 1 \<and>
     us_supi (am_states s a) = supi \<and> us_phase (am_states s a) = Awaiting_Session_Request \<and>
     us_kamf (am_states s a) = Some kamf \<and> us_knas_int (am_states s a) = Some (nk_int (keys_of C kamf)) \<and>
     us_knas_enc (am_states s a) = Some (nk_enc (keys_of C kamf)) \<and> us_next_uplink_count (am_states s a) = 2"

lemma attach_run:
  assumes "openssl_ok C" "supi_ok supi"
    "ausf_authenticate P supi None = Some (Reply 201 ctx)" "uc_auth_type ctx = V5G_AKA"
    "uc_auth_data ctx = N5g_Av rand_text h autn_text" "from_hex_array 16 rand_text = Some rand"
    "from_hex_array 16 autn_text = Some autn"
    "length res_star = 16" "confirmed_kseaf (ausf_confirm P (uc_auth_ctx_id ctx) (to_hex res_star)) = Some kseaf"
    "report_ue_to_nsacf cfg P supi = (True, asked)"
    "kamf = derive_kamf C kseaf (drop 5 supi) [0, 0]"
    "k = keys_of C kamf"
  obtains s history where
    "run_amf C cfg (attach_events C P a supi res_star k) initial_amf = Some (s, history)"
    "attached C a supi kamf s"
    "downlinks a history = [encode_authentication_request rand autn 0,
       encode_security_mode_command C (nk_int k) [0xE0, 0xE0] 0,
       encode_registration_accept C (nk_int k) (nk_enc k) 1 1 (cg_region_id cfg) (cg_set_id cfg) (cg_pointer cfg) False]"
    "asked_confirmations (concat (map snd history)) = [(uc_auth_ctx_id ctx, to_hex res_star)]"
proof -
  define us1 where "us1 = (challenged initial_amf a supi False 1)\<lparr>us_confirmation := Some (uc_auth_ctx_id ctx), us_last_rand := Some rand\<rparr>"
  define s1 where "s1 = set_state a us1 (initial_amf\<lparr>am_next_ue_id := am_next_ue_id initial_amf + 1\<rparr>)"
  have "us_supi (challenged initial_amf a supi False 1) = supi" by (simp add: challenged_def)
  note i1 = challenge_sent [where us = "challenged initial_amf a supi False 1" and r = None and a = a, unfolded this,
      OF assms(3-7), folded us1_def]
  note e1 = registration_step [OF assms(2) i1, folded s1_def]
  have us1: "us_phase us1 = Awaiting_Authentication_Response" "us_supi us1 = supi" "us_confirmation us1 = Some (uc_auth_ctx_id ctx)"
    "us_sms_allowed us1 = False" "us_sms_requested us1 = False" "us_amf_ue_id us1 = 1" "us_ran_ue_id us1 = 1" "us_capability us1 = [0xE0, 0xE0]"
    by (simp_all add: us1_def challenged_def initial_amf_def fresh_state_def)
  define us2 where "us2 = keys_of_kseaf C kseaf us1"
  define s2 where "s2 = set_state a us2 s1"
  have st1: "am_states s1 a = us1" by (simp add: s1_def set_state_def)
  note e2 = response_step [where s = s1 and a = a, unfolded st1, OF us1(1,3) assms(8,9) us2_def, folded s2_def]
  have us2: "us_phase us2 = Awaiting_Security_Mode_Complete" "us_kamf us2 = Some kamf" "us_supi us2 = supi"
    "us_knas_int us2 = Some (nk_int k)" "us_knas_enc us2 = Some (nk_enc k)" "us_sms_allowed us2 = False" "us_sms_requested us2 = False"
    "us_amf_ue_id us2 = 1" "us_ran_ue_id us2 = 1" "us_capability us2 = [0xE0, 0xE0]"
    using assms(2,11,12) us1 by (simp_all add: us2_def keys_of_kseaf_def keys_of_def Let_def supi_ok_strip)
  have st2: "am_states s2 a = us2" by (simp add: s2_def set_state_def)
  obtain s3 acts3 where acc: "accept_registration C cfg P a kamf (nk_int k) (nk_enc k) s2 = (s3, acts3)" by fastforce
  have e3: "handle_event C cfg P a (Uplink_Nas (build_security_mode_complete C k 0)) s2 = Some (s3, asked @ acts3)"
    using mode_complete_step [where s = s2 and a = a and kamf = kamf and cfg = cfg and P = P and asked = asked, unfolded st2] assms us2 acc
    by simp
  have n2: "am_next_tmsi s2 = 0" "am_security s2 = (\<lambda>_. None)" "am_registry s2 = (\<lambda>_. None)"
    by (simp_all add: s2_def s1_def set_state_def initial_amf_def)
  have acts3: "acts3 = [Downlink_Nas a 1 1 (encode_registration_accept C (nk_int k) (nk_enc k) 1 1 (cg_region_id cfg) (cg_set_id cfg) (cg_pointer cfg) False)]"
    using acc us2 by (simp add: accept_registration_def st2 n2 Let_def allocate_tmsi_def)
  have s3: "am_security s3 1 = Some \<lparr>sx_supi = supi, sx_kamf = kamf, sx_ngksi = 0, sx_uplink_count = 1, sx_downlink_count = 2,
       sx_capability = [0xE0, 0xE0]\<rparr>" "am_index s3 1 = Some 1"
    and us3: "us_phase (am_states s3 a) = Awaiting_Registration_Complete" "us_supi (am_states s3 a) = supi"
      "us_knas_int (am_states s3 a) = Some (nk_int k)" "us_knas_enc (am_states s3 a) = Some (nk_enc k)"
      "us_kamf (am_states s3 a) = Some kamf" "us_amf_ue_id (am_states s3 a) = 1" "us_ran_ue_id (am_states s3 a) = 1"
    using acc us2 by (auto simp: accept_registration_def st2 n2 Let_def allocate_tmsi_def context_put_def set_state_def)
  obtain s4 acts4 where e4: "handle_event C cfg P a (Uplink_Nas (build_registration_complete C k 1)) s3 = Some (s4, acts4)"
    and s4: "am_registry s4 = register_ue supi (service_entry a 1 1 (nk_int k) (nk_enc k) 2) (am_registry s3)"
      "am_security s4 = am_security s3" "set acts4 \<subseteq> {Ask_Policy supi}" "am_index s4 = am_index s3"
    and us4: "am_states s4 a = (am_states s3 a)\<lparr>us_phase := Awaiting_Session_Request, us_next_uplink_count := 2,
      us_pol_asso_id := us_pol_asso_id (am_states s4 a)\<rparr>"
    using registration_complete_step [OF assms(1) us3(1,3,4) refl, of cfg P] us3(2,6,7) by auto
  have d4: "downlinks a ((P, acts4) # []) = []" "asked_confirmations acts4 = []"
    using s4(3) by (auto simp: downlinks_def subset_iff split: action.splits intro!: no_confirmations)
  note run = run_step [OF e1 run_step [OF e2 run_step [OF e3 run_step [OF e4 run_amf.simps(1)]]]]
  from us2 have ki: "the (us_knas_int us2) = nk_int k" by simp
  have us5: "us_phase (am_states s4 a) = Awaiting_Session_Request" "us_supi (am_states s4 a) = supi"
    "us_knas_int (am_states s4 a) = Some (nk_int k)" "us_knas_enc (am_states s4 a) = Some (nk_enc k)"
    "us_kamf (am_states s4 a) = Some kamf" "us_next_uplink_count (am_states s4 a) = 2"
    by (subst us4, simp add: us3)+
  show thesis
    by (rule that, unfold attach_events_def list.map, rule run)
      (use s3 s4 us5 d4 us2 assms(12) report_asks [OF assms(10)] report_sends_nothing [OF assms(10)] in
        \<open>simp_all add: attached_def ki acts3 register_ue_def us1 challenged_def initial_amf_def\<close>)
qed

section \<open>Service requests and the stored count\<close>

definition service_attempts :: "crypto \<Rightarrow> peers \<Rightarrow> nat \<Rightarrow> octets \<Rightarrow> u32 \<Rightarrow> octet \<Rightarrow> nat \<Rightarrow> nat \<Rightarrow> (peers \<times> nat \<times> amf_event) list" where
  "service_attempts C P a knas_int tmsi service_type first k =
     map (\<lambda>i. (P, a, Initial_Ue_Message (build_genuine_service_request C knas_int (of_nat (first + i)) service_type 0 tmsi None) 1))
       [0..<k]"

text \<open>The code that a service request of the terminal carries under a count.\<close>

definition service_mac :: "crypto \<Rightarrow> octets \<Rightarrow> u32 \<Rightarrow> octet \<Rightarrow> nat \<Rightarrow> u32" where
  "service_mac C knas_int tmsi service_type n = nia2_mac C knas_int (of_nat n) 1 0
     (count_octet (of_nat n) # service_request_plain service_type 0 tmsi None)"

lemma service_request_is_no_registration:
  "decode_registration_request (build_genuine_service_request C ki n ty ngksi tmsi st) = nullopt"
  by (simp add: decode_registration_request_def build_genuine_service_request_def Let_def put_u32_def)

lemma service_request_refused:
  assumes "am_security s tmsi = Some ctx" "length (sx_kamf ctx) = 32" "service_type \<le> 0xF"
    "service_mac C ki tmsi service_type (sx_uplink_count ctx) \<noteq> service_mac C ki tmsi service_type m"
    "ki = derive_knas_int C (sx_kamf ctx) 2"
  shows "handle_event C cfg P a (Initial_Ue_Message (build_genuine_service_request C ki (of_nat m) service_type 0 tmsi None) rid) s =
    Some (s\<lparr>am_next_ue_id := am_next_ue_id s + 1,
            am_security := (am_security s)(tmsi \<mapsto> ctx\<lparr>sx_uplink_count := sx_uplink_count ctx + 1\<rparr>)\<rparr>, [])"
proof -
  have "decode_service_request C ki (of_nat (sx_uplink_count ctx))
      (build_genuine_service_request C ki (of_nat m) service_type 0 tmsi None) = ret no_service_info"
    using assms(3,4) service_request_decodes [where service_type = service_type and ngksi = 0 and C = C and ki = ki and tmsi = tmsi
        and st = None and n' = "of_nat (sx_uplink_count ctx)" and n = "of_nat m", OF assms(3) _ refl]
    by (simp add: service_mac_def)
  then show ?thesis
    using assms(1,2,3,5)
    by (simp add: handle_initial_ue_message_def service_request_is_no_registration handle_service_request_def
        service_request_peeks security_get_def next_uplink_count_def Let_def)
qed

lemma service_attempts_refused:
  assumes "am_security s tmsi = Some ctx" "length (sx_kamf ctx) = 32" "service_type \<le> 0xF"
    "\<And>i. i < k \<Longrightarrow> service_mac C ki tmsi service_type (sx_uplink_count ctx + i) \<noteq> service_mac C ki tmsi service_type (m + i)"
    "ki = derive_knas_int C (sx_kamf ctx) 2"
  shows "\<exists>s'. run_amf C cfg (service_attempts C P a ki tmsi service_type m k) s = Some (s', replicate k (P, [])) \<and>
    am_security s' tmsi = Some (ctx\<lparr>sx_uplink_count := sx_uplink_count ctx + k\<rparr>) \<and>
    am_registry s' = am_registry s \<and> am_states s' = am_states s"
  using assms
proof (induction k arbitrary: s ctx m)
  case 0
  then show ?case by (simp add: service_attempts_def)
next
  case (Suc k)
  let ?ctx = "ctx\<lparr>sx_uplink_count := sx_uplink_count ctx + 1\<rparr>"
  let ?s = "s\<lparr>am_next_ue_id := am_next_ue_id s + 1, am_security := (am_security s)(tmsi \<mapsto> ?ctx)\<rparr>"
  have e: "handle_event C cfg P a (Initial_Ue_Message (build_genuine_service_request C ki (of_nat m) service_type 0 tmsi None) 1) s = Some (?s, [])"
    using Suc.prems(4) [of 0] by (intro service_request_refused Suc.prems) simp
  have "service_mac C ki tmsi service_type (sx_uplink_count ?ctx + i) \<noteq> service_mac C ki tmsi service_type (Suc m + i)"
    if "i < k" for i using Suc.prems(4) [of "Suc i"] that by simp
  then obtain s' where r: "run_amf C cfg (service_attempts C P a ki tmsi service_type (Suc m) k) ?s = Some (s', replicate k (P, []))"
    and s': "am_security s' tmsi = Some (?ctx\<lparr>sx_uplink_count := sx_uplink_count ?ctx + k\<rparr>)"
      "am_registry s' = am_registry s" "am_states s' = am_states s"
    using Suc.IH [of ?s ?ctx "Suc m"] Suc.prems by auto
  have "service_attempts C P a ki tmsi service_type m (Suc k) =
      (P, a, Initial_Ue_Message (build_genuine_service_request C ki (of_nat m) service_type 0 tmsi None) 1) #
      service_attempts C P a ki tmsi service_type (Suc m) k"
    by (simp add: service_attempts_def upt_conv_Cons map_Suc_upt [symmetric] comp_def algebra_simps del: upt_Suc)
  then show ?case using run_step [OF e r] s' by simp
qed

text \<open>Property C26: a registered terminal that has gone idle is never served again by its service requests. The
  context stored with the RegistrationAccept expects uplink COUNT 1, which the RegistrationComplete then uses
  up, and nothing moves the stored count after it; the count only moves on when a request has been checked against
  it, and before it is. So the terminal's requests, with the counts 2, 3, 4 and so on, are checked with 1, 2, 3: however
  often it tries, as long as consecutive counts give different codes, no request is answered.\<close>

theorem service_requests_out_of_step:
  assumes "attached C b supi kamf s" "length kamf = 32" "service_type \<le> 0xF"
    "\<And>n. 0 < n \<Longrightarrow> n \<le> k \<Longrightarrow> service_mac C (nk_int (keys_of C kamf)) 1 service_type n \<noteq>
       service_mac C (nk_int (keys_of C kamf)) 1 service_type (n + 1)"
  shows "\<exists>s' ctx. run_amf C cfg (service_attempts C P a (nk_int (keys_of C kamf)) 1 service_type 2 k) s =
      Some (s', replicate k (P, [])) \<and>
    am_security s' 1 = Some ctx \<and> sx_uplink_count ctx = k + 1"
proof -
  obtain ctx where ctx: "am_security s 1 = Some ctx" "sx_kamf ctx = kamf" "sx_uplink_count ctx = 1"
    using assms(1) by (auto simp: attached_def)
  have "service_mac C (nk_int (keys_of C kamf)) 1 service_type (sx_uplink_count ctx + i) \<noteq>
      service_mac C (nk_int (keys_of C kamf)) 1 service_type (2 + i)" if "i < k" for i
    using assms(4) [of "i + 1"] that by (simp add: ctx(3))
  then show ?thesis
    using service_attempts_refused [OF ctx(1), of service_type k C "nk_int (keys_of C kamf)" 2 cfg P a] assms(2,3) ctx
    by (auto simp: keys_of_def)
qed

section \<open>Change of the base station and the registry\<close>

lemma transfer_step:
  assumes "am_registry s supi = Some e"
  shows "handle_event C cfg P a (Transfer_N1 supi i x) s =
    Some (s\<lparr>am_registry := (am_registry s)(supi \<mapsto> e\<lparr>re_next_downlink_count := re_next_downlink_count e + 1\<rparr>)\<rparr>,
      [Downlink_Nas (re_assoc e) (ucast (re_amf_ue_id e)) (ucast (re_ran_ue_id e))
         (encode_dl_nas_transport C (re_knas_int e) (re_knas_enc e) (re_next_downlink_count e) i x)])"
  using assms by (simp add: send_dl_nas_transport_def send_registered_def)

lemma path_switch_step:
  assumes "am_index s i = Some t" "am_security s t = Some ctx" "length (sx_kamf ctx) = 32" "sx_supi ctx \<noteq> []"
  shows "\<exists>nh. handle_event C cfg P b (Path_Switch rid i sessions) s =
    Some (s\<lparr>am_registry := (am_registry s)(sx_supi ctx \<mapsto> service_entry b i rid (nk_int (keys_of C (sx_kamf ctx)))
         (nk_enc (keys_of C (sx_kamf ctx))) (of_nat (sx_downlink_count ctx)))\<rparr>, [Path_Switch_Ack b i rid nh sessions])"
  using assms by (simp add: handle_path_switch_request_def security_get_def register_ue_def keys_of_def Let_def)

text \<open>Property C27: after a change of the base station the terminal is sent a second message under a COUNT that
  has been used. The registry counts the messages of the association, the stored context does not, and
  \<open>handle_path_switch_request\<close> starts again from the stored count: the message before the change and the one after
  it are protected with the same keys, count, bearer and direction, whatever they say.\<close>

theorem path_switch_reuses_count:
  assumes "attached C a supi kamf s" "length kamf = 32" "supi \<noteq> []" "k = keys_of C kamf"
  shows "\<exists>s' history.
    run_amf C cfg [(P, a, Transfer_N1 supi i x), (P, b, Path_Switch rid 1 sessions), (P, a, Transfer_N1 supi j y)] s =
      Some (s', history) \<and>
    concat (map (map (\<lambda>q. case q of Downlink_Nas _ _ _ m \<Rightarrow> [m] | _ \<Rightarrow> []) \<circ> snd) history) =
      [[encode_dl_nas_transport C (nk_int k) (nk_enc k) 2 i x], [], [encode_dl_nas_transport C (nk_int k) (nk_enc k) 2 j y]]"
proof -
  let ?e = "service_entry a 1 1 (nk_int k) (nk_enc k) 2"
  have r: "am_registry s supi = Some ?e" "am_index s 1 = Some 1" using assms(1,4) by (simp_all add: attached_def)
  obtain ctx where ctx: "am_security s 1 = Some ctx" "sx_kamf ctx = kamf" "sx_downlink_count ctx = 2" "sx_supi ctx = supi"
    using assms(1) by (auto simp: attached_def)
  note e1 = transfer_step [OF r(1), of C cfg P a i x]
  define s1 where "s1 = s\<lparr>am_registry := (am_registry s)(supi \<mapsto> ?e\<lparr>re_next_downlink_count := re_next_downlink_count ?e + 1\<rparr>)\<rparr>"
  obtain nh where e2: "handle_event C cfg P b (Path_Switch rid 1 sessions) s1 =
    Some (s1\<lparr>am_registry := (am_registry s1)(supi \<mapsto> service_entry b 1 rid (nk_int k) (nk_enc k) 2)\<rparr>, [Path_Switch_Ack b 1 rid nh sessions])"
    using path_switch_step [of s1 1 1 ctx C cfg P b rid sessions] r ctx assms(2-4) by (auto simp: s1_def)
  define s2 where "s2 = s1\<lparr>am_registry := (am_registry s1)(supi \<mapsto> service_entry b 1 rid (nk_int k) (nk_enc k) 2)\<rparr>"
  have "am_registry s2 supi = Some (service_entry b 1 rid (nk_int k) (nk_enc k) 2)" by (simp add: s2_def)
  note e3 = transfer_step [OF this, of C cfg P a j y]
  note run = run_step [OF e1 [folded s1_def] run_step [OF e2 [folded s2_def] run_step [OF e3 run_amf.simps(1)]]]
  show ?thesis
    by (intro exI conjI, rule run) (simp add: service_entry_def)
qed

text \<open>A terminal that has moved to another base station is lost when its former one goes. The loss of
  the former association unregisters its terminal by name, and the name now stands for the new association: the
  next message for the terminal is sent nowhere.\<close>

theorem moved_terminal_dropped:
  assumes "attached C a supi kamf s" "length kamf = 32" "supi \<noteq> []" "b \<noteq> a"
  shows "\<exists>s' nh. run_amf C cfg [(P, b, Path_Switch rid 1 sessions), (P, a, Association_Lost), (P, b, Transfer_N1 supi i x)] s =
    Some (s', [(P, [Path_Switch_Ack b 1 rid nh sessions]), (P, []), (P, [])]) \<and> am_registry s' supi = None"
proof -
  have r: "am_index s 1 = Some 1" "us_supi (am_states s a) = supi" using assms(1) by (simp_all add: attached_def)
  obtain ctx where ctx: "am_security s 1 = Some ctx" "sx_kamf ctx = kamf" "sx_supi ctx = supi"
    using assms(1) by (auto simp: attached_def)
  obtain nh where "handle_event C cfg P b (Path_Switch rid 1 sessions) s =
    Some (s\<lparr>am_registry := (am_registry s)(supi \<mapsto> service_entry b 1 rid (nk_int (keys_of C kamf)) (nk_enc (keys_of C kamf))
      (of_nat (sx_downlink_count ctx)))\<rparr>, [Path_Switch_Ack b 1 rid nh sessions])"
    using path_switch_step [OF r(1) ctx(1)] ctx assms(2,3) by blast
  then show ?thesis
    using r(2) assms(3)
    by (simp add: set_state_def unregister_named_def unregister_ue_def send_dl_nas_transport_def send_registered_def)
qed

text \<open>Property C28: a message is sent to an association that is gone. An association keeps one terminal, so a
  RegistrationRequest that reaches it after another terminal has registered there only replaces the name, without any
  authentication. When the association then closes it unregisters that name, the entry of the registered terminal stays
  with its pointer to the closed socket, and the next message for the terminal is sent through it.\<close>

theorem closed_association_used:
  assumes "attached C a supi kamf s" "supi_ok other" "other \<noteq> supi" "k = keys_of C kamf"
  shows "\<exists>s' acts. run_amf C cfg [(P, a, Initial_Ue_Message (build_registration_request other sms) rid), (P, a, Association_Lost),
      (Q, b, Transfer_N1 supi i x)] s =
    Some (s', [(P, acts), (P, []), (Q, [Downlink_Nas a 1 1 (encode_dl_nas_transport C (nk_int k) (nk_enc k) 2 i x)])]) \<and>
    asked_confirmations acts = []"
proof -
  obtain us acts where u: "initiate_5g_aka_authentication P a None (challenged s a other sms rid) = (us, acts)" by fastforce
  define s1 where "s1 = set_state a us (s\<lparr>am_next_ue_id := am_next_ue_id s + 1\<rparr>)"
  note e1 = registration_step [OF assms(2) u, folded s1_def, of C cfg]
  have other: "us_supi us = other" using challenge_keeps(2) [OF u] by (simp add: challenged_def)
  define s2 where "s2 = set_state a fresh_state (s1\<lparr>am_registry := unregister_named other (am_registry s1)\<rparr>)"
  have e2: "handle_event C cfg P a Association_Lost s1 = Some (s2, [])"
    by (simp add: s2_def s1_def set_state_def other)
  have "am_registry s2 supi = Some (service_entry a 1 1 (nk_int k) (nk_enc k) 2)"
    using assms(1,3,4) by (simp add: s2_def s1_def set_state_def attached_def unregister_named_def unregister_ue_def)
  then obtain s3 where e3: "handle_event C cfg Q b (Transfer_N1 supi i x) s2 =
      Some (s3, [Downlink_Nas a 1 1 (encode_dl_nas_transport C (nk_int k) (nk_enc k) 2 i x)])"
    using transfer_step [of s2 supi _ C cfg Q b i x] by (simp add: service_entry_def)
  note run = run_step [OF e1 run_step [OF e2 run_step [OF e3 run_amf.simps(1)]]]
  show ?thesis
    by (intro exI conjI, rule run) (rule no_confirmations, rule challenge_keeps(12) [OF u])
qed

section \<open>An instance\<close>

definition sample_name :: string where
  "sample_name = ''imsi-001010000000001''"

definition sample_peers :: peers where
  "sample_peers = \<lparr>
     ausf_authenticate = (\<lambda>supi r. if supi = sample_name
       then Some (Reply 201 \<lparr>uc_auth_type = V5G_AKA, uc_auth_data = N5g_Av (to_hex (replicate 16 1)) [] (to_hex (replicate 16 2)),
         uc_auth_ctx_id = ''authctx-1'', uc_serving_network_name = kServingNetworkName\<rparr>) else None),
     ausf_confirm = (\<lambda>i x. if x = to_hex (replicate 16 5)
       then Some (Reply 200 \<lparr>cf_success = True, cf_supi = Some sample_name, cf_kseaf = Some (to_hex (replicate 32 7))\<rparr>) else None),
     nsacf_answer = (\<lambda>_. None), smsf_status = (\<lambda>_. None), pcf_answer = (\<lambda>_. None), pcf_token = False,
     smf_answer = (\<lambda>_ _. Unusable_Answer), smf_token = False\<rparr>"

definition sample_config :: amf_config where
  "sample_config = \<lparr>cg_region_id = 1, cg_set_id = 1, cg_pointer = 0, cg_nsacf = False, cg_smsf = False\<rparr>"

definition sample_kamf :: octets where
  "sample_kamf = derive_kamf toy_crypto (replicate 32 7) (drop 5 sample_name) [0, 0]"

lemma sample_answers:
  "supi_ok sample_name" "supi_ok ''imsi-001010000000002''" "sample_name \<noteq> []"
  "confirmed_kseaf (ausf_confirm sample_peers i (to_hex (replicate 16 5))) = Some (replicate 32 7)"
  "report_ue_to_nsacf sample_config sample_peers supi = (True, [])"
  "length sample_kamf = 32"
  by (simp_all add: supi_ok_def sample_name_def confirmed_kseaf_def sample_peers_def report_ue_to_nsacf_def sample_config_def
      sample_kamf_def derive_kamf_def Let_def crypto_lengths openssl_ok_toy between_def)

lemma sample_challenge:
  "ausf_authenticate sample_peers sample_name None = Some (Reply 201 \<lparr>uc_auth_type = V5G_AKA,
     uc_auth_data = N5g_Av (to_hex (replicate 16 1)) [] (to_hex (replicate 16 2)),
     uc_auth_ctx_id = ''authctx-1'', uc_serving_network_name = kServingNetworkName\<rparr>)"
  by (simp add: sample_peers_def)

lemma sample_attached:
  obtains s history where
    "run_amf toy_crypto sample_config (attach_events toy_crypto sample_peers 0 sample_name (replicate 16 5) (keys_of toy_crypto sample_kamf))
       initial_amf = Some (s, history)"
    "attached toy_crypto 0 sample_name sample_kamf s"
  by (rule attach_run [where rand = "replicate 16 1" and autn = "replicate 16 2" and a = 0,
        OF openssl_ok_toy sample_answers(1) sample_challenge _ _ _ _ _ sample_answers(4,5) sample_kamf_def refl])
    (auto intro: that)

theorem keys_come_from_home_witness:
  "\<exists>s history. run_amf toy_crypto sample_config
       (attach_events toy_crypto sample_peers 0 sample_name (replicate 16 5) (keys_of toy_crypto sample_kamf)) initial_amf =
     Some (s, history) \<and> am_security s 1 \<noteq> None \<and> am_registry s sample_name \<noteq> None \<and>
     amf_keys_ok toy_crypto (confirmed toy_crypto history) s"
proof -
  obtain s history where r: "run_amf toy_crypto sample_config
       (attach_events toy_crypto sample_peers 0 sample_name (replicate 16 5) (keys_of toy_crypto sample_kamf)) initial_amf =
     Some (s, history)" and a: "attached toy_crypto 0 sample_name sample_kamf s"
    by (rule sample_attached)
  then show ?thesis using keys_come_from_home [OF r] by (auto simp: attached_def)
qed

theorem registers_as_another_witness:
  "\<exists>s history e stored.
    run_amf toy_crypto sample_config (renaming_run toy_crypto sample_peers 0 sample_name ''imsi-001010000000002'' (replicate 16 5)
      (keys_of toy_crypto sample_kamf)) initial_amf = Some (s, history) \<and>
    am_security s 1 = Some stored \<and> sx_supi stored = ''imsi-001010000000002'' \<and> sx_kamf stored = sample_kamf \<and>
    am_registry s ''imsi-001010000000002'' = Some e \<and> re_assoc e = 0 \<and>
    asked_confirmations (concat (map snd history)) = [(''authctx-1'', to_hex (replicate 16 5))]"
  using registers_as_another [where rand = "replicate 16 1" and autn = "replicate 16 2" and a = 0, OF openssl_ok_toy sample_answers(1,2) sample_challenge _ _ _ _ _ sample_answers(4,5) sample_kamf_def]
  by fastforce

theorem service_requests_out_of_step_witness:
  "\<exists>s s' ctx. attached toy_crypto 0 sample_name sample_kamf s \<and>
    run_amf toy_crypto sample_config (service_attempts toy_crypto sample_peers 1 (nk_int (keys_of toy_crypto sample_kamf)) 1 1 2 2) s =
      Some (s', [(sample_peers, []), (sample_peers, [])]) \<and>
    am_security s' 1 = Some ctx \<and> sx_uplink_count ctx = 3"
proof -
  obtain s history where a: "attached toy_crypto 0 sample_name sample_kamf s" by (rule sample_attached)
  let ?mac = "service_mac toy_crypto (nk_int (keys_of toy_crypto sample_kamf)) 1 1"
  have "?mac 1 \<noteq> ?mac 2" "?mac 2 \<noteq> ?mac 3" by code_simp+
  moreover have "n = 1 \<or> n = 2" if "0 < n" "n \<le> 2" for n :: nat using that by linarith
  ultimately have mac: "?mac n \<noteq> ?mac (n + 1)" if "0 < n" "n \<le> 2" for n
    using that by (metis Suc_1 Suc_eq_plus1 eval_nat_numeral(3))
  have "\<exists>s' ctx. run_amf toy_crypto sample_config (service_attempts toy_crypto sample_peers 1
        (nk_int (keys_of toy_crypto sample_kamf)) 1 1 2 2) s = Some (s', replicate 2 (sample_peers, [])) \<and>
      am_security s' 1 = Some ctx \<and> sx_uplink_count ctx = 2 + 1"
    by (rule service_requests_out_of_step [OF a sample_answers(6) _ mac]) simp_all
  moreover have "replicate 2 (sample_peers, [] :: action list) = [(sample_peers, []), (sample_peers, [])]"
    by (simp add: numeral_2_eq_2)
  ultimately have "\<exists>s' ctx. run_amf toy_crypto sample_config (service_attempts toy_crypto sample_peers 1
        (nk_int (keys_of toy_crypto sample_kamf)) 1 1 2 2) s = Some (s', [(sample_peers, []), (sample_peers, [])]) \<and>
      am_security s' 1 = Some ctx \<and> sx_uplink_count ctx = 3"
    by (simp only: one_plus_numeral numeral_plus_one semiring_norm add_numeral_special) 
  then show ?thesis using a by blast
qed

theorem path_switch_reuses_count_witness:
  "\<exists>s s' history. attached toy_crypto 0 sample_name sample_kamf s \<and>
    run_amf toy_crypto sample_config [(sample_peers, 0, Transfer_N1 sample_name 1 [1]), (sample_peers, 1, Path_Switch 2 1 [1]),
      (sample_peers, 0, Transfer_N1 sample_name 1 [2])] s = Some (s', history)"
proof -
  obtain s history where a: "attached toy_crypto 0 sample_name sample_kamf s" by (rule sample_attached)
  show ?thesis using path_switch_reuses_count [OF a sample_answers(6,3) refl] a by blast
qed

theorem moved_terminal_dropped_witness:
  "\<exists>s s' nh. attached toy_crypto 0 sample_name sample_kamf s \<and>
    run_amf toy_crypto sample_config [(sample_peers, 1, Path_Switch 2 1 [1]), (sample_peers, 0, Association_Lost),
      (sample_peers, 1, Transfer_N1 sample_name 1 [2])] s =
      Some (s', [(sample_peers, [Path_Switch_Ack 1 1 2 nh [1]]), (sample_peers, []), (sample_peers, [])]) \<and>
    am_registry s' sample_name = None"
proof -
  obtain s history where a: "attached toy_crypto 0 sample_name sample_kamf s" by (rule sample_attached)
  show ?thesis using moved_terminal_dropped [OF a sample_answers(6,3), of 1] a by fastforce
qed

theorem closed_association_used_witness:
  "\<exists>s s' acts. attached toy_crypto 0 sample_name sample_kamf s \<and>
    run_amf toy_crypto sample_config [(sample_peers, 0, Initial_Ue_Message (build_registration_request ''imsi-001010000000002'' False) 2),
      (sample_peers, 0, Association_Lost), (sample_peers, 0, Transfer_N1 sample_name 1 [2])] s =
      Some (s', [(sample_peers, acts), (sample_peers, []), (sample_peers, [Downlink_Nas 0 1 1
        (encode_dl_nas_transport toy_crypto (nk_int (keys_of toy_crypto sample_kamf)) (nk_enc (keys_of toy_crypto sample_kamf)) 2 1 [2])])])"
proof -
  obtain s history where a: "attached toy_crypto 0 sample_name sample_kamf s" by (rule sample_attached)
  have "''imsi-001010000000002'' \<noteq> sample_name" by (simp add: sample_name_def)
  from closed_association_used [OF a sample_answers(2) this refl] a show ?thesis by blast
qed

end
