(* ===== verification/Aka_Run.thy ===== *)
theory Aka_Run
  imports Amf_Life
begin

text \<open>
  The registration of a terminal from end to end: the vector of the UDM, the context of the AUSF, the
  challenge of the AMF, the terminal's response, its confirmation and the protected messages after
  it, in the models of the functions and of the test terminal (\<open>tools/ue-driver\<close>).
\<close>

section \<open>The home network\<close>

text \<open>The status and the body of an answer, as its reader takes them.\<close>

definition udm_answer_of :: "'a reply \<Rightarrow> 'a udm_answer" where
  "udm_answer_of r =
     (case r of Reply status body \<Rightarrow> if status = 200 then Udm_Body (Some body) else Udm_Status status
      | Problem_Details status _ \<Rightarrow> Udm_Status status)"

definition home_authentication :: "crypto \<Rightarrow> base64 \<Rightarrow> json_patch \<Rightarrow> octets \<Rightarrow> udr \<Rightarrow> string \<Rightarrow> auth_context context_store \<Rightarrow>
    udr \<times> auth_context context_store \<times> ue_auth_ctx reply" where
  "home_authentication C B J rand db supi cs =
     (let (db', vector) = generate_auth_data C J rand db supi
            \<lparr>req_serving_network_name = kServingNetworkName, req_resync = None\<rparr>
      in (db', ue_authentication C B supi kServingNetworkName (udm_answer_of vector) cs))"

lemma length_parsed:
  assumes "parse_subscription doc = Result f"
  shows "length (sub_k (fetched_sub f)) = 16" "length (sub_opc (fetched_sub f)) = 16" "length (sub_amf (fetched_sub f)) = 2"
  using assms length_from_hex_array
  by (auto simp: parse_subscription_def Let_def split: option.splits if_splits)

lemma length_make_autn:
  assumes "openssl_ok C" "parse_subscription doc = Result f"
  shows "length (make_autn C (fetched_sub f) (sub_sqn (fetched_sub f)) rand) = 16"
  using assms length_parsed [OF assms(2)] length_parsed_sqn [OF assms(2)] by (simp add: make_autn_def sqn_xor_ak_def)

section \<open>The terminal's side of the challenge\<close>

lemma terminal_answers:
  assumes "openssl_ok C" "parse_subscription doc = Result f" "v = fetched_sub f"
    "autn = make_autn C v (sub_sqn v) rand" "out = f2345 C (sub_opc v) (sub_k v) rand"
  shows "compute_res_star C (sub_k v) (sub_opc v) \<lparr>ch_rand = rand, ch_autn = autn\<rparr> name =
      Some (derive_res_star C (fo_ck out) (fo_ik out) name rand (fo_res out))"
    "derive_nas_keys C (sub_k v) (sub_opc v) \<lparr>ch_rand = rand, ch_autn = autn\<rparr> supi name =
      keys_of C (derive_kamf C (derive_kseaf C (derive_kausf C (fo_ck out) (fo_ik out) name (sqn_xor_ak (sub_sqn v) (fo_ak out))) name)
        (drop 5 supi) [0, 0])"
proof -
  note l = length_parsed [OF assms(2)] length_parsed_sqn [OF assms(2)]
  have ak: "length (sqn_xor_ak (sub_sqn v) (fo_ak out)) = 6" using assms l by (simp add: sqn_xor_ak_def)
  then have t: "take 6 autn = sqn_xor_ak (sub_sqn v) (fo_ak out)" "take 2 (drop 6 autn) = sub_amf v"
    "drop 8 autn = f1 C (sub_opc v) (sub_k v) rand (sub_sqn v) (sub_amf v)"
    using l assms(3) by (simp_all add: assms(4,5) make_autn_def)
  have "sqn_xor_ak (sqn_xor_ak (sub_sqn v) (fo_ak out)) (fo_ak out) = sub_sqn v"
    by (rule sqn_xor_ak_twice) (use assms l in simp)
  then have "xor_blocks (take 6 autn) (fo_ak out) = sub_sqn v"
    unfolding t(1) by (simp only: sqn_xor_ak_def)
  then show "compute_res_star C (sub_k v) (sub_opc v) \<lparr>ch_rand = rand, ch_autn = autn\<rparr> name =
      Some (derive_res_star C (fo_ck out) (fo_ik out) name rand (fo_res out))"
    by (simp add: compute_res_star_def Let_def t assms(5) [symmetric])
  show "derive_nas_keys C (sub_k v) (sub_opc v) \<lparr>ch_rand = rand, ch_autn = autn\<rparr> supi name =
      keys_of C (derive_kamf C (derive_kseaf C (derive_kausf C (fo_ck out) (fo_ik out) name (sqn_xor_ak (sub_sqn v) (fo_ak out))) name)
        (drop 5 supi) [0, 0])"
    by (simp add: derive_nas_keys_def keys_of_def Let_def t assms(5) [symmetric])
qed

section \<open>The home network's side\<close>

lemma home_challenges:
  assumes "openssl_ok C" "patch_cas J" "supi_ok supi" "db supi = Some doc" "parse_subscription doc = Result f"
    "v = fetched_sub f" "sub_method v \<noteq> ''EAP_AKA_PRIME''" "length rand = 16"
    "out = f2345 C (sub_opc v) (sub_k v) rand"
    "i = ''authctx-'' @ to_string_nat (cs_next_id cs)" "context_get i cs = None"
    "home_authentication C B J rand db supi cs = (db', cs', answer)"
  obtains h ctx where
    "answer = Reply 201 \<lparr>uc_auth_type = V5G_AKA,
       uc_auth_data = N5g_Av (to_hex rand) h (to_hex (make_autn C v (sub_sqn v) rand)),
       uc_auth_ctx_id = i, uc_serving_network_name = kServingNetworkName\<rparr>"
    "context_get i cs' = Some ctx" "ac_supi ctx = supi" "ac_auth_type ctx = ''5G_AKA''"
    "ac_serving_network_name ctx = kServingNetworkName"
    "ac_xres_star ctx = derive_res_star C (fo_ck out) (fo_ik out) kServingNetworkName rand (fo_res out)"
    "ac_kausf_5g_aka ctx = derive_kausf C (fo_ck out) (fo_ik out) kServingNetworkName (sqn_xor_ak (sub_sqn v) (fo_ak out))"
proof -
  obtain doc' where r: "run_alone C J db (Fetching supi (Advance 1) 0) = (db(supi \<mapsto> doc'), Finished supi (Vectors v 1))"
    using run_alone_advance [where db = db and supi = supi and n = 1, OF assms(2,4,5)] assms(6) by metis
  have "take 5 supi = ''imsi-''" using assms(3) by (simp add: supi_ok_def)
  then have g: "generate_auth_data C J rand db supi \<lparr>req_serving_network_name = kServingNetworkName, req_resync = None\<rparr> =
      (db(supi \<mapsto> doc'), Reply 200 (auth_info C rand supi kServingNetworkName v))"
    using r by (simp add: generate_auth_data_def deconceal_suci_if_needed_def requested_job_def answer_vectors_def)
  have l: "length (make_autn C v (sub_sqn v) rand) = 16" using length_make_autn [OF assms(1,5)] assms(6) by simp
  have made: "aka_context C supi kServingNetworkName akma rid (he_vector C v rand kServingNetworkName) =
    Some (empty_context\<lparr>ac_supi := supi, ac_serving_network_name := kServingNetworkName, ac_akma_ind := akma, ac_routing_id := rid,
        ac_auth_type := ''5G_AKA'',
        ac_xres_star := derive_res_star C (fo_ck out) (fo_ik out) kServingNetworkName rand (fo_res out),
        ac_kausf_5g_aka := derive_kausf C (fo_ck out) (fo_ik out) kServingNetworkName (sqn_xor_ak (sub_sqn v) (fo_ak out))\<rparr>,
      N5g_Av (to_hex rand) (to_hex (derive_hxres_star C rand (derive_res_star C (fo_ck out) (fo_ik out) kServingNetworkName rand (fo_res out))))
        (to_hex (make_autn C v (sub_sqn v) rand)))" for akma rid
    using assms(1,8) l by (simp add: aka_context_def he_vector_def Let_def assms(9) [symmetric])
  show thesis
    using assms(7,10,11,12)
    by (intro that)
      (auto simp: home_authentication_def g udm_answer_of_def ue_authentication_def udm_body_def auth_info_def made
        context_create_def context_get_def Let_def value_or_def)
qed

section \<open>From end to end\<close>

text \<open>Property C22: a genuine terminal registers. The terminal has the permanent key and the operator's value of the
  subscriber's record; the UDM makes a vector of that record, the AUSF keeps its context and the AMF sends its
  challenge. The terminal finds the network genuine, its response is the one the AUSF confirms, and the keys it
  derives are those the AMF takes into use: the AMF accepts its SecurityModeComplete and RegistrationComplete,
  the terminal opens the RegistrationAccept and finds its temporary identity there, and the registry and the
  stored context end with the terminal's keys.\<close>

theorem terminal_attaches:
  assumes "openssl_ok C" "patch_cas J" "supi_ok supi" "db supi = Some doc" "parse_subscription doc = Result f"
    "v = fetched_sub f" "sub_method v \<noteq> ''EAP_AKA_PRIME''" "length rand = 16"
    "context_get (''authctx-'' @ to_string_nat (cs_next_id (auth_contexts A))) (auth_contexts A) = None"
    "home_authentication C B J rand db supi (auth_contexts A) = (db', cs', answer)"
    "ausf_authenticate P supi None = Some answer"
    "\<And>i x. ausf_confirm P i x = Some (fst (snd (confirm_5g_aka C akma i x (A\<lparr>auth_contexts := cs'\<rparr>))))"
    "report_ue_to_nsacf cfg P supi = (True, asked)"
  shows "\<exists>m1 m2 m3 challenge res_star kamf s history.
    run_amf C cfg (attach_events C P a supi res_star (keys_of C kamf)) initial_amf = Some (s, history) \<and>
    downlinks a history = [m1, m2, m3] \<and>
    parse_authentication_request m1 = ret challenge \<and>
    compute_res_star C (sub_k v) (sub_opc v) challenge kServingNetworkName = Some res_star \<and>
    derive_nas_keys C (sub_k v) (sub_opc v) challenge supi kServingNetworkName = keys_of C kamf \<and>
    and_then (open_secured_downlink C (keys_of C kamf) 1 m3) extract_guti_from_registration_accept =
      ret (guti_value 1 (cg_region_id cfg) (cg_set_id cfg) (cg_pointer cfg)) \<and>
    attached C a supi kamf s"
proof -
  define out where "out = f2345 C (sub_opc v) (sub_k v) rand"
  define i where "i = ''authctx-'' @ to_string_nat (cs_next_id (auth_contexts A))"
  define autn where "autn = make_autn C v (sub_sqn v) rand"
  define res_star where "res_star = derive_res_star C (fo_ck out) (fo_ik out) kServingNetworkName rand (fo_res out)"
  define kausf where "kausf = derive_kausf C (fo_ck out) (fo_ik out) kServingNetworkName (sqn_xor_ak (sub_sqn v) (fo_ak out))"
  define kseaf where "kseaf = derive_kseaf C kausf kServingNetworkName"
  define kamf where "kamf = derive_kamf C kseaf (drop 5 supi) [0, 0]"
  note folds = out_def [symmetric] autn_def [symmetric] res_star_def [symmetric] kausf_def [symmetric]
    kseaf_def [symmetric] kamf_def [symmetric]
  have l: "length autn = 16" "length res_star = 16" "length kseaf = 32"
    using length_make_autn [OF assms(1,5)] assms(1,6) by (simp_all add: autn_def res_star_def kseaf_def)
  obtain h ctx where answer: "answer = Reply 201 \<lparr>uc_auth_type = V5G_AKA, uc_auth_data = N5g_Av (to_hex rand) h (to_hex autn),
       uc_auth_ctx_id = i, uc_serving_network_name = kServingNetworkName\<rparr>"
    and ctx: "context_get i cs' = Some ctx" "ac_auth_type ctx = ''5G_AKA''"
      "ac_serving_network_name ctx = kServingNetworkName" "ac_xres_star ctx = res_star" "ac_kausf_5g_aka ctx = kausf"
    using home_challenges [where db = db and supi = supi and i = i and cs = "auth_contexts A",
        OF assms(1-8) out_def i_def assms(9) [folded i_def] assms(10), unfolded folds] by metis
  define c where "c = \<lparr>uc_auth_type = V5G_AKA, uc_auth_data = N5g_Av (to_hex rand) h (to_hex autn),
       uc_auth_ctx_id = i, uc_serving_network_name = kServingNetworkName\<rparr>"
  have c: "uc_auth_type c = V5G_AKA" "uc_auth_data c = N5g_Av (to_hex rand) h (to_hex autn)"
    "ausf_authenticate P supi None = Some (Reply 201 c)"
    "confirmed_kseaf (ausf_confirm P (uc_auth_ctx_id c) (to_hex res_star)) = Some kseaf"
    using l by (simp_all add: c_def assms(11,12) answer confirm_5g_aka_def ctx confirmed_kseaf_def Let_def folds)
  obtain s history where run: "run_amf C cfg (attach_events C P a supi res_star (keys_of C kamf)) initial_amf = Some (s, history)"
      "attached C a supi kamf s"
    and d: "downlinks a history = [encode_authentication_request rand autn 0,
       encode_security_mode_command C (nk_int (keys_of C kamf)) [0xE0, 0xE0] 0,
       encode_registration_accept C (nk_int (keys_of C kamf)) (nk_enc (keys_of C kamf)) 1 1 (cg_region_id cfg) (cg_set_id cfg) (cg_pointer cfg) False]"
    by (rule attach_run [where a = a, OF assms(1,3) c(3,1,2) from_to_hex_array [OF assms(8)] from_to_hex_array [OF l(1)] l(2) c(4) assms(13) kamf_def refl])
  show ?thesis
    by (intro exI conjI, rule run(1), rule d)
      (use run(2) authentication_request_parses [OF assms(8) l(1)] guti_reaches_ue [OF assms(1)]
        terminal_answers(1) [OF assms(1,5,6) autn_def out_def, where name = kServingNetworkName, unfolded folds]
        terminal_answers(2) [OF assms(1,5,6) autn_def out_def, where name = kServingNetworkName and supi = supi, unfolded folds]
       in simp_all)
qed

text \<open>The subscriber's record is the one of the theory of the vectors, and every other answer is the sample's.\<close>

definition home_sample :: "udr \<times> auth_context context_store \<times> ue_auth_ctx reply" where
  "home_sample = home_authentication toy_crypto toy_base64 text_swap (replicate 16 9) [sample_name \<mapsto> sample_subscriber] sample_name
     (auth_contexts sample_ausf)"

definition home_peers :: peers where
  "home_peers = sample_peers\<lparr>
     ausf_authenticate := (\<lambda>_ _. Some (snd (snd home_sample))),
     ausf_confirm := (\<lambda>i x. Some (fst (snd (confirm_5g_aka toy_crypto None i x (sample_ausf\<lparr>auth_contexts := fst (snd home_sample)\<rparr>)))))\<rparr>"

theorem terminal_attaches_witness:
  "\<exists>res_star kamf s history.
    run_amf toy_crypto sample_config (attach_events toy_crypto home_peers 0 sample_name res_star (keys_of toy_crypto kamf)) initial_amf =
      Some (s, history) \<and>
    attached toy_crypto 0 sample_name kamf s"
proof -
  have h: "home_authentication toy_crypto toy_base64 text_swap (replicate 16 9) [sample_name \<mapsto> sample_subscriber] sample_name
      (auth_contexts sample_ausf) = (fst home_sample, fst (snd home_sample), snd (snd home_sample))"
    by (simp add: home_sample_def)
  have g: "context_get (''authctx-'' @ to_string_nat (cs_next_id (auth_contexts sample_ausf))) (auth_contexts sample_ausf) = None"
    by code_simp
  have r: "report_ue_to_nsacf sample_config home_peers sample_name = (True, [])"
    by (simp add: report_ue_to_nsacf_def sample_config_def)
  show ?thesis
    using terminal_attaches [where db = "[sample_name \<mapsto> sample_subscriber]" and P = home_peers and a = 0 and akma = None,
        OF openssl_ok_toy patch_cas_text_swap sample_answers(1) _ parse_sample refl _ _ g h _ _ r]
    by (simp add: home_peers_def sample_data_def) blast
qed

end
