(* ===== verification/Money_Exact.thy ===== *)
theory Money_Exact
  imports Decimal_Text
begin

text \<open>
  \<open>bss_sid::Micros\<close> (libs/bss-sid/include/bss_sid/money_exact.hpp and src/money_exact.cpp): an
  amount in exact micro-units held in a signed 64-bit integer, its decimal parser and printer,
  and its arithmetic. Signed overflow is undefined in C++, so the operators are checked: the
  value \<open>None\<close> is an overflowing run. The conversions to and from \<open>double\<close> are in
  \<open>Ieee_Double\<close>'s client theory.
\<close>

section \<open>Data\<close>

record micros =
  raw_micros :: "64 word"

definition from_raw :: "64 word \<Rightarrow> micros" where
  "from_raw v = \<lparr>raw_micros = v\<rparr>"

definition raw_value :: "micros \<Rightarrow> int" where
  "raw_value m = sint (raw_micros m)"

definition int64_fits :: "int \<Rightarrow> bool" where
  "int64_fits v \<longleftrightarrow> - (2 ^ 63) \<le> v \<and> v < 2 ^ 63"

definition micros_of_int :: "int \<Rightarrow> micros checked" where
  "micros_of_int v = (if int64_fits v then Some (from_raw (word_of_int v)) else None)"

definition micros_plus :: "micros \<Rightarrow> micros \<Rightarrow> micros checked" where
  "micros_plus a b = micros_of_int (raw_value a + raw_value b)"

definition micros_minus :: "micros \<Rightarrow> micros \<Rightarrow> micros checked" where
  "micros_minus a b = micros_of_int (raw_value a - raw_value b)"

definition micros_uminus :: "micros \<Rightarrow> micros checked" where
  "micros_uminus a = micros_of_int (- raw_value a)"

definition micros_less :: "micros \<Rightarrow> micros \<Rightarrow> bool" where
  "micros_less a b \<longleftrightarrow> raw_value a < raw_value b"

section \<open>Parsing and printing\<close>

definition scale_digits :: nat where
  "scale_digits = 6"

definition micros_scale :: int where
  "micros_scale = 1000000"

definition finish_decimal :: "bool \<Rightarrow> string \<Rightarrow> string \<Rightarrow> micros option" where
  "finish_decimal negative int_digits frac_digits =
     (let normalized = int_digits @ frac_digits @ replicate (scale_digits - length frac_digits) (CHR ''0'')
      in case from_chars_int64 normalized of
           None \<Rightarrow> None
         | Some magnitude \<Rightarrow> Some (from_raw (word_of_int (if negative then - magnitude else magnitude))))"

definition parse_magnitude :: "bool \<Rightarrow> string \<Rightarrow> micros option" where
  "parse_magnitude negative body =
     (let int_digits = takeWhile is_digit body
      in if int_digits = [] then None
         else (case dropWhile is_digit body of
                 [] \<Rightarrow> finish_decimal negative int_digits []
               | d # tail \<Rightarrow>
                   if d \<noteq> CHR ''.'' then None
                   else (let frac_digits = takeWhile is_digit tail
                         in if frac_digits = [] \<or> length frac_digits > scale_digits then None
                            else if dropWhile is_digit tail \<noteq> [] then None
                            else finish_decimal negative int_digits frac_digits)))"

definition from_decimal_string :: "string \<Rightarrow> micros option" where
  "from_decimal_string text =
     (case text of
        [] \<Rightarrow> None
      | c # cs \<Rightarrow>
          parse_magnitude (c = CHR ''-'') (if c = CHR ''+'' \<or> c = CHR ''-'' then cs else text))"

text \<open>Negating the least 64-bit integer overflows: the printer is undefined there.\<close>

definition to_decimal_string :: "micros \<Rightarrow> string checked" where
  "to_decimal_string m =
     (if raw_value m = - (2 ^ 63) then None
      else let sign = (if raw_value m < 0 then ''-'' else []);
               magnitude = \<bar>raw_value m\<bar>;
               frac_str = to_string_nat (nat (magnitude mod micros_scale))
           in Some (sign @ to_string_nat (nat (magnitude div micros_scale)) @ ''.'' @
                    replicate (scale_digits - length frac_str) (CHR ''0'') @ frac_str))"

section \<open>What the text denotes\<close>

text \<open>The decimal notation and its exact value in micro-units, the reference the parser is
  compared with.\<close>

definition decimal_text :: "string \<Rightarrow> string \<Rightarrow> string \<Rightarrow> string" where
  "decimal_text sign ip fp = sign @ ip @ (if fp = [] then [] else CHR ''.'' # fp)"

definition decimal_magnitude :: "string \<Rightarrow> string \<Rightarrow> int" where
  "decimal_magnitude ip fp =
     int (digits_value ip) * 10 ^ 6 + int (digits_value fp) * 10 ^ (6 - length fp)"

definition decimal_ok :: "string \<Rightarrow> string \<Rightarrow> string \<Rightarrow> bool" where
  "decimal_ok sign ip fp \<longleftrightarrow>
     sign \<in> {[], ''+'', ''-''} \<and> ip \<noteq> [] \<and> list_all is_digit ip \<and> list_all is_digit fp \<and>
     length fp \<le> 6 \<and> decimal_magnitude ip fp < 2 ^ 63"

lemma raw_value_from_raw [simp]: "int64_fits v \<Longrightarrow> raw_value (from_raw (word_of_int v)) = v"
  by (simp add: raw_value_def from_raw_def int64_fits_def sint_sbintrunc' signed_take_bit_int_eq_self)

lemma raw_value_fits [simp]: "int64_fits (raw_value m)"
  using sint_ge [of "raw_micros m"] sint_lt [of "raw_micros m"]
  by (simp add: raw_value_def int64_fits_def)

lemma from_raw_raw_value [simp]: "from_raw (word_of_int (raw_value m)) = m"
  by (simp add: from_raw_def raw_value_def)

lemma raw_value_inj: "raw_value a = raw_value b \<Longrightarrow> a = b"
  by (metis from_raw_raw_value)

lemma decimal_magnitude_nonneg [simp]: "0 \<le> decimal_magnitude ip fp"
  by (simp add: decimal_magnitude_def)

lemma finish_decimal_eq:
  assumes "ip \<noteq> []" "list_all is_digit ip" "list_all is_digit fp" "length fp \<le> 6"
  shows "finish_decimal neg ip fp =
    (if decimal_magnitude ip fp < 2 ^ 63
     then Some (from_raw (word_of_int (if neg then - decimal_magnitude ip fp else decimal_magnitude ip fp)))
     else None)"
proof -
  let ?n = "ip @ fp @ replicate (6 - length fp) (CHR ''0'')"
  have v: "int (digits_value ?n) = decimal_magnitude ip fp"
    using assms(4) by (simp add: digits_value_append decimal_magnitude_def algebra_simps flip: power_add)
  have d: "list_all is_digit ?n" using assms by (auto simp: list_all_iff)
  show ?thesis
    using assms(1) d v by (simp add: finish_decimal_def scale_digits_def from_chars_int64_def Let_def)
qed

lemma list_all_is_digit_zeros [simp]: "list_all is_digit (replicate n (CHR ''0''))"
  by (induction n) auto

lemma list_all_takeWhile [simp]: "list_all P (takeWhile P xs)"
  by (induction xs) auto

lemma parse_magnitude_text:
  assumes "ip \<noteq> []" "list_all is_digit ip" "list_all is_digit fp" "length fp \<le> 6"
  shows "parse_magnitude neg (ip @ (if fp = [] then [] else CHR ''.'' # fp)) = finish_decimal neg ip fp"
  using assms by (simp add: parse_magnitude_def scale_digits_def Let_def)

lemma from_decimal_string_text:
  assumes "decimal_ok sign ip fp"
  shows "from_decimal_string (decimal_text sign ip fp) =
    Some (from_raw (word_of_int (if sign = ''-'' then - decimal_magnitude ip fp else decimal_magnitude ip fp)))"
proof -
  from assms have ip: "ip \<noteq> []" "list_all is_digit ip" and fp: "list_all is_digit fp" "length fp \<le> 6"
    and sign: "sign \<in> {[], ''+'', ''-''}" and small: "decimal_magnitude ip fp < 2 ^ 63"
    by (auto simp: decimal_ok_def)
  from ip obtain c cs where c: "ip = c # cs" "is_digit c" by (cases ip) auto
  then have cn: "c \<noteq> CHR ''+''" "c \<noteq> CHR ''-''" using not_is_digit by metis+
  have "from_decimal_string (decimal_text sign ip fp) =
      parse_magnitude (sign = ''-'') (ip @ (if fp = [] then [] else CHR ''.'' # fp))"
    using sign cn c by (auto simp: from_decimal_string_def decimal_text_def)
  also have "\<dots> = finish_decimal (sign = ''-'') ip fp"
    by (rule parse_magnitude_text [OF ip fp])
  finally show ?thesis using ip fp small by (simp add: finish_decimal_eq)
qed

lemma parse_magnitude_Some:
  assumes "parse_magnitude neg body = Some m"
  obtains ip fp where "ip \<noteq> []" "list_all is_digit ip" "list_all is_digit fp" "length fp \<le> 6"
    "body = ip @ (if fp = [] then [] else CHR ''.'' # fp)" "finish_decimal neg ip fp = Some m"
proof (cases "dropWhile is_digit body")
  case Nil
  have tw: "takeWhile is_digit body = body" using Nil by (metis append_Nil2 takeWhile_dropWhile_id)
  then have "list_all is_digit body" by (metis list_all_takeWhile)
  with assms [unfolded parse_magnitude_def Let_def Nil] show thesis
    by (intro that [of body "[]"]) (auto simp: tw split: if_splits)
next
  case (Cons d tail)
  with assms have r: "takeWhile is_digit body \<noteq> []" "d = CHR ''.''" "takeWhile is_digit tail \<noteq> []"
    "length (takeWhile is_digit tail) \<le> 6" "dropWhile is_digit tail = []"
    "finish_decimal neg (takeWhile is_digit body) (takeWhile is_digit tail) = Some m"
    by (auto simp: parse_magnitude_def scale_digits_def Let_def split: if_splits)
  from r(5) have t: "takeWhile is_digit tail = tail" by (metis append_Nil2 takeWhile_dropWhile_id)
  have "body = takeWhile is_digit body @ CHR ''.'' # tail"
    using takeWhile_dropWhile_id [of is_digit body] Cons r(2) by metis
  with r t show thesis
    by (intro that [of "takeWhile is_digit body" tail]) (auto simp del: takeWhile_eq_all_conv, metis list_all_takeWhile)
qed

lemma from_decimal_string_Some:
  assumes "from_decimal_string s = Some m"
  obtains sign ip fp where "decimal_ok sign ip fp" "s = decimal_text sign ip fp"
proof -
  from assms obtain c cs where s: "s = c # cs" by (cases s) (auto simp: from_decimal_string_def)
  define sign where "sign = (if c = CHR ''+'' \<or> c = CHR ''-'' then [c] else [])"
  define body where "body = (if c = CHR ''+'' \<or> c = CHR ''-'' then cs else s)"
  have sb: "s = sign @ body" "sign \<in> {[], ''+'', ''-''}" by (auto simp: sign_def body_def s)
  have "parse_magnitude (c = CHR ''-'') body = Some m"
    using assms by (auto simp: from_decimal_string_def s body_def split: if_splits)
  then obtain ip fp where ip: "ip \<noteq> []" "list_all is_digit ip" and fp: "list_all is_digit fp" "length fp \<le> 6"
    and body: "body = ip @ (if fp = [] then [] else CHR ''.'' # fp)"
    and fin: "finish_decimal (c = CHR ''-'') ip fp = Some m"
    by (rule parse_magnitude_Some)
  from fin have "decimal_magnitude ip fp < 2 ^ 63"
    using finish_decimal_eq [OF ip fp] by (auto split: if_splits)
  with ip fp sb have "decimal_ok sign ip fp" "s = decimal_text sign ip fp"
    by (simp_all add: decimal_ok_def decimal_text_def body)
  then show thesis by (rule that)
qed

text \<open>The printed form of an amount is a decimal text whose value is the amount.\<close>

lemma to_decimal_string_text:
  assumes "to_decimal_string m = Some s"
  obtains sign ip fp where "decimal_ok sign ip fp" "s = decimal_text sign ip fp"
    "raw_value m = (if sign = ''-'' then - decimal_magnitude ip fp else decimal_magnitude ip fp)"
proof -
  let ?mag = "\<bar>raw_value m\<bar>"
  let ?w = "to_string_nat (nat (?mag div 1000000))"
  let ?f = "to_string_nat (nat (?mag mod 1000000))"
  let ?fp = "replicate (6 - length ?f) (CHR ''0'') @ ?f"
  let ?sign = "if raw_value m < 0 then ''-'' else []"
  have "nat (?mag mod 1000000) < 10 ^ 6" by simp
  then have lf: "length ?f \<le> 6" by (intro length_to_string_nat) auto
  have fpv: "int (digits_value ?fp) = ?mag mod 1000000"
    by (simp add: digits_value_append)
  have "decimal_magnitude ?w ?fp = (?mag div 1000000) * 1000000 + ?mag mod 1000000"
    using lf fpv by (simp add: decimal_magnitude_def pos_imp_zdiv_nonneg_iff del: of_nat_mod of_nat_div)
  also have "\<dots> = ?mag" by simp
  finally have mag: "decimal_magnitude ?w ?fp = ?mag" .
  have nomin: "raw_value m \<noteq> - (2 ^ 63)" using assms by (cases "raw_value m = - (2 ^ 63)") (simp_all add: to_decimal_string_def)
  from nomin raw_value_fits [of m] have small: "?mag < 2 ^ 63" by (auto simp: int64_fits_def abs_if)
  then have "decimal_ok ?sign ?w ?fp"
    unfolding decimal_ok_def mag using lf small by simp
  moreover have "s = decimal_text ?sign ?w ?fp"
    using assms nomin
    by (simp only: to_decimal_string_def decimal_text_def micros_scale_def scale_digits_def Let_def
        if_False option.inject append_is_Nil_conv to_string_nat_nonempty simp_thms append_assoc append_Cons append_Nil)
  moreover have "raw_value m = (if ?sign = ''-'' then - decimal_magnitude ?w ?fp else decimal_magnitude ?w ?fp)"
    unfolding mag by simp
  ultimately show thesis by (rule that)
qed

section \<open>Properties\<close>

text \<open>Property C13: the decimal parser accepts exactly the decimal notation (optional sign, at
  least one integer digit, at most six fraction digits after an optional point, magnitude below
  2^63 micro-units), and what it returns is the exact value of that notation in micro-units.\<close>

theorem from_decimal_string_exact:
  "from_decimal_string s = Some m \<longleftrightarrow>
   (\<exists>sign ip fp. decimal_ok sign ip fp \<and> s = decimal_text sign ip fp \<and>
      raw_value m = (if sign = ''-'' then - decimal_magnitude ip fp else decimal_magnitude ip fp))"
proof
  assume "from_decimal_string s = Some m"
  then obtain sign ip fp where r: "decimal_ok sign ip fp" "s = decimal_text sign ip fp"
    by (rule from_decimal_string_Some)
  with \<open>from_decimal_string s = Some m\<close> from_decimal_string_text [OF r(1)]
  have "m = from_raw (word_of_int (if sign = ''-'' then - decimal_magnitude ip fp else decimal_magnitude ip fp))"
    by simp
  moreover have "int64_fits (if sign = ''-'' then - decimal_magnitude ip fp else decimal_magnitude ip fp)"
    using r(1) decimal_magnitude_nonneg [of ip fp] by (auto simp: decimal_ok_def int64_fits_def simp del: decimal_magnitude_nonneg)
  ultimately show "\<exists>sign ip fp. decimal_ok sign ip fp \<and> s = decimal_text sign ip fp \<and>
      raw_value m = (if sign = ''-'' then - decimal_magnitude ip fp else decimal_magnitude ip fp)"
    using r by (intro exI [of _ sign] exI [of _ ip] exI [of _ fp]) simp
next
  assume "\<exists>sign ip fp. decimal_ok sign ip fp \<and> s = decimal_text sign ip fp \<and>
      raw_value m = (if sign = ''-'' then - decimal_magnitude ip fp else decimal_magnitude ip fp)"
  then obtain sign ip fp where "decimal_ok sign ip fp" "s = decimal_text sign ip fp"
    "raw_value m = (if sign = ''-'' then - decimal_magnitude ip fp else decimal_magnitude ip fp)" by blast
  then show "from_decimal_string s = Some m"
    using from_raw_raw_value [of m] by (simp add: from_decimal_string_text)
qed

text \<open>Printing an amount and parsing the text gives the amount back; printing is
  defined for every amount but the least 64-bit integer, whose negation overflows.\<close>

theorem micros_print_parse_roundtrip:
  "(to_decimal_string m = None \<longleftrightarrow> raw_value m = - (2 ^ 63)) \<and>
   (\<forall>s. to_decimal_string m = Some s \<longrightarrow> from_decimal_string s = Some m)"
proof (intro conjI allI impI)
  show "to_decimal_string m = None \<longleftrightarrow> raw_value m = - (2 ^ 63)"
    by (simp add: to_decimal_string_def Let_def)
next
  fix s assume "to_decimal_string m = Some s"
  then obtain sign ip fp where r: "decimal_ok sign ip fp" "s = decimal_text sign ip fp"
    "raw_value m = (if sign = ''-'' then - decimal_magnitude ip fp else decimal_magnitude ip fp)"
    by (rule to_decimal_string_text)
  then show "from_decimal_string s = Some m"
    using from_raw_raw_value [of m] by (simp add: from_decimal_string_text)
qed

theorem micros_print_parse_roundtrip_witness:
  "\<exists>s. to_decimal_string \<lparr>raw_micros = - 12340000\<rparr> = Some s \<and>
       from_decimal_string s = Some \<lparr>raw_micros = - 12340000\<rparr>"
proof -
  have "raw_value \<lparr>raw_micros = - 12340000\<rparr> \<noteq> - (2 ^ 63)" by (simp add: raw_value_def)
  then show ?thesis
    using micros_print_parse_roundtrip [of "\<lparr>raw_micros = - 12340000\<rparr>"] by blast
qed

end
