(* ===== verification/Stream_Codec.thy ===== *)
theory Stream_Codec
  imports Prelude
begin

text \<open>
  The contract shared by the type-length-value formats of the repository (PFCP information
  elements, Diameter AVPs, M3UA parameters, BER TLVs): an encoder that appends one element to
  an octet vector, a decoder that reads one element at an offset, and a loop that decodes
  elements until the vector is exhausted. The locale proves once what the protocols rely on;
  each codec theory interprets it on the definitions translated from its source file.
\<close>

locale element_codec =
  fixes enc :: "'a \<Rightarrow> octets"
    and dec :: "'a decoder"
    and ok :: "'a \<Rightarrow> bool"
  assumes dec_enc: "ok x \<Longrightarrow> dec (pre @ enc x @ post) (length pre) = Some (Some (x, length pre + length (enc x)))"
    and dec_safe: "dec bs off \<noteq> None"
    and dec_progress: "dec bs off = Some (Some (x, off')) \<Longrightarrow> off < off'"
begin

lemma enc_nonempty: "ok x \<Longrightarrow> enc x \<noteq> []"
  using dec_enc [of x "[]" "[]"] dec_progress by fastforce

text \<open>An encoding is never a proper prefix of another, so a concatenation can be split in one
  way only.\<close>

lemma enc_prefix_free:
  assumes "ok x" "ok y" "enc x @ p = enc y @ q"
  shows "x = y \<and> p = q"
proof -
  have "dec (enc x @ p) 0 = Some (Some (x, length (enc x)))"
    using dec_enc [OF assms(1), of "[]" p] by simp
  moreover have "dec (enc x @ p) 0 = Some (Some (y, length (enc y)))"
    using dec_enc [OF assms(2), of "[]" q] assms(3) by simp
  ultimately show ?thesis using assms(3) by auto
qed

lemma enc_inj: "ok x \<Longrightarrow> ok y \<Longrightarrow> enc x = enc y \<Longrightarrow> x = y"
  using enc_prefix_free [of x y "[]" "[]"] by simp

lemma concat_enc_inj:
  "list_all ok xs \<Longrightarrow> list_all ok ys \<Longrightarrow> concat (map enc xs) = concat (map enc ys) \<Longrightarrow> xs = ys"
proof (induction xs arbitrary: ys)
  case Nil
  then show ?case by (cases ys) (auto dest: enc_nonempty)
next
  case (Cons x xs)
  then obtain y ys' where ys: "ys = y # ys'"
    by (cases ys) (auto dest: enc_nonempty)
  with Cons.prems have "x = y \<and> concat (map enc xs) = concat (map enc ys')"
    by (intro enc_prefix_free) auto
  with Cons ys show ?case by auto
qed

end

locale stream_codec = element_codec +
  fixes dec_all :: "octets \<Rightarrow> nat \<Rightarrow> 'a list option checked"
  assumes dec_all_stop: "length bs \<le> off \<Longrightarrow> dec_all bs off = Some (Some [])"
    and dec_all_step: "off < length bs \<Longrightarrow> dec_all bs off =
      (case dec bs off of
         None \<Rightarrow> None
       | Some None \<Rightarrow> Some None
       | Some (Some (x, off')) \<Rightarrow> map_option (map_option ((#) x)) (dec_all bs off'))"
begin

lemma dec_all_safe: "dec_all bs off \<noteq> None"
proof (induction "length bs - off" arbitrary: off rule: less_induct)
  case less
  show ?case
  proof (cases "off < length bs")
    case True
    show ?thesis
    proof (cases "dec bs off")
      case None
      with dec_safe show ?thesis by blast
    next
      case (Some r)
      show ?thesis
      proof (cases r)
        case None
        with Some True show ?thesis by (simp add: dec_all_step)
      next
        case (Some p)
        obtain x off' where p: "p = (x, off')" by (cases p)
        with \<open>dec bs off = Some r\<close> Some have d: "dec bs off = Some (Some (x, off'))" by simp
        with dec_progress have "off < off'" by blast
        with True have "length bs - off' < length bs - off" by linarith
        then have "dec_all bs off' \<noteq> None" by (rule less)
        with d True show ?thesis by (auto simp: dec_all_step)
      qed
    qed
  qed (simp add: dec_all_stop)
qed

lemma dec_all_concat:
  "list_all ok xs \<Longrightarrow> dec_all (pre @ concat (map enc xs)) (length pre) = Some (Some xs)"
proof (induction xs arbitrary: pre)
  case Nil
  then show ?case by (simp add: dec_all_stop)
next
  case (Cons x xs)
  let ?bs = "pre @ enc x @ concat (map enc xs)"
  from Cons.prems have x: "ok x" and xs: "list_all ok xs" by auto
  have "dec_all ?bs (length pre + length (enc x)) = Some (Some xs)"
    using Cons.IH [OF xs, of "pre @ enc x"] by simp
  moreover have "length pre < length ?bs"
    using enc_nonempty [OF x] by simp
  ultimately show ?case
    using dec_enc [OF x, of pre "concat (map enc xs)"] by (simp add: dec_all_step)
qed

text \<open>A whole message: from offset 0.\<close>

lemma dec_all_roundtrip: "list_all ok xs \<Longrightarrow> dec_all (concat (map enc xs)) 0 = Some (Some xs)"
  using dec_all_concat [of xs "[]"] by simp

text \<open>What follows the encoded elements is decoded as if it stood alone: elements cannot bleed
  into each other.\<close>

lemma dec_all_append:
  "list_all ok xs \<Longrightarrow>
   dec_all (pre @ concat (map enc xs) @ post) (length pre) =
     map_option (map_option ((@) xs)) (dec_all (pre @ concat (map enc xs) @ post) (length pre + length (concat (map enc xs))))"
proof (induction xs arbitrary: pre)
  case Nil
  then show ?case by (simp add: option.map_ident)
next
  case (Cons x xs)
  let ?bs = "pre @ enc x @ concat (map enc xs) @ post"
  from Cons.prems have x: "ok x" and xs: "list_all ok xs" by auto
  have "length pre < length ?bs"
    using enc_nonempty [OF x] by simp
  then have "dec_all ?bs (length pre) = map_option (map_option ((#) x)) (dec_all ?bs (length pre + length (enc x)))"
    using dec_enc [OF x, of pre "concat (map enc xs) @ post"] by (simp add: dec_all_step)
  also have "dec_all ?bs (length pre + length (enc x)) =
      map_option (map_option ((@) xs)) (dec_all ?bs (length pre + length (enc x) + length (concat (map enc xs))))"
    using Cons.IH [OF xs, of "pre @ enc x"] by (simp add: add.assoc)
  finally show ?case by (simp add: option.map_comp o_def add.assoc)
qed

end

end
