(* ===== verification/Ber.thy ===== *)
theory Ber
  imports Stream_Codec
begin

text \<open>
  ASN.1 BER as \<open>libs/tcap-core/src/ber.cpp\<close> implements it: tag, length and value of one
  element, the loop over a whole value, object identifiers and integers. Tag numbers are 32-bit
  and lengths 64-bit words that wrap as the C++ types do; offsets are naturals, since they never
  exceed the size of a vector. \<open>encode_tlv t\<close> is what the C++ function appends to its output.
\<close>

section \<open>Data\<close>

datatype tag_class = kUniversal | kApplication | kContext | kPrivate

definition tag_class_code :: "tag_class \<Rightarrow> octet" where
  "tag_class_code c = (case c of kUniversal \<Rightarrow> 0 | kApplication \<Rightarrow> 1 | kContext \<Rightarrow> 2 | kPrivate \<Rightarrow> 3)"

definition tag_class_of :: "octet \<Rightarrow> tag_class" where
  "tag_class_of b = (if b = 0 then kUniversal else if b = 1 then kApplication else if b = 2 then kContext else kPrivate)"

record tlv =
  tag_class :: tag_class
  constructed :: bool
  tag_number :: u32
  tlv_value :: octets

abbreviation tlv_of :: "tag_class \<Rightarrow> bool \<Rightarrow> u32 \<Rightarrow> octets \<Rightarrow> tlv" where
  "tlv_of c k n v \<equiv> \<lparr>tag_class = c, constructed = k, tag_number = n, tlv_value = v\<rparr>"

section \<open>Encoding\<close>

text \<open>The loops that split an integer into groups of 7 and of 8 bits, least significant first.\<close>

lemma unat_drop_bit_less: "v \<noteq> 0 \<Longrightarrow> 0 < k \<Longrightarrow> unat (drop_bit k v) < unat (v :: 'w::len word)"
proof -
  assume "v \<noteq> 0" "0 < k"
  then have "0 < unat v" "(1::nat) < 2 ^ k" by (simp_all add: unat_gt_0 one_less_power del: One_nat_def)
  then show ?thesis by (simp add: unat_drop_bit_eq drop_bit_nat_def div_less_dividend)
qed

function arc_bytes :: "u32 \<Rightarrow> octets" where
  "arc_bytes v = ucast (v AND 0x7F) # (if drop_bit 7 v \<noteq> 0 then arc_bytes (drop_bit 7 v) else [])"
  by auto
termination
proof (relation "measure unat")
  fix v :: u32
  assume "drop_bit 7 v \<noteq> 0"
  then have "v \<noteq> 0" by auto
  then show "(drop_bit 7 v, v) \<in> measure unat" by (simp add: unat_drop_bit_less)
qed simp

function len_bytes :: "u64 \<Rightarrow> octets" where
  "len_bytes v = (if v \<noteq> 0 then ucast (v AND 0xFF) # len_bytes (drop_bit 8 v) else [])"
  by auto
termination by (relation "measure unat") (simp_all add: unat_drop_bit_less)

declare arc_bytes.simps [simp del] len_bytes.simps [simp del]

text \<open>Most significant group first, with the continuation bit on every octet but the last.\<close>

definition push_arc :: "octets \<Rightarrow> octets" where
  "push_arc as = map (\<lambda>i. if i \<noteq> 0 then as ! i OR 0x80 else as ! i) (rev [0..<length as])"

definition encode_tag :: "tag_class \<Rightarrow> bool \<Rightarrow> u32 \<Rightarrow> octets" where
  "encode_tag c k n =
     (let first = push_bit 6 (tag_class_code c) OR (if k then 0x20 else 0x00) in
      if n < 31 then [first OR ucast n] else (first OR 0x1F) # push_arc (arc_bytes n))"

definition encode_length :: "u64 \<Rightarrow> octets" where
  "encode_length len =
     (if len < 128 then [ucast len]
      else (0x80 OR word_of_nat (length (len_bytes len))) # rev (len_bytes len))"

definition encode_tlv :: "tlv \<Rightarrow> octets" where
  "encode_tlv t =
     encode_tag (tag_class t) (constructed t) (tag_number t) @
     encode_length (word_of_nat (length (tlv_value t))) @ tlv_value t"

section \<open>Decoding\<close>

definition shift_in7 :: "u32 \<Rightarrow> octet \<Rightarrow> u32" where
  "shift_in7 v b = push_bit 7 v OR ucast (b AND 0x7F)"

function tag_loop :: "octets \<Rightarrow> nat \<Rightarrow> u32 \<Rightarrow> (u32 \<times> nat) option checked" where
  "tag_loop bs pos n =
     (if pos < length bs then
        do { b \<leftarrow> octet_at bs pos;
             if b AND 0x80 = 0 then ret (shift_in7 n b, pos + 1)
             else tag_loop bs (pos + 1) (shift_in7 n b) }
      else nullopt)"
  by auto
termination by (relation "measure (\<lambda>(bs, pos, n). length bs - pos)") auto

declare tag_loop.simps [simp del]

definition decode_tag_number :: "octets \<Rightarrow> nat \<Rightarrow> octet \<Rightarrow> (u32 \<times> nat) option checked" where
  "decode_tag_number bs pos first =
     (if first AND 0x1F = 0x1F then tag_loop bs pos 0 else ret (ucast (first AND 0x1F), pos))"

definition decode_length :: "octets \<Rightarrow> nat \<Rightarrow> (u64 \<times> nat) option checked" where
  "decode_length bs pos =
     (if length bs \<le> pos then nullopt
      else do {
        len_first \<leftarrow> octet_at bs pos;
        if len_first AND 0x80 = 0 then ret (ucast len_first, pos + 1)
        else (let num_len_bytes = unat (len_first AND 0x7F) in
              if num_len_bytes = 0 \<or> length bs < pos + 1 + num_len_bytes then nullopt
              else do { len \<leftarrow> get_be_loop bs (pos + 1) num_len_bytes 0;
                        ret (len, pos + 1 + num_len_bytes) }) })"

definition decode_tlv :: "tlv decoder" where
  "decode_tlv bs off =
     (if length bs \<le> off then nullopt
      else do {
        first \<leftarrow> octet_at bs off;
        and_then (decode_tag_number bs (off + 1) first) (\<lambda>(n, pos).
        and_then (decode_length bs pos) (\<lambda>(len, pos).
          if length bs - pos < unat len then nullopt
          else do {
            v \<leftarrow> sub_octets bs pos (pos + unat len);
            ret (tlv_of (tag_class_of (drop_bit 6 first AND 0x03)) (first AND 0x20 \<noteq> 0) n v, pos + unat len) })) })"


section \<open>Round trip of one element\<close>


lemma push_arc_Cons:
  "push_arc (a # as) = map (\<lambda>b. b OR 0x80) (rev as) @ [a]"
proof -
  have "rev [0..<length (a # as)] = rev (map Suc [0..<length as]) @ [0]"
    by (simp add: map_Suc_upt upt_conv_Cons del: upt_Suc)
  moreover have "map (\<lambda>x. as ! x OR 0x80) [0..<length as] = map (\<lambda>b. b OR 0x80) as"
    by (rule nth_equalityI) simp_all
  ultimately show ?thesis
    by (simp add: push_arc_def rev_map [symmetric] o_def del: upt_Suc)
qed

lemma and_0x7F: "(v :: 'w::len word) AND 0x7F = take_bit 7 v"
proof -
  have "(0x7F :: 'w word) = mask 7" by (simp add: mask_eq_exp_minus_1)
  then show ?thesis by (simp add: take_bit_eq_mask)
qed

lemma and_0x80_eq_0: "(b :: octet) AND 0x80 = 0 \<longleftrightarrow> \<not> bit b 7"
proof -
  have "(0x80 :: octet) = 2 ^ 7" by simp
  then show ?thesis by (simp only: and_exp_eq_0_iff_not_bit)
qed

lemma shift_in7_or: "shift_in7 n (b OR 0x80) = shift_in7 n b"
  by (simp add: shift_in7_def bit.conj_disj_distrib2)

lemma shift_in7_split: "shift_in7 (drop_bit 7 v) (ucast (v AND 0x7F)) = v"
  unfolding shift_in7_def and_0x7F
proof (rule bit_word_eqI)
  fix n assume "n < LENGTH(32)"
  then show "bit (push_bit 7 (drop_bit 7 v) OR ucast (take_bit 7 (ucast (take_bit 7 v) :: octet)) :: u32) n = bit v n"
    by (cases "n < 7") (auto simp: bit_simps)
qed

lemma foldl_arc_bytes: "foldl shift_in7 0 (rev (arc_bytes v)) = v"
proof (induction v rule: arc_bytes.induct)
  case (1 v)
  show ?case
  proof (cases "drop_bit 7 v = 0")
    case True
    then show ?thesis using shift_in7_split [of v]
      by (subst arc_bytes.simps) simp
  next
    case False
    with 1 show ?thesis using shift_in7_split [of v]
      by (subst arc_bytes.simps) simp
  qed
qed

lemma arc_bytes_small: "b \<in> set (arc_bytes v) \<Longrightarrow> b AND 0x80 = 0"
proof (induction v rule: arc_bytes.induct)
  case (1 v)
  have "ucast (v AND 0x7F) AND (0x80 :: octet) = 0"
    unfolding and_0x80_eq_0 and_0x7F by (auto simp: bit_simps)
  with 1 show ?case by (subst (asm) (2) arc_bytes.simps) (auto split: if_splits)
qed

lemma tag_loop_push_arc:
  assumes "\<And>b. b \<in> set as \<Longrightarrow> b AND 0x80 = 0" "as \<noteq> []"
  shows "tag_loop (pre @ push_arc as @ post) (length pre) n =
    ret (foldl shift_in7 n (rev as), length pre + length as)"
proof -
  obtain a xs where as: "as = a # xs" using assms(2) by (cases as) auto
  have a: "a AND 0x80 = 0" using assms(1) as by simp
  have "tag_loop (pre @ map (\<lambda>b. b OR 0x80) ys @ a # post) (length pre) n =
      ret (shift_in7 (foldl shift_in7 n ys) a, length pre + length ys + 1)" for ys
  proof (induction ys arbitrary: pre n)
    case Nil
    then show ?case by (subst tag_loop.simps) (simp add: a)
  next
    case (Cons y ys)
    have "(y OR 0x80) AND 0x80 \<noteq> 0"
      by (simp add: and_0x80_eq_0 bit_simps)
    then show ?case
      using Cons.IH [of "pre @ [y OR 0x80]" "shift_in7 n y"]
      by (subst tag_loop.simps) (simp add: shift_in7_or)
  qed
  from this [of "rev xs"] show ?thesis by (simp add: as push_arc_Cons)
qed

lemma foldl_len_bytes: "foldl shift_in 0 (rev (len_bytes v)) = v"
proof (induction v rule: len_bytes.induct)
  case (1 v)
  then show ?case using shift_in_drop [of 0 v]
    by (subst len_bytes.simps) simp
qed

lemma length_len_bytes: "unat v < 2 ^ (8 * k) \<Longrightarrow> length (len_bytes v) \<le> k"
proof (induction k arbitrary: v)
  case 0
  then have "v = 0" by (simp add: unat_eq_zero)
  then show ?case by (subst len_bytes.simps) simp
next
  case (Suc k)
  then have "unat (drop_bit 8 v) < 2 ^ (8 * k)"
    by (simp add: unat_drop_bit_eq drop_bit_nat_def less_mult_imp_div_less power_add mult.commute)
  then show ?case using Suc.IH by (subst len_bytes.simps) simp
qed

lemma length_len_bytes_le: "length (len_bytes v) \<le> 8"
  using length_len_bytes [of v 8] unsigned_less [of v] by simp

lemma len_bytes_nonempty: "v \<noteq> 0 \<Longrightarrow> len_bytes v \<noteq> []"
  by (subst len_bytes.simps) simp

lemma length_octet:
  assumes "0 < n" "n \<le> 8"
  shows "(0x80 OR word_of_nat n :: octet) AND 0x80 \<noteq> 0"
    and "unat ((0x80 OR word_of_nat n :: octet) AND 0x7F) = n"
proof -
  from assms have "n \<in> {1, 2, 3, 4, 5, 6, 7, 8}" by auto
  then show "(0x80 OR word_of_nat n :: octet) AND 0x80 \<noteq> 0"
    and "unat ((0x80 OR word_of_nat n :: octet) AND 0x7F) = n" by auto
qed

lemma decode_encode_length:
  "decode_length (pre @ encode_length len @ post) (length pre) =
     ret (len, length pre + length (encode_length len))"
proof (cases "len < 128")
  case True
  then have "unat len < 2 ^ 7" by (simp add: word_less_nat_alt)
  then have len: "take_bit 7 len = len"
    by (rule take_bit_self)
  have "ucast len AND (0x80 :: octet) = 0"
    unfolding and_0x80_eq_0 by (subst len [symmetric]) (simp add: bit_simps)
  moreover have "ucast (ucast len :: octet) = len"
    by (subst (1 2) len [symmetric]) (rule bit_word_eqI, auto simp: bit_simps)
  ultimately show ?thesis using True
    by (simp add: decode_length_def encode_length_def)
next
  case False
  let ?ls = "rev (len_bytes len)"
  from False have "len \<noteq> 0" by auto
  then have n: "0 < length (len_bytes len)" by (simp add: len_bytes_nonempty)
  note o = length_octet [OF this length_len_bytes_le]
  show ?thesis using False n o
    by (simp add: decode_length_def encode_length_def get_be_loop_foldl foldl_len_bytes)
qed

text \<open>The first octet: class in bits 8 and 7, the constructed flag in bit 6, and five bits that
  hold a small tag number.\<close>

definition tag_head :: "tag_class \<Rightarrow> bool \<Rightarrow> octet" where
  "tag_head c k = push_bit 6 (tag_class_code c) OR (if k then 0x20 else 0x00)"

lemma tag_head_low:
  assumes "unat x < 32"
  shows "tag_class_of (drop_bit 6 (tag_head c k OR x) AND 0x03) = c"
    and "(tag_head c k OR x) AND 0x20 \<noteq> 0 \<longleftrightarrow> k"
    and "(tag_head c k OR x) AND 0x1F = x"
proof -
  have "unat x < 2 ^ 5" using assms by simp
  then have x: "take_bit 5 x = x" by (rule take_bit_self)
  have mask5: "y AND 0x1F = take_bit 5 y" for y :: octet
    by (simp add: take_bit_eq_mask mask_eq_exp_minus_1)
  have "drop_bit 6 (take_bit 5 x) = 0" by (simp add: drop_bit_take_bit)
  then have d: "drop_bit 6 x = 0" by (simp only: x)
  have "take_bit 5 x AND 0x20 = 0" by (simp add: take_bit_eq_mask mask_eq_exp_minus_1 and.assoc)
  then have a: "x AND 0x20 = 0" by (simp only: x)
  have h: "take_bit 5 (tag_head c k) = 0" "drop_bit 6 (tag_head c k) AND 0x03 = tag_class_code c"
    "tag_head c k AND 0x20 \<noteq> 0 \<longleftrightarrow> k"
    by (cases c; cases k; simp add: tag_head_def tag_class_code_def)+
  have c: "tag_class_of (tag_class_code c) = c"
    by (cases c) (simp_all add: tag_class_code_def tag_class_of_def)
  show "tag_class_of (drop_bit 6 (tag_head c k OR x) AND 0x03) = c"
    by (simp only: drop_bit_or d or.right_neutral h c)
  show "(tag_head c k OR x) AND 0x20 \<noteq> 0 \<longleftrightarrow> k"
    by (simp only: bit.conj_disj_distrib2 a or.right_neutral h)
  show "(tag_head c k OR x) AND 0x1F = x"
    by (simp only: mask5 take_bit_or h x or.left_neutral)
qed

lemma encode_tag_cases:
  "encode_tag c k n =
     (if n < 31 then [tag_head c k OR ucast n] else (tag_head c k OR 0x1F) # push_arc (arc_bytes n))"
  by (simp add: encode_tag_def tag_head_def Let_def)

lemma decode_encode_tag:
  "\<exists>first tl. encode_tag c k n = first # tl \<and>
     (\<forall>pre post. decode_tag_number (pre @ encode_tag c k n @ post) (Suc (length pre)) first =
       ret (n, length pre + length (encode_tag c k n))) \<and>
     tag_class_of (drop_bit 6 first AND 0x03) = c \<and> (first AND 0x20 \<noteq> 0 \<longleftrightarrow> k)"
proof (cases "n < 31")
  case True
  then have n: "unat n < 31" by (simp add: word_less_nat_alt)
  then have u: "unat (ucast n :: octet) = unat n" 
    by (simp add: unsigned_ucast_eq take_bit_self take_bit_nat_eq_self)
  with n have "(ucast n :: octet) \<noteq> 0x1F" by (auto dest: arg_cong [of _ _ unat])
  moreover have "ucast (ucast n :: octet) = n"
    using n by (simp add: word_unat_eq_iff unsigned_ucast_eq take_bit_self)
  ultimately show ?thesis
    using True n u by (simp add: encode_tag_cases decode_tag_number_def tag_head_low del: drop_bit_or)
next
  case False
  have ne: "arc_bytes n \<noteq> []" by (subst arc_bytes.simps) simp
  have "tag_loop ((pre @ [tag_head c k OR 0x1F]) @ push_arc (arc_bytes n) @ post)
      (length (pre @ [tag_head c k OR 0x1F])) 0 =
    ret (foldl shift_in7 0 (rev (arc_bytes n)), length (pre @ [tag_head c k OR 0x1F]) + length (arc_bytes n))" for pre post
    by (rule tag_loop_push_arc [OF arc_bytes_small ne])
  moreover have "length (push_arc (arc_bytes n)) = length (arc_bytes n)"
    by (simp add: push_arc_def)
  ultimately show ?thesis using False
    by (simp add: encode_tag_cases decode_tag_number_def tag_head_low foldl_arc_bytes del: drop_bit_or)
qed

lemma decode_encode_tlv:
  assumes "length (tlv_value t) < 2 ^ 64"
  shows "decode_tlv (pre @ encode_tlv t @ post) (length pre) = ret (t, length pre + length (encode_tlv t))"
proof -
  let ?tag = "encode_tag (tag_class t) (constructed t) (tag_number t)"
  let ?len = "encode_length (word_of_nat (length (tlv_value t)))"
  obtain first tl where f: "?tag = first # tl"
    "\<And>post. decode_tag_number (pre @ ?tag @ post) (Suc (length pre)) first = ret (tag_number t, length pre + length ?tag)"
    "tag_class_of (drop_bit 6 first AND 0x03) = tag_class t" "first AND 0x20 \<noteq> 0 \<longleftrightarrow> constructed t"
    using decode_encode_tag [of "tag_class t" "constructed t" "tag_number t"] by blast
  have l: "decode_length (pre @ ?tag @ ?len @ tlv_value t @ post) (length pre + length ?tag) =
      ret (word_of_nat (length (tlv_value t)), length pre + length ?tag + length ?len)"
    using decode_encode_length [of "pre @ ?tag"] by simp
  have v: "sub_octets (pre @ ?tag @ ?len @ tlv_value t @ post) (length pre + length ?tag + length ?len)
      (length pre + length ?tag + length ?len + length (tlv_value t)) = Some (tlv_value t)"
    using sub_octets_exact [of "pre @ ?tag @ ?len" "tlv_value t" post] by (simp add: add.assoc)
  have u: "unat (word_of_nat (length (tlv_value t)) :: u64) = length (tlv_value t)"
    using assms by (simp add: unat_of_nat take_bit_nat_eq_self)
  show ?thesis
    unfolding decode_tlv_def encode_tlv_def append_assoc
    using f l v u by (cases t) (auto simp: octet_at_def nth_append)
qed


section \<open>Safety, progress and bounds\<close>

lemma tag_loop_sound: "sound (tag_loop bs pos n) (\<lambda>(m, pos'). pos < pos' \<and> pos' \<le> length bs)"
proof (induction bs pos n rule: tag_loop.induct)
  case (1 bs pos n)
  show ?case
    by (subst tag_loop.simps, intro sound_intros)
      (use 1 in \<open>auto simp: octet_at_def intro: sound_mono\<close>)
qed

lemma decode_tag_number_sound:
  "pos \<le> length bs \<Longrightarrow> sound (decode_tag_number bs pos first) (\<lambda>(m, pos'). pos \<le> pos' \<and> pos' \<le> length bs)"
  using tag_loop_sound [of bs pos 0] by (auto simp: decode_tag_number_def intro: sound_mono)

lemma decode_length_sound:
  "sound (decode_length bs pos) (\<lambda>(len, pos'). pos < pos' \<and> pos' \<le> length bs)"
  by (auto simp: decode_length_def Let_def checked_simps get_be_loop_foldl)

lemma decode_tlv_sound:
  "sound (decode_tlv bs off) (\<lambda>(t, off').
     off + 2 + length (tlv_value t) \<le> off' \<and> off' \<le> length bs \<and>
     tlv_value t = take (length (tlv_value t)) (drop (off' - length (tlv_value t)) bs))"
  unfolding decode_tlv_def
  by (intro sound_if sound_octet_at sound_and_then [OF decode_tag_number_sound]
      sound_and_then [OF decode_length_sound] sound_sub_octets sound_case_prod) auto

lemma decode_tlv_safe: "decode_tlv bs off \<noteq> None"
  by (rule sound_safe [OF decode_tlv_sound])

lemma decode_tlv_progress: "decode_tlv bs off = ret (t, off') \<Longrightarrow> off + 2 \<le> off' \<and> off' \<le> length bs"
  using decode_tlv_sound [of bs off] by auto

section \<open>All elements of a value\<close>

function decode_tlvs_from :: "octets \<Rightarrow> nat \<Rightarrow> tlv list option checked" where
  "decode_tlvs_from bs off =
     (if off < length bs then
        and_then (decode_tlv bs off) (\<lambda>(t, off'). and_then (decode_tlvs_from bs off') (\<lambda>ts. ret (t # ts)))
      else ret [])"
  by auto
termination
  by (relation "measure (\<lambda>(bs, off). length bs - off)") (auto dest!: decode_tlv_progress)

declare decode_tlvs_from.simps [simp del]

definition decode_tlvs :: "octets \<Rightarrow> tlv list option checked" where
  "decode_tlvs bs = decode_tlvs_from bs 0"

definition tlv_ok :: "tlv \<Rightarrow> bool" where
  "tlv_ok t \<longleftrightarrow> length (tlv_value t) < 2 ^ 64"

interpretation ber: stream_codec encode_tlv decode_tlv tlv_ok decode_tlvs_from
proof unfold_locales
  show "tlv_ok x \<Longrightarrow> decode_tlv (pre @ encode_tlv x @ post) (length pre) =
      ret (x, length pre + length (encode_tlv x))" for x pre post
    by (simp add: tlv_ok_def decode_encode_tlv)
  show "decode_tlv bs off \<noteq> None" for bs off by (rule decode_tlv_safe)
  show "decode_tlv bs off = ret (x, off') \<Longrightarrow> off < off'" for bs off x off'
    using decode_tlv_progress by fastforce
  show "length bs \<le> off \<Longrightarrow> decode_tlvs_from bs off = ret []" for bs off
    by (simp add: decode_tlvs_from.simps)
  show "off < length bs \<Longrightarrow> decode_tlvs_from bs off =
      (case decode_tlv bs off of None \<Rightarrow> None | Some None \<Rightarrow> Some None
       | Some (Some (x, off')) \<Rightarrow> map_option (map_option ((#) x)) (decode_tlvs_from bs off'))" for bs off
    by (subst decode_tlvs_from.simps)
      (simp add: case_and_then map_and_then case_prod_beta')
qed


section \<open>Object identifiers\<close>

definition encode_oid :: "u32 list \<Rightarrow> octets" where
  "encode_oid arcs =
     (case arcs of
        a # b # rest \<Rightarrow> ucast (a * 40 + b) # concat (map (\<lambda>v. push_arc (arc_bytes v)) rest)
      | _ \<Rightarrow> [])"

fun oid_loop :: "octets \<Rightarrow> u32 \<Rightarrow> bool \<Rightarrow> u32 list \<Rightarrow> u32 list option" where
  "oid_loop [] current in_progress arcs = (if in_progress then None else Some arcs)"
| "oid_loop (b # bs) current in_progress arcs =
     (if b AND 0x80 = 0 then oid_loop bs 0 False (arcs @ [shift_in7 current b])
      else oid_loop bs (shift_in7 current b) True arcs)"

definition decode_oid :: "octets \<Rightarrow> u32 list option" where
  "decode_oid data =
     (case data of [] \<Rightarrow> None
      | b # bs \<Rightarrow> oid_loop bs 0 False [ucast (b div 40), ucast (b mod 40)])"

text \<open>The identifiers the format can carry: the first two arcs share one octet, and the reader
  splits it by 40 whatever the first arc is.\<close>

definition oid_ok :: "u32 list \<Rightarrow> bool" where
  "oid_ok arcs \<longleftrightarrow> (case arcs of a # b # rest \<Rightarrow> unat b < 40 \<and> unat a * 40 + unat b < 256 | _ \<Rightarrow> False)"

lemma oid_loop_push_arc:
  assumes "\<And>b. b \<in> set as \<Longrightarrow> b AND 0x80 = 0" "as \<noteq> []"
  shows "oid_loop (push_arc as @ rest) c p arcs = oid_loop rest 0 False (arcs @ [foldl shift_in7 c (rev as)])"
proof -
  obtain a xs where as: "as = a # xs" using assms(2) by (cases as) auto
  have a: "a AND 0x80 = 0" using assms(1) as by simp
  have "oid_loop (map (\<lambda>b. b OR 0x80) ys @ a # rest) c p arcs =
      oid_loop rest 0 False (arcs @ [shift_in7 (foldl shift_in7 c ys) a])" for ys
  proof (induction ys arbitrary: c p)
    case (Cons y ys)
    have "(y OR 0x80) AND 0x80 \<noteq> 0" by (simp add: and_0x80_eq_0 bit_simps)
    with Cons show ?case by (simp add: shift_in7_or)
  qed (simp add: a)
  then show ?thesis by (simp add: as push_arc_Cons)
qed

lemma oid_loop_arcs:
  "oid_loop (concat (map (\<lambda>v. push_arc (arc_bytes v)) rest)) 0 False arcs = Some (arcs @ rest)"
proof (induction rest arbitrary: arcs)
  case (Cons v rest)
  have "arc_bytes v \<noteq> []" by (subst arc_bytes.simps) simp
  with Cons show ?case by (simp add: oid_loop_push_arc arc_bytes_small foldl_arc_bytes)
qed simp

lemma unat_first_arcs:
  "unat (ucast (a * 40 + b :: u32) :: octet) = (unat a * 40 + unat b) mod 256"
proof -
  have "unat (ucast (a * 40 + b :: u32) :: octet) = ((unat a * 40 + unat b) mod 2 ^ 32) mod 2 ^ 8"
    by (simp add: unsigned_ucast_eq unsigned_take_bit_eq take_bit_eq_mod unat_word_ariths mod_simps)
  also have "\<dots> = (unat a * 40 + unat b) mod 2 ^ 8"
    by (rule mod_mod_cancel) (simp add: dvd_def)
  finally show ?thesis by simp
qed

text \<open>Reading an encoded object identifier gives it back exactly when it has at
  least two arcs, its second arc is below 40 and the first two fit one octet; every other
  identifier is changed or refused.\<close>

theorem oid_roundtrip_iff: "decode_oid (encode_oid arcs) = Some arcs \<longleftrightarrow> oid_ok arcs"
proof (cases arcs)
  case (Cons a tl)
  show ?thesis
  proof (cases tl)
    case (Cons b rest)
    let ?v = "(unat a * 40 + unat b) mod 256"
    have d: "unat (ucast (w div 40) :: u32) = unat w div 40" "unat (ucast (w mod 40) :: u32) = unat w mod 40"
      for w :: octet
    proof -
      have "unat w < 2 ^ LENGTH(8)" by (rule unsigned_less)
      then show "unat (ucast (w div 40) :: u32) = unat w div 40" "unat (ucast (w mod 40) :: u32) = unat w mod 40"
        by (simp_all only: unsigned_ucast_eq) (simp_all add: unat_div unat_mod take_bit_nat_eq_self)
    qed
    have eq: "decode_oid (encode_oid arcs) = Some arcs \<longleftrightarrow> ?v div 40 = unat a \<and> ?v mod 40 = unat b"
      using \<open>arcs = a # tl\<close> Cons
      by (simp add: encode_oid_def decode_oid_def oid_loop_arcs word_unat_eq_iff d unat_first_arcs)
    have "?v div 40 = unat a \<and> ?v mod 40 = unat b \<longleftrightarrow> unat b < 40 \<and> unat a * 40 + unat b < 256"
    proof
      assume v: "?v div 40 = unat a \<and> ?v mod 40 = unat b"
      have "?v div 40 * 40 + ?v mod 40 = ?v" by (rule div_mult_mod_eq)
      with v have "unat a * 40 + unat b = ?v" by simp
      moreover have "?v < 256" "?v mod 40 < 40" by simp_all
      ultimately show "unat b < 40 \<and> unat a * 40 + unat b < 256" using v by linarith
    next
      assume "unat b < 40 \<and> unat a * 40 + unat b < 256"
      then show "?v div 40 = unat a \<and> ?v mod 40 = unat b" by simp
    qed
    with eq \<open>arcs = a # tl\<close> Cons show ?thesis by (simp add: oid_ok_def)
  qed (simp add: \<open>arcs = a # tl\<close> encode_oid_def decode_oid_def oid_ok_def)
qed (simp add: encode_oid_def decode_oid_def oid_ok_def)

section \<open>Integers\<close>

text \<open>The first octet kept: leading octets that only repeat the sign are dropped.\<close>

fun drop_sign :: "octets \<Rightarrow> octets" where
  "drop_sign (a # b # bs) =
     (if (a = 0x00 \<and> b AND 0x80 = 0) \<or> (a = 0xFF \<and> b AND 0x80 \<noteq> 0) then drop_sign (b # bs) else a # b # bs)"
| "drop_sign bs = bs"

definition encode_integer :: "32 word \<Rightarrow> octets" where
  "encode_integer v = drop_sign (put_u32 v)"

definition decode_integer :: "octets \<Rightarrow> 32 word option" where
  "decode_integer data =
     (if data = [] \<or> 4 < length data then None
      else Some (foldl shift_in (if hd data AND 0x80 \<noteq> 0 then - 1 else 0) data))"

lemma shift_in_sign: "shift_in (0 :: 32 word) 0 = 0" "shift_in (- 1 :: 32 word) 0xFF = - 1"
proof -
  have "(0xFF :: octet) = - 1" by simp
  then show "shift_in (- 1 :: 32 word) 0xFF = - 1"
    by (simp only: shift_in_def) (rule bit_word_eqI, auto simp: bit_simps)
qed (simp add: shift_in_def)

text \<open>Four octets shift the initial value out of the 32 bits.\<close>

lemma foldl_join_u32: "foldl shift_in w [a, b, c, d] = join_u32 a b c d"
  unfolding join_u32_def by (simp add: shift_in_def push_bit_or or.assoc)

lemma foldl_put_u32: "foldl shift_in w (put_u32 v) = v"
proof -
  show ?thesis using join_put_u32 [of v] by (simp only: put_u32_def foldl_join_u32)
qed

definition sign_start :: "octets \<Rightarrow> 32 word" where
  "sign_start bs = (if hd bs AND 0x80 \<noteq> 0 then - 1 else 0)"

lemma foldl_drop_sign:
  "bs \<noteq> [] \<Longrightarrow> foldl shift_in (sign_start (drop_sign bs)) (drop_sign bs) = foldl shift_in (sign_start bs) bs"
proof (induction bs rule: drop_sign.induct)
  case (1 a b bs)
  then show ?case by (auto simp: sign_start_def shift_in_sign)
qed auto

lemma length_drop_sign: "bs \<noteq> [] \<Longrightarrow> drop_sign bs \<noteq> [] \<and> length (drop_sign bs) \<le> length bs"
  by (induction bs rule: drop_sign.induct) auto

text \<open>Every 32-bit integer is read back from its encoding.\<close>

theorem integer_roundtrip: "decode_integer (encode_integer v) = Some v"
proof -
  have ne: "put_u32 v \<noteq> []" by (simp add: put_u32_def)
  have "length (drop_sign (put_u32 v)) \<le> 4" "drop_sign (put_u32 v) \<noteq> []"
    using length_drop_sign [OF ne] by simp_all
  then show ?thesis
    using foldl_drop_sign [OF ne] foldl_put_u32
    by (simp add: decode_integer_def encode_integer_def sign_start_def)
qed

lemma put_join_u32: "put_u32 (join_u32 a b c d) = [a, b, c, d]"
  unfolding put_u32_def join_u32_def and_0xFF
  by (auto intro!: bit_word_eqI simp: bit_simps)

text \<open>Sign octets in front of a string do not change what it denotes.\<close>

lemma sign_extension:
  assumes "bs \<noteq> []" "k + length bs = 4"
  defines "s \<equiv> if hd bs AND 0x80 \<noteq> 0 then 0xFF else 0x00 :: octet"
  shows "put_u32 (foldl shift_in (sign_start bs) bs) = replicate k s @ bs"
proof -
  have "foldl shift_in (sign_start bs) (replicate k s) = sign_start bs"
    by (induction k) (auto simp: sign_start_def s_def shift_in_sign)
  then have "foldl shift_in (sign_start bs) bs = foldl shift_in (sign_start bs) (replicate k s @ bs)"
    by simp
  moreover obtain a b c d where "replicate k s @ bs = [a, b, c, d]"
  proof -
    have "length (replicate k s @ bs) = Suc (Suc (Suc (Suc 0)))" using assms(2) by simp
    then show ?thesis using that by (simp only: length_Suc_conv length_0_conv) blast
  qed
  ultimately show ?thesis
    by (simp only: put_join_u32 foldl_join_u32)
qed

lemma drop_sign_replicate:
  "bs \<noteq> [] \<Longrightarrow> drop_sign (replicate k (if hd bs AND 0x80 \<noteq> 0 then 0xFF else 0x00) @ bs) = drop_sign bs"
proof (induction k)
  case (Suc k)
  define s where "s = (if hd bs AND 0x80 \<noteq> 0 then 0xFF else 0x00 :: octet)"
  obtain b r where r: "replicate k s @ bs = b # r" "b AND 0x80 \<noteq> 0 \<longleftrightarrow> hd bs AND 0x80 \<noteq> 0"
    using Suc.prems by (cases k; cases bs) (auto simp: s_def)
  have "drop_sign (replicate (Suc k) s @ bs) = drop_sign (s # b # r)" using r by simp
  also have "\<dots> = drop_sign (b # r)"
    by (cases "hd bs AND 0x80 = 0") (use r(2) in \<open>simp_all only: s_def drop_sign.simps\<close>, simp_all)
  also have "\<dots> = drop_sign bs" using Suc r(1) by (simp add: s_def)
  finally show ?case by (simp add: s_def)
qed simp

text \<open>No octet string that denotes an integer is shorter than its encoding.\<close>

theorem integer_shortest:
  assumes "decode_integer bs = Some v"
  shows "length (encode_integer v) \<le> length bs"
proof -
  from assms have bs: "bs \<noteq> []" "length bs \<le> 4" "v = foldl shift_in (sign_start bs) bs"
    by (auto simp: decode_integer_def sign_start_def split: if_splits)
  then have "put_u32 v = replicate (4 - length bs) (if hd bs AND 0x80 \<noteq> 0 then 0xFF else 0x00) @ bs"
    using sign_extension [of bs "4 - length bs"] by simp
  then have "encode_integer v = drop_sign bs"
    using drop_sign_replicate [OF bs(1)] by (simp add: encode_integer_def)
  then show ?thesis using length_drop_sign [OF bs(1)] by simp
qed

lemma integer_shortest_witness: "length (encode_integer (- 2)) \<le> 2"
proof -
  have "decode_integer [0xFF, 0xFE] = Some (- 2)" by code_simp
  from integer_shortest [OF this] show ?thesis by simp
qed

text \<open>Property C37: reading one element never accesses memory outside the vector, whatever the
  octets, and when it succeeds the element's value is the slice of the input that ends at the new
  offset, at least two octets after the old one and within the vector.\<close>

theorem decode_tlv_bounds:
  "decode_tlv bs off \<noteq> None \<and>
   (\<forall>t off'. decode_tlv bs off = ret (t, off') \<longrightarrow>
      off + 2 + length (tlv_value t) \<le> off' \<and> off' \<le> length bs \<and>
      tlv_value t = take (length (tlv_value t)) (drop (off' - length (tlv_value t)) bs))"
  using decode_tlv_sound [of bs off] sound_safe [OF decode_tlv_sound] by fastforce

lemma decode_tlv_bounds_witness:
  "decode_tlv [0x30, 0x88, 0xFF, 0xFF, 0xFF, 0xFF, 0xFF, 0xFF, 0xFF, 0xFF, 0x00] 0 = nullopt \<and>
   decode_tlv [0x04, 0x01, 0x2A] 0 = ret (tlv_of kUniversal False 4 [0x2A], 3) \<and>
   [0x2A] = take 1 (drop 2 [0x04, 0x01, 0x2A :: octet])"
proof -
  have d: "decode_tlv [0x04, 0x01, 0x2A] 0 = ret (tlv_of kUniversal False 4 [0x2A], 3)"
    by (simp add: decode_tlv_def decode_tag_number_def decode_length_def tag_class_of_def sub_octets_def)
  moreover have "decode_tlv [0x30, 0x88, 0xFF, 0xFF, 0xFF, 0xFF, 0xFF, 0xFF, 0xFF, 0xFF, 0x00] 0 = nullopt"
    by (simp add: decode_tlv_def decode_tag_number_def decode_length_def get_be_loop_foldl shift_in_def)
  ultimately show ?thesis
    using decode_tlv_bounds [of "[0x04, 0x01, 0x2A]" 0] by simp
qed

text \<open>A constructed value is the concatenation of its parts; if it fits a vector, so do they.\<close>

lemma length_encode_tlv: "length (tlv_value t) < length (encode_tlv t)"
  using decode_encode_tag [of "tag_class t" "constructed t" "tag_number t"]
  by (auto simp: encode_tlv_def)

lemma tlv_ok_parts: "length (concat (map encode_tlv ts)) < 2 ^ 64 \<Longrightarrow> list_all tlv_ok ts"
proof (induction ts)
  case (Cons t ts)
  then show ?case using length_encode_tlv [of t] by (simp add: tlv_ok_def)
qed simp

lemma decode_tlvs_parts:
  "bs = concat (map encode_tlv ts) \<Longrightarrow> length bs < 2 ^ 64 \<Longrightarrow> decode_tlvs bs = ret ts"
  by (simp add: decode_tlvs_def ber.dec_all_roundtrip tlv_ok_parts)

lemma decode_tlvs_safe: "decode_tlvs bs \<noteq> None"
  by (simp add: decode_tlvs_def ber.dec_all_safe)

lemma sound_decode_tlvs: "sound (decode_tlvs bs) (\<lambda>_. True)"
  using decode_tlvs_safe by (intro soundI) auto

lemma decode_tlv_whole: "length (encode_tlv t) < 2 ^ 64 \<Longrightarrow> decode_tlv (encode_tlv t) 0 = ret (t, length (encode_tlv t))"
  using decode_encode_tlv [of t "[]" "[]"] length_encode_tlv [of t] by simp

text \<open>The elements of a message are read back, in order and completely, from the
  concatenation of their encodings.\<close>

theorem decode_tlvs_roundtrip:
  "list_all tlv_ok ts \<Longrightarrow> decode_tlvs (concat (map encode_tlv ts)) = ret ts"
  unfolding decode_tlvs_def by (rule ber.dec_all_roundtrip)

lemma decode_tlvs_roundtrip_witness:
  "decode_tlvs (encode_tlv (tlv_of kContext True 200 [1, 2]) @ encode_tlv (tlv_of kUniversal False 5 [])) =
     ret [tlv_of kContext True 200 [1, 2], tlv_of kUniversal False 5 []]"
  using decode_tlvs_roundtrip [of "[tlv_of kContext True 200 [1, 2], tlv_of kUniversal False 5 []]"]
  by (simp add: tlv_ok_def)

end
