(* ===== verification/Tcap_Component.thy ===== *)
theory Tcap_Component
  imports Ber
begin

text \<open>
  TCAP components (\<open>libs/tcap-core/src/component.cpp\<close>): the encoders of the five component
  kinds and the decoder that dispatches on the tag. A run over \<open>parts[idx]\<close> is a run
  over the list of the parts not yet consumed; \<open>idx >= parts.size()\<close> is the empty list.
\<close>

section \<open>Data\<close>

record operation_code =
  oc_local :: "32 word option"
  oc_global :: "u32 list option"

record invoke =
  inv_id :: "32 word"
  inv_linked_id :: "32 word option"
  inv_operation_code :: operation_code
  inv_parameter :: octets

record rr_result =
  res_operation_code :: operation_code
  res_parameter :: octets

record return_result =
  rr_invoke_id :: "32 word"
  rr_result :: "rr_result option"

record return_error =
  re_invoke_id :: "32 word"
  re_error_code :: operation_code
  re_parameter :: octets

record reject =
  rej_invoke_id_present :: bool
  rej_invoke_id :: "32 word"
  rej_problem_choice_tag :: octet
  rej_problem_value :: "32 word"

record component =
  comp_invoke :: "invoke option"
  comp_return_result :: "return_result option"
  comp_return_result_last :: "return_result option"
  comp_return_error :: "return_error option"
  comp_reject :: "reject option"

definition no_component :: component where
  "no_component = \<lparr>comp_invoke = None, comp_return_result = None, comp_return_result_last = None,
     comp_return_error = None, comp_reject = None\<rparr>"

text \<open>The tag numbers of \<open>UniversalTag\<close> and \<open>ComponentTag\<close>.\<close>

abbreviation (input) "kInteger \<equiv> (2 :: u32)"
abbreviation (input) "kNull \<equiv> (5 :: u32)"
abbreviation (input) "kObjectIdentifier \<equiv> (6 :: u32)"
abbreviation (input) "kExternal \<equiv> (8 :: u32)"
abbreviation (input) "kSequence \<equiv> (16 :: u32)"
abbreviation (input) "kInvoke \<equiv> (1 :: u32)"
abbreviation (input) "kReturnResultLast \<equiv> (2 :: u32)"
abbreviation (input) "kReturnError \<equiv> (3 :: u32)"
abbreviation (input) "kReject \<equiv> (4 :: u32)"
abbreviation (input) "kReturnResult \<equiv> (7 :: u32)"

definition has_tag :: "tlv \<Rightarrow> tag_class \<Rightarrow> u32 \<Rightarrow> bool" where
  "has_tag t c n \<longleftrightarrow> tag_class t = c \<and> tag_number t = n"

section \<open>Encoders\<close>

definition make_integer_tlv :: "tag_class \<Rightarrow> bool \<Rightarrow> u32 \<Rightarrow> 32 word \<Rightarrow> tlv" where
  "make_integer_tlv c k n v = tlv_of c k n (encode_integer v)"

definition operation_code_tlv :: "operation_code \<Rightarrow> tlv" where
  "operation_code_tlv oc =
     (case oc_local oc of
        Some v \<Rightarrow> tlv_of kUniversal False kInteger (encode_integer v)
      | None \<Rightarrow>
          (case oc_global oc of
             Some arcs \<Rightarrow> tlv_of kUniversal False kObjectIdentifier (encode_oid arcs)
           | None \<Rightarrow> tlv_of kUniversal False 0 []))"

definition encode_operation_code :: "operation_code \<Rightarrow> octets" where
  "encode_operation_code oc = encode_tlv (operation_code_tlv oc)"

definition encode_invoke :: "invoke \<Rightarrow> tlv" where
  "encode_invoke i = tlv_of kContext True kInvoke
     (encode_tlv (make_integer_tlv kUniversal False kInteger (inv_id i)) @
      (case inv_linked_id i of
         Some lid \<Rightarrow> encode_tlv (make_integer_tlv kContext False 0 lid)
       | None \<Rightarrow> []) @
      encode_operation_code (inv_operation_code i) @ inv_parameter i)"

definition encode_return_result :: "return_result \<Rightarrow> bool \<Rightarrow> tlv" where
  "encode_return_result rr is_last = tlv_of kContext True (if is_last then kReturnResultLast else kReturnResult)
     (encode_tlv (make_integer_tlv kUniversal False kInteger (rr_invoke_id rr)) @
      (case rr_result rr of
         Some r \<Rightarrow> encode_tlv (tlv_of kUniversal True kSequence
           (encode_operation_code (res_operation_code r) @ res_parameter r))
       | None \<Rightarrow> []))"

definition encode_return_error :: "return_error \<Rightarrow> tlv" where
  "encode_return_error re = tlv_of kContext True kReturnError
     (encode_tlv (make_integer_tlv kUniversal False kInteger (re_invoke_id re)) @
      encode_operation_code (re_error_code re) @ re_parameter re)"

definition encode_reject :: "reject \<Rightarrow> tlv" where
  "encode_reject rej = tlv_of kContext True kReject
     ((if rej_invoke_id_present rej
       then encode_tlv (make_integer_tlv kUniversal False kInteger (rej_invoke_id rej))
       else encode_tlv (tlv_of kUniversal False kNull [])) @
      encode_tlv (make_integer_tlv kContext False (ucast (rej_problem_choice_tag rej)) (rej_problem_value rej)))"

section \<open>Decoder\<close>

definition decode_operation_code :: "tlv \<Rightarrow> operation_code option" where
  "decode_operation_code t =
     (if tag_class t \<noteq> kUniversal then None
      else if tag_number t = kInteger then
        map_option (\<lambda>v. \<lparr>oc_local = Some v, oc_global = None\<rparr>) (decode_integer (tlv_value t))
      else if tag_number t = kObjectIdentifier then
        map_option (\<lambda>v. \<lparr>oc_local = None, oc_global = Some v\<rparr>) (decode_oid (tlv_value t))
      else None)"

text \<open>The first part left, re-encoded, is the opaque parameter; further parts are dropped.\<close>

definition opaque_parameter :: "tlv list \<Rightarrow> octets" where
  "opaque_parameter parts = (case parts of [] \<Rightarrow> [] | p # _ \<Rightarrow> encode_tlv p)"

definition decode_invoke_id :: "tlv \<Rightarrow> 32 word option" where
  "decode_invoke_id p = (if has_tag p kUniversal kInteger then decode_integer (tlv_value p) else None)"

definition decode_linked_id :: "tlv list \<Rightarrow> (32 word option \<times> tlv list) option" where
  "decode_linked_id parts =
     (case parts of
        q # rest \<Rightarrow>
          if has_tag q kContext 0 then map_option (\<lambda>lid. (Some lid, rest)) (decode_integer (tlv_value q))
          else Some (None, parts)
      | [] \<Rightarrow> Some (None, []))"

definition decode_invoke :: "tlv list \<Rightarrow> invoke option" where
  "decode_invoke parts =
     (case parts of [] \<Rightarrow> None | p # rest \<Rightarrow> do {
        id \<leftarrow> decode_invoke_id p;
        (lid, rest) \<leftarrow> decode_linked_id rest;
        (case rest of [] \<Rightarrow> None | q # rest \<Rightarrow> do {
           oc \<leftarrow> decode_operation_code q;
           Some \<lparr>inv_id = id, inv_linked_id = lid, inv_operation_code = oc,
                 inv_parameter = opaque_parameter rest\<rparr> }) })"

definition decode_result_sequence :: "tlv list \<Rightarrow> rr_result option option checked" where
  "decode_result_sequence parts =
     (case parts of
        [] \<Rightarrow> ret None
      | q # _ \<Rightarrow>
          if \<not> has_tag q kUniversal kSequence then nullopt
          else and_then (decode_tlvs (tlv_value q)) (\<lambda>seq_parts.
            (case seq_parts of
               [] \<Rightarrow> nullopt
             | c # rest \<Rightarrow>
                 Some (map_option (\<lambda>oc. Some \<lparr>res_operation_code = oc, res_parameter = opaque_parameter rest\<rparr>)
                   (decode_operation_code c)))))"

definition decode_return_result :: "tlv list \<Rightarrow> return_result option checked" where
  "decode_return_result parts =
     (case parts of [] \<Rightarrow> nullopt | p # rest \<Rightarrow>
        and_then (Some (decode_invoke_id p)) (\<lambda>id.
        and_then (decode_result_sequence rest) (\<lambda>r.
          ret \<lparr>rr_invoke_id = id, rr_result = r\<rparr>)))"

definition decode_return_error :: "tlv list \<Rightarrow> return_error option" where
  "decode_return_error parts =
     (case parts of
        p # q # rest \<Rightarrow> do {
          id \<leftarrow> decode_invoke_id p;
          ec \<leftarrow> decode_operation_code q;
          Some \<lparr>re_invoke_id = id, re_error_code = ec, re_parameter = opaque_parameter rest\<rparr> }
      | _ \<Rightarrow> None)"

definition decode_reject :: "tlv list \<Rightarrow> reject option" where
  "decode_reject parts =
     (case parts of [] \<Rightarrow> None | p # rest \<Rightarrow> do {
        (present, id) \<leftarrow>
          (if has_tag p kUniversal kInteger then map_option (\<lambda>id. (True, id)) (decode_integer (tlv_value p))
           else if has_tag p kUniversal kNull then Some (False, 0)
           else None);
        (case rest of [] \<Rightarrow> None | q # _ \<Rightarrow>
           if tag_class q \<noteq> kContext then None
           else do {
             v \<leftarrow> decode_integer (tlv_value q);
             Some \<lparr>rej_invoke_id_present = present, rej_invoke_id = id,
                   rej_problem_choice_tag = ucast (tag_number q), rej_problem_value = v\<rparr> }) })"

definition decode_component :: "tlv \<Rightarrow> component option checked" where
  "decode_component t =
     (if tag_class t \<noteq> kContext \<or> \<not> constructed t then nullopt
      else and_then (decode_tlvs (tlv_value t)) (\<lambda>parts.
        if parts = [] then nullopt
        else if tag_number t = kInvoke then
          Some (map_option (\<lambda>i. no_component \<lparr>comp_invoke := Some i\<rparr>) (decode_invoke parts))
        else if tag_number t = kReturnResult \<or> tag_number t = kReturnResultLast then
          and_then (decode_return_result parts) (\<lambda>rr.
            if tag_number t = kReturnResultLast then ret (no_component \<lparr>comp_return_result_last := Some rr\<rparr>)
            else ret (no_component \<lparr>comp_return_result := Some rr\<rparr>))
        else if tag_number t = kReturnError then
          Some (map_option (\<lambda>e. no_component \<lparr>comp_return_error := Some e\<rparr>) (decode_return_error parts))
        else if tag_number t = kReject then
          Some (map_option (\<lambda>r. no_component \<lparr>comp_reject := Some r\<rparr>) (decode_reject parts))
        else nullopt))"


section \<open>Round trip\<close>

definition operation_code_ok :: "operation_code \<Rightarrow> bool" where
  "operation_code_ok oc =
     (case (oc_local oc, oc_global oc) of
        (Some _, None) \<Rightarrow> True
      | (None, Some arcs) \<Rightarrow> oid_ok arcs
      | _ \<Rightarrow> False)"

text \<open>The parameters that survive: none, or the canonical encoding of one element.\<close>

definition parameter_ok :: "octets \<Rightarrow> bool" where
  "parameter_ok p =
     (p = [] \<or> (case decode_tlv p 0 of Some (Some (t, _)) \<Rightarrow> encode_tlv t = p | _ \<Rightarrow> False))"

datatype component_kind =
  Invoke_kind invoke | Result_kind return_result | Result_last_kind return_result
  | Error_kind return_error | Reject_kind reject

fun encode_component :: "component_kind \<Rightarrow> tlv" where
  "encode_component (Invoke_kind i) = encode_invoke i"
| "encode_component (Result_kind r) = encode_return_result r False"
| "encode_component (Result_last_kind r) = encode_return_result r True"
| "encode_component (Error_kind e) = encode_return_error e"
| "encode_component (Reject_kind r) = encode_reject r"

fun component_of :: "component_kind \<Rightarrow> component" where
  "component_of (Invoke_kind i) = no_component \<lparr>comp_invoke := Some i\<rparr>"
| "component_of (Result_kind r) = no_component \<lparr>comp_return_result := Some r\<rparr>"
| "component_of (Result_last_kind r) = no_component \<lparr>comp_return_result_last := Some r\<rparr>"
| "component_of (Error_kind e) = no_component \<lparr>comp_return_error := Some e\<rparr>"
| "component_of (Reject_kind r) = no_component \<lparr>comp_reject := Some r\<rparr>"

definition result_ok :: "return_result \<Rightarrow> bool" where
  "result_ok rr =
     (case rr_result rr of None \<Rightarrow> True
      | Some r \<Rightarrow> operation_code_ok (res_operation_code r) \<and> parameter_ok (res_parameter r))"

fun component_ok :: "component_kind \<Rightarrow> bool" where
  "component_ok (Invoke_kind i) = (operation_code_ok (inv_operation_code i) \<and> parameter_ok (inv_parameter i))"
| "component_ok (Result_kind r) = result_ok r"
| "component_ok (Result_last_kind r) = result_ok r"
| "component_ok (Error_kind e) = (operation_code_ok (re_error_code e) \<and> parameter_ok (re_parameter e))"
| "component_ok (Reject_kind r) = (rej_invoke_id_present r \<or> rej_invoke_id r = 0)"

lemma operation_code_roundtrip:
  "operation_code_ok oc \<Longrightarrow> decode_operation_code (operation_code_tlv oc) = Some oc"
  by (cases oc) (auto simp: operation_code_ok_def operation_code_tlv_def decode_operation_code_def
      integer_roundtrip oid_roundtrip_iff split: option.splits)

lemma operation_code_tlv_universal: "tag_class (operation_code_tlv oc) = kUniversal"
  by (simp add: operation_code_tlv_def split: option.split)

lemma parameter_parts:
  assumes "parameter_ok p"
  obtains ps where "p = concat (map encode_tlv ps)" "opaque_parameter ps = p"
proof (cases "p = []")
  case True
  show ?thesis by (rule that [of "[]"]) (simp_all add: True opaque_parameter_def)
next
  case False
  with assms obtain t where t: "encode_tlv t = p" by (auto simp: parameter_ok_def split: option.splits)
  show ?thesis by (rule that [of "[t]"]) (simp_all add: t opaque_parameter_def)
qed

lemma decode_invoke_id_roundtrip:
  "decode_invoke_id (make_integer_tlv kUniversal False kInteger v) = Some v"
  by (simp add: decode_invoke_id_def make_integer_tlv_def has_tag_def integer_roundtrip)

lemma invoke_roundtrip:
  assumes "component_ok (Invoke_kind i)" "tlv_ok (encode_invoke i)"
  shows "decode_component (encode_invoke i) = ret (component_of (Invoke_kind i))"
proof -
  obtain ps where ps: "inv_parameter i = concat (map encode_tlv ps)" "opaque_parameter ps = inv_parameter i"
    using assms(1) parameter_parts by auto
  let ?lid = "case inv_linked_id i of Some lid \<Rightarrow> [make_integer_tlv kContext False 0 lid] | None \<Rightarrow> []"
  let ?parts = "make_integer_tlv kUniversal False kInteger (inv_id i) # ?lid @ operation_code_tlv (inv_operation_code i) # ps"
  have "decode_tlvs (tlv_value (encode_invoke i)) = ret ?parts"
    using assms(2) by (intro decode_tlvs_parts)
      (simp_all add: encode_invoke_def encode_operation_code_def ps tlv_ok_def split: option.split)
  moreover have "decode_linked_id (?lid @ operation_code_tlv (inv_operation_code i) # ps) =
      Some (inv_linked_id i, operation_code_tlv (inv_operation_code i) # ps)"
    by (auto simp: decode_linked_id_def has_tag_def make_integer_tlv_def operation_code_tlv_universal
        integer_roundtrip split: option.split)
  then have "decode_invoke ?parts = Some i"
    using assms(1) by (simp add: decode_invoke_def decode_invoke_id_roundtrip operation_code_roundtrip ps(2))
  ultimately show ?thesis
    by (simp add: decode_component_def) (simp add: encode_invoke_def)
qed

lemma result_roundtrip:
  assumes "result_ok rr" "tlv_ok (encode_return_result rr is_last)"
  shows "decode_component (encode_return_result rr is_last) =
    ret (component_of (if is_last then Result_last_kind rr else Result_kind rr))"
proof -
  let ?id = "make_integer_tlv kUniversal False kInteger (rr_invoke_id rr)"
  let ?body = "\<lambda>r. encode_operation_code (res_operation_code r) @ res_parameter r"
  let ?seq = "case rr_result rr of None \<Rightarrow> [] | Some r \<Rightarrow> [tlv_of kUniversal True kSequence (?body r)]"
  have len: "length (tlv_value (encode_return_result rr is_last)) < 2 ^ 64"
    using assms(2) by (simp add: tlv_ok_def)
  have parts: "tlv_value (encode_return_result rr is_last) = concat (map encode_tlv (?id # ?seq))"
    by (simp add: encode_return_result_def split: option.split)
  have outer: "decode_tlvs (tlv_value (encode_return_result rr is_last)) = ret (?id # ?seq)"
    by (rule decode_tlvs_parts [OF parts len])
  have "decode_result_sequence ?seq = ret (rr_result rr)"
  proof (cases "rr_result rr")
    case (Some r)
    then have ok: "operation_code_ok (res_operation_code r)" "parameter_ok (res_parameter r)"
      using assms(1) by (auto simp: result_ok_def)
    obtain ps where ps: "res_parameter r = concat (map encode_tlv ps)" "opaque_parameter ps = res_parameter r"
      using ok(2) parameter_parts by blast
    have "list_all tlv_ok (?id # ?seq)"
      using tlv_ok_parts len unfolding parts by blast
    then have "length (?body r) < 2 ^ 64" by (simp add: Some tlv_ok_def)
    then have "decode_tlvs (?body r) = ret (operation_code_tlv (res_operation_code r) # ps)"
      by (intro decode_tlvs_parts) (simp_all add: encode_operation_code_def ps)
    then show ?thesis
      using ok(1) by (simp add: Some decode_result_sequence_def has_tag_def operation_code_roundtrip ps(2))
  qed (simp add: decode_result_sequence_def)
  then have "decode_return_result (?id # ?seq) = ret rr"
    by (simp add: decode_return_result_def decode_invoke_id_roundtrip)
  with outer show ?thesis
    by (simp add: decode_component_def) (simp add: encode_return_result_def)
qed

lemma error_roundtrip:
  assumes "component_ok (Error_kind e)" "tlv_ok (encode_return_error e)"
  shows "decode_component (encode_return_error e) = ret (component_of (Error_kind e))"
proof -
  obtain ps where ps: "re_parameter e = concat (map encode_tlv ps)" "opaque_parameter ps = re_parameter e"
    using assms(1) parameter_parts by auto
  let ?parts = "make_integer_tlv kUniversal False kInteger (re_invoke_id e) # operation_code_tlv (re_error_code e) # ps"
  have "decode_tlvs (tlv_value (encode_return_error e)) = ret ?parts"
    using assms(2) by (intro decode_tlvs_parts)
      (simp_all add: encode_return_error_def encode_operation_code_def ps tlv_ok_def)
  moreover have "decode_return_error ?parts = Some e"
    using assms(1) by (simp add: decode_return_error_def decode_invoke_id_roundtrip operation_code_roundtrip ps(2))
  ultimately show ?thesis
    by (simp add: decode_component_def) (simp add: encode_return_error_def)
qed

lemma reject_roundtrip:
  assumes "component_ok (Reject_kind r)" "tlv_ok (encode_reject r)"
  shows "decode_component (encode_reject r) = ret (component_of (Reject_kind r))"
proof -
  let ?id = "if rej_invoke_id_present r then make_integer_tlv kUniversal False kInteger (rej_invoke_id r)
    else tlv_of kUniversal False kNull []"
  let ?problem = "make_integer_tlv kContext False (ucast (rej_problem_choice_tag r)) (rej_problem_value r)"
  have "decode_tlvs (tlv_value (encode_reject r)) = ret [?id, ?problem]"
    using assms(2) by (intro decode_tlvs_parts) (simp_all add: encode_reject_def tlv_ok_def)
  moreover have "decode_reject [?id, ?problem] = Some r"
    using assms(1)
    by (cases r) (auto simp: decode_reject_def make_integer_tlv_def has_tag_def integer_roundtrip)
  ultimately show ?thesis
    by (simp add: decode_component_def) (simp add: encode_reject_def)
qed

text \<open>Every well-formed component of each of the five kinds, encoded as the program
  encodes it, is decoded to a component with exactly its own field set to it.\<close>

theorem component_roundtrip:
  "component_ok c \<Longrightarrow> tlv_ok (encode_component c) \<Longrightarrow>
   decode_component (encode_component c) = ret (component_of c)"
  by (cases c) (auto simp: invoke_roundtrip error_roundtrip reject_roundtrip
      result_roundtrip [where is_last = True, simplified] result_roundtrip [where is_last = False, simplified])

lemma component_roundtrip_witness:
  "decode_component (encode_component (Invoke_kind \<lparr>inv_id = 1, inv_linked_id = Some 7,
      inv_operation_code = \<lparr>oc_local = Some 46, oc_global = None\<rparr>, inv_parameter = []\<rparr>)) =
   ret (no_component \<lparr>comp_invoke := Some \<lparr>inv_id = 1, inv_linked_id = Some 7,
      inv_operation_code = \<lparr>oc_local = Some 46, oc_global = None\<rparr>, inv_parameter = []\<rparr>\<rparr>)"
proof -
  have "length (encode_integer v) \<le> 4" for v
    using length_drop_sign [of "put_u32 v"] by (auto simp: encode_integer_def put_u32_def)
  show ?thesis
    using component_roundtrip [of "Invoke_kind \<lparr>inv_id = 1, inv_linked_id = Some 7,
      inv_operation_code = \<lparr>oc_local = Some 46, oc_global = None\<rparr>, inv_parameter = []\<rparr>"]
    by (simp add: operation_code_ok_def parameter_ok_def tlv_ok_def encode_invoke_def encode_operation_code_def
        operation_code_tlv_def make_integer_tlv_def encode_tlv_def encode_tag_def encode_length_def
        encode_integer_def put_u32_def)
qed

text \<open>Decoding a component is memory-safe, and a decoded component has exactly one
  of its five fields, the one its tag number names.\<close>

theorem component_one_field:
  "sound (decode_component t) (\<lambda>c. \<exists>k. c = component_of k \<and> tag_class t = kContext \<and> constructed t \<and>
     tag_number t = tag_number (encode_component k))"
proof -
  have seq: "sound (decode_result_sequence ps) (\<lambda>_. True)" for ps
    unfolding decode_result_sequence_def
    by (auto split: list.split option.split intro!: sound_and_then [OF sound_decode_tlvs]
        simp: map_option_case)
  have res: "sound (decode_return_result ps) (\<lambda>_. True)" for ps
    unfolding decode_return_result_def
    by (auto split: list.split intro!: sound_Some_bind sound_and_then [OF seq])
  show ?thesis
    unfolding decode_component_def
  proof (intro sound_if sound_and_then [OF sound_decode_tlvs] sound_and_then [OF res] sound_Some, goal_cases)
    case (3 parts c)
    then obtain i where "c = component_of (Invoke_kind i)" by auto
    with 3 show ?case by (intro exI [of _ "Invoke_kind i"]) (simp add: encode_invoke_def)
  next
    case (4 parts rr)
    then show ?case by (auto simp: encode_return_result_def intro!: exI [of _ "Result_last_kind rr"])
  next
    case (5 parts rr)
    then show ?case by (auto simp: encode_return_result_def intro!: exI [of _ "Result_kind rr"])
  next
    case (6 parts c)
    then obtain e where "c = component_of (Error_kind e)" by auto
    with 6 show ?case by (intro exI [of _ "Error_kind e"]) (simp add: encode_return_error_def)
  next
    case (7 parts c)
    then obtain r where "c = component_of (Reject_kind r)" by auto
    with 7 show ?case by (intro exI [of _ "Reject_kind r"]) (simp add: encode_reject_def)
  qed auto
qed

end
