(* ===== verification/Tcap_Message.thy ===== *)
theory Tcap_Message
  imports Tcap_Component
begin

text \<open>
  The TCAP message envelope (\<open>libs/tcap-core/src/message.cpp\<close>): the encoders and decoders of the
  five transaction messages, which frame pre-encoded components and an opaque dialogue portion.
\<close>

section \<open>Data\<close>

record tc_begin =
  beg_originating_transaction_id :: octets
  beg_dialogue_portion :: "octets option"
  beg_components :: "tlv list"

record tc_continue =
  con_originating_transaction_id :: octets
  con_destination_transaction_id :: octets
  con_dialogue_portion :: "octets option"
  con_components :: "tlv list"

record tc_end =
  end_destination_transaction_id :: octets
  end_dialogue_portion :: "octets option"
  end_components :: "tlv list"

record tc_abort =
  abo_destination_transaction_id :: octets
  abo_p_abort_cause :: "32 word option"
  abo_dialogue_portion :: "octets option"

record tc_uni =
  uni_dialogue_portion :: "octets option"
  uni_components :: "tlv list"

text \<open>The tag numbers of \<open>MessageTag\<close>.\<close>

abbreviation (input) "kUni \<equiv> (1 :: u32)"
abbreviation (input) "kBegin \<equiv> (2 :: u32)"
abbreviation (input) "kEnd \<equiv> (4 :: u32)"
abbreviation (input) "kContinue \<equiv> (5 :: u32)"
abbreviation (input) "kAbort \<equiv> (7 :: u32)"
abbreviation (input) "kOriginatingTransactionId \<equiv> (8 :: u32)"
abbreviation (input) "kDestinationTransactionId \<equiv> (9 :: u32)"
abbreviation (input) "kPAbortCause \<equiv> (10 :: u32)"
abbreviation (input) "kDialoguePortion \<equiv> (11 :: u32)"
abbreviation (input) "kComponentPortion \<equiv> (12 :: u32)"

section \<open>Encoders\<close>

definition app_octet_string :: "u32 \<Rightarrow> octets \<Rightarrow> tlv" where
  "app_octet_string n v = tlv_of kApplication False n v"

definition encode_components :: "tlv list \<Rightarrow> octets" where
  "encode_components cs =
     (if cs = [] then []
      else encode_tlv (tlv_of kApplication True kComponentPortion (concat (map encode_tlv cs))))"

definition wrap_application :: "u32 \<Rightarrow> octets \<Rightarrow> tlv" where
  "wrap_application n body = tlv_of kApplication True n body"

definition optional_octets :: "octets option \<Rightarrow> octets" where
  "optional_octets d = (case d of Some bs \<Rightarrow> bs | None \<Rightarrow> [])"

definition encode_tc_begin :: "tc_begin \<Rightarrow> octets" where
  "encode_tc_begin msg = encode_tlv (wrap_application kBegin
     (encode_tlv (app_octet_string kOriginatingTransactionId (beg_originating_transaction_id msg)) @
      optional_octets (beg_dialogue_portion msg) @ encode_components (beg_components msg)))"

definition encode_tc_continue :: "tc_continue \<Rightarrow> octets" where
  "encode_tc_continue msg = encode_tlv (wrap_application kContinue
     (encode_tlv (app_octet_string kOriginatingTransactionId (con_originating_transaction_id msg)) @
      encode_tlv (app_octet_string kDestinationTransactionId (con_destination_transaction_id msg)) @
      optional_octets (con_dialogue_portion msg) @ encode_components (con_components msg)))"

definition encode_tc_end :: "tc_end \<Rightarrow> octets" where
  "encode_tc_end msg = encode_tlv (wrap_application kEnd
     (encode_tlv (app_octet_string kDestinationTransactionId (end_destination_transaction_id msg)) @
      optional_octets (end_dialogue_portion msg) @ encode_components (end_components msg)))"

definition encode_tc_abort :: "tc_abort \<Rightarrow> octets" where
  "encode_tc_abort msg = encode_tlv (wrap_application kAbort
     (encode_tlv (app_octet_string kDestinationTransactionId (abo_destination_transaction_id msg)) @
      (case abo_p_abort_cause msg of
         Some cause \<Rightarrow> encode_tlv (tlv_of kApplication False kPAbortCause (encode_integer cause))
       | None \<Rightarrow> optional_octets (abo_dialogue_portion msg))))"

definition encode_tc_uni :: "tc_uni \<Rightarrow> octets" where
  "encode_tc_uni msg = encode_tlv (wrap_application kUni
     (optional_octets (uni_dialogue_portion msg) @ encode_components (uni_components msg)))"

section \<open>Decoders\<close>

definition peek_tc_message_tag :: "octets \<Rightarrow> u32 option checked" where
  "peek_tc_message_tag bs =
     and_then (decode_tlv bs 0) (\<lambda>(t, _). if tag_class t \<noteq> kApplication then nullopt else ret (tag_number t))"

definition decode_body :: "octets \<Rightarrow> tlv list option checked" where
  "decode_body bs =
     and_then (decode_tlv bs 0) (\<lambda>(outer, _).
       if tag_class outer \<noteq> kApplication \<or> \<not> constructed outer then nullopt
       else decode_tlvs (tlv_value outer))"

text \<open>The tail of the parts: the dialogue portion, re-encoded, then the components, then nothing;
  \<open>nullopt\<close> where the function returns \<open>false\<close>.\<close>

definition decode_dialogue_and_components :: "tlv list \<Rightarrow> (octets option \<times> tlv list) option checked" where
  "decode_dialogue_and_components parts =
     (let (dialogue, parts) =
        (case parts of
           p # rest \<Rightarrow> if has_tag p kApplication kDialoguePortion then (Some (encode_tlv p), rest) else (None, parts)
         | [] \<Rightarrow> (None, [])) in
      and_then
        (case parts of
           p # rest \<Rightarrow>
             if has_tag p kApplication kComponentPortion
             then and_then (decode_tlvs (tlv_value p)) (\<lambda>cs. ret (cs, rest))
             else ret ([], parts)
         | [] \<Rightarrow> ret ([], []))
        (\<lambda>(components, parts). if parts = [] then ret (dialogue, components) else nullopt))"

definition decode_tc_begin :: "octets \<Rightarrow> tc_begin option checked" where
  "decode_tc_begin bs =
     and_then (decode_body bs) (\<lambda>parts.
       case parts of [] \<Rightarrow> nullopt | p # rest \<Rightarrow>
         if \<not> has_tag p kApplication kOriginatingTransactionId then nullopt
         else and_then (decode_dialogue_and_components rest) (\<lambda>(d, cs).
           ret \<lparr>beg_originating_transaction_id = tlv_value p, beg_dialogue_portion = d, beg_components = cs\<rparr>))"

definition decode_tc_continue :: "octets \<Rightarrow> tc_continue option checked" where
  "decode_tc_continue bs =
     and_then (decode_body bs) (\<lambda>parts.
       case parts of p # q # rest \<Rightarrow>
         if \<not> has_tag p kApplication kOriginatingTransactionId \<or> \<not> has_tag q kApplication kDestinationTransactionId
         then nullopt
         else and_then (decode_dialogue_and_components rest) (\<lambda>(d, cs).
           ret \<lparr>con_originating_transaction_id = tlv_value p, con_destination_transaction_id = tlv_value q,
                con_dialogue_portion = d, con_components = cs\<rparr>)
       | _ \<Rightarrow> nullopt)"

definition decode_tc_end :: "octets \<Rightarrow> tc_end option checked" where
  "decode_tc_end bs =
     and_then (decode_body bs) (\<lambda>parts.
       case parts of [] \<Rightarrow> nullopt | p # rest \<Rightarrow>
         if \<not> has_tag p kApplication kDestinationTransactionId then nullopt
         else and_then (decode_dialogue_and_components rest) (\<lambda>(d, cs).
           ret \<lparr>end_destination_transaction_id = tlv_value p, end_dialogue_portion = d, end_components = cs\<rparr>))"

definition decode_tc_abort :: "octets \<Rightarrow> tc_abort option checked" where
  "decode_tc_abort bs =
     and_then (decode_body bs) (\<lambda>parts.
       case parts of p # q # _ \<Rightarrow>
         if \<not> has_tag p kApplication kDestinationTransactionId then nullopt
         else if has_tag q kApplication kPAbortCause then
           and_then (Some (decode_integer (tlv_value q))) (\<lambda>cause.
             ret \<lparr>abo_destination_transaction_id = tlv_value p, abo_p_abort_cause = Some cause,
                  abo_dialogue_portion = None\<rparr>)
         else if has_tag q kApplication kDialoguePortion then
           ret \<lparr>abo_destination_transaction_id = tlv_value p, abo_p_abort_cause = None,
                abo_dialogue_portion = Some (encode_tlv q)\<rparr>
         else nullopt
       | _ \<Rightarrow> nullopt)"

definition decode_tc_uni :: "octets \<Rightarrow> tc_uni option checked" where
  "decode_tc_uni bs =
     and_then (decode_body bs) (\<lambda>parts.
       and_then (decode_dialogue_and_components parts) (\<lambda>(d, cs).
         ret \<lparr>uni_dialogue_portion = d, uni_components = cs\<rparr>))"

section \<open>Round trip\<close>

text \<open>A dialogue portion that survives: one element with the dialogue tag in its canonical encoding.\<close>

definition dialogue_ok :: "octets \<Rightarrow> bool" where
  "dialogue_ok bs =
     (case decode_tlv bs 0 of
        Some (Some (t, _)) \<Rightarrow> encode_tlv t = bs \<and> has_tag t kApplication kDialoguePortion
      | _ \<Rightarrow> False)"

lemma decode_body_wrap:
  assumes "body = concat (map encode_tlv ts)" "length (encode_tlv (wrap_application n body)) < 2 ^ 64"
  shows "decode_body (encode_tlv (wrap_application n body)) = ret ts"
proof -
  have "length body < 2 ^ 64"
    using length_encode_tlv [of "wrap_application n body"] assms(2) by (simp add: wrap_application_def)
  then have "decode_tlvs body = ret ts" by (rule decode_tlvs_parts [OF assms(1)])
  moreover have "decode_tlv (encode_tlv (wrap_application n body)) 0 =
      ret (wrap_application n body, length (encode_tlv (wrap_application n body)))"
    by (rule decode_tlv_whole [OF assms(2)])
  ultimately show ?thesis by (simp add: decode_body_def) (simp add: wrap_application_def)
qed

text \<open>What follows the transaction identifiers, as parts.\<close>

lemma tail_roundtrip:
  assumes "pred_option dialogue_ok d" "length (optional_octets d @ encode_components cs) < 2 ^ 64"
  obtains ts where "optional_octets d @ encode_components cs = concat (map encode_tlv ts)"
    "decode_dialogue_and_components ts = ret (d, cs)"
proof -
  let ?c = "if cs = [] then [] else [tlv_of kApplication True kComponentPortion (concat (map encode_tlv cs))]"
  have c: "encode_components cs = concat (map encode_tlv ?c)"
    by (simp add: encode_components_def)
  have cs: "decode_tlvs (concat (map encode_tlv cs)) = ret cs" if "cs \<noteq> []"
  proof (rule decode_tlvs_parts [OF refl])
    have "length (concat (map encode_tlv cs)) < length (encode_components cs)"
      using that length_encode_tlv [of "tlv_of kApplication True kComponentPortion (concat (map encode_tlv cs))"]
      by (simp add: encode_components_def)
    also have "\<dots> < 2 ^ 64" using assms(2) by simp
    finally show "length (concat (map encode_tlv cs)) < 2 ^ 64" .
  qed
  show ?thesis
  proof (cases d)
    case None
    show ?thesis
      by (rule that [of ?c])
        (use cs c in \<open>auto simp: None optional_octets_def decode_dialogue_and_components_def has_tag_def\<close>)
  next
    case (Some bs)
    then obtain t where t: "encode_tlv t = bs" "has_tag t kApplication kDialoguePortion"
      using assms(1) by (auto simp: dialogue_ok_def split: option.splits)
    show ?thesis
      by (rule that [of "t # ?c"])
        (use cs c t in \<open>auto simp: Some optional_octets_def decode_dialogue_and_components_def has_tag_def\<close>)
  qed
qed

text \<open>The five messages under one type: what a receiver that dispatches on the peeked tag sees.\<close>

datatype tc_message =
  Tc_begin tc_begin | Tc_continue tc_continue | Tc_end tc_end | Tc_abort tc_abort | Tc_uni tc_uni

fun encode_tc :: "tc_message \<Rightarrow> octets" where
  "encode_tc (Tc_begin m) = encode_tc_begin m"
| "encode_tc (Tc_continue m) = encode_tc_continue m"
| "encode_tc (Tc_end m) = encode_tc_end m"
| "encode_tc (Tc_abort m) = encode_tc_abort m"
| "encode_tc (Tc_uni m) = encode_tc_uni m"

definition decode_tc :: "octets \<Rightarrow> tc_message option checked" where
  "decode_tc bs =
     and_then (peek_tc_message_tag bs) (\<lambda>n.
       if n = kBegin then and_then (decode_tc_begin bs) (\<lambda>m. ret (Tc_begin m))
       else if n = kContinue then and_then (decode_tc_continue bs) (\<lambda>m. ret (Tc_continue m))
       else if n = kEnd then and_then (decode_tc_end bs) (\<lambda>m. ret (Tc_end m))
       else if n = kAbort then and_then (decode_tc_abort bs) (\<lambda>m. ret (Tc_abort m))
       else if n = kUni then and_then (decode_tc_uni bs) (\<lambda>m. ret (Tc_uni m))
       else nullopt)"

fun tc_ok :: "tc_message \<Rightarrow> bool" where
  "tc_ok (Tc_begin m) = pred_option dialogue_ok (beg_dialogue_portion m)"
| "tc_ok (Tc_continue m) = pred_option dialogue_ok (con_dialogue_portion m)"
| "tc_ok (Tc_end m) = pred_option dialogue_ok (end_dialogue_portion m)"
| "tc_ok (Tc_abort m) =
     (case (abo_p_abort_cause m, abo_dialogue_portion m) of
        (Some _, None) \<Rightarrow> True | (None, Some d) \<Rightarrow> dialogue_ok d | _ \<Rightarrow> False)"
| "tc_ok (Tc_uni m) = pred_option dialogue_ok (uni_dialogue_portion m)"

lemma peek_wrap:
  "length (encode_tlv (wrap_application n body)) < 2 ^ 64 \<Longrightarrow>
   peek_tc_message_tag (encode_tlv (wrap_application n body)) = ret n"
  by (simp add: peek_tc_message_tag_def decode_tlv_whole) (simp add: wrap_application_def)

lemma length_body: "length (encode_tlv (wrap_application n body)) < 2 ^ 64 \<Longrightarrow> length body < 2 ^ 64"
  using length_encode_tlv [of "wrap_application n body"] by (simp add: wrap_application_def)

lemma framed_roundtrip:
  fixes n d cs ps
  defines "bs \<equiv> encode_tlv (wrap_application n
    (concat (map encode_tlv ps) @ optional_octets d @ encode_components cs))"
  assumes "pred_option dialogue_ok d" "length bs < 2 ^ 64"
  obtains ts where "decode_body bs = ret (ps @ ts)" "decode_dialogue_and_components ts = ret (d, cs)"
    "peek_tc_message_tag bs = ret n"
proof -
  have "length (concat (map encode_tlv ps) @ optional_octets d @ encode_components cs) < 2 ^ 64"
    using assms(3) unfolding bs_def by (rule length_body)
  then have "length (optional_octets d @ encode_components cs) < 2 ^ 64" by simp
  then obtain ts where ts: "optional_octets d @ encode_components cs = concat (map encode_tlv ts)"
    "decode_dialogue_and_components ts = ret (d, cs)"
    using assms(2) by (auto elim: tail_roundtrip)
  have "decode_body bs = ret (ps @ ts)"
    unfolding bs_def by (rule decode_body_wrap) (use assms(3) ts in \<open>simp_all add: bs_def\<close>)
  moreover have "peek_tc_message_tag bs = ret n"
    using assms(3) unfolding bs_def by (rule peek_wrap)
  ultimately show ?thesis using that ts(2) by blast
qed

lemmas tc_decoders = decode_tc_begin_def decode_tc_continue_def decode_tc_end_def decode_tc_abort_def
  decode_tc_uni_def app_octet_string_def has_tag_def

text \<open>Property C38: every well-formed transaction message, decoded by the function its peeked tag
  selects, is the message that was encoded: transaction identifiers, dialogue portion and component
  list alike.\<close>

theorem tc_message_roundtrip:
  assumes "tc_ok m" "length (encode_tc m) < 2 ^ 64"
  shows "decode_tc (encode_tc m) = ret m"
proof (cases m)
  case (Tc_begin b)
  let ?id = "app_octet_string kOriginatingTransactionId (beg_originating_transaction_id b)"
  show ?thesis
    by (rule framed_roundtrip [of "beg_dialogue_portion b" kBegin "[?id]" "beg_components b"])
      (use assms Tc_begin in \<open>simp_all add: encode_tc_begin_def decode_tc_def tc_decoders\<close>)
next
  case (Tc_continue c)
  let ?o = "app_octet_string kOriginatingTransactionId (con_originating_transaction_id c)"
  let ?d = "app_octet_string kDestinationTransactionId (con_destination_transaction_id c)"
  show ?thesis
    by (rule framed_roundtrip [of "con_dialogue_portion c" kContinue "[?o, ?d]" "con_components c"])
      (use assms Tc_continue in \<open>simp_all add: encode_tc_continue_def decode_tc_def tc_decoders\<close>)
next
  case (Tc_end e)
  let ?id = "app_octet_string kDestinationTransactionId (end_destination_transaction_id e)"
  show ?thesis
    by (rule framed_roundtrip [of "end_dialogue_portion e" kEnd "[?id]" "end_components e"])
      (use assms Tc_end in \<open>simp_all add: encode_tc_end_def decode_tc_def tc_decoders\<close>)
next
  case (Tc_uni u)
  show ?thesis
    by (rule framed_roundtrip [of "uni_dialogue_portion u" kUni "[]" "uni_components u"])
      (use assms Tc_uni in \<open>simp_all add: encode_tc_uni_def decode_tc_def tc_decoders\<close>)
next
  case (Tc_abort a)
  let ?id = "app_octet_string kDestinationTransactionId (abo_destination_transaction_id a)"
  show ?thesis
  proof (cases "abo_p_abort_cause a")
    case None
    then obtain d where d: "abo_dialogue_portion a = Some d" "dialogue_ok d"
      using assms(1) Tc_abort by (auto split: option.splits)
    then obtain t where t: "encode_tlv t = d" "has_tag t kApplication kDialoguePortion"
      by (auto simp: dialogue_ok_def split: option.splits)
    have len: "length (encode_tlv (wrap_application kAbort (concat (map encode_tlv [?id, t])))) < 2 ^ 64"
      using assms(2) by (simp add: Tc_abort encode_tc_abort_def None d optional_octets_def t)
    show ?thesis
      using decode_body_wrap [OF refl len] peek_wrap [OF len] None d t
      by (simp add: Tc_abort encode_tc_abort_def optional_octets_def decode_tc_def tc_decoders)
  next
    case (Some cause)
    then have d: "abo_dialogue_portion a = None"
      using assms(1) Tc_abort by (auto split: option.splits)
    let ?c = "tlv_of kApplication False kPAbortCause (encode_integer cause)"
    have len: "length (encode_tlv (wrap_application kAbort (concat (map encode_tlv [?id, ?c])))) < 2 ^ 64"
      using assms(2) by (simp add: Tc_abort encode_tc_abort_def Some)
    show ?thesis
      using decode_body_wrap [OF refl len] peek_wrap [OF len] Some d
      by (simp add: Tc_abort encode_tc_abort_def decode_tc_def tc_decoders integer_roundtrip)
  qed
qed

lemma tc_message_roundtrip_witness:
  "decode_tc (encode_tc (Tc_begin \<lparr>beg_originating_transaction_id = [0x01, 0x02],
      beg_dialogue_portion = None, beg_components = [tlv_of kContext True 1 [0x02, 0x01, 0x05]]\<rparr>)) =
   ret (Tc_begin \<lparr>beg_originating_transaction_id = [0x01, 0x02],
      beg_dialogue_portion = None, beg_components = [tlv_of kContext True 1 [0x02, 0x01, 0x05]]\<rparr>)"
  using tc_message_roundtrip [of "Tc_begin \<lparr>beg_originating_transaction_id = [0x01, 0x02],
      beg_dialogue_portion = None, beg_components = [tlv_of kContext True 1 [0x02, 0x01, 0x05]]\<rparr>"]
  by (simp add: encode_tc_begin_def wrap_application_def app_octet_string_def optional_octets_def
      encode_components_def encode_tlv_def encode_tag_def encode_length_def)

end
