(* ===== verification/Tcap_Dialogue.thy ===== *)
theory Tcap_Dialogue
  imports Tcap_Message
begin

text \<open>
  The TCAP dialogue portion (\<open>libs/tcap-core/src/dialogue_portion.cpp\<close>): a dialogue request
  (AARQ) or response (AARE) inside a structured EXTERNAL. The framing that the two encoders and the
  two decoders of the source repeat is one definition here, with the tag of the inner APDU as its
  argument.
\<close>

section \<open>Data\<close>

record dialogue_request =
  req_protocol_version :: "octets option"
  req_application_context_name :: "u32 list"
  req_user_information :: "octets option"

record result_source_diagnostic =
  is_user_type :: bool
  diag_value :: "32 word"

record dialogue_response =
  resp_protocol_version :: "octets option"
  resp_application_context_name :: "u32 list"
  resp_result :: "32 word"
  resp_diagnostic :: result_source_diagnostic
  resp_user_information :: "octets option"

definition kStructured :: "u32 list" where
  "kStructured = [0, 0, 17, 773, 1, 1, 1]"

abbreviation (input) "kAarqTag \<equiv> (0 :: u32)"
abbreviation (input) "kAareTag \<equiv> (1 :: u32)"
abbreviation (input) "kProtocolVersionTag \<equiv> (0 :: u32)"
abbreviation (input) "kApplicationContextNameTag \<equiv> (1 :: u32)"
abbreviation (input) "kResultTag \<equiv> (2 :: u32)"
abbreviation (input) "kResultSourceDiagnosticTag \<equiv> (3 :: u32)"
abbreviation (input) "kDialogServiceUserTag \<equiv> (1 :: u32)"
abbreviation (input) "kDialogServiceProviderTag \<equiv> (2 :: u32)"
abbreviation (input) "kUserInformationTag \<equiv> (30 :: u32)"
abbreviation (input) "kSingleAsn1TypeTag \<equiv> (0 :: u32)"

section \<open>Encoders\<close>

definition make_explicit_int :: "tag_class \<Rightarrow> u32 \<Rightarrow> 32 word \<Rightarrow> tlv" where
  "make_explicit_int c n v =
     tlv_of c True n (encode_tlv (tlv_of kUniversal False kInteger (encode_integer v)))"

text \<open>The optional protocol version and user information, and the context name, as both encoders
  append them.\<close>

definition protocol_version_octets :: "octets option \<Rightarrow> octets" where
  "protocol_version_octets pv =
     (case pv of Some v \<Rightarrow> encode_tlv (tlv_of kContext False kProtocolVersionTag v) | None \<Rightarrow> [])"

definition user_information_octets :: "octets option \<Rightarrow> octets" where
  "user_information_octets ui =
     (case ui of Some v \<Rightarrow> encode_tlv (tlv_of kContext True kUserInformationTag v) | None \<Rightarrow> [])"

definition context_name_tlv :: "u32 list \<Rightarrow> tlv" where
  "context_name_tlv arcs = tlv_of kContext True kApplicationContextNameTag
     (encode_tlv (tlv_of kUniversal False kObjectIdentifier (encode_oid arcs)))"

definition structured_dialogue :: "tlv \<Rightarrow> octets" where
  "structured_dialogue apdu =
     (let single_asn1_type = tlv_of kContext True kSingleAsn1TypeTag (encode_tlv apdu);
          oid = tlv_of kUniversal False kObjectIdentifier (encode_oid kStructured);
          external = tlv_of kUniversal True kExternal (encode_tlv oid @ encode_tlv single_asn1_type)
      in encode_tlv (tlv_of kApplication True kDialoguePortion (encode_tlv external)))"

definition encode_dialogue_portion_request :: "dialogue_request \<Rightarrow> octets" where
  "encode_dialogue_portion_request req = structured_dialogue (tlv_of kApplication True kAarqTag
     (protocol_version_octets (req_protocol_version req) @
      encode_tlv (context_name_tlv (req_application_context_name req)) @
      user_information_octets (req_user_information req)))"

definition diagnostic_tlv :: "result_source_diagnostic \<Rightarrow> tlv" where
  "diagnostic_tlv d = tlv_of kContext True kResultSourceDiagnosticTag
     (encode_tlv (make_explicit_int kContext
       (if is_user_type d then kDialogServiceUserTag else kDialogServiceProviderTag) (diag_value d)))"

definition encode_dialogue_portion_response :: "dialogue_response \<Rightarrow> octets" where
  "encode_dialogue_portion_response res = structured_dialogue (tlv_of kApplication True kAareTag
     (protocol_version_octets (resp_protocol_version res) @
      encode_tlv (context_name_tlv (resp_application_context_name res)) @
      encode_tlv (make_explicit_int kContext kResultTag (resp_result res)) @
      encode_tlv (diagnostic_tlv (resp_diagnostic res)) @
      user_information_octets (resp_user_information res)))"

section \<open>Decoders\<close>

definition decode_explicit_int :: "tlv \<Rightarrow> 32 word option checked" where
  "decode_explicit_int outer =
     and_then (decode_tlvs (tlv_value outer)) (\<lambda>parts.
       case parts of [] \<Rightarrow> nullopt | inner # _ \<Rightarrow>
         if \<not> has_tag inner kUniversal kInteger then nullopt else Some (decode_integer (tlv_value inner)))"

text \<open>The parts of the APDU with tag \<open>n\<close> inside a structured dialogue portion.\<close>

definition decode_structured :: "u32 \<Rightarrow> octets \<Rightarrow> tlv list option checked" where
  "decode_structured n bs =
     and_then (decode_tlv bs 0) (\<lambda>(dp, _).
     if \<not> has_tag dp kApplication kDialoguePortion then nullopt
     else and_then (decode_tlvs (tlv_value dp)) (\<lambda>dp_parts.
     case dp_parts of [] \<Rightarrow> nullopt | external # _ \<Rightarrow>
     if \<not> has_tag external kUniversal kExternal then nullopt
     else and_then (decode_tlvs (tlv_value external)) (\<lambda>external_parts.
     case external_parts of oid_tlv # single_asn1_type # _ \<Rightarrow>
       if \<not> has_tag oid_tlv kUniversal kObjectIdentifier then nullopt
       else if decode_oid (tlv_value oid_tlv) \<noteq> Some kStructured then nullopt
       else if \<not> has_tag single_asn1_type kContext kSingleAsn1TypeTag then nullopt
       else and_then (decode_tlv (tlv_value single_asn1_type) 0) (\<lambda>(apdu, _).
         if \<not> has_tag apdu kApplication n then nullopt else decode_tlvs (tlv_value apdu))
     | _ \<Rightarrow> nullopt)))"

text \<open>An optional field at the cursor: its value, and the parts after it.\<close>

definition take_optional :: "u32 \<Rightarrow> tlv list \<Rightarrow> octets option \<times> tlv list" where
  "take_optional n parts =
     (case parts of
        p # rest \<Rightarrow> if has_tag p kContext n then (Some (tlv_value p), rest) else (None, parts)
      | [] \<Rightarrow> (None, []))"

definition take_tagged :: "u32 \<Rightarrow> tlv list \<Rightarrow> (tlv \<times> tlv list) option checked" where
  "take_tagged n parts =
     (case parts of p # rest \<Rightarrow> if has_tag p kContext n then ret (p, rest) else nullopt | [] \<Rightarrow> nullopt)"

definition decode_context_name :: "tlv \<Rightarrow> u32 list option checked" where
  "decode_context_name acn =
     and_then (decode_tlvs (tlv_value acn)) (\<lambda>acn_parts.
       case acn_parts of [] \<Rightarrow> nullopt | p # _ \<Rightarrow> Some (decode_oid (tlv_value p)))"

definition decode_diagnostic :: "tlv \<Rightarrow> result_source_diagnostic option checked" where
  "decode_diagnostic t =
     and_then (decode_tlvs (tlv_value t)) (\<lambda>diag_parts.
       case diag_parts of [] \<Rightarrow> nullopt | inner # _ \<Rightarrow>
         if tag_class inner \<noteq> kContext then nullopt
         else and_then
           (if tag_number inner = kDialogServiceUserTag then ret True
            else if tag_number inner = kDialogServiceProviderTag then ret False
            else nullopt) (\<lambda>user.
           and_then (decode_explicit_int inner) (\<lambda>v. ret \<lparr>is_user_type = user, diag_value = v\<rparr>)))"

definition decode_dialogue_portion_request :: "octets \<Rightarrow> dialogue_request option checked" where
  "decode_dialogue_portion_request bs =
     and_then (decode_structured kAarqTag bs) (\<lambda>parts.
     let (pv, parts) = take_optional kProtocolVersionTag parts in
     and_then (take_tagged kApplicationContextNameTag parts) (\<lambda>(acn, parts).
     and_then (decode_context_name acn) (\<lambda>name.
     ret \<lparr>req_protocol_version = pv, req_application_context_name = name,
          req_user_information = fst (take_optional kUserInformationTag parts)\<rparr>)))"

definition decode_dialogue_portion_response :: "octets \<Rightarrow> dialogue_response option checked" where
  "decode_dialogue_portion_response bs =
     and_then (decode_structured kAareTag bs) (\<lambda>parts.
     let (pv, parts) = take_optional kProtocolVersionTag parts in
     and_then (take_tagged kApplicationContextNameTag parts) (\<lambda>(acn, parts).
     and_then (decode_context_name acn) (\<lambda>name.
     and_then (take_tagged kResultTag parts) (\<lambda>(r, parts).
     and_then (decode_explicit_int r) (\<lambda>result.
     and_then (take_tagged kResultSourceDiagnosticTag parts) (\<lambda>(d, parts).
     and_then (decode_diagnostic d) (\<lambda>diagnostic.
     ret \<lparr>resp_protocol_version = pv, resp_application_context_name = name,
          resp_result = result, resp_diagnostic = diagnostic,
          resp_user_information = fst (take_optional kUserInformationTag parts)\<rparr>)))))))"

section \<open>Round trip\<close>

lemma length_value: "length (encode_tlv t) < 2 ^ 64 \<Longrightarrow> length (tlv_value t) < 2 ^ 64"
  using length_encode_tlv [of t] by simp

lemma decode_single: "length (encode_tlv t) < 2 ^ 64 \<Longrightarrow> decode_tlvs (encode_tlv t) = ret [t]"
  by (rule decode_tlvs_parts) simp_all

lemma structured_roundtrip:
  assumes "length (structured_dialogue (tlv_of kApplication True n (concat (map encode_tlv ts)))) < 2 ^ 64"
  shows "decode_structured m (structured_dialogue (tlv_of kApplication True n (concat (map encode_tlv ts)))) =
    (if m = n then ret ts else nullopt)"
proof -
  let ?apdu = "tlv_of kApplication True n (concat (map encode_tlv ts))"
  let ?single = "tlv_of kContext True kSingleAsn1TypeTag (encode_tlv ?apdu)"
  let ?oid = "tlv_of kUniversal False kObjectIdentifier (encode_oid kStructured)"
  let ?ext = "tlv_of kUniversal True kExternal (encode_tlv ?oid @ encode_tlv ?single)"
  let ?dp = "tlv_of kApplication True kDialoguePortion (encode_tlv ?ext)"
  have dp: "length (encode_tlv ?dp) < 2 ^ 64"
    using assms by (simp add: structured_dialogue_def Let_def)
  have ext: "length (encode_tlv ?ext) < 2 ^ 64" using length_value [OF dp] by simp
  have body: "length (encode_tlv ?oid @ encode_tlv ?single) < 2 ^ 64" using length_value [OF ext] by simp
  then have single: "length (encode_tlv ?single) < 2 ^ 64" by simp
  have apdu: "length (encode_tlv ?apdu) < 2 ^ 64" using length_value [OF single] by simp
  have inner: "length (concat (map encode_tlv ts)) < 2 ^ 64" using length_value [OF apdu] by simp
  have parts: "decode_tlvs (encode_tlv ?oid @ encode_tlv ?single) = ret [?oid, ?single]"
    by (rule decode_tlvs_parts) (use body in simp_all)
  have oid: "decode_oid (encode_oid kStructured) = Some kStructured"
    by (simp add: oid_roundtrip_iff) (simp add: oid_ok_def kStructured_def)
  have "structured_dialogue ?apdu = encode_tlv ?dp" by (simp add: structured_dialogue_def Let_def)
  then show ?thesis
    using decode_tlv_whole [OF dp] decode_tlv_whole [OF apdu] decode_single [OF ext] parts oid
      decode_tlvs_parts [OF refl inner]
    by (simp add: decode_structured_def has_tag_def)
qed

lemma explicit_int_roundtrip: "decode_explicit_int (make_explicit_int c n v) = ret v"
proof -
  let ?t = "tlv_of kUniversal False kInteger (encode_integer v)"
  have l: "length (encode_integer v) \<le> 4"
    using length_drop_sign [of "put_u32 v"] by (auto simp: encode_integer_def put_u32_def)
  have "length (tlv_value ?t) < 2 ^ 64" using l by simp
  then have "decode_tlvs (encode_tlv ?t) = ret [?t]"
    using ber.dec_all_roundtrip [of "[?t]"] by (simp add: decode_tlvs_def tlv_ok_def)
  then show ?thesis
    by (simp add: decode_explicit_int_def make_explicit_int_def has_tag_def integer_roundtrip)
qed

lemma context_name_roundtrip:
  "oid_ok arcs \<Longrightarrow> length (encode_tlv (context_name_tlv arcs)) < 2 ^ 64 \<Longrightarrow>
   decode_context_name (context_name_tlv arcs) = ret arcs"
  using length_value [of "context_name_tlv arcs"]
  by (simp add: decode_context_name_def) (simp add: context_name_tlv_def decode_single oid_roundtrip_iff)

lemma diagnostic_roundtrip:
  "length (encode_tlv (diagnostic_tlv d)) < 2 ^ 64 \<Longrightarrow> decode_diagnostic (diagnostic_tlv d) = ret d"
  using length_value [of "diagnostic_tlv d"]
  by (cases d) (simp add: decode_diagnostic_def, simp add: diagnostic_tlv_def decode_single,
      simp add: explicit_int_roundtrip, simp add: make_explicit_int_def)

lemma optional_tlv_parts:
  "protocol_version_octets pv = concat (map encode_tlv (case pv of Some v \<Rightarrow> [tlv_of kContext False kProtocolVersionTag v] | None \<Rightarrow> []))"
  "user_information_octets ui = concat (map encode_tlv (case ui of Some v \<Rightarrow> [tlv_of kContext True kUserInformationTag v] | None \<Rightarrow> []))"
  by (simp_all add: protocol_version_octets_def user_information_octets_def split: option.split)

lemma structured_parts_length:
  "t \<in> set ts \<Longrightarrow> length (encode_tlv t) \<le> length (structured_dialogue (tlv_of kApplication True n (concat (map encode_tlv ts))))"
proof -
  assume "t \<in> set ts"
  then have "length (encode_tlv t) \<le> length (concat (map encode_tlv ts))"
    by (induction ts) auto
  also have "\<dots> \<le> length (structured_dialogue (tlv_of kApplication True n (concat (map encode_tlv ts))))"
    unfolding structured_dialogue_def Let_def
    by (rule order_trans [OF _ less_imp_le [OF length_encode_tlv]], simp,
        rule order_trans [OF _ less_imp_le [OF length_encode_tlv]], simp,
        rule trans_le_add2,
        rule order_trans [OF _ less_imp_le [OF length_encode_tlv]], simp,
        rule order_trans [OF _ less_imp_le [OF length_encode_tlv]], simp)
  finally show ?thesis .
qed

definition request_parts :: "dialogue_request \<Rightarrow> tlv list" where
  "request_parts req =
     (case req_protocol_version req of Some v \<Rightarrow> [tlv_of kContext False kProtocolVersionTag v] | None \<Rightarrow> []) @
     [context_name_tlv (req_application_context_name req)] @
     (case req_user_information req of Some v \<Rightarrow> [tlv_of kContext True kUserInformationTag v] | None \<Rightarrow> [])"

definition response_parts :: "dialogue_response \<Rightarrow> tlv list" where
  "response_parts res =
     (case resp_protocol_version res of Some v \<Rightarrow> [tlv_of kContext False kProtocolVersionTag v] | None \<Rightarrow> []) @
     [context_name_tlv (resp_application_context_name res),
      make_explicit_int kContext kResultTag (resp_result res), diagnostic_tlv (resp_diagnostic res)] @
     (case resp_user_information res of Some v \<Rightarrow> [tlv_of kContext True kUserInformationTag v] | None \<Rightarrow> [])"

lemma encode_request_parts:
  "encode_dialogue_portion_request req =
     structured_dialogue (tlv_of kApplication True kAarqTag (concat (map encode_tlv (request_parts req))))"
  by (simp add: encode_dialogue_portion_request_def request_parts_def optional_tlv_parts)

lemma encode_response_parts:
  "encode_dialogue_portion_response res =
     structured_dialogue (tlv_of kApplication True kAareTag (concat (map encode_tlv (response_parts res))))"
  by (simp add: encode_dialogue_portion_response_def response_parts_def optional_tlv_parts)

lemmas dialogue_tags = take_optional_def take_tagged_def has_tag_def context_name_tlv_def
  make_explicit_int_def diagnostic_tlv_def

text \<open>A dialogue request is read back from its encoding in all its fields.\<close>

theorem dialogue_request_roundtrip:
  assumes "oid_ok (req_application_context_name req)" "length (encode_dialogue_portion_request req) < 2 ^ 64"
  shows "decode_dialogue_portion_request (encode_dialogue_portion_request req) = ret req"
proof -
  have "decode_structured kAarqTag (encode_dialogue_portion_request req) = ret (request_parts req)"
    using structured_roundtrip [of kAarqTag "request_parts req" kAarqTag] assms(2)
    by (simp add: encode_request_parts)
  moreover have "length (encode_tlv (context_name_tlv (req_application_context_name req))) < 2 ^ 64"
    using structured_parts_length [of "context_name_tlv (req_application_context_name req)" "request_parts req" kAarqTag] assms(2)
    by (simp add: encode_request_parts) (simp add: request_parts_def)
  then have "decode_context_name (context_name_tlv (req_application_context_name req)) = ret (req_application_context_name req)"
    by (rule context_name_roundtrip [OF assms(1)])
  ultimately show ?thesis
    by (cases req) (auto simp: decode_dialogue_portion_request_def request_parts_def dialogue_tags split: option.split)
qed

lemma dialogue_request_roundtrip_witness:
  "decode_dialogue_portion_request (encode_dialogue_portion_request
     \<lparr>req_protocol_version = Some [7, 128], req_application_context_name = [0, 4, 0, 0, 1, 0, 1, 3],
      req_user_information = None\<rparr>) =
   ret \<lparr>req_protocol_version = Some [7, 128], req_application_context_name = [0, 4, 0, 0, 1, 0, 1, 3],
      req_user_information = None\<rparr>"
  using dialogue_request_roundtrip [of "\<lparr>req_protocol_version = Some [7, 128],
      req_application_context_name = [0, 4, 0, 0, 1, 0, 1, 3], req_user_information = None\<rparr>"]
  by (simp add: oid_ok_def encode_dialogue_portion_request_def structured_dialogue_def
      protocol_version_octets_def context_name_tlv_def user_information_octets_def kStructured_def
      encode_oid_def arc_bytes.simps push_arc_def encode_tlv_def encode_tag_def encode_length_def)

text \<open>A dialogue response is read back from its encoding in all its fields.\<close>

lemma dialogue_response_roundtrip:
  assumes "oid_ok (resp_application_context_name res)" "length (encode_dialogue_portion_response res) < 2 ^ 64"
  shows "decode_dialogue_portion_response (encode_dialogue_portion_response res) = ret res"
proof -
  have "decode_structured kAareTag (encode_dialogue_portion_response res) = ret (response_parts res)"
    using structured_roundtrip [of kAareTag "response_parts res" kAareTag] assms(2)
    by (simp add: encode_response_parts)
  moreover have len: "length (encode_tlv t) < 2 ^ 64" if "t \<in> set (response_parts res)" for t
    using structured_parts_length [OF that, of kAareTag] assms(2) by (simp add: encode_response_parts)
  have "decode_context_name (context_name_tlv (resp_application_context_name res)) = ret (resp_application_context_name res)"
    by (rule context_name_roundtrip [OF assms(1) len]) (simp add: response_parts_def)
  moreover have "decode_diagnostic (diagnostic_tlv (resp_diagnostic res)) = ret (resp_diagnostic res)"
    by (rule diagnostic_roundtrip [OF len]) (simp add: response_parts_def)
  ultimately show ?thesis using explicit_int_roundtrip
    by (cases res) (auto simp: decode_dialogue_portion_response_def response_parts_def
        take_optional_def take_tagged_def has_tag_def, auto simp: dialogue_tags split: option.split)
qed

text \<open>The two kinds of dialogue portion are never confused: a response given to the
  request decoder is refused.\<close>

lemma dialogue_kinds_disjoint:
  assumes "length (encode_dialogue_portion_response res) < 2 ^ 64"
  shows "decode_dialogue_portion_request (encode_dialogue_portion_response res) = nullopt"
proof -
  have "decode_structured kAarqTag (encode_dialogue_portion_response res) = nullopt"
    using structured_roundtrip [of kAareTag "response_parts res" kAarqTag] assms
    by (simp add: encode_response_parts)
  then show ?thesis by (simp add: decode_dialogue_portion_request_def)
qed

end
