(* ===== verification/Diameter.thy ===== *)
theory Diameter
  imports Stream_Codec
begin

text \<open>
  Diameter messages (\<open>libs/diameter-core/src/header.cpp\<close> and \<open>avp.cpp\<close>): the 20-octet header,
  attribute-value pairs with their padding, the scalar data types and the lookup by code.
\<close>

section \<open>Header\<close>

record diameter_header =
  dh_flags :: octet
  dh_command_code :: u32
  dh_application_id :: u32
  dh_hop_by_hop_id :: u32
  dh_end_to_end_id :: u32

definition kDiameterVersion :: octet where "kDiameterVersion = 1"
definition kHeaderLength :: nat where "kHeaderLength = 20"

definition encode_diameter_header :: "diameter_header \<Rightarrow> u32 \<Rightarrow> octets" where
  "encode_diameter_header h avps_length =
     [kDiameterVersion] @ put_u24 (word_of_nat kHeaderLength + avps_length) @
     [dh_flags h] @ put_u24 (dh_command_code h) @
     put_u32 (dh_application_id h) @ put_u32 (dh_hop_by_hop_id h) @ put_u32 (dh_end_to_end_id h)"

text \<open>Returns the header, the length of the AVP region and the advanced offset.\<close>

definition decode_diameter_header :: "octets \<Rightarrow> nat \<Rightarrow> (diameter_header \<times> u32 \<times> nat) option checked" where
  "decode_diameter_header bs off =
     (if length bs < off + kHeaderLength then nullopt
      else do {
        version \<leftarrow> octet_at bs off;
        if version \<noteq> kDiameterVersion then nullopt
        else do {
          message_length \<leftarrow> get_u24 bs (off + 1);
          if message_length < word_of_nat kHeaderLength then nullopt
          else do {
            flags \<leftarrow> octet_at bs (off + 4);
            code \<leftarrow> get_u24 bs (off + 5);
            app \<leftarrow> get_u32 bs (off + 8);
            hbh \<leftarrow> get_u32 bs (off + 12);
            ete \<leftarrow> get_u32 bs (off + 16);
            ret (\<lparr>dh_flags = flags, dh_command_code = code, dh_application_id = app,
                  dh_hop_by_hop_id = hbh, dh_end_to_end_id = ete\<rparr>,
                 message_length - word_of_nat kHeaderLength, off + kHeaderLength) } } })"

lemma diameter_header_decoded:
  "decode_diameter_header (pre @ encode_diameter_header h n @ post) (length pre) =
    (if take_bit 24 (20 + n) < 20 then nullopt
     else ret (h\<lparr>dh_command_code := take_bit 24 (dh_command_code h)\<rparr>, take_bit 24 (20 + n) - 20, length pre + 20))"
  by (simp add: decode_diameter_header_def encode_diameter_header_def kHeaderLength_def get_put_defs
      kDiameterVersion_def)

lemma take_bit_24: "unat (v :: u32) < 2 ^ 24 \<Longrightarrow> take_bit 24 v = v"
  by (rule take_bit_self)

text \<open>A Diameter header is read back, with the length of the AVP region, when the
  command code and the whole message length fit 24 bits.\<close>

lemma diameter_header_roundtrip:
  assumes "unat (dh_command_code h) < 2 ^ 24" "unat n + 20 < 2 ^ 24"
  shows "decode_diameter_header (pre @ encode_diameter_header h n @ post) (length pre) = ret (h, n, length pre + 20)"
proof -
  have u: "unat (20 + n) = 20 + unat n"
    using assms(2) by (simp add: unat_word_ariths)
  then have "take_bit 24 (20 + n) = 20 + n" using assms(2) by (intro take_bit_24) simp
  moreover have "\<not> 20 + n < (20 :: u32)" using u by (simp add: word_less_nat_alt)
  ultimately show ?thesis
    using take_bit_24 [OF assms(1)] by (simp add: diameter_header_decoded)
qed

section \<open>Attribute-value pairs\<close>

record avp =
  avp_code :: u32
  avp_flags :: octet
  avp_vendor_id :: u32
  avp_data :: octets

definition kVendor :: octet where "kVendor = 0x80"

definition has_vendor :: "octet \<Rightarrow> bool" where
  "has_vendor flags \<longleftrightarrow> flags AND kVendor \<noteq> 0"

definition avp_header_len :: "octet \<Rightarrow> nat" where
  "avp_header_len flags = (if has_vendor flags then 12 else 8)"

definition encode_avp :: "avp \<Rightarrow> octets" where
  "encode_avp a =
     put_u32 (avp_code a) @ [avp_flags a] @
     put_u24 (word_of_nat (avp_header_len (avp_flags a) + length (avp_data a))) @
     (if has_vendor (avp_flags a) then put_u32 (avp_vendor_id a) else []) @
     avp_data a @ replicate (padded_length (length (avp_data a)) - length (avp_data a)) 0"

text \<open>One turn of the loop of \<open>decode_avps\<close>. The new offset counts the padding even where the
  vector ends before it.\<close>

definition decode_avp :: "avp decoder" where
  "decode_avp bs off =
     (if length bs < off + 8 then nullopt
      else do {
        code \<leftarrow> get_u32 bs off;
        flags \<leftarrow> octet_at bs (off + 4);
        avp_len \<leftarrow> get_u24 bs (off + 5);
        let header_len = avp_header_len flags in
        if unat avp_len < header_len \<or> length bs < off + unat avp_len then nullopt
        else do {
          vendor \<leftarrow> (if has_vendor flags then get_u32 bs (off + 8) else Some 0);
          data \<leftarrow> sub_octets bs (off + header_len) (off + header_len + (unat avp_len - header_len));
          ret (\<lparr>avp_code = code, avp_flags = flags, avp_vendor_id = vendor, avp_data = data\<rparr>,
               off + padded_length (unat avp_len)) } })"

lemma padded_length_header: "padded_length (avp_header_len f + n) = avp_header_len f + padded_length n"
  by (rule padded_length_add) (simp add: avp_header_len_def)

lemma decode_avp_sound:
  "sound (decode_avp bs off) (\<lambda>(a, off'). off + 8 + length (avp_data a) \<le> min off' (length bs))"
proof (cases "length bs < off + 8")
  case False
  obtain code where code: "get_u32 bs off = Some code"
    using get_u32_Some [of off bs] False by auto
  obtain len where len: "get_u24 bs (off + 5) = Some len"
    using get_u24_Some [of "off + 5" bs] False by auto
  have flags: "octet_at bs (off + 4) = Some (bs ! (off + 4))"
    using False by (simp add: octet_at_def)
  let ?h = "avp_header_len (bs ! (off + 4))"
  have h: "8 \<le> ?h" by (simp add: avp_header_len_def)
  show ?thesis
  proof (cases "unat len < ?h \<or> length bs < off + unat len")
    case ok: False
    have "\<exists>v. (if has_vendor (bs ! (off + 4)) then get_u32 bs (off + 8) else Some 0) = Some v"
      using get_u32_Some [of "off + 8" bs] ok by (auto simp: avp_header_len_def split: if_splits)
    then show ?thesis
      using False code len flags ok h padded_length_ge [of "unat len"]
      by (auto simp: decode_avp_def sub_octets_def Let_def)
  qed (use False code len flags in \<open>auto simp: decode_avp_def\<close>)
qed (simp add: decode_avp_def)

function decode_avps_from :: "octets \<Rightarrow> nat \<Rightarrow> avp list option checked" where
  "decode_avps_from bs off =
     (if off < length bs then
        and_then (decode_avp bs off) (\<lambda>(a, off'). and_then (decode_avps_from bs off') (\<lambda>as. ret (a # as)))
      else ret [])"
  by auto
termination
proof (relation "measure (\<lambda>(bs, off). length bs - off)")
  fix bs off x a off'
  assume "off < length bs" "decode_avp bs off = ret x" "(a, off') = x"
  then show "((bs, off'), bs, off) \<in> measure (\<lambda>(bs, off). length bs - off)"
    using decode_avp_sound [of bs off] by auto
qed simp

declare decode_avps_from.simps [simp del]

definition decode_avps :: "octets \<Rightarrow> avp list option checked" where
  "decode_avps bs = decode_avps_from bs 0"

fun find_avp :: "avp list \<Rightarrow> u32 \<Rightarrow> u32 \<Rightarrow> avp option" where
  "find_avp [] code vendor = None"
| "find_avp (a # as) code vendor =
     (if avp_code a \<noteq> code then find_avp as code vendor
      else if vendor \<noteq> 0 \<and> (\<not> has_vendor (avp_flags a) \<or> avp_vendor_id a \<noteq> vendor) then find_avp as code vendor
      else Some a)"

text \<open>What the format can carry: the length fits 24 bits, and an AVP without the vendor flag has
  no vendor id.\<close>

definition avp_ok :: "avp \<Rightarrow> bool" where
  "avp_ok a \<longleftrightarrow> avp_header_len (avp_flags a) + length (avp_data a) < 2 ^ 24 \<and>
     (\<not> has_vendor (avp_flags a) \<longrightarrow> avp_vendor_id a = 0)"

lemma decode_encode_avp:
  assumes "avp_ok a"
  shows "decode_avp (pre @ encode_avp a @ post) (length pre) = ret (a, length pre + length (encode_avp a))"
proof -
  let ?n = "avp_header_len (avp_flags a) + length (avp_data a)"
  have n: "unat (word_of_nat ?n :: u32) = ?n"
    using assms by (simp add: avp_ok_def unat_of_nat take_bit_nat_eq_self del: of_nat_add)
  then have t: "take_bit 24 (word_of_nat ?n :: u32) = word_of_nat ?n"
    using assms by (intro take_bit_24) (simp add: avp_ok_def del: of_nat_add)
  have pad: "padded_length ?n = avp_header_len (avp_flags a) + padded_length (length (avp_data a))"
    by (rule padded_length_header)
  show ?thesis
  proof (cases "has_vendor (avp_flags a)")
    case True
    then show ?thesis
      using n t pad padded_length_ge [of "length (avp_data a)"]
      by (cases a) (simp add: decode_avp_def encode_avp_def get_put_defs avp_header_len_def sub_octets_def del: of_nat_add)
  next
    case False
    then show ?thesis
      using n t pad padded_length_ge [of "length (avp_data a)"] assms
      by (cases a) (simp add: decode_avp_def encode_avp_def get_put_defs avp_header_len_def sub_octets_def avp_ok_def del: of_nat_add)
  qed
qed

interpretation avps: stream_codec encode_avp decode_avp avp_ok decode_avps_from
proof unfold_locales
  show "avp_ok x \<Longrightarrow> decode_avp (pre @ encode_avp x @ post) (length pre) =
      ret (x, length pre + length (encode_avp x))" for x pre post
    by (rule decode_encode_avp)
  show "decode_avp bs off \<noteq> None" for bs off by (rule sound_safe [OF decode_avp_sound])
  show "decode_avp bs off = ret (x, off') \<Longrightarrow> off < off'" for bs off x off'
    using decode_avp_sound [of bs off] by auto
  show "length bs \<le> off \<Longrightarrow> decode_avps_from bs off = ret []" for bs off
    by (simp add: decode_avps_from.simps)
  show "off < length bs \<Longrightarrow> decode_avps_from bs off =
      (case decode_avp bs off of None \<Rightarrow> None | Some None \<Rightarrow> Some None
       | Some (Some (x, off')) \<Rightarrow> map_option (map_option ((#) x)) (decode_avps_from bs off'))" for bs off
    by (subst decode_avps_from.simps) (simp add: case_and_then map_and_then case_prod_beta')
qed

section \<open>Scalar data\<close>

definition encode_unsigned32 :: "u32 \<Rightarrow> octets" where
  "encode_unsigned32 v = put_u32 v"

definition decode_unsigned32 :: "octets \<Rightarrow> u32 option checked" where
  "decode_unsigned32 data = (if length data \<noteq> 4 then nullopt else do { v \<leftarrow> get_u32 data 0; ret v })"

definition encode_unsigned64 :: "u64 \<Rightarrow> octets" where
  "encode_unsigned64 v = put_u32 (ucast (drop_bit 32 v AND 0xFFFFFFFF)) @ put_u32 (ucast (v AND 0xFFFFFFFF))"

definition decode_unsigned64 :: "octets \<Rightarrow> u64 option checked" where
  "decode_unsigned64 data =
     (if length data \<noteq> 8 then nullopt
      else do { hi \<leftarrow> get_u32 data 0; lo \<leftarrow> get_u32 data 4; ret (push_bit 32 (ucast hi) OR ucast lo) })"

definition kAddressFamilyIpv4 :: u16 where "kAddressFamilyIpv4 = 1"

definition encode_address_ipv4 :: "u32 \<Rightarrow> octets" where
  "encode_address_ipv4 a =
     [ucast (drop_bit 8 kAddressFamilyIpv4 AND 0xFF), ucast (kAddressFamilyIpv4 AND 0xFF)] @ put_u32 a"

definition decode_address_ipv4 :: "octets \<Rightarrow> u32 option checked" where
  "decode_address_ipv4 data =
     (if length data \<noteq> 6 then nullopt
      else do {
        family \<leftarrow> get_u16 data 0;
        if family \<noteq> kAddressFamilyIpv4 then nullopt else do { a \<leftarrow> get_u32 data 2; ret a } })"

lemma unsigned32_roundtrip: "decode_unsigned32 (encode_unsigned32 v) = ret v"
  using get_put_u32 [of "[]" v "[]"] by (simp add: decode_unsigned32_def encode_unsigned32_def)

lemma unsigned64_roundtrip: "decode_unsigned64 (encode_unsigned64 v) = ret v"
proof -
  let ?hi = "ucast (drop_bit 32 v AND 0xFFFFFFFF) :: u32" and ?lo = "ucast (v AND 0xFFFFFFFF) :: u32"
  have m: "(0xFFFFFFFF :: u64) = mask 32" by (simp add: mask_eq_exp_minus_1)
  have "push_bit 32 (ucast ?hi) OR ucast ?lo = v"
    unfolding m by (rule bit_word_eqI) (auto simp: bit_simps)
  then show ?thesis
    using get_put_u32 [of "[]" ?hi "put_u32 ?lo"] get_put_u32 [of "put_u32 ?hi" ?lo "[]"]
    by (simp add: decode_unsigned64_def encode_unsigned64_def)
qed

lemma address_ipv4_roundtrip: "decode_address_ipv4 (encode_address_ipv4 a) = ret a"
  by (simp add: decode_address_ipv4_def encode_address_ipv4_def kAddressFamilyIpv4_def get_put_defs)
    (simp add: join_u16_def)

section \<open>Messages\<close>

text \<open>A whole message as a peer reads it: the header, then the AVP region it announces.\<close>

definition encode_message :: "diameter_header \<Rightarrow> avp list \<Rightarrow> octets" where
  "encode_message h as =
     (let region = concat (map encode_avp as)
      in encode_diameter_header h (word_of_nat (length region)) @ region)"

definition decode_message :: "octets \<Rightarrow> (diameter_header \<times> avp list) option checked" where
  "decode_message bs =
     and_then (decode_diameter_header bs 0) (\<lambda>(h, n, off).
       if length bs < off + unat n then nullopt
       else do {
         region \<leftarrow> sub_octets bs off (off + unat n);
         and_then (decode_avps region) (\<lambda>as. ret (h, as)) })"

text \<open>Property C39: a Diameter message is read back completely: the header fields, the announced
  length, and the attribute-value pairs with their flags, vendor ids and data, in order.\<close>

theorem diameter_message_roundtrip:
  assumes "unat (dh_command_code h) < 2 ^ 24" "list_all avp_ok as" "length (concat (map encode_avp as)) + 20 < 2 ^ 24"
  shows "decode_message (encode_message h as) = ret (h, as)"
proof -
  let ?region = "concat (map encode_avp as)"
  let ?n = "word_of_nat (length ?region) :: u32"
  have n: "unat ?n = length ?region"
    using assms(3) by (simp add: unat_of_nat take_bit_nat_eq_self)
  then have "unat ?n + 20 < 2 ^ 24" using assms(3) by simp
  then have h: "decode_diameter_header (encode_message h as) 0 = ret (h, ?n, 20)"
    using diameter_header_roundtrip [OF assms(1), of ?n "[]" ?region]
    by (simp add: encode_message_def Let_def)
  have "length (encode_diameter_header h ?n) = 20" by (simp add: encode_diameter_header_def)
  then have "length (encode_message h as) = 20 + length ?region"
    "sub_octets (encode_message h as) 20 (20 + length ?region) = Some ?region"
    using sub_octets_exact [of "encode_diameter_header h ?n" ?region "[]"]
    by (simp_all add: encode_message_def Let_def)
  moreover have "decode_avps ?region = ret as"
    unfolding decode_avps_def by (rule avps.dec_all_roundtrip [OF assms(2)])
  ultimately show ?thesis using h n by (simp add: decode_message_def)
qed

lemma diameter_message_roundtrip_witness:
  "decode_message (encode_message \<lparr>dh_flags = 0x80, dh_command_code = 272, dh_application_id = 4,
      dh_hop_by_hop_id = 7, dh_end_to_end_id = 8\<rparr>
      [\<lparr>avp_code = 264, avp_flags = 0x40, avp_vendor_id = 0, avp_data = [0x61]\<rparr>,
       \<lparr>avp_code = 873, avp_flags = 0xC0, avp_vendor_id = 10415, avp_data = []\<rparr>]) =
   ret (\<lparr>dh_flags = 0x80, dh_command_code = 272, dh_application_id = 4,
      dh_hop_by_hop_id = 7, dh_end_to_end_id = 8\<rparr>,
      [\<lparr>avp_code = 264, avp_flags = 0x40, avp_vendor_id = 0, avp_data = [0x61]\<rparr>,
       \<lparr>avp_code = 873, avp_flags = 0xC0, avp_vendor_id = 10415, avp_data = []\<rparr>])"
  by (rule diameter_message_roundtrip)
    (simp_all add: avp_ok_def avp_header_len_def has_vendor_def kVendor_def encode_avp_def padded_length_def)

text \<open>On any octets the AVP decoder stays inside the vector, and the octets of the
  pairs it returns, headers included, never exceed it.\<close>

theorem decode_avps_bounded:
  "sound (decode_avps bs) (\<lambda>as. (\<Sum>a\<leftarrow>as. 8 + length (avp_data a)) \<le> length bs)"
proof -
  have "sound (decode_avps_from bs off) (\<lambda>as. as \<noteq> [] \<longrightarrow> off + (\<Sum>a\<leftarrow>as. 8 + length (avp_data a)) \<le> length bs)" for off
  proof (induction bs off rule: decode_avps_from.induct)
    case (1 bs off)
    show ?case
    proof (cases "off < length bs")
      case True
      show ?thesis
        by (subst decode_avps_from.simps, simp only: True if_True)
          (rule sound_and_then [OF decode_avp_sound], rule sound_case_prod,
           rule sound_and_then [OF 1 [OF True]], auto)
    qed (subst decode_avps_from.simps, simp)
  qed
  from this [of 0] show ?thesis
    unfolding decode_avps_def by (rule sound_mono) auto
qed

lemma find_avp_eq:
  "find_avp as code vendor =
     List.find (\<lambda>a. avp_code a = code \<and> (vendor \<noteq> 0 \<longrightarrow> has_vendor (avp_flags a) \<and> avp_vendor_id a = vendor)) as"
  by (induction as) auto

end
