(* ===== verification/Pfcp.thy ===== *)
theory Pfcp
  imports Stream_Codec
begin

text \<open>
  PFCP messages: the header (\<open>libs/pfcp-core/src/header.cpp\<close>), information elements
  (\<open>ie.cpp\<close>) and the way the receive loop of the UPF splits a datagram
  (\<open>nfs/upf/src/main.cpp\<close>). The message type is kept as the octet the enumeration is cast from.
\<close>

section \<open>Header\<close>

record pfcp_header =
  ph_has_seid :: bool
  ph_message_type :: octet
  ph_seid :: u64
  ph_sequence_number :: u32

definition kPfcpVersion :: octet where "kPfcpVersion = 1"
definition kNodeHeaderOverhead :: nat where "kNodeHeaderOverhead = 4"
definition kSessionHeaderOverhead :: nat where "kSessionHeaderOverhead = 12"

definition header_overhead :: "bool \<Rightarrow> nat" where
  "header_overhead has_seid = (if has_seid then kSessionHeaderOverhead else kNodeHeaderOverhead)"

definition encode_pfcp_header :: "pfcp_header \<Rightarrow> u16 \<Rightarrow> octets" where
  "encode_pfcp_header h ies_length =
     [push_bit 5 kPfcpVersion OR (if ph_has_seid h then 0x01 else 0x00), ph_message_type h] @
     put_u16 (word_of_nat (header_overhead (ph_has_seid h)) + ies_length) @
     (if ph_has_seid h then put_u64 (ph_seid h) else []) @
     put_u24 (ph_sequence_number h) @ [0x00]"

text \<open>Returns the header, the length of the IE region and the advanced offset.\<close>

definition decode_pfcp_header :: "octets \<Rightarrow> nat \<Rightarrow> (pfcp_header \<times> u16 \<times> nat) option checked" where
  "decode_pfcp_header bs off =
     (if length bs < off + 4 then nullopt
      else do {
        octet1 \<leftarrow> octet_at bs off;
        if drop_bit 5 octet1 \<noteq> kPfcpVersion then nullopt
        else do {
          let has_seid = (octet1 AND 0x01 \<noteq> 0);
          let overhead = header_overhead has_seid;
          message_type \<leftarrow> octet_at bs (off + 1);
          message_length \<leftarrow> get_u16 bs (off + 2);
          if unat message_length < overhead then nullopt
          else if length bs < off + 4 + overhead then nullopt
          else do {
            seid \<leftarrow> (if has_seid then get_be_loop bs (off + 4) 8 0 else Some 0);
            let pos = (if has_seid then off + 12 else off + 4);
            seqn \<leftarrow> get_u24 bs pos;
            ret (\<lparr>ph_has_seid = has_seid, ph_message_type = message_type, ph_seid = seid,
                  ph_sequence_number = seqn\<rparr>,
                 message_length - word_of_nat overhead, pos + 4) } } })"

definition header_ok :: "pfcp_header \<Rightarrow> u16 \<Rightarrow> bool" where
  "header_ok h n \<longleftrightarrow> unat (ph_sequence_number h) < 2 ^ 24 \<and> (\<not> ph_has_seid h \<longrightarrow> ph_seid h = 0) \<and>
     unat n + header_overhead (ph_has_seid h) < 2 ^ 16"

lemma pfcp_header_roundtrip:
  assumes "header_ok h n"
  shows "decode_pfcp_header (pre @ encode_pfcp_header h n @ post) (length pre) =
    ret (h, n, length pre + length (encode_pfcp_header h n))"
proof -
  let ?o = "header_overhead (ph_has_seid h)"
  have o: "?o = 4 \<or> ?o = 12"
    by (simp add: header_overhead_def kNodeHeaderOverhead_def kSessionHeaderOverhead_def)
  then have u: "unat (word_of_nat ?o + n) = ?o + unat n"
    using assms by (auto simp: header_ok_def unat_word_ariths)
  have seq: "take_bit 24 (ph_sequence_number h) = ph_sequence_number h"
    using assms by (intro take_bit_self) (simp add: header_ok_def)
  have v: "drop_bit 5 (push_bit 5 kPfcpVersion OR x) = kPfcpVersion" "(push_bit 5 kPfcpVersion OR x) AND 1 = x"
    if "x = 0 \<or> x = 1" for x :: octet
    using that by (auto simp: kPfcpVersion_def)
  show ?thesis
  proof (cases "ph_has_seid h")
    case True
    let ?pre = "pre @ [push_bit 5 kPfcpVersion OR 1, ph_message_type h] @ put_u16 (12 + n)"
    have "get_be_loop (?pre @ put_u64 (ph_seid h) @ put_u24 (ph_sequence_number h) @ 0 # post) (length ?pre) 8 0 =
        Some (ph_seid h)"
      by (rule get_be_loop_put_u64)
    moreover have "get_u24 ((?pre @ put_u64 (ph_seid h)) @ put_u24 (ph_sequence_number h) @ 0 # post)
        (length (?pre @ put_u64 (ph_seid h))) = Some (ph_sequence_number h)"
      by (simp only: get_put_u24 seq)
    moreover have "get_u16 ((pre @ [push_bit 5 kPfcpVersion OR 1, ph_message_type h]) @ put_u16 (12 + n) @ 
        put_u64 (ph_seid h) @ put_u24 (ph_sequence_number h) @ 0 # post)
        (length (pre @ [push_bit 5 kPfcpVersion OR 1, ph_message_type h])) = Some (12 + n)"
      by (simp only: get_put_u16)
    ultimately show ?thesis using True u v [of 1]
      by (cases h) (simp add: decode_pfcp_header_def encode_pfcp_header_def header_overhead_def
          kSessionHeaderOverhead_def Let_def)
  next
    case False
    then show ?thesis using u v [of 0] seq assms
      by (cases h) (simp add: decode_pfcp_header_def encode_pfcp_header_def header_overhead_def
          kNodeHeaderOverhead_def get_put_defs header_ok_def)
  qed
qed

section \<open>Information elements\<close>

record ie =
  ie_type :: u16
  ie_value :: octets

definition encode_ie :: "u16 \<Rightarrow> octets \<Rightarrow> octets" where
  "encode_ie t v = put_u16 t @ put_u16 (word_of_nat (length v)) @ v"

definition put_ie :: "ie \<Rightarrow> octets" where
  "put_ie i = encode_ie (ie_type i) (ie_value i)"

text \<open>One turn of the loop of \<open>decode_ies\<close>.\<close>

definition decode_ie :: "ie decoder" where
  "decode_ie bs off =
     (if length bs < off + 4 then nullopt
      else do {
        t \<leftarrow> get_u16 bs off;
        len \<leftarrow> get_u16 bs (off + 2);
        if length bs < off + 4 + unat len then nullopt
        else do {
          v \<leftarrow> sub_octets bs (off + 4) (off + 4 + unat len);
          ret (\<lparr>ie_type = t, ie_value = v\<rparr>, off + 4 + unat len) } })"

lemma decode_ie_sound:
  "sound (decode_ie bs off) (\<lambda>(i, off'). off' = off + 4 + length (ie_value i) \<and> off' \<le> length bs)"
  by (auto simp: decode_ie_def get_u16_def octet_at_def sub_octets_def)

function decode_ies_from :: "octets \<Rightarrow> nat \<Rightarrow> ie list option checked" where
  "decode_ies_from bs off =
     (if off < length bs then
        and_then (decode_ie bs off) (\<lambda>(i, off'). and_then (decode_ies_from bs off') (\<lambda>is. ret (i # is)))
      else ret [])"
  by auto
termination
proof (relation "measure (\<lambda>(bs, off). length bs - off)")
  fix bs off x i off'
  assume "off < length bs" "decode_ie bs off = ret x" "(i, off') = x"
  then show "((bs, off'), bs, off) \<in> measure (\<lambda>(bs, off). length bs - off)"
    using decode_ie_sound [of bs off] by auto
qed simp

declare decode_ies_from.simps [simp del]

definition decode_ies :: "octets \<Rightarrow> ie list option checked" where
  "decode_ies bs = decode_ies_from bs 0"

fun find_ie :: "ie list \<Rightarrow> u16 \<Rightarrow> ie option" where
  "find_ie [] t = None"
| "find_ie (i # is) t = (if ie_type i = t then Some i else find_ie is t)"

definition ie_ok :: "ie \<Rightarrow> bool" where
  "ie_ok i \<longleftrightarrow> length (ie_value i) < 2 ^ 16"

interpretation ies: stream_codec put_ie decode_ie ie_ok decode_ies_from
proof unfold_locales
  fix x pre post
  assume "ie_ok x"
  then have len: "unat (word_of_nat (length (ie_value x)) :: u16) = length (ie_value x)"
    by (simp add: ie_ok_def unat_of_nat take_bit_nat_eq_self)
  then show "decode_ie (pre @ put_ie x @ post) (length pre) = ret (x, length pre + length (put_ie x))"
    by (cases x) (simp add: decode_ie_def put_ie_def encode_ie_def get_put_defs sub_octets_def)
next
  show "decode_ie bs off \<noteq> None" for bs off by (rule sound_safe [OF decode_ie_sound])
  show "decode_ie bs off = ret (x, off') \<Longrightarrow> off < off'" for bs off x off'
    using decode_ie_sound [of bs off] by auto
  show "length bs \<le> off \<Longrightarrow> decode_ies_from bs off = ret []" for bs off
    by (simp add: decode_ies_from.simps)
  show "off < length bs \<Longrightarrow> decode_ies_from bs off =
      (case decode_ie bs off of None \<Rightarrow> None | Some None \<Rightarrow> Some None
       | Some (Some (x, off')) \<Rightarrow> map_option (map_option ((#) x)) (decode_ies_from bs off'))" for bs off
    by (subst decode_ies_from.simps) (simp add: case_and_then map_and_then case_prod_beta')
qed

text \<open>The elements tile the octets: decoding and re-encoding is the identity on every input that
  decodes at all.\<close>

lemma put_join_u16: "put_u16 (join_u16 a b) = [a, b]"
  unfolding put_u16_def join_u16_def and_0xFF by (auto intro!: bit_word_eqI simp: bit_simps)

lemma decode_ie_tile:
  assumes "decode_ie bs off = ret (i, off')"
  shows "put_ie i @ drop off' bs = drop off bs"
proof -
  let ?len = "join_u16 (bs ! (off + 2)) (bs ! (off + 3))"
  from assms have l: "off + 4 + unat ?len \<le> length bs" and off': "off' = off + 4 + unat ?len"
    and i: "i = \<lparr>ie_type = join_u16 (bs ! off) (bs ! (off + 1)), ie_value = take (unat ?len) (drop (off + 4) bs)\<rparr>"
    by (auto simp: decode_ie_def get_u16_def octet_at_def sub_octets_def numeral_eq_Suc split: if_splits)
  have "drop off bs = bs ! off # bs ! (off + 1) # bs ! (off + 2) # bs ! (off + 3) # drop (off + 4) bs"
    using l by (simp add: Cons_nth_drop_Suc numeral_eq_Suc)
  moreover have "drop off' bs = drop (unat ?len) (drop (off + 4) bs)"
    by (simp add: off' add.commute)
  then have "drop (off + 4) bs = take (unat ?len) (drop (off + 4) bs) @ drop off' bs"
    by (simp only: append_take_drop_id)
  ultimately show ?thesis
    using l by (simp add: i put_ie_def encode_ie_def put_join_u16)
qed

lemma decode_ies_tile:
  "decode_ies_from bs off = ret is \<Longrightarrow> concat (map put_ie is) = drop off bs"
proof (induction bs off arbitrary: "is" rule: decode_ies_from.induct)
  case (1 bs off)
  show ?case
  proof (cases "off < length bs")
    case True
    with 1 obtain i off' js where d: "decode_ie bs off = ret (i, off')" "decode_ies_from bs off' = ret js" "is = i # js"
      by (subst (asm) (2) decode_ies_from.simps) (auto simp: and_then_eq_ret split: if_splits)
    then have "concat (map put_ie js) = drop off' bs" by (intro 1(1) [OF True d(1)]) simp_all
    with decode_ie_tile [OF d(1)] d(3) show ?thesis by simp
  qed (use 1 in \<open>simp add: decode_ies_from.simps\<close>)
qed

text \<open>Property C40: whatever octets decode to information elements are exactly their encodings, one
  after another; with the round trip, the wire form of a list of elements is unique.\<close>

theorem decode_ies_canonical:
  "decode_ies bs = ret is \<longleftrightarrow> list_all ie_ok is \<and> concat (map put_ie is) = bs"
proof
  assume d: "decode_ies bs = ret is"
  have "list_all ie_ok is" if "decode_ies_from bs off = ret is" for off
    using that
  proof (induction bs off arbitrary: "is" rule: decode_ies_from.induct)
    case (1 bs off)
    show ?case
    proof (cases "off < length bs")
      case True
      with 1 obtain i off' js where d: "decode_ie bs off = ret (i, off')" "decode_ies_from bs off' = ret js" "is = i # js"
        by (subst (asm) (2) decode_ies_from.simps) (auto simp: and_then_eq_ret split: if_splits)
      have "ie_ok i"
        using d(1) unsigned_less [where ?'a = nat and 'b = 16]
        by (auto simp: decode_ie_def get_u16_def octet_at_def sub_octets_def ie_ok_def split: if_splits)
      moreover have "list_all ie_ok js" by (rule 1(1) [OF True d(1)]) (use d in simp_all)
      ultimately show ?thesis using d(3) by simp
    qed (use 1 in \<open>simp add: decode_ies_from.simps\<close>)
  qed
  with d decode_ies_tile [of bs 0] show "list_all ie_ok is \<and> concat (map put_ie is) = bs"
    by (simp add: decode_ies_def)
next
  assume "list_all ie_ok is \<and> concat (map put_ie is) = bs"
  then show "decode_ies bs = ret is" using ies.dec_all_roundtrip by (auto simp: decode_ies_def)
qed

section \<open>Datagrams\<close>

text \<open>What the UPF's receive loop does with a datagram before it dispatches on the message type.\<close>

definition split_datagram :: "octets \<Rightarrow> (pfcp_header \<times> octets) option checked" where
  "split_datagram msg =
     and_then (decode_pfcp_header msg 0) (\<lambda>(h, ies_length, off).
       if length msg < off + unat ies_length then nullopt
       else do {
         ie_bytes \<leftarrow> sub_octets msg off (off + unat ies_length);
         ret (h, ie_bytes) })"

definition encode_datagram :: "pfcp_header \<Rightarrow> octets \<Rightarrow> octets" where
  "encode_datagram h ie_bytes = encode_pfcp_header h (word_of_nat (length ie_bytes)) @ ie_bytes"

text \<open>A PFCP datagram, with any octets after it, splits into its header and exactly
  its IE region.\<close>

theorem datagram_roundtrip:
  assumes "header_ok h (word_of_nat (length ie_bytes))" "length ie_bytes < 2 ^ 16"
  shows "split_datagram (encode_datagram h ie_bytes @ trailing) = ret (h, ie_bytes)"
proof -
  let ?n = "word_of_nat (length ie_bytes) :: u16"
  have n: "unat ?n = length ie_bytes" using assms(2) by (simp add: unat_of_nat take_bit_nat_eq_self)
  have "decode_pfcp_header (encode_datagram h ie_bytes @ trailing) 0 =
      ret (h, ?n, length (encode_pfcp_header h ?n))"
    using pfcp_header_roundtrip [OF assms(1), of "[]"] by (simp add: encode_datagram_def)
  moreover have "sub_octets (encode_datagram h ie_bytes @ trailing) (length (encode_pfcp_header h ?n))
      (length (encode_pfcp_header h ?n) + length ie_bytes) = Some ie_bytes"
    using sub_octets_exact [of "encode_pfcp_header h ?n" ie_bytes trailing] by (simp add: encode_datagram_def)
  ultimately show ?thesis using n by (simp add: split_datagram_def) (simp add: encode_datagram_def)
qed

lemma datagram_roundtrip_witness:
  "split_datagram (encode_datagram \<lparr>ph_has_seid = True, ph_message_type = 50, ph_seid = 0x1122334455667788,
      ph_sequence_number = 0xABCDEF\<rparr> [0, 56, 0, 2, 0, 1] @ [0xFF]) =
   ret (\<lparr>ph_has_seid = True, ph_message_type = 50, ph_seid = 0x1122334455667788,
      ph_sequence_number = 0xABCDEF\<rparr>, [0, 56, 0, 2, 0, 1])"
  by (rule datagram_roundtrip) (simp_all add: header_ok_def header_overhead_def kSessionHeaderOverhead_def)

text \<open>On any datagram the header decoder and the split stay inside the vector, and the
  announced overhead was really there.\<close>

theorem split_datagram_safe:
  "sound (split_datagram msg) (\<lambda>(h, ie_bytes). 4 + header_overhead (ph_has_seid h) + length ie_bytes \<le> length msg)"
proof -
  have "sound (decode_pfcp_header msg 0) (\<lambda>(h, n, off). off = 4 + header_overhead (ph_has_seid h) \<and> off \<le> length msg)"
    by (auto simp: decode_pfcp_header_def Let_def octet_at_def get_u16_def get_u24_def header_overhead_def
        kNodeHeaderOverhead_def kSessionHeaderOverhead_def get_be_loop_foldl)
  then show ?thesis
    unfolding split_datagram_def
    by (rule sound_and_then) (auto intro!: sound_if sound_sub_octets sound_case_prod)
qed

end
