(* ===== verification/Pfcp_Ies.thy ===== *)
theory Pfcp_Ies
  imports Pfcp
begin

text \<open>
  The values of PFCP information elements (\<open>libs/pfcp-core/src/common_ies.cpp\<close>,
  \<open>session_ies.cpp\<close> and \<open>pfd_ies.cpp\<close>). An IPv4 address is the array of its four octets. An
  enumeration read with a cast keeps the octet it was cast from.
\<close>

type_synonym ipv4 = "octet \<times> octet \<times> octet \<times> octet"

definition ipv4_octets :: "ipv4 \<Rightarrow> octets" where
  "ipv4_octets a = (case a of (w, x, y, z) \<Rightarrow> [w, x, y, z])"

definition get_ipv4 :: "octets \<Rightarrow> nat \<Rightarrow> ipv4 checked" where
  "get_ipv4 bs off = do {
     w \<leftarrow> octet_at bs off; x \<leftarrow> octet_at bs (off + 1); y \<leftarrow> octet_at bs (off + 2); z \<leftarrow> octet_at bs (off + 3);
     Some (w, x, y, z) }"

section \<open>Common elements\<close>

definition encode_cause :: "octet \<Rightarrow> octets" where
  "encode_cause c = [c]"

definition decode_cause :: "octets \<Rightarrow> octet option checked" where
  "decode_cause v = (if length v \<noteq> 1 then nullopt else do { c \<leftarrow> octet_at v 0; ret c })"

text \<open>Seconds since 1970 are 64-bit; the wire carries the low 32 bits of the seconds since 1900.\<close>

definition kNtpUnixEpochOffsetSeconds :: u64 where "kNtpUnixEpochOffsetSeconds = 2208988800"

definition encode_recovery_time_stamp :: "u64 \<Rightarrow> octets" where
  "encode_recovery_time_stamp unix_time = put_u32 (ucast (unix_time + kNtpUnixEpochOffsetSeconds))"

definition decode_recovery_time_stamp :: "octets \<Rightarrow> u64 option checked" where
  "decode_recovery_time_stamp v =
     (if length v \<noteq> 4 then nullopt
      else do { ntp \<leftarrow> get_u32 v 0; ret (ucast ntp - kNtpUnixEpochOffsetSeconds) })"

definition encode_node_id_ipv4 :: "ipv4 \<Rightarrow> octets" where
  "encode_node_id_ipv4 a = 0 # ipv4_octets a"

definition decode_node_id_ipv4 :: "octets \<Rightarrow> ipv4 option checked" where
  "decode_node_id_ipv4 v =
     (if length v \<noteq> 5 then nullopt
      else do { t \<leftarrow> octet_at v 0;
                if t AND 0x0F \<noteq> 0 then nullopt else do { a \<leftarrow> get_ipv4 v 1; ret a } })"

definition encode_node_report_type :: "bool \<Rightarrow> octets" where
  "encode_node_report_type path_failure = [if path_failure then 0x01 else 0]"

definition decode_node_report_type :: "octets \<Rightarrow> bool option checked" where
  "decode_node_report_type v =
     (if length v \<noteq> 1 then nullopt else do { t \<leftarrow> octet_at v 0; ret (t AND 0x01 \<noteq> 0) })"

definition encode_remote_gtpu_peer_ipv4 :: "ipv4 \<Rightarrow> octets" where
  "encode_remote_gtpu_peer_ipv4 a = 0x02 # ipv4_octets a"

definition decode_remote_gtpu_peer_ipv4 :: "octets \<Rightarrow> ipv4 option checked" where
  "decode_remote_gtpu_peer_ipv4 v =
     (if length v \<noteq> 5 then nullopt
      else do { t \<leftarrow> octet_at v 0;
                if t AND 0x02 = 0 then nullopt else do { a \<leftarrow> get_ipv4 v 1; ret a } })"

section \<open>Session elements\<close>

definition encode_source_interface :: "octet \<Rightarrow> octets" where
  "encode_source_interface i = [i AND 0x0F]"

definition encode_destination_interface :: "octet \<Rightarrow> octets" where
  "encode_destination_interface i = [i AND 0x0F]"

definition decode_interface_value :: "octets \<Rightarrow> octet option checked" where
  "decode_interface_value v = (if length v \<noteq> 1 then nullopt else do { i \<leftarrow> octet_at v 0; ret (i AND 0x0F) })"

definition encode_pdr_id :: "u16 \<Rightarrow> octets" where
  "encode_pdr_id i = put_u16 i"

definition decode_pdr_id :: "octets \<Rightarrow> u16 option checked" where
  "decode_pdr_id v = (if length v \<noteq> 2 then nullopt else do { i \<leftarrow> get_u16 v 0; ret i })"

text \<open>Precedence, FAR, URR and QER identifiers and the report sequence number share one shape; the
  code spells each pair of functions out.\<close>

definition encode_precedence :: "u32 \<Rightarrow> octets" where
  "encode_precedence i = put_u32 i"

definition decode_precedence :: "octets \<Rightarrow> u32 option checked" where
  "decode_precedence v = (if length v \<noteq> 4 then nullopt else do { i \<leftarrow> get_u32 v 0; ret i })"

definition encode_far_id :: "u32 \<Rightarrow> octets" where
  "encode_far_id i = put_u32 i"

definition decode_far_id :: "octets \<Rightarrow> u32 option checked" where
  "decode_far_id v = (if length v \<noteq> 4 then nullopt else do { i \<leftarrow> get_u32 v 0; ret i })"

definition encode_urr_id :: "u32 \<Rightarrow> octets" where
  "encode_urr_id i = put_u32 i"

definition decode_urr_id :: "octets \<Rightarrow> u32 option checked" where
  "decode_urr_id v = (if length v \<noteq> 4 then nullopt else do { i \<leftarrow> get_u32 v 0; ret i })"

definition encode_ur_seqn :: "u32 \<Rightarrow> octets" where
  "encode_ur_seqn i = put_u32 i"

definition decode_ur_seqn :: "octets \<Rightarrow> u32 option checked" where
  "decode_ur_seqn v = (if length v \<noteq> 4 then nullopt else do { i \<leftarrow> get_u32 v 0; ret i })"

definition encode_qer_id :: "u32 \<Rightarrow> octets" where
  "encode_qer_id i = put_u32 i"

definition decode_qer_id :: "octets \<Rightarrow> u32 option checked" where
  "decode_qer_id v = (if length v \<noteq> 4 then nullopt else do { i \<leftarrow> get_u32 v 0; ret i })"

lemmas u32_ie_defs =
  encode_precedence_def decode_precedence_def
  encode_far_id_def decode_far_id_def
  encode_urr_id_def decode_urr_id_def
  encode_ur_seqn_def decode_ur_seqn_def
  encode_qer_id_def decode_qer_id_def

definition encode_apply_action_forward :: octets where
  "encode_apply_action_forward = [0x02]"

definition decode_apply_action_has_forward :: "octets \<Rightarrow> bool checked" where
  "decode_apply_action_has_forward v =
     (if length v = 1 then do { a \<leftarrow> octet_at v 0; Some (a AND 0x02 \<noteq> 0) } else Some False)"

definition kFTeidV4Bit :: octet where "kFTeidV4Bit = 0x01"
definition kFTeidChBit :: octet where "kFTeidChBit = 0x04"

definition encode_f_teid_choose_ipv4 :: octets where
  "encode_f_teid_choose_ipv4 = [kFTeidV4Bit OR kFTeidChBit]"

definition encode_f_teid_allocated_ipv4 :: "u32 \<Rightarrow> ipv4 \<Rightarrow> octets" where
  "encode_f_teid_allocated_ipv4 teid a = [kFTeidV4Bit] @ put_u32 teid @ ipv4_octets a"

definition decode_f_teid_allocated_ipv4 :: "octets \<Rightarrow> (u32 \<times> ipv4) option checked" where
  "decode_f_teid_allocated_ipv4 v =
     (if length v \<noteq> 9 then nullopt
      else do {
        f \<leftarrow> octet_at v 0;
        if f AND kFTeidChBit \<noteq> 0 \<or> f AND kFTeidV4Bit = 0 then nullopt
        else do { teid \<leftarrow> get_u32 v 1; a \<leftarrow> get_ipv4 v 5; ret (teid, a) } })"

definition decode_f_teid_is_choose_request :: "octets \<Rightarrow> bool checked" where
  "decode_f_teid_is_choose_request v =
     (if v = [] then Some False else do { f \<leftarrow> octet_at v 0; Some (f AND kFTeidChBit \<noteq> 0) })"

definition encode_f_seid_ipv4 :: "u64 \<Rightarrow> ipv4 \<Rightarrow> octets" where
  "encode_f_seid_ipv4 seid a = [0x02] @ put_u64 seid @ ipv4_octets a"

definition decode_f_seid_ipv4 :: "octets \<Rightarrow> (u64 \<times> ipv4) option checked" where
  "decode_f_seid_ipv4 v =
     (if length v \<noteq> 13 then nullopt
      else do {
        f \<leftarrow> octet_at v 0;
        if f AND 0x02 = 0 then nullopt
        else do { seid \<leftarrow> get_be_loop v 1 8 0; a \<leftarrow> get_ipv4 v 9; ret (seid, a) } })"

definition encode_measurement_method_volume :: octets where
  "encode_measurement_method_volume = [0x02]"

definition encode_reporting_triggers_volume :: octets where
  "encode_reporting_triggers_volume = [0x02, 0x01]"

definition encode_volume_total :: "u64 \<Rightarrow> octets" where
  "encode_volume_total n = [0x01] @ put_u64 n"

definition decode_volume_total :: "octets \<Rightarrow> u64 option checked" where
  "decode_volume_total v =
     (if length v \<noteq> 9 then nullopt
      else do {
        f \<leftarrow> octet_at v 0;
        if f AND 0x01 = 0 then nullopt else do { n \<leftarrow> get_be_loop v 1 8 0; ret n } })"

definition decode_report_type_has_usage_report :: "octets \<Rightarrow> bool checked" where
  "decode_report_type_has_usage_report v =
     (if v = [] then Some False else do { f \<leftarrow> octet_at v 0; Some (f AND 0x02 \<noteq> 0) })"

definition encode_report_type_usage_report :: octets where
  "encode_report_type_usage_report = [0x02]"

datatype usage_report_trigger = VolumeThreshold | VolumeQuotaExhausted | OtherTrigger

definition decode_usage_report_trigger :: "octets \<Rightarrow> usage_report_trigger checked" where
  "decode_usage_report_trigger v = do {
     volth \<leftarrow> (if 1 \<le> length v then do { f \<leftarrow> octet_at v 0; Some (f AND 0x02 \<noteq> 0) } else Some False);
     if volth then Some VolumeThreshold
     else do {
       volqu \<leftarrow> (if 2 \<le> length v then do { f \<leftarrow> octet_at v 1; Some (f AND 0x01 \<noteq> 0) } else Some False);
       Some (if volqu then VolumeQuotaExhausted else OtherTrigger) } }"

definition encode_usage_report_trigger_volth :: octets where
  "encode_usage_report_trigger_volth = [0x02, 0x00]"

definition encode_usage_report_trigger_volqu :: octets where
  "encode_usage_report_trigger_volqu = [0x00, 0x01]"

definition encode_usage_report_trigger_termr :: octets where
  "encode_usage_report_trigger_termr = [0x00, 0x08]"

definition encode_bar_id :: "octet \<Rightarrow> octets" where
  "encode_bar_id i = [i]"

definition decode_bar_id :: "octets \<Rightarrow> octet option checked" where
  "decode_bar_id v = (if length v \<noteq> 1 then nullopt else do { i \<leftarrow> octet_at v 0; ret i })"

record gate_status =
  ul_closed :: bool
  dl_closed :: bool

definition encode_gate_status :: "gate_status \<Rightarrow> octets" where
  "encode_gate_status g =
     [(if ul_closed g then push_bit 2 0x01 else 0) OR (if dl_closed g then push_bit 0 0x01 else 0)]"

definition decode_gate_status :: "octets \<Rightarrow> gate_status option checked" where
  "decode_gate_status v =
     (if length v \<noteq> 1 then nullopt
      else do {
        g \<leftarrow> octet_at v 0;
        ret \<lparr>ul_closed = drop_bit 2 g AND 0x03 \<noteq> 0, dl_closed = drop_bit 0 g AND 0x03 \<noteq> 0\<rparr> })"

record mbr =
  ul_kbps :: u64
  dl_kbps :: u64

text \<open>The loops fill five octets from the last one backwards.\<close>

definition put_u40 :: "u64 \<Rightarrow> octets" where
  "put_u40 v = map (\<lambda>i. ucast (drop_bit (8 * (4 - i)) v AND 0xFF)) [0, 1, 2, 3, 4]"

definition encode_mbr :: "mbr \<Rightarrow> octets" where
  "encode_mbr m = put_u40 (ul_kbps m) @ put_u40 (dl_kbps m)"

definition decode_mbr :: "octets \<Rightarrow> mbr option checked" where
  "decode_mbr v =
     (if length v \<noteq> 10 then nullopt
      else do { ul \<leftarrow> get_be_loop v 0 5 0; dl \<leftarrow> get_be_loop v 5 5 0; ret \<lparr>ul_kbps = ul, dl_kbps = dl\<rparr> })"

definition encode_outer_header_creation_gtpu_ipv4 :: "u32 \<Rightarrow> ipv4 \<Rightarrow> octets" where
  "encode_outer_header_creation_gtpu_ipv4 teid a = [0x01, 0x00] @ put_u32 teid @ ipv4_octets a"

definition decode_outer_header_creation_gtpu_ipv4 :: "octets \<Rightarrow> (u32 \<times> ipv4) option checked" where
  "decode_outer_header_creation_gtpu_ipv4 v =
     (if length v \<noteq> 10 then nullopt
      else do {
        f \<leftarrow> octet_at v 0;
        if f AND 0x01 = 0 then nullopt
        else do { teid \<leftarrow> get_u32 v 2; a \<leftarrow> get_ipv4 v 6; ret (teid, a) } })"

section \<open>Packet flow descriptions\<close>

record pfd_contents =
  flow_description :: "octets option"
  url :: "octets option"
  domain_name :: "octets option"
  custom_content :: "octets option"

definition kFlagFd :: octet where "kFlagFd = 0x01"
definition kFlagUrl :: octet where "kFlagUrl = 0x02"
definition kFlagDn :: octet where "kFlagDn = 0x04"
definition kFlagCp :: octet where "kFlagCp = 0x08"

definition append_length_prefixed :: "octets \<Rightarrow> octets" where
  "append_length_prefixed v = put_u16 (word_of_nat (length v)) @ v"

definition read_length_prefixed :: "octets decoder" where
  "read_length_prefixed bs off =
     (if length bs < off + 2 then nullopt
      else do {
        len \<leftarrow> get_u16 bs off;
        if length bs < off + 2 + unat len then nullopt
        else do {
          v \<leftarrow> sub_octets bs (off + 2) (off + 2 + unat len);
          ret (v, off + 2 + unat len) } })"

definition flag_if :: "'a option \<Rightarrow> octet \<Rightarrow> octet" where
  "flag_if f flag = (case f of Some _ \<Rightarrow> flag | None \<Rightarrow> 0)"

definition append_field :: "octets option \<Rightarrow> octets" where
  "append_field f = (case f of Some v \<Rightarrow> append_length_prefixed v | None \<Rightarrow> [])"

definition pfd_flags :: "pfd_contents \<Rightarrow> octet" where
  "pfd_flags c = flag_if (flow_description c) kFlagFd OR flag_if (url c) kFlagUrl OR
     flag_if (domain_name c) kFlagDn OR flag_if (custom_content c) kFlagCp"

definition encode_pfd_contents :: "pfd_contents \<Rightarrow> octets" where
  "encode_pfd_contents c =
     [pfd_flags c, 0x00] @ append_field (flow_description c) @ append_field (url c) @
     append_field (domain_name c) @ append_field (custom_content c)"

definition read_field :: "octet \<Rightarrow> octet \<Rightarrow> octets \<Rightarrow> nat \<Rightarrow> (octets option \<times> nat) option checked" where
  "read_field flags flag bs off =
     (if flags AND flag \<noteq> 0 then and_then (read_length_prefixed bs off) (\<lambda>(v, off). ret (Some v, off))
      else ret (None, off))"

definition decode_pfd_contents :: "octets \<Rightarrow> pfd_contents option checked" where
  "decode_pfd_contents v =
     (if length v < 2 then nullopt
      else do {
        flags \<leftarrow> octet_at v 0;
        and_then (read_field flags kFlagFd v 2) (\<lambda>(fd, off).
        and_then (read_field flags kFlagUrl v off) (\<lambda>(u, off).
        and_then (read_field flags kFlagDn v off) (\<lambda>(dn, off).
        and_then (read_field flags kFlagCp v off) (\<lambda>(cp, off).
          ret \<lparr>flow_description = fd, url = u, domain_name = dn, custom_content = cp\<rparr>)))) })"

definition field_ok :: "octets option \<Rightarrow> bool" where
  "field_ok f = (case f of Some v \<Rightarrow> length v < 2 ^ 16 | None \<Rightarrow> True)"

lemma read_length_prefixed_roundtrip:
  assumes "length v < 2 ^ 16"
  shows "read_length_prefixed (pre @ append_length_prefixed v @ post) (length pre) =
    ret (v, length pre + length (append_length_prefixed v))"
proof -
  have "unat (word_of_nat (length v) :: u16) = length v"
    using assms by (simp add: unat_of_nat take_bit_nat_eq_self)
  then show ?thesis
    by (simp add: read_length_prefixed_def append_length_prefixed_def get_put_defs sub_octets_def)
qed

lemma read_field_roundtrip:
  "field_ok f \<Longrightarrow> (flags AND flag \<noteq> 0 \<longleftrightarrow> f \<noteq> None) \<Longrightarrow>
   read_field flags flag (pre @ append_field f @ post) (length pre) = ret (f, length pre + length (append_field f))"
  by (cases f) (simp_all add: read_field_def append_field_def field_ok_def read_length_prefixed_roundtrip)

lemma pfd_flags_bits:
  "pfd_flags c AND kFlagFd \<noteq> 0 \<longleftrightarrow> flow_description c \<noteq> None"
  "pfd_flags c AND kFlagUrl \<noteq> 0 \<longleftrightarrow> url c \<noteq> None"
  "pfd_flags c AND kFlagDn \<noteq> 0 \<longleftrightarrow> domain_name c \<noteq> None"
  "pfd_flags c AND kFlagCp \<noteq> 0 \<longleftrightarrow> custom_content c \<noteq> None"
  by (auto simp: pfd_flags_def flag_if_def kFlagFd_def kFlagUrl_def kFlagDn_def kFlagCp_def split: option.split)

text \<open>Packet flow descriptions are read back in all four optional fields: the flag
  octet announces exactly the fields present, and each length prefix delimits its own field.\<close>

theorem pfd_contents_roundtrip:
  assumes "field_ok (flow_description c)" "field_ok (url c)" "field_ok (domain_name c)" "field_ok (custom_content c)"
  shows "decode_pfd_contents (encode_pfd_contents c) = ret c"
proof -
  let ?p0 = "[pfd_flags c, 0x00]"
  let ?p1 = "?p0 @ append_field (flow_description c)"
  let ?p2 = "?p1 @ append_field (url c)"
  let ?p3 = "?p2 @ append_field (domain_name c)"
  have "read_field (pfd_flags c) kFlagFd (encode_pfd_contents c) (length ?p0) = ret (flow_description c, length ?p1)"
    using read_field_roundtrip [OF assms(1) pfd_flags_bits(1), of ?p0] by (simp add: encode_pfd_contents_def)
  moreover have "read_field (pfd_flags c) kFlagUrl (encode_pfd_contents c) (length ?p1) = ret (url c, length ?p2)"
    using read_field_roundtrip [OF assms(2) pfd_flags_bits(2), of ?p1] by (simp add: encode_pfd_contents_def add.assoc)
  moreover have "read_field (pfd_flags c) kFlagDn (encode_pfd_contents c) (length ?p2) = ret (domain_name c, length ?p3)"
    using read_field_roundtrip [OF assms(3) pfd_flags_bits(3), of ?p2] by (simp add: encode_pfd_contents_def add.assoc)
  moreover have "read_field (pfd_flags c) kFlagCp (encode_pfd_contents c) (length ?p3) =
      ret (custom_content c, length ?p3 + length (append_field (custom_content c)))"
    using read_field_roundtrip [OF assms(4) pfd_flags_bits(4), of ?p3 "[]"] by (simp add: encode_pfd_contents_def add.assoc)
  moreover have "octet_at (encode_pfd_contents c) 0 = Some (pfd_flags c)" "2 \<le> length (encode_pfd_contents c)"
    by (simp_all add: encode_pfd_contents_def)
  ultimately show ?thesis
    by (simp add: decode_pfd_contents_def numeral_2_eq_2)
qed

lemma pfd_contents_roundtrip_witness:
  "decode_pfd_contents (encode_pfd_contents \<lparr>flow_description = Some [1, 2], url = None,
      domain_name = Some [], custom_content = None\<rparr>) =
   ret \<lparr>flow_description = Some [1, 2], url = None, domain_name = Some [], custom_content = None\<rparr>"
  by (rule pfd_contents_roundtrip) (simp_all add: field_ok_def)

section \<open>Elements by type\<close>

text \<open>The typed elements of the messages, with the type numbers of \<open>IeType\<close>.\<close>

datatype session_ie =
  Cause_ie octet | RecoveryTimeStamp_ie u64 | NodeId_ie ipv4 | NodeReportType_ie bool | RemoteGtpuPeer_ie ipv4
  | SourceInterface_ie octet | DestinationInterface_ie octet | PdrId_ie u16 | Precedence_ie u32
  | FarId_ie u32 | UrrId_ie u32 | UrSeqn_ie u32 | QerId_ie u32 | BarId_ie octet
  | FTeid_ie u32 ipv4 | FSeid_ie u64 ipv4 | VolumeThreshold_ie u64 | VolumeQuota_ie u64 | VolumeMeasurement_ie u64
  | GateStatus_ie gate_status | Mbr_ie mbr | OuterHeaderCreation_ie u32 ipv4

fun encode_session_ie :: "session_ie \<Rightarrow> ie" where
  "encode_session_ie (Cause_ie c) = \<lparr>ie_type = 19, ie_value = encode_cause c\<rparr>"
| "encode_session_ie (RecoveryTimeStamp_ie t) = \<lparr>ie_type = 96, ie_value = encode_recovery_time_stamp t\<rparr>"
| "encode_session_ie (NodeId_ie a) = \<lparr>ie_type = 60, ie_value = encode_node_id_ipv4 a\<rparr>"
| "encode_session_ie (NodeReportType_ie b) = \<lparr>ie_type = 101, ie_value = encode_node_report_type b\<rparr>"
| "encode_session_ie (RemoteGtpuPeer_ie a) = \<lparr>ie_type = 103, ie_value = encode_remote_gtpu_peer_ipv4 a\<rparr>"
| "encode_session_ie (SourceInterface_ie i) = \<lparr>ie_type = 20, ie_value = encode_source_interface i\<rparr>"
| "encode_session_ie (DestinationInterface_ie i) = \<lparr>ie_type = 42, ie_value = encode_destination_interface i\<rparr>"
| "encode_session_ie (PdrId_ie i) = \<lparr>ie_type = 56, ie_value = encode_pdr_id i\<rparr>"
| "encode_session_ie (Precedence_ie i) = \<lparr>ie_type = 29, ie_value = encode_precedence i\<rparr>"
| "encode_session_ie (FarId_ie i) = \<lparr>ie_type = 108, ie_value = encode_far_id i\<rparr>"
| "encode_session_ie (UrrId_ie i) = \<lparr>ie_type = 81, ie_value = encode_urr_id i\<rparr>"
| "encode_session_ie (UrSeqn_ie i) = \<lparr>ie_type = 104, ie_value = encode_ur_seqn i\<rparr>"
| "encode_session_ie (QerId_ie i) = \<lparr>ie_type = 109, ie_value = encode_qer_id i\<rparr>"
| "encode_session_ie (BarId_ie i) = \<lparr>ie_type = 88, ie_value = encode_bar_id i\<rparr>"
| "encode_session_ie (FTeid_ie t a) = \<lparr>ie_type = 21, ie_value = encode_f_teid_allocated_ipv4 t a\<rparr>"
| "encode_session_ie (FSeid_ie s a) = \<lparr>ie_type = 57, ie_value = encode_f_seid_ipv4 s a\<rparr>"
| "encode_session_ie (VolumeThreshold_ie n) = \<lparr>ie_type = 31, ie_value = encode_volume_total n\<rparr>"
| "encode_session_ie (VolumeQuota_ie n) = \<lparr>ie_type = 73, ie_value = encode_volume_total n\<rparr>"
| "encode_session_ie (VolumeMeasurement_ie n) = \<lparr>ie_type = 66, ie_value = encode_volume_total n\<rparr>"
| "encode_session_ie (GateStatus_ie g) = \<lparr>ie_type = 25, ie_value = encode_gate_status g\<rparr>"
| "encode_session_ie (Mbr_ie m) = \<lparr>ie_type = 26, ie_value = encode_mbr m\<rparr>"
| "encode_session_ie (OuterHeaderCreation_ie t a) = \<lparr>ie_type = 84, ie_value = encode_outer_header_creation_gtpu_ipv4 t a\<rparr>"

definition lift_ie :: "('a \<Rightarrow> session_ie) \<Rightarrow> 'a option checked \<Rightarrow> session_ie option checked" where
  "lift_ie f m = and_then m (\<lambda>x. ret (f x))"

definition decode_session_ie :: "ie \<Rightarrow> session_ie option checked" where
  "decode_session_ie i =
     (let t = ie_type i; v = ie_value i in
      if t = 19 then lift_ie Cause_ie (decode_cause v)
      else if t = 96 then lift_ie RecoveryTimeStamp_ie (decode_recovery_time_stamp v)
      else if t = 60 then lift_ie NodeId_ie (decode_node_id_ipv4 v)
      else if t = 101 then lift_ie NodeReportType_ie (decode_node_report_type v)
      else if t = 103 then lift_ie RemoteGtpuPeer_ie (decode_remote_gtpu_peer_ipv4 v)
      else if t = 20 then lift_ie SourceInterface_ie (decode_interface_value v)
      else if t = 42 then lift_ie DestinationInterface_ie (decode_interface_value v)
      else if t = 56 then lift_ie PdrId_ie (decode_pdr_id v)
      else if t = 29 then lift_ie Precedence_ie (decode_precedence v)
      else if t = 108 then lift_ie FarId_ie (decode_far_id v)
      else if t = 81 then lift_ie UrrId_ie (decode_urr_id v)
      else if t = 104 then lift_ie UrSeqn_ie (decode_ur_seqn v)
      else if t = 109 then lift_ie QerId_ie (decode_qer_id v)
      else if t = 88 then lift_ie BarId_ie (decode_bar_id v)
      else if t = 21 then lift_ie (\<lambda>(t, a). FTeid_ie t a) (decode_f_teid_allocated_ipv4 v)
      else if t = 57 then lift_ie (\<lambda>(s, a). FSeid_ie s a) (decode_f_seid_ipv4 v)
      else if t = 31 then lift_ie VolumeThreshold_ie (decode_volume_total v)
      else if t = 73 then lift_ie VolumeQuota_ie (decode_volume_total v)
      else if t = 66 then lift_ie VolumeMeasurement_ie (decode_volume_total v)
      else if t = 25 then lift_ie GateStatus_ie (decode_gate_status v)
      else if t = 26 then lift_ie Mbr_ie (decode_mbr v)
      else if t = 84 then lift_ie (\<lambda>(t, a). OuterHeaderCreation_ie t a) (decode_outer_header_creation_gtpu_ipv4 v)
      else nullopt)"

text \<open>The values the formats can carry: four bits of interface, 40 bits of rate, a time stamp
  between 1900 and 2036.\<close>

fun session_ie_ok :: "session_ie \<Rightarrow> bool" where
  "session_ie_ok (RecoveryTimeStamp_ie t) = (unat (t + kNtpUnixEpochOffsetSeconds) < 2 ^ 32)"
| "session_ie_ok (SourceInterface_ie i) = (unat i < 16)"
| "session_ie_ok (DestinationInterface_ie i) = (unat i < 16)"
| "session_ie_ok (Mbr_ie m) = (unat (ul_kbps m) < 2 ^ 40 \<and> unat (dl_kbps m) < 2 ^ 40)"
| "session_ie_ok _ = True"

lemma get_ipv4_octets: "get_ipv4 (pre @ ipv4_octets a @ post) (length pre) = Some a"
  by (cases a) (simp add: get_ipv4_def ipv4_octets_def)

lemma recovery_time_stamp_roundtrip:
  assumes "unat (t + kNtpUnixEpochOffsetSeconds) < 2 ^ 32"
  shows "decode_recovery_time_stamp (encode_recovery_time_stamp t) = ret t"
proof -
  have "ucast (ucast (t + kNtpUnixEpochOffsetSeconds) :: u32) = take_bit 32 (t + kNtpUnixEpochOffsetSeconds)"
    by (rule bit_word_eqI) (auto simp: bit_simps)
  also have "\<dots> = t + kNtpUnixEpochOffsetSeconds" by (rule take_bit_self [OF assms])
  finally show ?thesis
    using get_put_u32 [of "[]" "ucast (t + kNtpUnixEpochOffsetSeconds)" "[]"]
    by (simp add: decode_recovery_time_stamp_def encode_recovery_time_stamp_def)
qed

lemma interface_roundtrip:
  "unat i < 16 \<Longrightarrow> decode_interface_value (encode_source_interface i) = ret i"
  "unat i < 16 \<Longrightarrow> decode_interface_value (encode_destination_interface i) = ret i"
proof -
  assume "unat i < 16"
  then have "take_bit 4 i = i" by (intro take_bit_self) simp
  moreover have "x AND 0x0F = take_bit 4 x" for x :: octet
    by (simp add: take_bit_eq_mask mask_eq_exp_minus_1)
  ultimately show "decode_interface_value (encode_source_interface i) = ret i"
    "decode_interface_value (encode_destination_interface i) = ret i"
    by (simp_all add: decode_interface_value_def encode_source_interface_def encode_destination_interface_def)
qed

lemma put_u40_roundtrip:
  assumes "unat v < 2 ^ 40"
  shows "foldl shift_in 0 (put_u40 v) = v"
proof -
  have "drop_bit 40 v = 0"
    using assms by (simp add: word_unat_eq_iff unat_drop_bit_eq drop_bit_nat_def)
  then show ?thesis
    using shift_in_drop [of 32 v] shift_in_drop [of 24 v] shift_in_drop [of 16 v] shift_in_drop [of 8 v] shift_in_drop [of 0 v]
    by (simp add: put_u40_def)
qed

lemma mbr_roundtrip:
  "unat (ul_kbps m) < 2 ^ 40 \<Longrightarrow> unat (dl_kbps m) < 2 ^ 40 \<Longrightarrow> decode_mbr (encode_mbr m) = ret m"
proof -
  have l: "length (put_u40 v) = 5" for v by (simp add: put_u40_def)
  assume "unat (ul_kbps m) < 2 ^ 40" "unat (dl_kbps m) < 2 ^ 40"
  with l show ?thesis
    by (simp add: decode_mbr_def encode_mbr_def get_be_loop_foldl put_u40_roundtrip)
qed

lemma u64_ipv4_roundtrip:
  "get_be_loop (c # put_u64 s @ ipv4_octets a) (Suc 0) 8 0 = Some s" "get_ipv4 (c # put_u64 s @ ipv4_octets a) 9 = Some a"
  using get_be_loop_put_u64 [of "[c]" s "ipv4_octets a"] get_ipv4_octets [of "c # put_u64 s" a "[]"] by simp_all

text \<open>Every typed element is read back from its encoding by the decoder of its type.\<close>

theorem session_ie_roundtrip:
  "session_ie_ok x \<Longrightarrow> decode_session_ie (encode_session_ie x) = ret x"
proof (cases x)
  case (FSeid_ie s a)
  have "length (ipv4_octets a) = 4" by (cases a) (simp add: ipv4_octets_def)
  then show ?thesis using FSeid_ie u64_ipv4_roundtrip
    by (simp add: decode_session_ie_def lift_ie_def decode_f_seid_ipv4_def encode_f_seid_ipv4_def)
qed (auto simp: decode_session_ie_def lift_ie_def Let_def
    decode_cause_def encode_cause_def recovery_time_stamp_roundtrip decode_node_id_ipv4_def encode_node_id_ipv4_def
    decode_node_report_type_def encode_node_report_type_def decode_remote_gtpu_peer_ipv4_def
    encode_remote_gtpu_peer_ipv4_def interface_roundtrip decode_pdr_id_def encode_pdr_id_def u32_ie_defs
    decode_bar_id_def encode_bar_id_def decode_f_teid_allocated_ipv4_def
    encode_f_teid_allocated_ipv4_def kFTeidV4Bit_def kFTeidChBit_def decode_volume_total_def encode_volume_total_def
    decode_gate_status_def encode_gate_status_def mbr_roundtrip decode_outer_header_creation_gtpu_ipv4_def
    encode_outer_header_creation_gtpu_ipv4_def get_put_defs get_ipv4_def ipv4_octets_def get_be_loop_foldl)

lemma session_ie_roundtrip_witness:
  "decode_session_ie (encode_session_ie (Mbr_ie \<lparr>ul_kbps = 1000, dl_kbps = 2 ^ 40 - 1\<rparr>)) =
   ret (Mbr_ie \<lparr>ul_kbps = 1000, dl_kbps = 2 ^ 40 - 1\<rparr>)"
  by (rule session_ie_roundtrip) simp

text \<open>A gate field with a reserved value is closed, and closed stays closed when it is re-encoded.\<close>

lemma gate_status_reserved:
  "decode_gate_status [g] = ret s \<Longrightarrow> (drop_bit 2 g AND 3 \<noteq> 0 \<longleftrightarrow> ul_closed s) \<and> (g AND 3 \<noteq> 0 \<longleftrightarrow> dl_closed s)"
  by (auto simp: decode_gate_status_def)

end
