(* ===== verification/M3ua.thy ===== *)
theory M3ua
  imports Stream_Codec
begin

text \<open>
  M3UA (\<open>libs/ss7-core/src/m3ua_header.cpp\<close>, \<open>m3ua_tlv.cpp\<close>,
  \<open>m3ua_protocol_data.cpp\<close>, \<open>m3ua_asp.cpp\<close>): the common header, padded
  parameters, protocol data and the ASP state and traffic maintenance messages. A
  \<open>std::string\<close> is the list of its bytes.
\<close>

section \<open>Header\<close>

record m3ua_header =
  mh_message_class :: octet
  mh_message_type :: octet

definition kM3uaVersion :: octet where "kM3uaVersion = 1"

definition encode_m3ua_header :: "m3ua_header \<Rightarrow> u32 \<Rightarrow> octets" where
  "encode_m3ua_header h payload_length =
     [kM3uaVersion, 0, mh_message_class h, mh_message_type h] @ put_u32 (8 + payload_length)"

definition decode_m3ua_header :: "octets \<Rightarrow> nat \<Rightarrow> (m3ua_header \<times> u32 \<times> nat) option checked" where
  "decode_m3ua_header bs off =
     (if length bs < off + 8 then nullopt
      else do {
        version \<leftarrow> octet_at bs off;
        if version \<noteq> kM3uaVersion then nullopt
        else do {
          message_length \<leftarrow> get_u32 bs (off + 4);
          if message_length < 8 then nullopt
          else do {
            c \<leftarrow> octet_at bs (off + 2);
            t \<leftarrow> octet_at bs (off + 3);
            ret (\<lparr>mh_message_class = c, mh_message_type = t\<rparr>, message_length - 8, off + 8) } } })"

lemma m3ua_header_roundtrip:
  assumes "unat n + 8 < 2 ^ 32"
  shows "decode_m3ua_header (pre @ encode_m3ua_header h n @ post) (length pre) = ret (h, n, length pre + 8)"
proof -
  have "unat (8 + n) = 8 + unat n" using assms by (simp add: unat_word_ariths)
  then have "\<not> 8 + n < (8 :: u32)" by (simp add: word_less_nat_alt)
  then show ?thesis
    by (simp add: decode_m3ua_header_def encode_m3ua_header_def get_put_defs kM3uaVersion_def)
qed

section \<open>Parameters\<close>

record m3ua_tlv =
  m3_tag :: u16
  m3_value :: octets

definition encode_m3ua_tlv :: "m3ua_tlv \<Rightarrow> octets" where
  "encode_m3ua_tlv t =
     put_u16 (m3_tag t) @ put_u16 (word_of_nat (4 + length (m3_value t))) @ m3_value t @
     replicate (padded_length (length (m3_value t)) - length (m3_value t)) 0"

text \<open>One turn of the loop of \<open>decode_m3ua_tlvs\<close>.\<close>

definition decode_m3ua_tlv :: "m3ua_tlv decoder" where
  "decode_m3ua_tlv bs off =
     (if length bs < off + 4 then nullopt
      else do {
        tag \<leftarrow> get_u16 bs off;
        param_len \<leftarrow> get_u16 bs (off + 2);
        if unat param_len < 4 \<or> length bs < off + unat param_len then nullopt
        else do {
          v \<leftarrow> sub_octets bs (off + 4) (off + 4 + (unat param_len - 4));
          ret (\<lparr>m3_tag = tag, m3_value = v\<rparr>, off + padded_length (unat param_len)) } })"

lemma decode_m3ua_tlv_sound:
  "sound (decode_m3ua_tlv bs off) (\<lambda>(t, off'). off + 4 + length (m3_value t) \<le> min off' (length bs))"
proof (cases "length bs < off + 4")
  case False
  obtain tag len where "get_u16 bs off = Some tag" "get_u16 bs (off + 2) = Some len"
    using get_u16_Some [of off bs] get_u16_Some [of "off + 2" bs] False by auto
  then show ?thesis
    using False padded_length_ge [of "unat len"] by (auto simp: decode_m3ua_tlv_def sub_octets_def)
qed (simp add: decode_m3ua_tlv_def)

function decode_m3ua_tlvs_from :: "octets \<Rightarrow> nat \<Rightarrow> m3ua_tlv list option checked" where
  "decode_m3ua_tlvs_from bs off =
     (if off < length bs then
        and_then (decode_m3ua_tlv bs off) (\<lambda>(t, off'). and_then (decode_m3ua_tlvs_from bs off') (\<lambda>ts. ret (t # ts)))
      else ret [])"
  by auto
termination
proof (relation "measure (\<lambda>(bs, off). length bs - off)")
  fix bs off x t off'
  assume "off < length bs" "decode_m3ua_tlv bs off = ret x" "(t, off') = x"
  then show "((bs, off'), bs, off) \<in> measure (\<lambda>(bs, off). length bs - off)"
    using decode_m3ua_tlv_sound [of bs off] by auto
qed simp

declare decode_m3ua_tlvs_from.simps [simp del]

definition decode_m3ua_tlvs :: "octets \<Rightarrow> m3ua_tlv list option checked" where
  "decode_m3ua_tlvs bs = decode_m3ua_tlvs_from bs 0"

fun find_m3ua_tlv :: "m3ua_tlv list \<Rightarrow> u16 \<Rightarrow> m3ua_tlv option" where
  "find_m3ua_tlv [] tag = None"
| "find_m3ua_tlv (t # ts) tag = (if m3_tag t = tag then Some t else find_m3ua_tlv ts tag)"

definition m3ua_tlv_ok :: "m3ua_tlv \<Rightarrow> bool" where
  "m3ua_tlv_ok t \<longleftrightarrow> 4 + length (m3_value t) < 2 ^ 16"

interpretation m3ua: stream_codec encode_m3ua_tlv decode_m3ua_tlv m3ua_tlv_ok decode_m3ua_tlvs_from
proof unfold_locales
  fix x pre post
  assume ok: "m3ua_tlv_ok x"
  then have n: "unat (word_of_nat (4 + length (m3_value x)) :: u16) = 4 + length (m3_value x)"
    by (simp add: m3ua_tlv_ok_def unat_of_nat take_bit_nat_eq_self del: of_nat_add)
  have "padded_length (4 + length (m3_value x)) = 4 + padded_length (length (m3_value x))"
    by (rule padded_length_add) simp
  with n show "decode_m3ua_tlv (pre @ encode_m3ua_tlv x @ post) (length pre) =
      ret (x, length pre + length (encode_m3ua_tlv x))"
    using padded_length_ge [of "length (m3_value x)"]
    by (cases x) (simp add: decode_m3ua_tlv_def encode_m3ua_tlv_def get_put_defs sub_octets_def del: of_nat_add)
next
  show "decode_m3ua_tlv bs off \<noteq> None" for bs off by (rule sound_safe [OF decode_m3ua_tlv_sound])
  show "decode_m3ua_tlv bs off = ret (x, off') \<Longrightarrow> off < off'" for bs off x off'
    using decode_m3ua_tlv_sound [of bs off] by auto
  show "length bs \<le> off \<Longrightarrow> decode_m3ua_tlvs_from bs off = ret []" for bs off
    by (simp add: decode_m3ua_tlvs_from.simps)
  show "off < length bs \<Longrightarrow> decode_m3ua_tlvs_from bs off =
      (case decode_m3ua_tlv bs off of None \<Rightarrow> None | Some None \<Rightarrow> Some None
       | Some (Some (x, off')) \<Rightarrow> map_option (map_option ((#) x)) (decode_m3ua_tlvs_from bs off'))" for bs off
    by (subst decode_m3ua_tlvs_from.simps) (simp add: case_and_then map_and_then case_prod_beta')
qed

definition encode_m3ua_uint32 :: "u32 \<Rightarrow> octets" where
  "encode_m3ua_uint32 v = put_u32 v"

definition decode_m3ua_uint32 :: "octets \<Rightarrow> u32 option checked" where
  "decode_m3ua_uint32 data = (if length data \<noteq> 4 then nullopt else do { v \<leftarrow> get_u32 data 0; ret v })"

lemma m3ua_uint32_roundtrip: "decode_m3ua_uint32 (encode_m3ua_uint32 v) = ret v"
  by (simp add: decode_m3ua_uint32_def encode_m3ua_uint32_def get_put_defs)

section \<open>Protocol data\<close>

record m3ua_protocol_data =
  pd_opc :: u32
  pd_dpc :: u32
  pd_si :: octet
  pd_ni :: octet
  pd_mp :: octet
  pd_sls :: octet
  pd_user_protocol_data :: octets

definition encode_m3ua_protocol_data :: "m3ua_protocol_data \<Rightarrow> octets" where
  "encode_m3ua_protocol_data d =
     put_u32 (pd_opc d) @ put_u32 (pd_dpc d) @ [pd_si d, pd_ni d, pd_mp d, pd_sls d] @ pd_user_protocol_data d"

definition decode_m3ua_protocol_data :: "octets \<Rightarrow> m3ua_protocol_data option checked" where
  "decode_m3ua_protocol_data bs =
     (if length bs < 12 then nullopt
      else do {
        opc \<leftarrow> get_u32 bs 0; dpc \<leftarrow> get_u32 bs 4;
        si \<leftarrow> octet_at bs 8; ni \<leftarrow> octet_at bs 9; mp \<leftarrow> octet_at bs 10; sls \<leftarrow> octet_at bs 11;
        user \<leftarrow> sub_octets bs 12 (length bs);
        ret \<lparr>pd_opc = opc, pd_dpc = dpc, pd_si = si, pd_ni = ni, pd_mp = mp, pd_sls = sls,
             pd_user_protocol_data = user\<rparr> })"

lemma m3ua_protocol_data_roundtrip: "decode_m3ua_protocol_data (encode_m3ua_protocol_data d) = ret d"
  by (cases d) (simp add: decode_m3ua_protocol_data_def encode_m3ua_protocol_data_def get_put_defs sub_octets_def)

section \<open>ASP messages\<close>

record asp_state_message =
  as_asp_identifier :: "u32 option"
  as_info_string :: "octets option"

record asp_traffic_message =
  at_traffic_mode_type :: "u32 option"
  at_routing_context :: "u32 list option"
  at_info_string :: "octets option"

definition kAspsm :: octet where "kAspsm = 3"
definition kAsptm :: octet where "kAsptm = 4"
definition kInfoString :: u16 where "kInfoString = 0x0004"
definition kRoutingContext :: u16 where "kRoutingContext = 0x0006"
definition kTrafficModeType :: u16 where "kTrafficModeType = 0x000B"
definition kAspIdentifier :: u16 where "kAspIdentifier = 0x0011"

definition encode_asp :: "octet \<Rightarrow> octet \<Rightarrow> octets \<Rightarrow> octets" where
  "encode_asp message_class message_type payload =
     encode_m3ua_header \<lparr>mh_message_class = message_class, mh_message_type = message_type\<rparr>
       (word_of_nat (length payload)) @ payload"

definition decode_message_payload :: "octet \<Rightarrow> octet \<Rightarrow> octets \<Rightarrow> m3ua_tlv list option checked" where
  "decode_message_payload expected_class expected_type bs =
     and_then (decode_m3ua_header bs 0) (\<lambda>(h, payload_length, off).
       if mh_message_class h \<noteq> expected_class \<or> mh_message_type h \<noteq> expected_type then nullopt
       else if off + unat payload_length \<noteq> length bs then nullopt
       else do { payload \<leftarrow> sub_octets bs off (length bs); decode_m3ua_tlvs payload })"

definition encode_param :: "u16 \<Rightarrow> octets option \<Rightarrow> octets" where
  "encode_param tag v = (case v of Some bs \<Rightarrow> encode_m3ua_tlv \<lparr>m3_tag = tag, m3_value = bs\<rparr> | None \<Rightarrow> [])"

definition encode_asp_state_message :: "octet \<Rightarrow> asp_state_message \<Rightarrow> octets" where
  "encode_asp_state_message message_type msg = encode_asp kAspsm message_type
     (encode_param kAspIdentifier (map_option encode_m3ua_uint32 (as_asp_identifier msg)) @
      encode_param kInfoString (as_info_string msg))"

text \<open>An optional 32-bit parameter: absent, or present and of four octets.\<close>

definition find_uint32 :: "m3ua_tlv list \<Rightarrow> u16 \<Rightarrow> u32 option option checked" where
  "find_uint32 ts tag =
     (case find_m3ua_tlv ts tag of
        Some t \<Rightarrow> and_then (decode_m3ua_uint32 (m3_value t)) (\<lambda>v. ret (Some v))
      | None \<Rightarrow> ret None)"

definition decode_asp_state_message :: "octet \<Rightarrow> octets \<Rightarrow> asp_state_message option checked" where
  "decode_asp_state_message expected_type bs =
     and_then (decode_message_payload kAspsm expected_type bs) (\<lambda>ts.
     and_then (find_uint32 ts kAspIdentifier) (\<lambda>ident.
       ret \<lparr>as_asp_identifier = ident, as_info_string = map_option m3_value (find_m3ua_tlv ts kInfoString)\<rparr>))"

definition encode_asp_traffic_message :: "octet \<Rightarrow> asp_traffic_message \<Rightarrow> octets" where
  "encode_asp_traffic_message message_type msg = encode_asp kAsptm message_type
     (encode_param kTrafficModeType (map_option encode_m3ua_uint32 (at_traffic_mode_type msg)) @
      encode_param kRoutingContext (map_option (\<lambda>rc. concat (map encode_m3ua_uint32 rc)) (at_routing_context msg)) @
      encode_param kInfoString (at_info_string msg))"

text \<open>The loop over the routing contexts; \<open>i\<close> advances by four.\<close>

function routing_contexts :: "octets \<Rightarrow> nat \<Rightarrow> u32 list option checked" where
  "routing_contexts v i =
     (if i < length v then do {
        chunk \<leftarrow> sub_octets v i (i + 4);
        and_then (decode_m3ua_uint32 chunk) (\<lambda>c. and_then (routing_contexts v (i + 4)) (\<lambda>cs. ret (c # cs))) }
      else ret [])"
  by auto
termination by (relation "measure (\<lambda>(v, i). length v - i)") auto

declare routing_contexts.simps [simp del]

definition find_routing_context :: "m3ua_tlv list \<Rightarrow> u32 list option option checked" where
  "find_routing_context ts =
     (case find_m3ua_tlv ts kRoutingContext of
        Some t \<Rightarrow>
          if length (m3_value t) mod 4 \<noteq> 0 then nullopt
          else and_then (routing_contexts (m3_value t) 0) (\<lambda>cs. ret (Some cs))
      | None \<Rightarrow> ret None)"

definition decode_asp_traffic_message :: "octet \<Rightarrow> octets \<Rightarrow> asp_traffic_message option checked" where
  "decode_asp_traffic_message expected_type bs =
     and_then (decode_message_payload kAsptm expected_type bs) (\<lambda>ts.
     and_then (find_uint32 ts kTrafficModeType) (\<lambda>mode.
     and_then (find_routing_context ts) (\<lambda>rc.
       ret \<lparr>at_traffic_mode_type = mode, at_routing_context = rc,
            at_info_string = map_option m3_value (find_m3ua_tlv ts kInfoString)\<rparr>)))"

lemma message_payload_roundtrip:
  assumes "list_all m3ua_tlv_ok ts" "length (concat (map encode_m3ua_tlv ts)) + 8 < 2 ^ 32"
  shows "decode_message_payload c t (encode_asp c' t' (concat (map encode_m3ua_tlv ts))) =
    (if c = c' \<and> t = t' then ret ts else nullopt)"
proof -
  let ?p = "concat (map encode_m3ua_tlv ts)"
  let ?h = "\<lparr>mh_message_class = c', mh_message_type = t'\<rparr>"
  let ?n = "word_of_nat (length ?p) :: u32"
  have n: "unat ?n = length ?p" using assms(2) by (simp add: unat_of_nat take_bit_nat_eq_self)
  then have "decode_m3ua_header (encode_asp c' t' ?p) 0 = ret (?h, ?n, 8)"
    using m3ua_header_roundtrip [of ?n "[]" ?h ?p] assms(2) by (simp add: encode_asp_def)
  moreover have "length (encode_m3ua_header ?h ?n) = 8" by (simp add: encode_m3ua_header_def)
  moreover from this have "sub_octets (encode_asp c' t' ?p) 8 (8 + length ?p) = Some ?p"
    using sub_octets_exact [of "encode_m3ua_header ?h ?n" ?p "[]"] by (simp add: encode_asp_def)
  moreover have "decode_m3ua_tlvs ?p = ret ts"
    unfolding decode_m3ua_tlvs_def by (rule m3ua.dec_all_roundtrip [OF assms(1)])
  ultimately show ?thesis using n by (auto simp: decode_message_payload_def encode_asp_def)
qed

lemma routing_contexts_roundtrip:
  "routing_contexts (pre @ concat (map encode_m3ua_uint32 rc)) (length pre) = ret rc"
proof (induction rc arbitrary: pre)
  case Nil
  then show ?case by (simp add: routing_contexts.simps)
next
  case (Cons c rc)
  have l: "length (encode_m3ua_uint32 c) = 4" by (simp add: encode_m3ua_uint32_def)
  have "sub_octets (pre @ encode_m3ua_uint32 c @ concat (map encode_m3ua_uint32 rc)) (length pre) (length pre + 4) =
      Some (encode_m3ua_uint32 c)"
    using sub_octets_exact [of pre "encode_m3ua_uint32 c"] l by simp
  then show ?case
    using Cons.IH [of "pre @ encode_m3ua_uint32 c"] l
    by (subst routing_contexts.simps) (simp add: m3ua_uint32_roundtrip add.commute)
qed

definition params :: "u16 \<Rightarrow> octets option \<Rightarrow> m3ua_tlv list" where
  "params tag v = (case v of Some bs \<Rightarrow> [\<lparr>m3_tag = tag, m3_value = bs\<rparr>] | None \<Rightarrow> [])"

lemma encode_param_params: "encode_param tag v = concat (map encode_m3ua_tlv (params tag v))"
  by (simp add: encode_param_def params_def split: option.split)

definition traffic_params :: "asp_traffic_message \<Rightarrow> m3ua_tlv list" where
  "traffic_params msg =
     params kTrafficModeType (map_option encode_m3ua_uint32 (at_traffic_mode_type msg)) @
     params kRoutingContext (map_option (\<lambda>rc. concat (map encode_m3ua_uint32 rc)) (at_routing_context msg)) @
     params kInfoString (at_info_string msg)"

text \<open>The messages the 16-bit parameter length can carry.\<close>

definition traffic_ok :: "asp_traffic_message \<Rightarrow> bool" where
  "traffic_ok msg \<longleftrightarrow> (case at_routing_context msg of Some rc \<Rightarrow> 4 * length rc + 4 < 2 ^ 16 | None \<Rightarrow> True) \<and>
     (case at_info_string msg of Some s \<Rightarrow> length s + 4 < 2 ^ 16 | None \<Rightarrow> True)"

lemma length_contexts: "length (concat (map encode_m3ua_uint32 rc)) = 4 * length rc"
  by (induction rc) (simp_all add: encode_m3ua_uint32_def)

lemma length_encode_m3ua_tlv: "m3ua_tlv_ok t \<Longrightarrow> length (encode_m3ua_tlv t) \<le> 2 ^ 16 + 4"
  using padded_length_add [of 4 "length (m3_value t)"]
  by (simp add: encode_m3ua_tlv_def m3ua_tlv_ok_def padded_length_def)

lemma length_params: "list_all m3ua_tlv_ok ts \<Longrightarrow> length (concat (map encode_m3ua_tlv ts)) \<le> (2 ^ 16 + 4) * length ts"
proof (induction ts)
  case (Cons t ts)
  then show ?case using length_encode_m3ua_tlv [of t] by simp
qed simp

text \<open>An ASP traffic message is read back with its mode, every routing context and its
  text, and only under the message type it was sent with.\<close>

theorem asp_traffic_roundtrip:
  assumes "traffic_ok msg"
  shows "decode_asp_traffic_message t (encode_asp_traffic_message t' msg) = (if t = t' then ret msg else nullopt)"
proof -
  have ok: "list_all m3ua_tlv_ok (traffic_params msg)"
    using assms by (auto simp: traffic_params_def params_def traffic_ok_def m3ua_tlv_ok_def length_contexts
        encode_m3ua_uint32_def split: option.splits)
  have "length (traffic_params msg) \<le> 3"
    by (simp add: traffic_params_def params_def split: option.split)
  then have "(2 ^ 16 + 4) * length (traffic_params msg) \<le> (2 ^ 16 + 4) * 3" by (rule mult_le_mono2)
  with length_params [OF ok] have "length (concat (map encode_m3ua_tlv (traffic_params msg))) + 8 < 2 ^ 32" by simp
  note payload = message_payload_roundtrip [OF ok this, of kAsptm t kAsptm t']
  have enc: "encode_asp_traffic_message t' msg = encode_asp kAsptm t' (concat (map encode_m3ua_tlv (traffic_params msg)))"
    by (simp add: encode_asp_traffic_message_def traffic_params_def encode_param_params)
  have rc: "routing_contexts (concat (map encode_m3ua_uint32 rc)) 0 = ret rc" for rc
    using routing_contexts_roundtrip [of "[]"] by simp
  show ?thesis
    using payload unfolding decode_asp_traffic_message_def enc
    by (cases msg) (auto simp: traffic_params_def params_def find_uint32_def find_routing_context_def
        kTrafficModeType_def kRoutingContext_def kInfoString_def m3ua_uint32_roundtrip length_contexts rc split: option.splits)
qed

lemma asp_traffic_roundtrip_witness:
  "decode_asp_traffic_message 1 (encode_asp_traffic_message 1
     \<lparr>at_traffic_mode_type = Some 2, at_routing_context = Some [7, 8], at_info_string = None\<rparr>) =
   (if (1 :: octet) = 1 then ret \<lparr>at_traffic_mode_type = Some 2, at_routing_context = Some [7, 8], at_info_string = None\<rparr>
    else nullopt)"
  by (rule asp_traffic_roundtrip) (simp add: traffic_ok_def)

section \<open>Safety\<close>

lemma sound_decode_m3ua_tlvs: "sound (decode_m3ua_tlvs bs) (\<lambda>_. True)"
  by (rule soundI) (simp_all add: decode_m3ua_tlvs_def m3ua.dec_all_safe)

lemma sound_message_payload: "sound (decode_message_payload c t bs) (\<lambda>_. True)"
proof -
  have h: "sound (decode_m3ua_header bs 0) (\<lambda>(h, n, off). off \<le> length bs)"
    by (auto simp: decode_m3ua_header_def octet_at_def get_u32_def)
  show ?thesis
    unfolding decode_message_payload_def
    by (rule sound_and_then [OF h])
      (auto intro!: sound_if sound_sub_octets sound_case_prod sound_mono [OF sound_decode_m3ua_tlvs])
qed

lemma sound_uint32: "sound (decode_m3ua_uint32 v) (\<lambda>_. True)"
  by (simp add: decode_m3ua_uint32_def get_u32_def octet_at_def)

lemma sound_find_uint32: "sound (find_uint32 ts tag) (\<lambda>_. True)"
  by (auto simp: find_uint32_def split: option.split intro: sound_and_then [OF sound_uint32])

lemma sound_routing_contexts:
  "4 dvd length v \<Longrightarrow> 4 dvd i \<Longrightarrow> sound (routing_contexts v i) (\<lambda>_. True)"
proof (induction v i rule: routing_contexts.induct)
  case (1 v i)
  show ?case
  proof (cases "i < length v")
    case True
    then have "i + 4 \<le> length v" using 1(2,3) by (elim dvdE) simp
    then have s: "sub_octets v i (i + 4) = Some (take 4 (drop i v))" by (simp add: sub_octets_def)
    have "sound (routing_contexts v (i + 4)) (\<lambda>_. True)" if "decode_m3ua_uint32 (take 4 (drop i v)) = ret c" for c
      by (rule 1(1) [OF True s that]) (use 1 in auto)
    then show ?thesis using True s
      by (subst routing_contexts.simps) (auto intro!: sound_and_then [OF sound_uint32] intro: sound_and_then)
  qed (subst routing_contexts.simps, simp)
qed

text \<open>Decoding an ASP traffic message accesses no octet outside the message, whatever
  its parameters say; in particular the walk over the routing contexts never reads a partial chunk.\<close>

theorem asp_traffic_safe: "decode_asp_traffic_message t bs \<noteq> None"
proof -
  have rc: "sound (find_routing_context ts) (\<lambda>_. True)" for ts
    by (auto simp: find_routing_context_def mod_eq_0_iff_dvd split: option.split
        intro!: sound_and_then [OF sound_routing_contexts])
  then show ?thesis
    unfolding decode_asp_traffic_message_def
    by (intro sound_safe [where P = "\<lambda>_. True"] sound_and_then [OF sound_message_payload]
        sound_and_then [OF sound_find_uint32] sound_and_then [OF rc]) simp_all
qed

end
