(* ===== verification/Sccp.thy ===== *)
theory Sccp
  imports Prelude
begin

text \<open>
  SCCP (\<open>libs/ss7-core/src/sccp_address.cpp\<close> and \<open>sccp_udt.cpp\<close>): party addresses and the
  UNITDATA message, whose three variable parts are found through pointers relative to the
  pointer's own position.
\<close>

section \<open>Addresses\<close>

record sccp_address =
  point_code_present :: bool
  ssn_present :: bool
  routing_indicator :: octet
  point_code :: u16
  ssn :: octet

definition kPointCodeIndicatorBit :: octet where "kPointCodeIndicatorBit = 0x01"
definition kSsnIndicatorBit :: octet where "kSsnIndicatorBit = 0x02"
definition kRoutingIndicatorBit :: octet where "kRoutingIndicatorBit = 0x40"
definition kRouteOnGt :: octet where "kRouteOnGt = 0"
definition kRouteOnSsn :: octet where "kRouteOnSsn = 1"

definition address_indicator :: "sccp_address \<Rightarrow> octet" where
  "address_indicator a =
     (if point_code_present a then kPointCodeIndicatorBit else 0) OR
     (if ssn_present a then kSsnIndicatorBit else 0) OR
     (push_bit 2 0 AND push_bit 2 0x0F) OR
     (if routing_indicator a = kRouteOnSsn then kRoutingIndicatorBit else 0)"

definition encode_sccp_address :: "sccp_address \<Rightarrow> octets" where
  "encode_sccp_address a =
     [address_indicator a] @
     (if point_code_present a
      then [ucast (point_code a AND 0xFF), ucast (drop_bit 8 (point_code a) AND 0x3F)] else []) @
     (if ssn_present a then [ssn a] else [])"

definition decode_point_code :: "bool \<Rightarrow> octets \<Rightarrow> nat \<Rightarrow> (u16 \<times> nat) option checked" where
  "decode_point_code present bs pos =
     (if present then
        if length bs < pos + 2 then nullopt
        else do {
          lsb \<leftarrow> octet_at bs pos;
          msb \<leftarrow> octet_at bs (pos + 1);
          ret (ucast lsb OR push_bit 8 (ucast (msb AND 0x3F)), pos + 2) }
      else ret (0, pos))"

definition decode_ssn :: "bool \<Rightarrow> octets \<Rightarrow> nat \<Rightarrow> octet option checked" where
  "decode_ssn present bs pos =
     (if present then
        if length bs < pos + 1 then nullopt else do { s \<leftarrow> octet_at bs pos; ret s }
      else ret 0)"

definition decode_sccp_address :: "octets \<Rightarrow> sccp_address option checked" where
  "decode_sccp_address bs =
     (if bs = [] then nullopt
      else do {
        indicator \<leftarrow> octet_at bs 0;
        if drop_bit 2 indicator AND 0x0F \<noteq> 0 then nullopt
        else (let pc_present = (indicator AND kPointCodeIndicatorBit \<noteq> 0);
                  ssn_present = (indicator AND kSsnIndicatorBit \<noteq> 0);
                  routing = (if indicator AND kRoutingIndicatorBit \<noteq> 0 then kRouteOnSsn else kRouteOnGt)
              in and_then (decode_point_code pc_present bs 1) (\<lambda>(pc, pos).
                 and_then (decode_ssn ssn_present bs pos) (\<lambda>s.
                 ret \<lparr>point_code_present = pc_present, ssn_present = ssn_present,
                      routing_indicator = routing, point_code = pc, ssn = s\<rparr>))) })"

text \<open>Addresses in the form the wire carries: a 14-bit point code, and nothing in the fields that
  are not present.\<close>

definition address_ok :: "sccp_address \<Rightarrow> bool" where
  "address_ok a \<longleftrightarrow>
     (if point_code_present a then unat (point_code a) < 2 ^ 14 else point_code a = 0) \<and>
     (ssn_present a \<or> ssn a = 0) \<and> (routing_indicator a = kRouteOnGt \<or> routing_indicator a = kRouteOnSsn)"

lemma indicator_bits:
  "drop_bit 2 (address_indicator a) AND 0x0F = 0"
  "address_indicator a AND kPointCodeIndicatorBit \<noteq> 0 \<longleftrightarrow> point_code_present a"
  "address_indicator a AND kSsnIndicatorBit \<noteq> 0 \<longleftrightarrow> ssn_present a"
  "address_indicator a AND kRoutingIndicatorBit \<noteq> 0 \<longleftrightarrow> routing_indicator a = kRouteOnSsn"
  by (simp_all add: address_indicator_def kPointCodeIndicatorBit_def kSsnIndicatorBit_def kRoutingIndicatorBit_def)

lemma and_0x3F: "(v :: 'w::len word) AND 0x3F = take_bit 6 v"
proof -
  have "(0x3F :: 'w word) = mask 6" by (simp add: mask_eq_exp_minus_1)
  then show ?thesis by (simp add: take_bit_eq_mask)
qed

lemma point_code_join:
  fixes pc :: u16
  assumes "unat pc < 2 ^ 14"
  shows "ucast (ucast (pc AND 0xFF) :: octet) OR
    push_bit 8 (ucast ((ucast (drop_bit 8 pc AND 0x3F) :: octet) AND 0x3F)) = pc"
proof -
  have "take_bit 14 pc = pc" by (rule take_bit_self [OF assms])
  moreover have "ucast (ucast (pc AND 0xFF) :: octet) OR
      push_bit 8 (ucast ((ucast (drop_bit 8 pc AND 0x3F) :: octet) AND 0x3F)) = take_bit 14 pc"
    unfolding and_0xFF and_0x3F
  proof (rule bit_word_eqI)
    fix n assume "n < LENGTH(16)"
    then show "bit (ucast (ucast (take_bit 8 pc) :: octet) OR
        push_bit 8 (ucast (take_bit 6 (ucast (take_bit 6 (drop_bit 8 pc)) :: octet))) :: u16) n = bit (take_bit 14 pc) n"
      by (cases "n < 8") (auto simp: bit_simps)
  qed
  ultimately show ?thesis by simp
qed

lemma sccp_address_roundtrip:
  assumes "address_ok a"
  shows "decode_sccp_address (encode_sccp_address a) = ret a"
proof -
  have r: "(if routing_indicator a = kRouteOnSsn then kRouteOnSsn else kRouteOnGt) = routing_indicator a"
    using assms by (auto simp: address_ok_def)
  show ?thesis
    using assms r indicator_bits [of a]
    by (cases a) (auto simp: decode_sccp_address_def encode_sccp_address_def decode_point_code_def decode_ssn_def
        address_ok_def point_code_join Let_def)
qed

lemma sound_sccp_address: "sound (decode_sccp_address bs) (\<lambda>_. True)"
  by (auto simp: decode_sccp_address_def decode_point_code_def decode_ssn_def octet_at_def Let_def)

lemma length_encode_sccp_address: "0 < length (encode_sccp_address a) \<and> length (encode_sccp_address a) \<le> 4"
  by (simp add: encode_sccp_address_def)

section \<open>Unitdata\<close>

record sccp_udt =
  udt_protocol_class :: octet
  called_party :: sccp_address
  calling_party :: sccp_address
  udt_data :: octets

definition kUdt :: octet where "kUdt = 9"

definition append_length_octet :: "octets \<Rightarrow> octets" where
  "append_length_octet v = word_of_nat (length v) # v"

definition encode_sccp_udt :: "sccp_udt \<Rightarrow> octets" where
  "encode_sccp_udt u =
     (let called = encode_sccp_address (called_party u);
          calling = encode_sccp_address (calling_party u);
          pointer1 = word_of_nat (5 - 2);
          called_field_len = 1 + length called;
          pointer2 = word_of_nat ((5 + called_field_len) - 3);
          calling_field_len = 1 + length calling;
          pointer3 = word_of_nat ((5 + called_field_len + calling_field_len) - 4)
      in [kUdt, udt_protocol_class u, pointer1, pointer2, pointer3] @
         append_length_octet called @ append_length_octet calling @ append_length_octet (udt_data u))"

text \<open>The field whose length octet is at \<open>pos\<close>, as the decoder reads each of the three.\<close>

definition read_field_at :: "octets \<Rightarrow> nat \<Rightarrow> octets option checked" where
  "read_field_at bs pos =
     (if length bs \<le> pos then nullopt
      else do {
        len \<leftarrow> octet_at bs pos;
        if length bs < pos + 1 + unat len then nullopt
        else do { v \<leftarrow> sub_octets bs (pos + 1) (pos + 1 + unat len); ret v } })"

definition decode_sccp_udt :: "octets \<Rightarrow> sccp_udt option checked" where
  "decode_sccp_udt bs =
     (if length bs < 5 then nullopt
      else do {
        message_type \<leftarrow> octet_at bs 0;
        if message_type \<noteq> kUdt then nullopt
        else do {
          protocol_class \<leftarrow> octet_at bs 1;
          pointer1 \<leftarrow> octet_at bs 2;
          pointer2 \<leftarrow> octet_at bs 3;
          pointer3 \<leftarrow> octet_at bs 4;
          and_then (read_field_at bs (2 + unat pointer1)) (\<lambda>called_bytes.
          and_then (decode_sccp_address called_bytes) (\<lambda>called.
          and_then (read_field_at bs (3 + unat pointer2)) (\<lambda>calling_bytes.
          and_then (decode_sccp_address calling_bytes) (\<lambda>calling.
          and_then (read_field_at bs (4 + unat pointer3)) (\<lambda>data.
          ret \<lparr>udt_protocol_class = protocol_class, called_party = called, calling_party = calling,
               udt_data = data\<rparr>))))) } })"

lemma read_field_at_roundtrip:
  assumes "length v < 256"
  shows "read_field_at (pre @ append_length_octet v @ post) (length pre) = ret v"
proof -
  have "unat (word_of_nat (length v) :: octet) = length v"
    using assms by (simp add: unat_of_nat take_bit_nat_eq_self)
  then show ?thesis by (simp add: read_field_at_def append_length_octet_def sub_octets_def)
qed

lemma sound_read_field_at: "sound (read_field_at bs pos) (\<lambda>v. length v < length bs)"
  by (auto simp: read_field_at_def octet_at_def sub_octets_def)

text \<open>A unitdata message is read back: the three pointers lead to the called address,
  the calling address and the user data.\<close>

theorem sccp_udt_roundtrip:
  assumes "address_ok (called_party u)" "address_ok (calling_party u)" "length (udt_data u) < 256"
  shows "decode_sccp_udt (encode_sccp_udt u) = ret u"
proof -
  define called where "called = encode_sccp_address (called_party u)"
  define calling where "calling = encode_sccp_address (calling_party u)"
  let ?p1 = "[kUdt, udt_protocol_class u, 3, word_of_nat (3 + length called), word_of_nat (3 + length called + length calling)]"
  let ?p2 = "?p1 @ append_length_octet called"
  let ?p3 = "?p2 @ append_length_octet calling"
  have len: "length called \<le> 4" "length calling \<le> 4"
    using length_encode_sccp_address by (simp_all add: called_def calling_def)
  have enc: "encode_sccp_udt u = ?p3 @ append_length_octet (udt_data u)"
    by (simp add: encode_sccp_udt_def called_def calling_def Let_def append_length_octet_def add.commute)
  have ptr: "unat (word_of_nat (3 + length called) :: octet) = 3 + length called"
    "unat (word_of_nat (3 + length called + length calling) :: octet) = 3 + length called + length calling"
    using len by (simp_all add: unat_of_nat take_bit_nat_eq_self del: of_nat_add)
  have f1: "read_field_at (encode_sccp_udt u) 5 = ret called"
    using read_field_at_roundtrip [of called ?p1] len unfolding enc by (simp add: numeral_eq_Suc)
  have f2: "read_field_at (encode_sccp_udt u) (6 + length called) = ret calling"
    using read_field_at_roundtrip [of calling ?p2] len unfolding enc by (simp add: append_length_octet_def numeral_eq_Suc)
  have f3: "read_field_at (encode_sccp_udt u) (7 + length called + length calling) = ret (udt_data u)"
    using read_field_at_roundtrip [OF assms(3), of ?p3 "[]"] unfolding enc by (simp add: append_length_octet_def numeral_eq_Suc)
  have heads: "octet_at (encode_sccp_udt u) 0 = Some kUdt" "octet_at (encode_sccp_udt u) 1 = Some (udt_protocol_class u)"
    "octet_at (encode_sccp_udt u) 2 = Some 3" "octet_at (encode_sccp_udt u) 3 = Some (word_of_nat (3 + length called))"
    "octet_at (encode_sccp_udt u) 4 = Some (word_of_nat (3 + length called + length calling))"
    "5 \<le> length (encode_sccp_udt u)"
    unfolding enc by (simp_all del: of_nat_add)
  show ?thesis
    using heads ptr f1 f2 f3 sccp_address_roundtrip [OF assms(1)] sccp_address_roundtrip [OF assms(2)]
    by (simp add: decode_sccp_udt_def called_def calling_def add.assoc [symmetric] del: of_nat_add)
qed

lemma sccp_udt_roundtrip_witness:
  "decode_sccp_udt (encode_sccp_udt \<lparr>udt_protocol_class = 1,
      called_party = \<lparr>point_code_present = True, ssn_present = True, routing_indicator = kRouteOnSsn, point_code = 0x2AAA, ssn = 6\<rparr>,
      calling_party = \<lparr>point_code_present = False, ssn_present = True, routing_indicator = kRouteOnSsn, point_code = 0, ssn = 8\<rparr>,
      udt_data = [1, 2, 3]\<rparr>) =
   ret \<lparr>udt_protocol_class = 1,
      called_party = \<lparr>point_code_present = True, ssn_present = True, routing_indicator = kRouteOnSsn, point_code = 0x2AAA, ssn = 6\<rparr>,
      calling_party = \<lparr>point_code_present = False, ssn_present = True, routing_indicator = kRouteOnSsn, point_code = 0, ssn = 8\<rparr>,
      udt_data = [1, 2, 3]\<rparr>"
  by (rule sccp_udt_roundtrip) (simp_all add: address_ok_def)

text \<open>Whatever its three pointers and lengths are, decoding a unitdata message stays
  inside it.\<close>

theorem sccp_udt_safe: "decode_sccp_udt bs \<noteq> None"
proof (cases "length bs < 5")
  case False
  note steps = sound_and_then [OF sound_read_field_at] sound_and_then [OF sound_sccp_address]
  show ?thesis
    unfolding decode_sccp_udt_def
    by (intro sound_safe [where P = "\<lambda>_. True"] sound_if sound_octet_at steps) (use False in auto)
qed (simp add: decode_sccp_udt_def)

end
